(* ===== verification/Prelude.thy ===== *)
theory Prelude
  imports
    Main
    "HOL-Library.Finite_Map"
    "HOL-Library.Word"
    "HOL-Library.Char_ord"
    "HOL-Library.List_Lexorder"
begin

text \<open>
  Shared vocabulary of the development: the Go types the model uses throughout (instants, durations,
  JSON values, maps), the operations on Go maps the stores are written with, the collections of
  rewrite rules the component theories fill, and generic lemmas on finite maps, options and lists.

  A Go \<^verbatim>\<open>time.Time\<close> is the number of nanoseconds since the zero instant of the type, so that
  \<^verbatim>\<open>t.IsZero()\<close> is \<open>t = 0\<close>, \<^verbatim>\<open>t.Before(u)\<close> is \<open>t < u\<close> and \<^verbatim>\<open>t.After(u)\<close> is \<open>u < t\<close>. A
  \<^verbatim>\<open>time.Duration\<close> is a signed 64-bit number of nanoseconds; only \<^verbatim>\<open>t.Sub(u)\<close> can meet its bounds,
  and it saturates there. A Go map with string keys is a finite map (iteration order is not part of
  its value), a Go string is its list of bytes, and Go's \<^verbatim>\<open><\<close> on strings is the lexicographic order
  of these bytes.
\<close>

named_theorems store_defs \<open>definitions of the stores' operations\<close>
named_theorems store_simps \<open>equations on the stores' operations\<close>
named_theorems rec_simps \<open>what the record transformers keep\<close>

type_synonym time = int
type_synonym duration = int
type_synonym key = string
type_synonym 'v gomap = "(string, 'v) fmap"

datatype json =
    JNull
  | JBool bool
  | JNumber int
  | JString string
  | JArray "json list"
  | JObject "(string \<times> json) list"

type_synonym jobject = "(string \<times> json) list"

abbreviation zero_time :: time where
  "zero_time \<equiv> 0"

definition max_duration :: duration where
  "max_duration = 2 ^ 63 - 1"

definition min_duration :: duration where
  "min_duration = - (2 ^ 63)"

text \<open>\<^verbatim>\<open>time.Time.Sub\<close>: the difference of two instants, saturated to the range of a duration.\<close>

definition time_sub :: "time \<Rightarrow> time \<Rightarrow> duration" where
  "time_sub t u = max min_duration (min max_duration (t - u))"

definition nanosecond :: duration where "nanosecond = 1"
definition millisecond :: duration where "millisecond = 1000000"
definition second :: duration where "second = 1000000000"
definition hour :: duration where "hour = 3600 * second"

lemmas duration_defs = nanosecond_def millisecond_def second_def hour_def

lemma time_sub_exact:
  "min_duration \<le> t - u \<Longrightarrow> t - u \<le> max_duration \<Longrightarrow> time_sub t u = t - u"
  by (simp add: time_sub_def)

lemma time_sub_less_iff:
  assumes "min_duration < d" and "d \<le> max_duration"
  shows "time_sub t u < d \<longleftrightarrow> t - u < d"
  using assms by (auto simp: time_sub_def)

lemma time_sub_le_iff:
  assumes "min_duration \<le> d" and "d < max_duration"
  shows "time_sub t u \<le> d \<longleftrightarrow> t - u \<le> d"
  using assms by (auto simp: time_sub_def)

lemma time_sub_nonneg_iff: "0 \<le> time_sub t u \<longleftrightarrow> u \<le> t"
  by (auto simp: time_sub_def min_duration_def max_duration_def)


section \<open>Go maps\<close>

text \<open>\<^verbatim>\<open>len(m)\<close>.\<close>

definition gm_len :: "'v gomap \<Rightarrow> nat" where
  "gm_len m = fcard (fmdom m)"

text \<open>
  \<^verbatim>\<open>for k, v := range m { if dead(v) { delete(m, k) } }\<close>: what is left of a map after a sweep that
  deletes the entries satisfying a predicate.
\<close>

definition gm_sweep :: "('v \<Rightarrow> bool) \<Rightarrow> 'v gomap \<Rightarrow> 'v gomap" where
  "gm_sweep dead m =
     fmfilter (\<lambda>k. case fmlookup m k of None \<Rightarrow> False | Some v \<Rightarrow> \<not> dead v) m"

text \<open>
  \<^verbatim>\<open>for k := range ids { if v, ok := m[k]; ok { m[k] = f(v) } }\<close>: a loop over a key set that rewrites
  the entries it names.
\<close>

definition gm_update_keys :: "key fset \<Rightarrow> ('v \<Rightarrow> 'v) \<Rightarrow> 'v gomap \<Rightarrow> 'v gomap" where
  "gm_update_keys ids f m = fmmap_keys (\<lambda>k v. if k |\<in>| ids then f v else v) m"

text \<open>\<^verbatim>\<open>maps.Copy(dst, src)\<close>.\<close>

definition gm_copy :: "'v gomap \<Rightarrow> 'v gomap \<Rightarrow> 'v gomap" where
  "gm_copy dst src = fmadd dst src"

text \<open>Rewriting the entry of one key, when there is one.\<close>

definition gm_modify :: "key \<Rightarrow> ('v \<Rightarrow> 'v) \<Rightarrow> 'v gomap \<Rightarrow> 'v gomap" where
  "gm_modify k f m = (case fmlookup m k of None \<Rightarrow> m | Some v \<Rightarrow> fmupd k (f v) m)"

text \<open>\<^verbatim>\<open>m[k]\<close> where the values are sets: a missing entry reads as the empty set.\<close>

definition gm_set :: "'a fset gomap \<Rightarrow> key \<Rightarrow> 'a fset" where
  "gm_set m k = (case fmlookup m k of None \<Rightarrow> {||} | Some s \<Rightarrow> s)"

lemma fmlookup_gm_sweep [simp]:
  "fmlookup (gm_sweep dead m) k =
     (case fmlookup m k of None \<Rightarrow> None | Some v \<Rightarrow> if dead v then None else Some v)"
  by (simp add: gm_sweep_def split: option.split)

lemma gm_sweep_Some:
  "fmlookup (gm_sweep dead m) k = Some v \<longleftrightarrow> fmlookup m k = Some v \<and> \<not> dead v"
  by (auto split: option.splits)

lemma fmlookup_gm_update_keys [simp]:
  "fmlookup (gm_update_keys ids f m) k =
     map_option (\<lambda>v. if k |\<in>| ids then f v else v) (fmlookup m k)"
  by (simp add: gm_update_keys_def)

lemma fmlookup_gm_copy [simp]:
  "fmlookup (gm_copy dst src) k =
     (case fmlookup src k of None \<Rightarrow> fmlookup dst k | Some v \<Rightarrow> Some v)"
  by (auto simp: gm_copy_def fmlookup_dom_iff split: option.splits)

lemma fmlookup_gm_modify [simp]:
  "fmlookup (gm_modify k f m) j = (if j = k then map_option f (fmlookup m k) else fmlookup m j)"
  by (simp add: gm_modify_def split: option.split)

lemma gm_set_fmupd [simp]: "gm_set (fmupd k s m) j = (if j = k then s else gm_set m j)"
  by (simp add: gm_set_def)

lemma gm_set_fmdrop [simp]: "gm_set (fmdrop k m) j = (if j = k then {||} else gm_set m j)"
  by (simp add: gm_set_def)

lemma gm_set_fmempty [simp]: "gm_set fmempty j = {||}"
  by (simp add: gm_set_def)

lemma gm_len_fmempty [simp]: "gm_len fmempty = 0"
  by (simp add: gm_len_def)

lemma gm_len_sweep_le: "gm_len (gm_sweep dead m) \<le> gm_len m"
proof -
  have "fmdom (gm_sweep dead m) |\<subseteq>| fmdom m"
    by (auto simp: fmlookup_dom_iff split: option.splits if_splits)
  then show ?thesis by (simp add: gm_len_def fcard_mono)
qed

lemma gm_ext: "(\<And>k. fmlookup m k = fmlookup n k) \<Longrightarrow> m = n"
  by (rule fmap_ext)


section \<open>Lists and options\<close>

text \<open>\<^verbatim>\<open>slices.Contains\<close> and the subset test built from it.\<close>

definition slices_Contains :: "'a list \<Rightarrow> 'a \<Rightarrow> bool" where
  "slices_Contains xs x = (x \<in> set xs)"

text \<open>\<^verbatim>\<open>strings.Join\<close>.\<close>

fun strings_Join :: "string list \<Rightarrow> string \<Rightarrow> string" where
  "strings_Join [] sep = []"
| "strings_Join [x] sep = x"
| "strings_Join (x # y # xs) sep = x @ sep @ strings_Join (y # xs) sep"

end
