(* ===== verification/Digest.thy ===== *)
theory Digest
  imports Prelude
begin

text \<open>
  The one-way digest of the hash-on-store contract: \<^verbatim>\<open>patterns.Digest\<close>, the comparison
  \<^verbatim>\<open>patterns.ConstantTimeKeyMatch\<close> and the wrappers \<^verbatim>\<open>hashKey\<close>, \<^verbatim>\<open>constantTimeKeyMatch\<close> of the
  in-memory adapter. They rest on three functions of Go's standard library, which are modelled
  here as well: \<^verbatim>\<open>sha256.Sum256\<close> (FIPS 180-4, on 32-bit words), \<^verbatim>\<open>hex.EncodeToString\<close> and
  \<^verbatim>\<open>base64.RawURLEncoding.EncodeToString\<close>.
\<close>

unbundle bit_operations_syntax

type_synonym byte = "8 word"
type_synonym word32 = "32 word"


section \<open>SHA-256\<close>

definition sha_rotr :: "nat \<Rightarrow> word32 \<Rightarrow> word32" where
  "sha_rotr n x = drop_bit n x OR push_bit (32 - n) x"

definition sha_Ch :: "word32 \<Rightarrow> word32 \<Rightarrow> word32 \<Rightarrow> word32" where
  "sha_Ch x y z = (x AND y) XOR (NOT x AND z)"

definition sha_Maj :: "word32 \<Rightarrow> word32 \<Rightarrow> word32 \<Rightarrow> word32" where
  "sha_Maj x y z = (x AND y) XOR (x AND z) XOR (y AND z)"

definition sha_Sigma0 :: "word32 \<Rightarrow> word32" where
  "sha_Sigma0 x = sha_rotr 2 x XOR sha_rotr 13 x XOR sha_rotr 22 x"

definition sha_Sigma1 :: "word32 \<Rightarrow> word32" where
  "sha_Sigma1 x = sha_rotr 6 x XOR sha_rotr 11 x XOR sha_rotr 25 x"

definition sha_sigma0 :: "word32 \<Rightarrow> word32" where
  "sha_sigma0 x = sha_rotr 7 x XOR sha_rotr 18 x XOR drop_bit 3 x"

definition sha_sigma1 :: "word32 \<Rightarrow> word32" where
  "sha_sigma1 x = sha_rotr 17 x XOR sha_rotr 19 x XOR drop_bit 10 x"

text \<open>
  The round constants and the initial state: the first 32 bits of the fractional parts of the cube
  roots of the first 64 primes and of the square roots of the first 8, in decimal.
\<close>

definition sha_K :: "word32 list" where
  "sha_K =
    [1116352408, 1899447441, 3049323471, 3921009573, 961987163, 1508970993, 2453635748, 2870763221,
     3624381080, 310598401, 607225278, 1426881987, 1925078388, 2162078206, 2614888103, 3248222580,
     3835390401, 4022224774, 264347078, 604807628, 770255983, 1249150122, 1555081692, 1996064986,
     2554220882, 2821834349, 2952996808, 3210313671, 3336571891, 3584528711, 113926993, 338241895,
     666307205, 773529912, 1294757372, 1396182291, 1695183700, 1986661051, 2177026350, 2456956037,
     2730485921, 2820302411, 3259730800, 3345764771, 3516065817, 3600352804, 4094571909, 275423344,
     430227734, 506948616, 659060556, 883997877, 958139571, 1322822218, 1537002063, 1747873779,
     1955562222, 2024104815, 2227730452, 2361852424, 2428436474, 2756734187, 3204031479, 3329325298]"

definition sha_H0 :: "word32 list" where
  "sha_H0 =
    [1779033703, 3144134277, 1013904242, 2773480762, 1359893119, 2600822924, 528734635, 1541459225]"

fun sha_round :: "word32 list \<Rightarrow> word32 \<times> word32 \<Rightarrow> word32 list" where
  "sha_round [a, b, c, d, e, f, g, h] (k, w) =
     (let t1 = h + sha_Sigma1 e + sha_Ch e f g + k + w;
          t2 = sha_Sigma0 a + sha_Maj a b c
      in [t1 + t2, a, b, c, d + t1, e, f, g])"
| "sha_round xs _ = xs"

text \<open>The message schedule, kept as a sliding window of sixteen words.\<close>

fun sha_expand :: "nat \<Rightarrow> word32 list \<Rightarrow> word32 list" where
  "sha_expand 0 ws = ws"
| "sha_expand (Suc n) ws =
     (case ws of
        [] \<Rightarrow> []
      | w # rest \<Rightarrow>
          w # sha_expand n (rest @ [sha_sigma1 (ws ! 14) + ws ! 9 + sha_sigma0 (ws ! 1) + w]))"

definition sha_block :: "word32 list \<Rightarrow> word32 list \<Rightarrow> word32 list" where
  "sha_block h ws = map2 (+) h (foldl sha_round h (zip sha_K (sha_expand 48 ws)))"

fun sha_blocks :: "nat \<Rightarrow> word32 list \<Rightarrow> word32 list \<Rightarrow> word32 list" where
  "sha_blocks 0 h ws = h"
| "sha_blocks (Suc n) h ws = sha_blocks n (sha_block h (take 16 ws)) (drop 16 ws)"

fun sha_words :: "byte list \<Rightarrow> word32 list" where
  "sha_words (a # b # c # d # xs) =
     (push_bit 24 (ucast a) OR push_bit 16 (ucast b) OR push_bit 8 (ucast c) OR ucast d)
     # sha_words xs"
| "sha_words _ = []"

definition sha_bytes32 :: "word32 \<Rightarrow> byte list" where
  "sha_bytes32 w = [ucast (drop_bit 24 w), ucast (drop_bit 16 w), ucast (drop_bit 8 w), ucast w]"

definition sha_bytes64 :: "64 word \<Rightarrow> byte list" where
  "sha_bytes64 w = map (\<lambda>i. ucast (drop_bit i w)) [56, 48, 40, 32, 24, 16, 8, 0]"

definition sha_pad :: "byte list \<Rightarrow> byte list" where
  "sha_pad m =
     (let l = length m
      in m @ [128] @ replicate ((119 - l mod 64) mod 64) 0 @ sha_bytes64 (8 * of_nat l))"

definition sha256_Sum256 :: "byte list \<Rightarrow> byte list" where
  "sha256_Sum256 m =
     (let ws = sha_words (sha_pad m)
      in concat (map sha_bytes32 (sha_blocks (length ws div 16) sha_H0 ws)))"


section \<open>Text encodings\<close>

definition byte_of_char :: "char \<Rightarrow> byte" where
  "byte_of_char c = word_of_int (of_char c)"

text \<open>\<^verbatim>\<open>[]byte(s)\<close>.\<close>

definition bytes_of :: "string \<Rightarrow> byte list" where
  "bytes_of s = map byte_of_char s"

definition hex_alphabet :: string where
  "hex_alphabet = ''0123456789abcdef''"

definition hex_EncodeToString :: "byte list \<Rightarrow> string" where
  "hex_EncodeToString bs =
     concat (map (\<lambda>b. [hex_alphabet ! unat (drop_bit 4 b), hex_alphabet ! unat (b AND 15)]) bs)"

definition b64_alphabet :: string where
  "b64_alphabet = ''ABCDEFGHIJKLMNOPQRSTUVWXYZabcdefghijklmnopqrstuvwxyz0123456789-_''"

definition b64_char :: "byte \<Rightarrow> char" where
  "b64_char x = b64_alphabet ! unat (x AND 63)"

fun base64_RawURL :: "byte list \<Rightarrow> string" where
  "base64_RawURL (a # b # c # xs) =
     b64_char (drop_bit 2 a)
     # b64_char (push_bit 4 a OR drop_bit 4 b)
     # b64_char (push_bit 2 b OR drop_bit 6 c)
     # b64_char c
     # base64_RawURL xs"
| "base64_RawURL [a, b] =
     [b64_char (drop_bit 2 a), b64_char (push_bit 4 a OR drop_bit 4 b), b64_char (push_bit 2 b)]"
| "base64_RawURL [a] = [b64_char (drop_bit 2 a), b64_char (push_bit 4 a)]"
| "base64_RawURL [] = []"


section \<open>The adapter's digest\<close>

definition Digest :: "string \<Rightarrow> string" where
  "Digest raw = hex_EncodeToString (sha256_Sum256 (bytes_of raw))"

text \<open>\<^verbatim>\<open>keys.RandomBase64URL\<close> on the bytes the source of randomness delivered.\<close>

definition RandomBase64URL :: "byte list option \<Rightarrow> string + string" where
  "RandomBase64URL buf =
     (case buf of
        None \<Rightarrow> Inl ''keys: read random''
      | Some bs \<Rightarrow> Inr (base64_RawURL bs))"

text \<open>
  \<^verbatim>\<open>subtle.ConstantTimeCompare\<close>: 1 when two byte slices are equal. The loop folds the differences of
  all bytes into one accumulator before it is tested.
\<close>

definition ConstantTimeCompare :: "byte list \<Rightarrow> byte list \<Rightarrow> int" where
  "ConstantTimeCompare x y =
     (if length x \<noteq> length y then 0
      else if foldl (\<lambda>v (a, b). v OR (a XOR b)) 0 (zip x y) = 0 then 1 else 0)"

definition ConstantTimeKeyMatch :: "string \<Rightarrow> string \<Rightarrow> bool" where
  "ConstantTimeKeyMatch stored presented =
     (ConstantTimeCompare (bytes_of stored) (bytes_of presented) = 1)"

definition hashKey :: "string \<Rightarrow> key" where
  "hashKey s = Digest s"

definition constantTimeKeyMatch :: "string \<Rightarrow> string \<Rightarrow> bool" where
  "constantTimeKeyMatch stored presented = ConstantTimeKeyMatch stored presented"

lemma word_or_eq_0: "x OR y = 0 \<longleftrightarrow> x = 0 \<and> y = 0" for x y :: byte
  by (auto simp: bit_eq_iff bit_simps)

lemma word_xor_eq_0: "x XOR y = 0 \<longleftrightarrow> x = y" for x y :: byte
  by (auto simp: bit_eq_iff bit_simps)

lemma foldl_or_xor:
  "foldl (\<lambda>v (a, b). v OR (a XOR b)) (v :: byte) ps = 0 \<longleftrightarrow> v = 0 \<and> (\<forall>(a, b) \<in> set ps. a = b)"
  by (induction ps arbitrary: v) (auto simp: word_or_eq_0 word_xor_eq_0)

lemma zip_all_eq: "length x = length y \<Longrightarrow> (\<forall>(a, b) \<in> set (zip x y). a = b) \<longleftrightarrow> x = y"
  by (induction x y rule: list_induct2) auto

lemma ConstantTimeCompare_iff: "ConstantTimeCompare x y = 1 \<longleftrightarrow> x = y"
  by (auto simp: ConstantTimeCompare_def foldl_or_xor zip_all_eq)

lemma byte_of_char_inject: "byte_of_char c = byte_of_char d \<longleftrightarrow> c = d"
proof -
  have "(of_char c :: int) mod 256 = of_char c" and "(of_char d :: int) mod 256 = of_char d"
    by (rule of_char_mod_256)+
  then show ?thesis
    by (simp add: byte_of_char_def word_of_int_eq_iff take_bit_eq_mod)
qed

lemma bytes_of_inject: "bytes_of s = bytes_of t \<longleftrightarrow> s = t"
  unfolding bytes_of_def by (rule inj_map_eq_map) (auto simp: inj_def byte_of_char_inject)

lemma constantTimeKeyMatch_iff [simp]: "constantTimeKeyMatch a b \<longleftrightarrow> a = b"
  by (simp add: constantTimeKeyMatch_def ConstantTimeKeyMatch_def ConstantTimeCompare_iff bytes_of_inject)


section \<open>Shape of the digests\<close>

lemma length_sha_round [simp]: "length (sha_round h kw) = length h"
  by (cases "(h, kw)" rule: sha_round.cases) (simp_all add: Let_def)

lemma length_foldl_sha_round [simp]: "length (foldl sha_round h kws) = length h"
  by (induction kws arbitrary: h) simp_all

lemma length_sha_block [simp]: "length (sha_block h ws) = length h"
  by (simp add: sha_block_def)

lemma length_sha_blocks [simp]: "length (sha_blocks n h ws) = length h"
  by (induction n h ws rule: sha_blocks.induct) simp_all

lemma length_concat_sha_bytes32: "length (concat (map sha_bytes32 ws)) = 4 * length ws"
  by (induction ws) (simp_all add: sha_bytes32_def)

lemma length_sha256_Sum256 [simp]: "length (sha256_Sum256 m) = 32"
  by (simp add: sha256_Sum256_def Let_def length_concat_sha_bytes32 sha_H0_def)

lemma length_hex_EncodeToString [simp]: "length (hex_EncodeToString bs) = 2 * length bs"
  by (induction bs) (simp_all add: hex_EncodeToString_def)

lemma length_Digest [simp]: "length (Digest s) = 64"
  by (simp add: Digest_def)

lemma length_hashKey [simp]: "length (hashKey s) = 64"
  by (simp add: hashKey_def)

lemma hashKey_not_Nil [simp]: "hashKey s \<noteq> []"
  using length_hashKey [of s] by (metis list.size(3) zero_neq_numeral)

lemma length_base64_RawURL: "length (base64_RawURL bs) = (4 * length bs + 2) div 3"
  by (induction bs rule: base64_RawURL.induct) simp_all

lemma unat_and_63: "unat (x AND 63 :: byte) < 64"
proof -
  have "unat (x AND 63) \<le> unat (63 :: byte)"
    by (rule word_and_le1 [THEN word_le_nat_alt [THEN iffD1]])
  then show ?thesis by simp
qed

lemma b64_char_in_alphabet: "b64_char x \<in> set b64_alphabet"
  unfolding b64_char_def
  by (rule nth_mem) (use unat_and_63 [of x] in \<open>simp add: b64_alphabet_def\<close>)

lemma base64_RawURL_alphabet: "set (base64_RawURL bs) \<subseteq> set b64_alphabet"
  by (induction bs rule: base64_RawURL.induct) (simp_all add: b64_char_in_alphabet)

end
