(* ===== verification/Store_Common.thy ===== *)
theory Store_Common
  imports Digest
begin

text \<open>
  What the storage substores share: the sentinel errors of \<^verbatim>\<open>op/store/errors.go\<close>, the expiry
  predicates and slice helpers of \<^verbatim>\<open>op/storeadapter/patterns\<close>, the amortised sweeper, the key-scoped
  eviction and the saturating counters of \<^verbatim>\<open>op/storeadapter/inmem\<close>, and the contract of a one-time
  credential store as a locale.

  A store method that returns \<open>(record, error)\<close> is a function into
  \<open>'r option \<times> store_err option\<close>, because \<^verbatim>\<open>Consume\<close> returns both a record and an error on replay.
  Every method runs under the mutex of its store and is one atomic step; it reads the clock of the
  store at one instant, the argument \<open>now\<close>. Records are values: the defensive copies of the adapter
  (\<^verbatim>\<open>cloneAuthCode\<close> and its kin) make the aliasing of Go pointers invisible to callers.
\<close>

datatype store_err =
    ErrNotFound
  | ErrAlreadyExists
  | ErrAlreadyConsumed
  | ErrConflict
  | ErrTxRequired
  | ErrOther string


section \<open>Expiry\<close>

definition IsExpiredStrict :: "time \<Rightarrow> time \<Rightarrow> bool" where
  "IsExpiredStrict t now = (if t = zero_time then False else t < now)"

definition IsExpiredInclusive :: "time \<Rightarrow> time \<Rightarrow> bool" where
  "IsExpiredInclusive t now = (if t = zero_time then False else \<not> now < t)"

text \<open>\<^verbatim>\<open>isExpired(t, clock)\<close> of the in-memory adapter.\<close>

definition isExpired :: "time \<Rightarrow> time \<Rightarrow> bool" where
  "isExpired t now = IsExpiredStrict t now"

lemma isExpired_zero [simp]: "\<not> isExpired zero_time now"
  by (simp add: isExpired_def IsExpiredStrict_def)

lemma isExpired_mono: "isExpired t now \<Longrightarrow> now \<le> now' \<Longrightarrow> isExpired t now'"
  by (auto simp: isExpired_def IsExpiredStrict_def split: if_splits)

lemma isExpired_IsExpiredStrict: "IsExpiredStrict t now = isExpired t now"
  by (simp add: isExpired_def)

lemma IsExpiredInclusive_mono:
  "IsExpiredInclusive t now \<Longrightarrow> now \<le> now' \<Longrightarrow> IsExpiredInclusive t now'"
  by (auto simp: IsExpiredInclusive_def split: if_splits)


section \<open>Slice helpers offered to adapters\<close>

text \<open>\<^verbatim>\<open>DedupBatch\<close>: the loop keeps the set of values seen so far; a nil slice stays nil.\<close>

fun dedup_loop :: "'a list \<Rightarrow> 'a list \<Rightarrow> 'a list \<Rightarrow> 'a list" where
  "dedup_loop seen out [] = out"
| "dedup_loop seen out (v # vs) =
     (if v \<in> set seen then dedup_loop seen out vs
      else dedup_loop (v # seen) (out @ [v]) vs)"

definition DedupBatch :: "'a list option \<Rightarrow> 'a list option" where
  "DedupBatch items = (case items of None \<Rightarrow> None | Some xs \<Rightarrow> Some (dedup_loop [] [] xs))"

text \<open>\<^verbatim>\<open>Paginate\<close> on Go ints: a page, the next offset and whether more entries follow.\<close>

definition Paginate :: "'a list \<Rightarrow> int \<Rightarrow> int \<Rightarrow> 'a list \<times> int \<times> bool" where
  "Paginate items offset pageSize =
     (let offset = (if offset < 0 then 0 else offset);
          n = int (length items)
      in if offset \<ge> n then ([], n, False)
         else
           let stop = (if pageSize > 0 \<and> offset + pageSize < n then offset + pageSize else n)
           in (take (nat (stop - offset)) (drop (nat offset) items), stop, stop < n))"

text \<open>A caller that follows \<^verbatim>\<open>nextOffset\<close> until \<^verbatim>\<open>hasMore\<close> is false, for at most \<open>fuel\<close> pages.\<close>

fun walk_pages :: "nat \<Rightarrow> 'a list \<Rightarrow> int \<Rightarrow> int \<Rightarrow> 'a list option" where
  "walk_pages 0 items offset pageSize = None"
| "walk_pages (Suc fuel) items offset pageSize =
     (case Paginate items offset pageSize of
        (page, next_off, more) \<Rightarrow>
          if more then map_option ((@) page) (walk_pages fuel items next_off pageSize)
          else Some page)"

lemma dedup_loop_spec:
  "set seen = set out \<Longrightarrow> distinct out \<Longrightarrow>
     distinct (dedup_loop seen out xs) \<and> set (dedup_loop seen out xs) = set out \<union> set xs"
  by (induction seen out xs rule: dedup_loop.induct) (auto simp: insert_absorb)

lemma dedup_loop_prefix: "\<exists>ys. dedup_loop seen out xs = out @ ys"
proof (induction seen out xs rule: dedup_loop.induct)
  case (2 seen out v vs)
  then show ?case by (cases "v \<in> set seen") (simp, fastforce)
qed simp


section \<open>The amortised sweeper\<close>

definition fullGCInterval :: "32 word" where
  "fullGCInterval = 64"

definition sweepDue :: "32 word \<Rightarrow> 32 word \<Rightarrow> nat \<Rightarrow> bool" where
  "sweepDue writes minInterval live =
     (let threshold = unat minInterval;
          l = live div 2;
          threshold = (if l > threshold then l else threshold)
      in unat writes \<ge> threshold)"

text \<open>\<^verbatim>\<open>sweeper.due\<close>: whether a sweep is owed, and the counter after recording one more write.\<close>

definition sweeper_due :: "32 word \<Rightarrow> nat \<Rightarrow> bool \<times> 32 word" where
  "sweeper_due w live =
     (let w = w + 1 in if \<not> sweepDue w fullGCInterval live then (False, w) else (True, 0))"

text \<open>\<^verbatim>\<open>evictIf\<close>: the record removed, if any, and the map without it.\<close>

definition evictIf :: "'v gomap \<Rightarrow> key \<Rightarrow> ('v \<Rightarrow> bool) \<Rightarrow> 'v option \<times> 'v gomap" where
  "evictIf m k dead =
     (case fmlookup m k of
        None \<Rightarrow> (None, m)
      | Some rec \<Rightarrow> if dead rec then (Some rec, fmdrop k m) else (None, m))"

lemma sweepDue_iff: "sweepDue w mi live \<longleftrightarrow> max (unat mi) (live div 2) \<le> unat w"
  by (auto simp: sweepDue_def Let_def)

lemma fmlookup_evictIf [simp]:
  "fmlookup (snd (evictIf m k dead)) j =
     (if j = k then (case fmlookup m k of None \<Rightarrow> None | Some r \<Rightarrow> if dead r then None else Some r)
      else fmlookup m j)"
  by (auto simp: evictIf_def split: option.split)


section \<open>Saturating counters\<close>

definition maxCounter :: "8 word" where
  "maxCounter = 255"

definition saturatingIncrement :: "8 word \<Rightarrow> 8 word" where
  "saturatingIncrement c = (if c < maxCounter then c + 1 else c)"

lemma unat_saturatingIncrement: "unat (saturatingIncrement c) = min 255 (unat c + 1)"
proof -
  have bound: "unat c < 256"
    using unsigned_less [of c] by simp
  show ?thesis
  proof (cases "c < maxCounter")
    case True
    then have "unat c < 255"
      by (simp add: maxCounter_def word_less_nat_alt)
    with True show ?thesis
      by (simp add: saturatingIncrement_def unat_word_ariths)
  next
    case False
    with bound have "unat c = 255"
      by (simp add: maxCounter_def word_less_nat_alt)
    with False show ?thesis
      by (simp add: saturatingIncrement_def)
  qed
qed


section \<open>Sessions and simulation\<close>

text \<open>
  A client of a component issues a sequence of calls. \<open>run_calls\<close> threads the state through it and
  collects the replies. The locale \<open>simulation\<close> is the contract between an implementation and its
  abstract specification: from a state that satisfies the invariant, every call gives the reply the
  specification gives on the abstract view, moves the view as the specification does, and keeps the
  invariant.
\<close>

fun run_calls :: "('c \<Rightarrow> 's \<Rightarrow> 'r \<times> 's) \<Rightarrow> 'c list \<Rightarrow> 's \<Rightarrow> 'r list \<times> 's" where
  "run_calls call [] s = ([], s)"
| "run_calls call (c # cs) s =
     (case call c s of (r, s) \<Rightarrow> case run_calls call cs s of (rs, s) \<Rightarrow> (r # rs, s))"

lemma run_calls_invariant:
  assumes "\<And>c s. c \<in> set cs \<Longrightarrow> P s \<Longrightarrow> P (snd (call c s))" and "P s"
  shows "P (snd (run_calls call cs s))"
  using assms
proof (induction cs arbitrary: s)
  case (Cons c cs)
  then have "P (snd (run_calls call cs (snd (call c s))))"
    by simp
  then show ?case by (simp add: case_prod_beta)
qed simp

locale simulation =
  fixes inv :: "'s \<Rightarrow> bool"
    and view :: "'s \<Rightarrow> 'a"
    and call :: "'c \<Rightarrow> 's \<Rightarrow> 'r \<times> 's"
    and spec :: "'c \<Rightarrow> 'a \<Rightarrow> 'r \<times> 'a"
  assumes call_reply: "inv s \<Longrightarrow> fst (spec c (view s)) = fst (call c s)"
    and call_view: "inv s \<Longrightarrow> snd (spec c (view s)) = view (snd (call c s))"
    and call_inv: "inv s \<Longrightarrow> inv (snd (call c s))"
begin

lemma call_sim: "inv s \<Longrightarrow> spec c (view s) = (fst (call c s), view (snd (call c s)))"
  by (simp add: prod_eq_iff call_reply call_view)

lemma run_sim:
  "inv s \<Longrightarrow> run_calls spec cs (view s) =
     (fst (run_calls call cs s), view (snd (run_calls call cs s)))"
  by (induction cs arbitrary: s) (simp_all add: call_sim call_inv case_prod_beta)

lemma run_inv: "inv s \<Longrightarrow> inv (snd (run_calls call cs s))"
  by (rule run_calls_invariant) (rule call_inv)

lemma run_view_invariant:
  assumes "inv s" and "P (view s)" and "\<And>c a. c \<in> set cs \<Longrightarrow> P a \<Longrightarrow> P (snd (spec c a))"
  shows "P (view (snd (run_calls call cs s)))"
  using run_calls_invariant [where P = P and call = spec, OF assms(3) assms(2)] run_sim [OF assms(1)]
  by simp

end


section \<open>Transactions\<close>

text \<open>
  \<^verbatim>\<open>tx.guard(ctx)\<close>: the error a call on a transaction returns before it touches the staging. A closed
  handle answers \<^verbatim>\<open>errTxClosed\<close>, which wraps \<^verbatim>\<open>store.ErrTxRequired\<close>.
\<close>

abbreviation errTxClosed :: store_err where
  "errTxClosed \<equiv> ErrTxRequired"

definition tx_guard :: "bool \<Rightarrow> store_err option \<Rightarrow> store_err option" where
  "tx_guard closed ctxErr = (if closed then Some errTxClosed else ctxErr)"


text \<open>
  \<^verbatim>\<open>stagedLookup\<close>, shared by the authorization-code, refresh-token and PAR stagings: the updated
  overlay, then the added one, then the committed map.
\<close>

definition stagedLookup :: "key \<Rightarrow> 'v gomap \<Rightarrow> 'v gomap \<Rightarrow> 'v gomap \<Rightarrow> 'v option" where
  "stagedLookup key updated added base =
     (case fmlookup updated key of
        Some rec \<Rightarrow> Some rec
      | None \<Rightarrow>
          (case fmlookup added key of
             Some rec \<Rightarrow> Some rec
           | None \<Rightarrow> fmlookup base key))"


section \<open>The contract of a one-time credential store\<close>

text \<open>
  Authorization codes, refresh tokens, pushed authorization requests, device codes and CIBA requests
  all promise the same: a successful \<^verbatim>\<open>Consume\<close> spends the credential, a spent credential is refused,
  and no operation of the store revives it as long as the same identifier is not issued again.
  \<open>step i\<close> is one operation of the store, other than issuing a record under \<open>i\<close>'s key.
\<close>

locale one_time_store =
  fixes consume :: "time \<Rightarrow> 'id \<Rightarrow> 's \<Rightarrow> ('r option \<times> store_err option) \<times> 's"
    and spent :: "'id \<Rightarrow> 's \<Rightarrow> bool"
    and step :: "'id \<Rightarrow> 's \<Rightarrow> 's \<Rightarrow> bool"
  assumes consume_spends: "consume now i s = ((r, None), s') \<Longrightarrow> spent i s'"
    and spent_refuses: "spent i s \<Longrightarrow> snd (fst (consume now i s)) \<noteq> None"
    and spent_stable: "step i s s' \<Longrightarrow> spent i s \<Longrightarrow> spent i s'"
begin

lemma spent_steps: "(step i)\<^sup>*\<^sup>* s s' \<Longrightarrow> spent i s \<Longrightarrow> spent i s'"
  by (induction rule: rtranclp_induct) (blast intro: spent_stable)+

lemma consumed_once:
  assumes "consume now i s = ((r, None), s1)" and "(step i)\<^sup>*\<^sup>* s1 s2"
  shows "snd (fst (consume later i s2)) \<noteq> None"
  by (rule spent_refuses [OF spent_steps [OF assms(2) consume_spends [OF assms(1)]]])

end

end
