(* ===== verification/GrantStore.thy ===== *)
theory GrantStore
  imports Store_Common
begin

text \<open>
  The consent store, \<^verbatim>\<open>inmem/grantstore.go\<close> and the grant staging of \<^verbatim>\<open>inmem/tx.go\<close>, with the bounded
  page builder behind its two keyset-paginated listings. Go ranges over a map in an order of its own;
  the order is an argument of the scans, a list of the keys, and the lemmas hold for every order that
  enumerates the map.
\<close>

record Grant =
  gr_ID :: string
  gr_Subject :: string
  gr_ClientID :: string
  gr_Scope :: "string list"
  gr_Claims :: jobject
  gr_AuthTime :: time
  gr_ACR :: string
  gr_AMR :: "string list"
  gr_AuthorizationDetails :: "jobject list"
  gr_CreatedAt :: time
  gr_UpdatedAt :: time


section \<open>The page builder\<close>

record sortedPageBuilder =
  pb_cursor :: string
  pb_limit :: nat
  pb_items :: "string list"
  pb_more :: bool
  pb_peak :: nat

definition newSortedPageBuilder :: "string \<Rightarrow> nat \<Rightarrow> sortedPageBuilder" where
  "newSortedPageBuilder cursor limit =
     \<lparr>pb_cursor = cursor, pb_limit = limit, pb_items = [], pb_more = False, pb_peak = 0\<rparr>"

text \<open>\<^verbatim>\<open>sort.SearchStrings\<close>: the smallest index at which the value can be inserted into a sorted slice.\<close>

definition sort_SearchStrings :: "string list \<Rightarrow> string \<Rightarrow> nat" where
  "sort_SearchStrings xs v = length (takeWhile (\<lambda>x. x < v) xs)"

definition sortedPageBuilder_add :: "string \<Rightarrow> sortedPageBuilder \<Rightarrow> sortedPageBuilder" where
  "sortedPageBuilder_add v b =
     (if v = [] \<or> v \<le> pb_cursor b then b
      else
        let items = pb_items b; index = sort_SearchStrings items v
        in if index < length items \<and> items ! index = v then b
           else if length items < pb_limit b then
             let items = take index items @ [v] @ drop index items
             in b\<lparr>pb_items := items, pb_peak := max (pb_peak b) (length items)\<rparr>
           else
             let b = b\<lparr>pb_more := True\<rparr>
             in if index = length items then b
                else b\<lparr>pb_items := take index items @ [v] @ drop index (butlast items)\<rparr>)"

definition sortedPageBuilder_result :: "sortedPageBuilder \<Rightarrow> string list \<times> string" where
  "sortedPageBuilder_result b =
     (pb_items b, if pb_more b then pb_items b ! (length (pb_items b) - 1) else [])"

text \<open>What a builder that has seen the values \<open>A\<close> must hold: the smallest \<open>limit\<close> of those after the cursor.\<close>

definition page_values :: "string \<Rightarrow> string set \<Rightarrow> string list" where
  "page_values cursor A = sorted_list_of_set {v \<in> A. v \<noteq> [] \<and> cursor < v}"

definition builder_ok :: "string set \<Rightarrow> sortedPageBuilder \<Rightarrow> bool" where
  "builder_ok A b \<longleftrightarrow>
     pb_items b = take (pb_limit b) (page_values (pb_cursor b) A) \<and>
     pb_more b = (pb_limit b < length (page_values (pb_cursor b) A)) \<and> pb_peak b \<le> pb_limit b"

lemma sorted_take_butlast:
  "n \<le> length xs \<Longrightarrow> take n (xs :: 'a list) = take n (butlast xs @ drop (length xs - 1) xs)"
  by (simp add: butlast_conv_take)

lemma takeWhile_less_insort:
  "sorted xs \<Longrightarrow> takeWhile (\<lambda>x. x < v) xs @ [v] @ dropWhile (\<lambda>x. x < v) xs = insort v (xs :: string list)"
  by (induction xs) auto

lemma search_split:
  "take (sort_SearchStrings xs v) xs = takeWhile (\<lambda>x. x < v) xs"
  "drop (sort_SearchStrings xs v) xs = dropWhile (\<lambda>x. x < v) xs"
  by (simp_all add: sort_SearchStrings_def takeWhile_eq_take [symmetric] dropWhile_eq_drop [symmetric])

lemma search_found:
  assumes "sorted xs"
  shows "sort_SearchStrings xs v < length xs \<and> xs ! sort_SearchStrings xs v = v \<longleftrightarrow> v \<in> set xs"
  using assms
proof (induction xs)
  case (Cons x xs)
  then show ?case by (cases "x < v") (auto simp: sort_SearchStrings_def)
qed (simp add: sort_SearchStrings_def)

lemma insert_at_search:
  "sorted xs \<Longrightarrow> take (sort_SearchStrings xs v) xs @ [v] @ drop (sort_SearchStrings xs v) xs = insort v xs"
  unfolding search_split by (rule takeWhile_less_insort)

lemma take_insort_take:
  "sorted xs \<Longrightarrow> take n (insort v (take n xs)) = take n (insort v (xs :: string list))"
proof (induction xs arbitrary: n)
  case (Cons x xs)
  show ?case
  proof (cases n)
    case (Suc m)
    with Cons show ?thesis by (cases m) auto
  qed simp
qed simp

lemma search_all_less:
  "sort_SearchStrings xs v = length xs \<longleftrightarrow> (\<forall>x\<in>set xs. x < v)"
  by (induction xs) (auto simp: sort_SearchStrings_def)

lemma insort_all_less:
  assumes "\<forall>x\<in>set (take n xs). x < v" and "n \<le> length xs" and "sorted (xs :: string list)"
  shows "take n (insort v xs) = take n xs"
proof -
  have "insort v ys = ys @ [v]" if "\<forall>x\<in>set ys. x < v" for ys
    using that by (induction ys) auto
  then have "take n (insort v (take n xs)) = take n xs"
    using assms(1,2) by simp
  with take_insort_take [OF assms(3)] show ?thesis by simp
qed

lemma page_values_sorted [simp]: "sorted (page_values c A)" "distinct (page_values c A)"
  by (simp_all add: page_values_def)

lemma set_page_values [simp]: "finite A \<Longrightarrow> set (page_values c A) = {v \<in> A. v \<noteq> [] \<and> c < v}"
  by (simp add: page_values_def)

lemma page_values_insert:
  assumes "finite A"
  shows "page_values c (insert v A) =
    (if v = [] \<or> v \<le> c \<or> v \<in> A then page_values c A else insort v (page_values c A))"
proof (cases "v = [] \<or> v \<le> c \<or> v \<in> A")
  case True
  then have "{w \<in> insert v A. w \<noteq> [] \<and> c < w} = {w \<in> A. w \<noteq> [] \<and> c < w}"
    by auto
  with True show ?thesis by (simp only: page_values_def if_True)
next
  case False
  then have "{w \<in> insert v A. w \<noteq> [] \<and> c < w} = insert v {w \<in> A. w \<noteq> [] \<and> c < w}"
    and "{w \<in> A. w \<noteq> [] \<and> c < w} - {v} = {w \<in> A. w \<noteq> [] \<and> c < w}"
    by auto
  moreover have "finite {w \<in> A. w \<noteq> [] \<and> c < w}"
    using assms by simp
  ultimately show ?thesis
    using False by (simp only: page_values_def if_False sorted_list_of_set_insert_remove)
qed

lemma search_le: "sort_SearchStrings xs v \<le> length xs"
  by (simp add: sort_SearchStrings_def length_takeWhile_le)

lemma replace_at_search:
  assumes "sorted xs" and "sort_SearchStrings xs v \<noteq> length xs"
  shows "take (sort_SearchStrings xs v) xs @ [v] @ drop (sort_SearchStrings xs v) (butlast xs) =
         take (length xs) (insort v xs)"
proof -
  have i: "sort_SearchStrings xs v < length xs"
    using assms(2) search_le [of xs v] by simp
  show ?thesis
    unfolding insert_at_search [OF assms(1), symmetric] using i
    by (simp add: butlast_conv_take drop_take min_def Suc_diff_le take_Cons')
qed

lemma builder_add_eq:
  assumes "sorted (pb_items b)" and "\<not> (v = [] \<or> v \<le> pb_cursor b)"
  shows "sortedPageBuilder_add v b =
    (if v \<in> set (pb_items b) then b
     else if length (pb_items b) < pb_limit b
       then b\<lparr>pb_items := insort v (pb_items b), pb_peak := max (pb_peak b) (Suc (length (pb_items b)))\<rparr>
     else if \<forall>x\<in>set (pb_items b). x < v then b\<lparr>pb_more := True\<rparr>
     else b\<lparr>pb_more := True, pb_items := take (length (pb_items b)) (insort v (pb_items b))\<rparr>)"
proof -
  note found = search_found [OF assms(1), of v]
  note ins = insert_at_search [OF assms(1), of v]
  note rep = replace_at_search [OF assms(1), of v]
  from assms(2) show ?thesis
    unfolding sortedPageBuilder_add_def Let_def found search_all_less [symmetric]
    by (simp only: if_False ins length_insort) (auto simp only: rep split: if_split)
qed

lemma builder_add_ok:
  assumes "builder_ok A b" and "finite A"
  shows "builder_ok (insert v A) (sortedPageBuilder_add v b)"
proof (cases "v = [] \<or> v \<le> pb_cursor b")
  case True
  with assms show ?thesis
    by (auto simp: sortedPageBuilder_add_def builder_ok_def page_values_insert)
next
  case False
  define S L n where "S = page_values (pb_cursor b) A" and "L = pb_items b" and "n = pb_limit b"
  have items: "L = take n S" and more: "pb_more b = (n < length S)" and peak: "pb_peak b \<le> n"
    using assms(1) by (simp_all add: builder_ok_def S_def L_def n_def)
  have S: "sorted S" "v \<in> set S \<longleftrightarrow> v \<in> A"
    using False assms(2) by (auto simp: S_def)
  then have L: "sorted L"
    by (simp add: items sorted_wrt_take)
  have S': "page_values (pb_cursor b) (insert v A) = (if v \<in> set S then S else insort v S)"
    using False assms(2) S(2) by (simp add: page_values_insert S_def)
  have sub: "v \<in> set L \<Longrightarrow> v \<in> set S"
    unfolding items by (rule in_set_takeD)
  note add = builder_add_eq [OF L [unfolded L_def] False, folded L_def n_def]
  consider "v \<in> set L" | "v \<notin> set L" "length L < n" | "v \<notin> set L" "n \<le> length L" "\<forall>x\<in>set L. x < v"
    | "v \<notin> set L" "n \<le> length L" "\<not> (\<forall>x\<in>set L. x < v)"
    by linarith
  then show ?thesis
  proof cases
    case 1
    with assms(1) sub show ?thesis
      by (simp add: add builder_ok_def S' S_def [symmetric] n_def [symmetric])
  next
    case 2
    then have "L = S" by (simp add: items)
    with 2 more peak show ?thesis
      by (simp add: add builder_ok_def S' S_def [symmetric] n_def [symmetric] L_def [symmetric])
  next
    case 3
    then have "n \<le> length S" by (simp add: items)
    with 3 have "n < length (if v \<in> set S then S else insort v S)"
      by (cases "n = length S") (auto simp: items)
    moreover have "take n (if v \<in> set S then S else insort v S) = L"
      using 3 S(1) insort_all_less [of n S v] \<open>n \<le> length S\<close> by (simp add: items)
    ultimately show ?thesis
      using 3 peak by (simp add: add builder_ok_def S' n_def [symmetric] L_def [symmetric])
  next
    case 4
    then have n: "n \<le> length S" "length L = n" by (simp_all add: items)
    have "v \<notin> set S"
    proof
      assume "v \<in> set S"
      then have "v \<in> set (drop n S)"
        using 4(1) unfolding items by (metis Un_iff append_take_drop_id set_append)
      moreover have "sorted (L @ drop n S)"
        using S(1) by (simp add: items)
      ultimately have "\<forall>x\<in>set L. x \<le> v"
        by (auto simp only: sorted_append)
      with 4(1,3) show False
        by (metis order.not_eq_order_implies_strict)
    qed
    moreover have "take n (insort v L) = take n (insort v S)"
      unfolding items by (rule take_insort_take [OF S(1)])
    ultimately show ?thesis
      using 4(1,2) n peak unfolding add if_not_P [OF 4(3)]
      by (simp add: builder_ok_def S' n_def [symmetric])
  qed
qed


lemma builder_new_ok: "builder_ok {} (newSortedPageBuilder cursor limit)"
  by (simp add: builder_ok_def newSortedPageBuilder_def page_values_def)

lemma builder_add_sel [simp]:
  "pb_cursor (sortedPageBuilder_add v b) = pb_cursor b" "pb_limit (sortedPageBuilder_add v b) = pb_limit b"
  by (simp_all add: sortedPageBuilder_add_def Let_def)

lemma builder_fold_ok:
  "builder_ok A b \<Longrightarrow> finite A \<Longrightarrow> builder_ok (A \<union> set vs) (fold sortedPageBuilder_add vs b)"
proof (induction vs arbitrary: A b)
  case (Cons v vs)
  from Cons.IH [OF builder_add_ok [OF Cons.prems, of v]] Cons.prems(2) show ?case by simp
qed simp

lemma builder_fold_sel [simp]:
  "pb_cursor (fold sortedPageBuilder_add vs b) = pb_cursor b"
  "pb_limit (fold sortedPageBuilder_add vs b) = pb_limit b"
  by (induction vs arbitrary: b) simp_all

text \<open>The page a scan returns, whatever the order it met the values in.\<close>

definition page_of :: "string \<Rightarrow> nat \<Rightarrow> string set \<Rightarrow> string list \<times> string" where
  "page_of cursor limit A =
     (let S = page_values cursor A; items = take limit S
      in (items, if limit < length S then items ! (length items - 1) else []))"

lemma builder_page:
  "sortedPageBuilder_result (fold sortedPageBuilder_add vs (newSortedPageBuilder cursor limit)) =
     page_of cursor limit (set vs)"
  using builder_fold_ok [OF builder_new_ok, of vs cursor limit]
  by (simp add: builder_ok_def sortedPageBuilder_result_def page_of_def newSortedPageBuilder_def Let_def)

lemma builder_peak_le:
  "pb_peak (fold sortedPageBuilder_add vs (newSortedPageBuilder cursor limit)) \<le> limit"
  using builder_fold_ok [OF builder_new_ok, of vs cursor limit]
  by (simp add: builder_ok_def newSortedPageBuilder_def)


section \<open>The direct store\<close>

record grantStore =
  gs_m :: "Grant gomap"

definition newGrantStore :: grantStore where
  "newGrantStore = \<lparr>gs_m = fmempty\<rparr>"

definition err_nil_grant :: store_err where
  "err_nil_grant = ErrOther ''inmem: nil grant''"

definition grantStore_Save :: "Grant option \<Rightarrow> grantStore \<Rightarrow> store_err option \<times> grantStore" where
  "grantStore_Save g s =
     (case g of
        None \<Rightarrow> (Some err_nil_grant, s)
      | Some g \<Rightarrow> (None, s\<lparr>gs_m := fmupd (gr_ID g) g (gs_m s)\<rparr>))"

definition grantStore_Find :: "string \<Rightarrow> grantStore \<Rightarrow> Grant option \<times> store_err option" where
  "grantStore_Find i s =
     (case fmlookup (gs_m s) i of None \<Rightarrow> (None, Some ErrNotFound) | Some rec \<Rightarrow> (Some rec, None))"

text \<open>One step of the scan for the most recent grant, and the grants a range visits.\<close>

definition latest_step :: "string \<Rightarrow> string \<Rightarrow> Grant \<Rightarrow> Grant option \<Rightarrow> Grant option" where
  "latest_step subject clientID rec best =
     (if gr_Subject rec \<noteq> subject \<or> gr_ClientID rec \<noteq> clientID then best
      else
        (case best of
           None \<Rightarrow> Some rec
         | Some b \<Rightarrow> if gr_UpdatedAt rec > gr_UpdatedAt b then Some rec else best))"

definition range_rows :: "key list \<Rightarrow> 'v gomap \<Rightarrow> 'v list" where
  "range_rows order m = List.map_filter (fmlookup m) order"

definition grantStore_FindBySubjectClient ::
  "key list \<Rightarrow> string \<Rightarrow> string \<Rightarrow> grantStore \<Rightarrow> Grant option \<times> store_err option" where
  "grantStore_FindBySubjectClient order subject clientID s =
     (case fold (latest_step subject clientID) (range_rows order (gs_m s)) None of
        None \<Rightarrow> (None, Some ErrNotFound)
      | Some best \<Rightarrow> (Some best, None))"

definition grantStore_ListBySubject :: "key list \<Rightarrow> string \<Rightarrow> grantStore \<Rightarrow> Grant list \<times> store_err option" where
  "grantStore_ListBySubject order subject s =
     (filter (\<lambda>rec. gr_Subject rec = subject) (range_rows order (gs_m s)), None)"

text \<open>\<open>ctxErr\<close> is \<^verbatim>\<open>ctx.Err()\<close> on entry. A limit is a Go int.\<close>

definition grantStore_ListClientIDsBySubject ::
  "store_err option \<Rightarrow> key list \<Rightarrow> string \<Rightarrow> string \<Rightarrow> int \<Rightarrow> grantStore \<Rightarrow>
     (string list \<times> string) \<times> store_err option" where
  "grantStore_ListClientIDsBySubject ctxErr order subject cursor limit s =
     (case ctxErr of
        Some e \<Rightarrow> (([], []), Some e)
      | None \<Rightarrow>
          if limit \<le> 0 then (([], []), Some (ErrOther ''inmem: grant client page limit must be positive''))
          else
            let builder =
              fold (\<lambda>rec b. if gr_Subject rec = subject then sortedPageBuilder_add (gr_ClientID rec) b else b)
                (range_rows order (gs_m s)) (newSortedPageBuilder cursor (nat limit))
            in (sortedPageBuilder_result builder, None))"

definition grantStore_ListSubjectsByClient ::
  "store_err option \<Rightarrow> key list \<Rightarrow> string \<Rightarrow> string \<Rightarrow> int \<Rightarrow> grantStore \<Rightarrow>
     (string list \<times> string) \<times> store_err option" where
  "grantStore_ListSubjectsByClient ctxErr order clientID cursor limit s =
     (case ctxErr of
        Some e \<Rightarrow> (([], []), Some e)
      | None \<Rightarrow>
          if limit \<le> 0 then (([], []), Some (ErrOther ''inmem: grant subject page limit must be positive''))
          else
            let builder =
              fold (\<lambda>rec b. if gr_ClientID rec = clientID then sortedPageBuilder_add (gr_Subject rec) b else b)
                (range_rows order (gs_m s)) (newSortedPageBuilder cursor (nat limit))
            in (sortedPageBuilder_result builder, None))"

definition grantStore_HasAny :: "grantStore \<Rightarrow> bool \<times> store_err option" where
  "grantStore_HasAny s = (gm_len (gs_m s) > 0, None)"

definition grantStore_Delete :: "string \<Rightarrow> grantStore \<Rightarrow> store_err option \<times> grantStore" where
  "grantStore_Delete i s =
     (case fmlookup (gs_m s) i of
        None \<Rightarrow> (Some ErrNotFound, s)
      | Some _ \<Rightarrow> (None, s\<lparr>gs_m := fmdrop i (gs_m s)\<rparr>))"

definition grantStore_RevokeByClient :: "string \<Rightarrow> grantStore \<Rightarrow> store_err option \<times> grantStore" where
  "grantStore_RevokeByClient clientID s =
     (if clientID = [] then (None, s)
      else (None, s\<lparr>gs_m := gm_sweep (\<lambda>rec. gr_ClientID rec = clientID) (gs_m s)\<rparr>))"


section \<open>The staged store\<close>

record grantStaging =
  gst_added :: "Grant gomap"
  gst_deleted :: "key fset"

definition newGrantStaging :: grantStaging where
  "newGrantStaging = \<lparr>gst_added = fmempty, gst_deleted = {||}\<rparr>"

definition grantStaging_flushLocked :: "grantStaging \<Rightarrow> grantStore \<Rightarrow> grantStore" where
  "grantStaging_flushLocked st s =
     s\<lparr>gs_m := gm_copy (fmfilter (\<lambda>i. i |\<notin>| gst_deleted st) (gs_m s)) (gst_added st)\<rparr>"

definition txGrants_Save ::
  "store_err option \<Rightarrow> Grant option \<Rightarrow> grantStaging \<Rightarrow> store_err option \<times> grantStaging" where
  "txGrants_Save guard gr st =
     (case guard of
        Some e \<Rightarrow> (Some e, st)
      | None \<Rightarrow>
          (case gr of
             None \<Rightarrow> (Some err_nil_grant, st)
           | Some g \<Rightarrow>
               (None, st\<lparr>gst_deleted := gst_deleted st |-| {|gr_ID g|},
                         gst_added := fmupd (gr_ID g) g (gst_added st)\<rparr>)))"

definition txGrants_Find ::
  "store_err option \<Rightarrow> grantStore \<Rightarrow> string \<Rightarrow> grantStaging \<Rightarrow> Grant option \<times> store_err option" where
  "txGrants_Find guard parent i st =
     (case guard of
        Some e \<Rightarrow> (None, Some e)
      | None \<Rightarrow>
          if i |\<in>| gst_deleted st then (None, Some ErrNotFound)
          else
            (case fmlookup (gst_added st) i of
               Some rec \<Rightarrow> (Some rec, None)
             | None \<Rightarrow>
                 (case fmlookup (gs_m parent) i of
                    Some rec \<Rightarrow> (Some rec, None)
                  | None \<Rightarrow> (None, Some ErrNotFound))))"

text \<open>
  \<^verbatim>\<open>each\<close>: the grants the walk visits, staged ones first, given the orders of the two ranges. A callback
  that stops the walk sees a prefix of this list.
\<close>

definition grantStaging_each :: "key list \<Rightarrow> key list \<Rightarrow> grantStore \<Rightarrow> grantStaging \<Rightarrow> Grant list" where
  "grantStaging_each addedOrder parentOrder parent st =
     range_rows (filter (\<lambda>i. i |\<notin>| gst_deleted st) addedOrder) (gst_added st) @
     range_rows (filter (\<lambda>i. i |\<notin>| gst_deleted st \<and> fmlookup (gst_added st) i = None) parentOrder) (gs_m parent)"

definition grantStaging_findLatestMatching :: "string \<Rightarrow> string \<Rightarrow> Grant list \<Rightarrow> Grant option" where
  "grantStaging_findLatestMatching subject clientID visited = fold (latest_step subject clientID) visited None"

definition txGrants_FindBySubjectClient ::
  "store_err option \<Rightarrow> key list \<Rightarrow> key list \<Rightarrow> grantStore \<Rightarrow> string \<Rightarrow> string \<Rightarrow> grantStaging \<Rightarrow>
     Grant option \<times> store_err option" where
  "txGrants_FindBySubjectClient guard ao po parent subject clientID st =
     (case guard of
        Some e \<Rightarrow> (None, Some e)
      | None \<Rightarrow>
          (case grantStaging_findLatestMatching subject clientID (grantStaging_each ao po parent st) of
             None \<Rightarrow> (None, Some ErrNotFound)
           | Some best \<Rightarrow> (Some best, None)))"

definition grantStaging_collectBySubject :: "string \<Rightarrow> Grant list \<Rightarrow> Grant list" where
  "grantStaging_collectBySubject subject visited = filter (\<lambda>rec. gr_Subject rec = subject) visited"

definition txGrants_ListBySubject ::
  "store_err option \<Rightarrow> key list \<Rightarrow> key list \<Rightarrow> grantStore \<Rightarrow> string \<Rightarrow> grantStaging \<Rightarrow>
     Grant list \<times> store_err option" where
  "txGrants_ListBySubject guard ao po parent subject st =
     (case guard of
        Some e \<Rightarrow> ([], Some e)
      | None \<Rightarrow> (grantStaging_collectBySubject subject (grantStaging_each ao po parent st), None))"

definition txGrants_ListClientIDsBySubject ::
  "store_err option \<Rightarrow> key list \<Rightarrow> key list \<Rightarrow> grantStore \<Rightarrow> string \<Rightarrow> string \<Rightarrow> int \<Rightarrow> grantStaging \<Rightarrow>
     (string list \<times> string) \<times> store_err option" where
  "txGrants_ListClientIDsBySubject guard ao po parent subject cursor limit st =
     (case guard of
        Some e \<Rightarrow> (([], []), Some e)
      | None \<Rightarrow>
          if limit \<le> 0 then (([], []), Some (ErrOther ''inmem: grant client page limit must be positive''))
          else
            let builder =
              fold (\<lambda>rec b. if gr_Subject rec = subject then sortedPageBuilder_add (gr_ClientID rec) b else b)
                (grantStaging_each ao po parent st) (newSortedPageBuilder cursor (nat limit))
            in (sortedPageBuilder_result builder, None))"

definition txGrants_ListSubjectsByClient ::
  "store_err option \<Rightarrow> key list \<Rightarrow> key list \<Rightarrow> grantStore \<Rightarrow> string \<Rightarrow> string \<Rightarrow> int \<Rightarrow> grantStaging \<Rightarrow>
     (string list \<times> string) \<times> store_err option" where
  "txGrants_ListSubjectsByClient guard ao po parent clientID cursor limit st =
     (case guard of
        Some e \<Rightarrow> (([], []), Some e)
      | None \<Rightarrow>
          if limit \<le> 0 then (([], []), Some (ErrOther ''inmem: grant subject page limit must be positive''))
          else
            let builder =
              fold (\<lambda>rec b. if gr_ClientID rec = clientID then sortedPageBuilder_add (gr_Subject rec) b else b)
                (grantStaging_each ao po parent st) (newSortedPageBuilder cursor (nat limit))
            in (sortedPageBuilder_result builder, None))"

definition txGrants_Delete ::
  "store_err option \<Rightarrow> grantStore \<Rightarrow> string \<Rightarrow> grantStaging \<Rightarrow> store_err option \<times> grantStaging" where
  "txGrants_Delete guard parent i st =
     (case guard of
        Some e \<Rightarrow> (Some e, st)
      | None \<Rightarrow>
          if fmlookup (gst_added st) i = None \<and> fmlookup (gs_m parent) i = None then (Some ErrNotFound, st)
          else
            (None, st\<lparr>gst_added := fmdrop i (gst_added st), gst_deleted := finsert i (gst_deleted st)\<rparr>))"

definition txGrants_HasAny ::
  "store_err option \<Rightarrow> key list \<Rightarrow> key list \<Rightarrow> grantStore \<Rightarrow> grantStaging \<Rightarrow> bool \<times> store_err option" where
  "txGrants_HasAny guard ao po parent st =
     (case guard of
        Some e \<Rightarrow> (False, Some e)
      | None \<Rightarrow> (grantStaging_each ao po parent st \<noteq> [], None))"


section \<open>The abstract store\<close>

type_synonym grant_map = "key \<Rightarrow> Grant option"

definition enumerates :: "key list \<Rightarrow> 'v gomap \<Rightarrow> bool" where
  "enumerates order m \<longleftrightarrow> distinct order \<and> set order = fset (fmdom m)"

definition rows_of :: "(key \<Rightarrow> 'v option) \<Rightarrow> 'v set" where
  "rows_of M = {r. \<exists>k. M k = Some r}"

datatype grant_call =
    GrSave "Grant option"
  | GrFind string
  | GrDelete string
  | GrHasAny
  | GrClients string string int
  | GrSubjects string string int

datatype grant_reply =
    GrErr "store_err option"
  | GrRecord "Grant option \<times> store_err option"
  | GrBool "bool \<times> store_err option"
  | GrPage "(string list \<times> string) \<times> store_err option"

text \<open>\<open>D i\<close>: a second deletion of \<open>i\<close> answers as the first one. Direct calls have none such.\<close>

fun spec_grant_call :: "(key \<Rightarrow> bool) \<Rightarrow> grant_call \<Rightarrow> grant_map \<Rightarrow> grant_reply \<times> grant_map" where
  "spec_grant_call D (GrSave None) M = (GrErr (Some err_nil_grant), M)"
| "spec_grant_call D (GrSave (Some g)) M = (GrErr None, M(gr_ID g \<mapsto> g))"
| "spec_grant_call D (GrFind i) M =
     (GrRecord (M i, if M i = None then Some ErrNotFound else None), M)"
| "spec_grant_call D (GrDelete i) M =
     (GrErr (if M i = None \<and> \<not> D i then Some ErrNotFound else None), M(i := None))"
| "spec_grant_call D GrHasAny M = (GrBool (rows_of M \<noteq> {}, None), M)"
| "spec_grant_call D (GrClients subject cursor limit) M =
     (GrPage (if limit \<le> 0
              then (([], []), Some (ErrOther ''inmem: grant client page limit must be positive''))
              else (page_of cursor (nat limit) (gr_ClientID ` {r \<in> rows_of M. gr_Subject r = subject}), None)), M)"
| "spec_grant_call D (GrSubjects client cursor limit) M =
     (GrPage (if limit \<le> 0
              then (([], []), Some (ErrOther ''inmem: grant subject page limit must be positive''))
              else (page_of cursor (nat limit) (gr_Subject ` {r \<in> rows_of M. gr_ClientID r = client}), None)), M)"

fun grantStore_call :: "(Grant gomap \<Rightarrow> key list) \<Rightarrow> grant_call \<Rightarrow> grantStore \<Rightarrow> grant_reply \<times> grantStore" where
  "grantStore_call ord (GrSave g) s = apfst GrErr (grantStore_Save g s)"
| "grantStore_call ord (GrFind i) s = (GrRecord (grantStore_Find i s), s)"
| "grantStore_call ord (GrDelete i) s = apfst GrErr (grantStore_Delete i s)"
| "grantStore_call ord GrHasAny s = (GrBool (grantStore_HasAny s), s)"
| "grantStore_call ord (GrClients subject cursor limit) s =
     (GrPage (grantStore_ListClientIDsBySubject None (ord (gs_m s)) subject cursor limit s), s)"
| "grantStore_call ord (GrSubjects client cursor limit) s =
     (GrPage (grantStore_ListSubjectsByClient None (ord (gs_m s)) client cursor limit s), s)"

fun txGrants_call ::
  "(Grant gomap \<Rightarrow> key list) \<Rightarrow> grantStore \<Rightarrow> grant_call \<Rightarrow> grantStaging \<Rightarrow> grant_reply \<times> grantStaging" where
  "txGrants_call ord parent (GrSave g) st = apfst GrErr (txGrants_Save None g st)"
| "txGrants_call ord parent (GrFind i) st = (GrRecord (txGrants_Find None parent i st), st)"
| "txGrants_call ord parent (GrDelete i) st = apfst GrErr (txGrants_Delete None parent i st)"
| "txGrants_call ord parent GrHasAny st =
     (GrBool (txGrants_HasAny None (ord (gst_added st)) (ord (gs_m parent)) parent st), st)"
| "txGrants_call ord parent (GrClients subject cursor limit) st =
     (GrPage (txGrants_ListClientIDsBySubject None (ord (gst_added st)) (ord (gs_m parent)) parent
        subject cursor limit st), st)"
| "txGrants_call ord parent (GrSubjects client cursor limit) st =
     (GrPage (txGrants_ListSubjectsByClient None (ord (gst_added st)) (ord (gs_m parent)) parent
        client cursor limit st), st)"

definition grant_view :: "grantStore \<Rightarrow> grantStaging \<Rightarrow> grant_map" where
  "grant_view parent st i =
     (if i |\<in>| gst_deleted st then None
      else (case fmlookup (gst_added st) i of Some rec \<Rightarrow> Some rec | None \<Rightarrow> fmlookup (gs_m parent) i))"

definition grant_staging_ok :: "grantStaging \<Rightarrow> bool" where
  "grant_staging_ok st \<longleftrightarrow> (\<forall>i. i |\<in>| gst_deleted st \<longrightarrow> fmlookup (gst_added st) i = None)"

lemma set_map_filter: "set (List.map_filter f xs) = {y. \<exists>x\<in>set xs. f x = Some y}"
  by (induction xs) (auto simp: List.map_filter_simps split: option.split)

lemma range_rows_set: "enumerates order m \<Longrightarrow> set (range_rows order m) = rows_of (fmlookup m)"
  by (auto simp: range_rows_def set_map_filter enumerates_def rows_of_def fmlookup_dom_iff)

lemma range_rows_filter_set:
  "enumerates order m \<Longrightarrow> set (range_rows (filter P order) m) = {r. \<exists>k. P k \<and> fmlookup m k = Some r}"
  by (auto simp: range_rows_def set_map_filter enumerates_def fmlookup_dom_iff)

lemma grant_view_Some:
  "grant_view parent st k = Some r \<longleftrightarrow>
     k |\<notin>| gst_deleted st \<and>
     (fmlookup (gst_added st) k = Some r \<or>
      (fmlookup (gst_added st) k = None \<and> fmlookup (gs_m parent) k = Some r))"
  by (cases "fmlookup (gst_added st) k") (simp_all add: grant_view_def)

lemma each_set:
  assumes "enumerates ao (gst_added st)" and "enumerates po (gs_m parent)"
  shows "set (grantStaging_each ao po parent st) = rows_of (grant_view parent st)"
  unfolding grantStaging_each_def set_append range_rows_filter_set [OF assms(1)]
    range_rows_filter_set [OF assms(2)] rows_of_def grant_view_Some by blast

lemma grant_view_save:
  "grant_view parent (st\<lparr>gst_deleted := gst_deleted st |-| {|gr_ID g|}, gst_added := fmupd (gr_ID g) g (gst_added st)\<rparr>) =
     (grant_view parent st)(gr_ID g \<mapsto> g)"
proof
  fix i
  show "grant_view parent (st\<lparr>gst_deleted := gst_deleted st |-| {|gr_ID g|},
          gst_added := fmupd (gr_ID g) g (gst_added st)\<rparr>) i = ((grant_view parent st)(gr_ID g \<mapsto> g)) i"
    by (cases "i = gr_ID g") (simp_all add: grant_view_def)
qed

lemma grant_view_delete:
  "grant_view parent (st\<lparr>gst_added := fmdrop i (gst_added st), gst_deleted := finsert i (gst_deleted st)\<rparr>) =
     (grant_view parent st)(i := None)"
proof
  fix j
  show "grant_view parent (st\<lparr>gst_added := fmdrop i (gst_added st), gst_deleted := finsert i (gst_deleted st)\<rparr>) j =
      ((grant_view parent st)(i := None)) j"
    by (cases "j = i") (simp_all add: grant_view_def)
qed

lemma fold_add_filter:
  "fold (\<lambda>rec b. if P rec then sortedPageBuilder_add (f rec) b else b) rows b =
     fold sortedPageBuilder_add (map f (filter P rows)) b"
  by (induction rows arbitrary: b) auto

lemma scan_page:
  "sortedPageBuilder_result (fold (\<lambda>rec b. if P rec then sortedPageBuilder_add (f rec) b else b) rows
      (newSortedPageBuilder cursor limit)) = page_of cursor limit (f ` {r \<in> set rows. P r})"
  unfolding fold_add_filter builder_page by simp

lemma grant_call_refines:
  assumes "\<And>m. enumerates (ord m) m"
  shows "spec_grant_call (\<lambda>_. False) c (fmlookup (gs_m s)) =
     (fst (grantStore_call ord c s), fmlookup (gs_m (snd (grantStore_call ord c s))))"
proof (cases c)
  case (GrSave g)
  then show ?thesis by (cases g) (simp_all add: grantStore_Save_def fun_eq_iff)
next
  case (GrDelete i)
  have "(fmlookup (gs_m s))(i := None) = fmlookup (gs_m s)" if "fmlookup (gs_m s) i = None"
    using that by auto
  with GrDelete show ?thesis
    by (cases "fmlookup (gs_m s) i") (simp_all add: grantStore_Delete_def fun_eq_iff)
next
  case GrHasAny
  have "fmdom (gs_m s) = {||} \<longleftrightarrow> (\<forall>k. k |\<notin>| fmdom (gs_m s))"
    by auto
  then have "fmdom (gs_m s) = {||} \<longleftrightarrow> rows_of (fmlookup (gs_m s)) = {}"
    unfolding fmlookup_dom_iff rows_of_def by blast
  moreover have "0 < fcard (fmdom (gs_m s)) \<longleftrightarrow> fmdom (gs_m s) \<noteq> {||}"
    by (metis bot_fset.rep_eq card_gt_0_iff fcard.rep_eq finite_fset fset_inject)
  ultimately show ?thesis
    using GrHasAny by (simp add: grantStore_HasAny_def gm_len_def)
qed (use range_rows_set [OF assms] in
    \<open>simp_all add: grantStore_Find_def grantStore_ListClientIDsBySubject_def
      grantStore_ListSubjectsByClient_def Let_def scan_page split: option.split\<close>)

lemma tx_grant_call_refines:
  assumes "\<And>m. enumerates (ord m) m" and "grant_staging_ok st"
  shows "spec_grant_call (\<lambda>i. fmlookup (gs_m parent) i \<noteq> None) c (grant_view parent st) =
     (fst (txGrants_call ord parent c st), grant_view parent (snd (txGrants_call ord parent c st)))"
proof (cases c)
  case (GrSave g)
  then show ?thesis
    by (cases g) (simp_all add: txGrants_Save_def grant_view_save)
next
  case (GrFind i)
  then show ?thesis by (auto simp: txGrants_Find_def grant_view_def split: option.split)
next
  case (GrDelete i)
  have "grant_view parent st i = None" if "fmlookup (gst_added st) i = None" and "fmlookup (gs_m parent) i = None"
    using that by (simp add: grant_view_def)
  moreover have "grant_view parent st i \<noteq> None"
    if "fmlookup (gst_added st) i \<noteq> None" and "fmlookup (gs_m parent) i = None"
    using that assms(2) by (auto simp: grant_view_def grant_staging_ok_def)
  ultimately show ?thesis
    using GrDelete by (auto simp: txGrants_Delete_def grant_view_delete)
next
  case GrHasAny
  have "grantStaging_each (ord (gst_added st)) (ord (gs_m parent)) parent st = [] \<longleftrightarrow>
      rows_of (grant_view parent st) = {}"
    unfolding each_set [OF assms(1) assms(1), symmetric] by simp
  with GrHasAny show ?thesis by (simp add: txGrants_HasAny_def)
next
  case (GrClients subject cursor limit)
  then show ?thesis
    using each_set [OF assms(1) assms(1), of st parent]
    by (simp add: txGrants_ListClientIDsBySubject_def Let_def scan_page)
next
  case (GrSubjects client cursor limit)
  then show ?thesis
    using each_set [OF assms(1) assms(1), of st parent]
    by (simp add: txGrants_ListSubjectsByClient_def Let_def scan_page)
qed

lemma tx_grant_call_ok: "grant_staging_ok st \<Longrightarrow> grant_staging_ok (snd (txGrants_call ord parent c st))"
  by (cases c) (auto simp: grant_staging_ok_def txGrants_Save_def txGrants_Delete_def split: option.splits)

lemma grant_flush_view:
  "grant_staging_ok st \<Longrightarrow> fmlookup (gs_m (grantStaging_flushLocked st parent)) = grant_view parent st"
  by (rule ext) (auto simp: grantStaging_flushLocked_def grant_view_def grant_staging_ok_def split: option.split)


lemma grant_view_new [simp]: "grant_view parent newGrantStaging = fmlookup (gs_m parent)"
  by (simp add: grant_view_def newGrantStaging_def fun_eq_iff)

lemma grant_staging_ok_new [simp]: "grant_staging_ok newGrantStaging"
  by (simp add: grant_staging_ok_def newGrantStaging_def)

text \<open>A range in ascending order, which is one of those Go may take.\<close>

abbreviation ascending :: "'v gomap \<Rightarrow> key list" where
  "ascending m \<equiv> sorted_list_of_fset (fmdom m)"

lemma enumerates_ascending [simp]: "enumerates (ascending m) m"
  by (simp add: enumerates_def sorted_list_of_fset.rep_eq)

interpretation grant_direct: simulation "\<lambda>s. True" "\<lambda>s. fmlookup (gs_m s)" "grantStore_call ascending"
  "spec_grant_call (\<lambda>_. False)"
  by unfold_locales
     (simp_all only: grant_call_refines [where ord = ascending, OF enumerates_ascending] fst_conv snd_conv)

interpretation grant_tx: simulation grant_staging_ok "grant_view parent" "txGrants_call ascending parent"
  "spec_grant_call (\<lambda>i. fmlookup (gs_m parent) i \<noteq> None)" for parent
  by unfold_locales
     (simp_all only: tx_grant_call_refines [where ord = ascending, OF enumerates_ascending] tx_grant_call_ok
        fst_conv snd_conv)


section \<open>Paging through the clients of a subject\<close>

text \<open>
  A caller that follows \<^verbatim>\<open>NextCursor\<close> until it is empty, for at most \<open>fuel\<close> pages. Every page may range
  over the map in another order.
\<close>

fun walk_clients ::
  "nat \<Rightarrow> (string \<Rightarrow> key list) \<Rightarrow> string \<Rightarrow> string \<Rightarrow> int \<Rightarrow> grantStore \<Rightarrow> string list option" where
  "walk_clients 0 orders subject cursor limit s = None"
| "walk_clients (Suc fuel) orders subject cursor limit s =
     (case grantStore_ListClientIDsBySubject None (orders cursor) subject cursor limit s of
        ((items, next_cursor), Some e) \<Rightarrow> None
      | ((items, next_cursor), None) \<Rightarrow>
          if next_cursor = [] then Some items
          else map_option ((@) items) (walk_clients fuel orders subject next_cursor limit s))"

definition clients_of :: "string \<Rightarrow> grantStore \<Rightarrow> string set" where
  "clients_of subject s = gr_ClientID ` {r \<in> rows_of (fmlookup (gs_m s)). gr_Subject r = subject}"

lemma list_clients_page:
  assumes "enumerates order (gs_m s)" and "0 < limit"
  shows "grantStore_ListClientIDsBySubject None order subject cursor limit s =
    (page_of cursor (nat limit) (clients_of subject s), None)"
  using assms by (simp add: grantStore_ListClientIDsBySubject_def Let_def scan_page range_rows_set clients_of_def)

lemma finite_rows_of [simp]: "finite (rows_of (fmlookup m))"
proof -
  have "rows_of (fmlookup m) = fset (fmran m)"
    by (auto simp: rows_of_def fmran'_alt_def [symmetric] fmran'_def)
  then show ?thesis by simp
qed

lemma finite_clients_of [simp]: "finite (clients_of subject s)"
  by (simp add: clients_of_def)

text \<open>After a full page, what is left is what follows its last value.\<close>

lemma page_values_split:
  assumes "finite A" and "n < length (page_values c A)" and "0 < n"
  shows "page_values (page_values c A ! (n - 1)) A = drop n (page_values c A)"
proof -
  let ?S = "page_values c A" let ?l = "?S ! (n - 1)"
  have strict: "?S ! i < ?S ! j" if "i < j" "j < length ?S" for i j
    using that sorted_wrt_nth_less [of "(<)" ?S i j] by (simp add: strict_sorted_iff)
  have "{v \<in> A. v \<noteq> [] \<and> ?l < v} = set (drop n ?S)"
  proof (intro set_eqI iffI)
    fix v assume v: "v \<in> {v \<in> A. v \<noteq> [] \<and> ?l < v}"
    have "c < ?l"
      using assms nth_mem [of "n - 1" ?S] by simp
    with v have "v \<in> set ?S"
      using assms(1) by auto
    then obtain j where j: "j < length ?S" "?S ! j = v"
      by (auto simp: in_set_conv_nth)
    have "n \<le> j"
    proof (rule ccontr)
      assume "\<not> n \<le> j"
      then have "?S ! j \<le> ?l"
        using assms(2) by (intro sorted_nth_mono) simp_all
      with v j show False by (auto dest: leD)
    qed
    with j show "v \<in> set (drop n ?S)"
      by (auto simp: in_set_conv_nth intro!: exI [of _ "j - n"])
  next
    fix v assume "v \<in> set (drop n ?S)"
    then obtain j where j: "n + j < length ?S" "?S ! (n + j) = v"
      by (auto simp: in_set_conv_nth less_diff_conv add.commute [of _ n])
    then have "v \<in> set ?S" by (metis nth_mem)
    moreover have "?l < v"
      using strict [of "n - 1" "n + j"] j assms(3) by simp
    ultimately show "v \<in> {v \<in> A. v \<noteq> [] \<and> ?l < v}"
      using assms(1) by simp
  qed
  then have "page_values ?l A = sorted_list_of_set (set (drop n ?S))"
    by (simp only: page_values_def [of ?l])
  also have "\<dots> = drop n ?S"
    by (intro sorted_list_of_set.idem_if_sorted_distinct sorted_wrt_drop distinct_drop) simp_all
  finally show ?thesis .
qed

lemma walk_clients_complete:
  assumes "\<And>c. enumerates (orders c) (gs_m s)" and "0 < limit"
    and "length (page_values cursor (clients_of subject s)) < fuel"
  shows "walk_clients fuel orders subject cursor limit s = Some (page_values cursor (clients_of subject s))"
  using assms(3)
proof (induction fuel arbitrary: cursor)
  case (Suc fuel)
  let ?A = "clients_of subject s" let ?S = "page_values cursor ?A" let ?n = "nat limit"
  have n: "0 < ?n" using assms(2) by simp
  show ?case
  proof (cases "?n < length ?S")
    case False
    then show ?thesis
      by (simp add: list_clients_page [OF assms(1,2)] page_of_def Let_def)
  next
    case True
    let ?l = "?S ! (?n - 1)"
    have l: "take ?n ?S ! (length (take ?n ?S) - 1) = ?l"
      using True n by simp
    have "?l \<in> set ?S"
      using True by (intro nth_mem) simp
    then have "?l \<noteq> []" by simp
    moreover have rest: "page_values ?l ?A = drop ?n ?S"
      by (rule page_values_split [OF finite_clients_of True n])
    moreover have "length (page_values ?l ?A) < fuel"
      unfolding rest using Suc.prems True n by simp
    ultimately show ?thesis
      using True l Suc.IH [of ?l]
      by (simp add: list_clients_page [OF assms(1,2)] page_of_def Let_def)
  qed
qed simp


section \<open>The most recent grant\<close>

lemma latest_fold:
  "fold (latest_step subject client) rows best = None \<longleftrightarrow>
     best = None \<and> (\<forall>r\<in>set rows. \<not> (gr_Subject r = subject \<and> gr_ClientID r = client))"
  "fold (latest_step subject client) rows best = Some b \<Longrightarrow>
     (best = Some b \<or> (b \<in> set rows \<and> gr_Subject b = subject \<and> gr_ClientID b = client)) \<and>
     (\<forall>r. best = Some r \<or> (r \<in> set rows \<and> gr_Subject r = subject \<and> gr_ClientID r = client) \<longrightarrow>
        gr_UpdatedAt r \<le> gr_UpdatedAt b)"
proof -
  show "fold (latest_step subject client) rows best = None \<longleftrightarrow>
     best = None \<and> (\<forall>r\<in>set rows. \<not> (gr_Subject r = subject \<and> gr_ClientID r = client))"
    by (induction rows arbitrary: best) (auto simp: latest_step_def split: option.splits if_splits)
  show "(best = Some b \<or> (b \<in> set rows \<and> gr_Subject b = subject \<and> gr_ClientID b = client)) \<and>
     (\<forall>r. best = Some r \<or> (r \<in> set rows \<and> gr_Subject r = subject \<and> gr_ClientID r = client) \<longrightarrow>
        gr_UpdatedAt r \<le> gr_UpdatedAt b)"
    if "fold (latest_step subject client) rows best = Some b"
    using that
  proof (induction rows arbitrary: best)
    case (Cons x rows)
    show ?case
    proof (cases "gr_Subject x = subject \<and> gr_ClientID x = client")
      case False
      with Cons.prems Cons.IH [of best] show ?thesis by (auto simp: latest_step_def)
    next
      case True
      show ?thesis
      proof (cases best)
        case None
        with True Cons.prems Cons.IH [of "Some x"] show ?thesis by (auto simp: latest_step_def)
      next
        case (Some y)
        let ?best = "if gr_UpdatedAt x > gr_UpdatedAt y then Some x else best"
        have "latest_step subject client x best = ?best"
          using True Some by (simp add: latest_step_def)
        with Cons.prems have "fold (latest_step subject client) rows ?best = Some b" by simp
        from Cons.IH [OF this] True Some show ?thesis
          by (cases "gr_UpdatedAt x > gr_UpdatedAt y") (auto intro: order_trans less_imp_le)
      qed
    qed
  qed simp
qed


section \<open>The properties of the grant store\<close>

text \<open>
  C22. The keyset listings are exact and bounded: whatever order Go ranges over the map in, a page
  holds the smallest \<open>limit\<close> distinct non-empty identifiers after the cursor in ascending order, its
  cursor for the next page is the last of them exactly when more follow and empty otherwise, and the
  builder never holds more than \<open>limit\<close> candidates.
\<close>

theorem grant_page_exact:
  assumes "enumerates order (gs_m s)" and "0 < limit"
  shows "grantStore_ListClientIDsBySubject None order subject cursor limit s =
           (page_of cursor (nat limit) (gr_ClientID ` {r \<in> rows_of (fmlookup (gs_m s)). gr_Subject r = subject}), None)
       \<and> grantStore_ListSubjectsByClient None order client cursor limit s =
           (page_of cursor (nat limit) (gr_Subject ` {r \<in> rows_of (fmlookup (gs_m s)). gr_ClientID r = client}), None)
       \<and> pb_peak (fold sortedPageBuilder_add vs (newSortedPageBuilder cursor (nat limit))) \<le> nat limit"
  using list_clients_page [OF assms, of subject cursor] assms
  by (simp add: clients_of_def grantStore_ListSubjectsByClient_def Let_def scan_page range_rows_set builder_peak_le)

definition sample_grant :: "string \<Rightarrow> string \<Rightarrow> time \<Rightarrow> Grant" where
  "sample_grant i client updated =
     \<lparr>gr_ID = i, gr_Subject = ''alice'', gr_ClientID = client, gr_Scope = [''openid''], gr_Claims = [],
      gr_AuthTime = 5, gr_ACR = [], gr_AMR = [], gr_AuthorizationDetails = [], gr_CreatedAt = 5,
      gr_UpdatedAt = updated\<rparr>"

definition sample_grants :: grantStore where
  "sample_grants = \<lparr>gs_m = fmupd ''g2'' (sample_grant ''g2'' ''b'' 20)
     (fmupd ''g1'' (sample_grant ''g1'' ''a'' 10) fmempty)\<rparr>"

lemma rows_of_fmupd:
  assumes "fmlookup m k = None"
  shows "rows_of (fmlookup (fmupd k v m)) = insert v (rows_of (fmlookup m))"
proof -
  have "fmlookup m i = Some r \<Longrightarrow> i \<noteq> k" for i r
    using assms by auto
  then show ?thesis
    unfolding rows_of_def fmupd_lookup by (auto split: if_splits) metis+
qed

lemma rows_of_fmempty [simp]: "rows_of (fmlookup fmempty) = {}"
  by (simp add: rows_of_def)

lemma sample_grants_rows:
  "rows_of (fmlookup (gs_m sample_grants)) = {sample_grant ''g1'' ''a'' 10, sample_grant ''g2'' ''b'' 20}"
  by (simp add: sample_grants_def rows_of_fmupd insert_commute)

lemma sample_clients: "clients_of ''alice'' sample_grants = {''a'', ''b''}"
proof -
  have "{r \<in> rows_of (fmlookup (gs_m sample_grants)). gr_Subject r = ''alice''} =
      {sample_grant ''g1'' ''a'' 10, sample_grant ''g2'' ''b'' 20}"
    unfolding sample_grants_rows by (auto simp: sample_grant_def)
  then show ?thesis by (simp add: clients_of_def sample_grant_def)
qed

lemma sample_page_values: "page_values [] {''a'', ''b''} = [''a'', ''b'']"
proof -
  have "{v \<in> {''a'', ''b''}. v \<noteq> [] \<and> [] < v} = {''a'', ''b''}" by auto
  then show ?thesis
    unfolding page_values_def by (simp add: insort_is_Cons)
qed

theorem grant_page_exact_witness:
  "enumerates (ascending (gs_m sample_grants)) (gs_m sample_grants) \<and>
   grantStore_ListClientIDsBySubject None (ascending (gs_m sample_grants)) ''alice'' [] 1 sample_grants =
     (([''a''], ''a''), None)"
  using grant_page_exact [OF enumerates_ascending [of "gs_m sample_grants"], of 1 "''alice''" "[]" "''a''" "[]"]
    sample_clients sample_page_values
  by (simp add: page_of_def clients_of_def Let_def)

text \<open>
  C23. Following the cursor visits every client of a subject exactly once, in ascending order, and
  ends: with more pages allowed than there are clients the walk returns the whole sorted list.
\<close>

theorem grant_walk_complete:
  assumes "\<forall>c. enumerates (orders c) (gs_m s)" and "0 < limit"
    and "card (clients_of subject s) < fuel"
  shows "walk_clients fuel orders subject [] limit s =
    Some (sorted_list_of_set {c \<in> clients_of subject s. c \<noteq> []})"
proof -
  have eq: "{v \<in> clients_of subject s. v \<noteq> [] \<and> [] < v} = {c \<in> clients_of subject s. c \<noteq> []}"
    by (auto simp: neq_Nil_conv)
  have "length (page_values [] (clients_of subject s)) \<le> card (clients_of subject s)"
    unfolding page_values_def by (auto intro: card_mono)
  with assms(3) have "length (page_values [] (clients_of subject s)) < fuel" by simp
  from walk_clients_complete [OF _ assms(2) this] assms(1) show ?thesis
    by (simp add: page_values_def eq)
qed

theorem grant_walk_complete_witness:
  "walk_clients 3 (\<lambda>_. ascending (gs_m sample_grants)) ''alice'' [] 1 sample_grants = Some [''a'', ''b'']"
proof -
  have "{c \<in> clients_of ''alice'' sample_grants. c \<noteq> []} = {''a'', ''b''}"
    by (auto simp: sample_clients)
  moreover have "sorted_list_of_set {''a'', ''b''} = [''a'', ''b'']"
    by (simp add: insort_is_Cons)
  ultimately show ?thesis
    using grant_walk_complete [of "\<lambda>_. ascending (gs_m sample_grants)" sample_grants 1 "''alice''" 3]
    by (simp add: sample_clients)
qed

text \<open>
  \<^verbatim>\<open>FindBySubjectClient\<close> returns a grant of the pair with the latest update whatever the order of
  the range, and \<^verbatim>\<open>ErrNotFound\<close> exactly when there is none.
\<close>

theorem grant_find_latest:
  assumes "enumerates order (gs_m s)"
  shows "case grantStore_FindBySubjectClient order subject client s of
      (None, e) \<Rightarrow> e = Some ErrNotFound \<and>
        {r \<in> rows_of (fmlookup (gs_m s)). gr_Subject r = subject \<and> gr_ClientID r = client} = {}
    | (Some b, e) \<Rightarrow> e = None \<and>
        b \<in> {r \<in> rows_of (fmlookup (gs_m s)). gr_Subject r = subject \<and> gr_ClientID r = client} \<and>
        gr_UpdatedAt b = Max (gr_UpdatedAt ` {r \<in> rows_of (fmlookup (gs_m s)). gr_Subject r = subject \<and> gr_ClientID r = client})"
proof -
  let ?R = "{r \<in> rows_of (fmlookup (gs_m s)). gr_Subject r = subject \<and> gr_ClientID r = client}"
  note rows = range_rows_set [OF assms]
  show ?thesis
  proof (cases "fold (latest_step subject client) (range_rows order (gs_m s)) None")
    case None
    with latest_fold(1) [of subject client "range_rows order (gs_m s)" None] rows show ?thesis
      by (auto simp: grantStore_FindBySubjectClient_def)
  next
    case (Some b)
    from latest_fold(2) [OF Some] rows have b: "b \<in> ?R" and max: "\<And>r. r \<in> ?R \<Longrightarrow> gr_UpdatedAt r \<le> gr_UpdatedAt b"
      by auto
    have "Max (gr_UpdatedAt ` ?R) = gr_UpdatedAt b"
      by (rule Max_eqI) (use b max in auto)
    with Some b show ?thesis
      by (simp add: grantStore_FindBySubjectClient_def)
  qed
qed

theorem grant_find_latest_witness:
  "\<exists>b. grantStore_FindBySubjectClient (ascending (gs_m sample_grants)) ''alice'' ''b'' sample_grants = (Some b, None) \<and>
       gr_ID b = ''g2''"
proof -
  have "{r \<in> rows_of (fmlookup (gs_m sample_grants)). gr_Subject r = ''alice'' \<and> gr_ClientID r = ''b''} =
      {sample_grant ''g2'' ''b'' 20}"
    unfolding sample_grants_rows by (auto simp: sample_grant_def)
  note singleton = this
  have "gr_ID (sample_grant ''g2'' ''b'' 20) = ''g2''"
    by (simp add: sample_grant_def)
  then show ?thesis
    using grant_find_latest [OF enumerates_ascending [of "gs_m sample_grants"], of "''alice''" "''b''"]
    unfolding singleton by (cases "grantStore_FindBySubjectClient (ascending (gs_m sample_grants)) ''alice'' ''b'' sample_grants")
      (simp split: option.splits)
qed


text \<open>The direct store refuses the second deletion, the transaction accepts it.\<close>

lemma grant_tx_second_delete:
  "fst (grantStore_Delete ''g1'' (snd (grantStore_Delete ''g1'' sample_grants))) = Some ErrNotFound \<and>
   fst (txGrants_Delete None sample_grants ''g1'' (snd (txGrants_Delete None sample_grants ''g1'' newGrantStaging))) = None"
  by (simp add: grantStore_Delete_def txGrants_Delete_def sample_grants_def newGrantStaging_def)

end
