(* ===== verification/ClaimsRequest.thy ===== *)
theory ClaimsRequest
  imports GrantStore
begin

text \<open>
  What a token says beyond its own fields. The claims request of OIDC Core 5.5 and the shape it has on a
  stored grant (\<^verbatim>\<open>internal/authorize/claims_request.go\<close>, \<^verbatim>\<open>claims_grant.go\<close>), the claims of a user record
  and the names a scope releases (\<^verbatim>\<open>internal/userclaims\<close>), and the state that belongs to one authorization
  (\<^verbatim>\<open>internal/tokens/authorization.go\<close>).

  A Go map with JSON values is written as the list of its entries in the order of the keys, so that
  \<^verbatim>\<open>reflect.DeepEqual\<close> on such maps is equality; an empty map and nil are the empty list. \<open>JNull\<close> is the nil
  value of \<^verbatim>\<open>any\<close>. A JSON number is an integer in the range of int64.
\<close>


section \<open>Claims requests\<close>

record ClaimSpec =
  cs_Essential :: bool
  cs_Value :: json
  cs_Values :: "json list"

record ClaimsRequest =
  cr_IDToken :: "(string \<times> ClaimSpec) list"
  cr_UserInfo :: "(string \<times> ClaimSpec) list"

definition zero_ClaimSpec :: ClaimSpec where
  "zero_ClaimSpec = \<lparr>cs_Essential = False, cs_Value = JNull, cs_Values = []\<rparr>"

text \<open>The specification under a name, and whether there is one.\<close>

definition ClaimsRequest_IDTokenSpec :: "string \<Rightarrow> ClaimsRequest option \<Rightarrow> ClaimSpec \<times> bool" where
  "ClaimsRequest_IDTokenSpec name c =
     (case c of
        None \<Rightarrow> (zero_ClaimSpec, False)
      | Some c \<Rightarrow> (case map_of (cr_IDToken c) name of None \<Rightarrow> (zero_ClaimSpec, False) | Some spec \<Rightarrow> (spec, True)))"

lemma size_zip_left: "(x, y) \<in> set (zip xs ys) \<Longrightarrow> size x < Suc (size_list size xs)"
  using size_list_estimation' [of x xs "size x" size] by (auto dest: set_zip_leftD)

lemma size_entry: "(k, v) \<in> set m \<Longrightarrow> size v < Suc (size_list (size_prod (\<lambda>x. 0) size) m)"
  using size_list_estimation' [of "(k, v)" m "size v" "size_prod (\<lambda>x. 0) size"] by auto

text \<open>The loop over a map compares its length first, then every entry with the entry of the other map.\<close>

function jsonEqual :: "json \<Rightarrow> json \<Rightarrow> bool" where
  "jsonEqual (JNumber i) b = (case b of JNumber j \<Rightarrow> i = j | _ \<Rightarrow> False)"
| "jsonEqual (JString s) b = (case b of JString t \<Rightarrow> s = t | _ \<Rightarrow> False)"
| "jsonEqual (JBool x) b = (case b of JBool y \<Rightarrow> x = y | _ \<Rightarrow> False)"
| "jsonEqual JNull b = (b = JNull)"
| "jsonEqual (JArray xs) b =
     (case b of JArray ys \<Rightarrow> length xs = length ys \<and> list_all (\<lambda>(x, y). jsonEqual x y) (zip xs ys) | _ \<Rightarrow> False)"
| "jsonEqual (JObject m) b =
     (case b of
        JObject n \<Rightarrow>
          length m = length n \<and>
          list_all (\<lambda>(k, v). case map_of n k of None \<Rightarrow> False | Some w \<Rightarrow> jsonEqual v w) m
      | _ \<Rightarrow> False)"
  by pat_completeness auto

termination jsonEqual
  by (relation "measure (\<lambda>(a, b). size a)") (auto intro: size_zip_left size_entry)

definition ClaimSpec_Allows :: "ClaimSpec \<Rightarrow> json \<Rightarrow> bool" where
  "ClaimSpec_Allows s v =
     (if cs_Value s \<noteq> JNull \<and> \<not> jsonEqual (cs_Value s) v then False
      else if cs_Values s \<noteq> [] then list_ex (\<lambda>candidate. jsonEqual candidate v) (cs_Values s)
      else True)"


subsection \<open>On a stored grant\<close>

definition claimsGrantKey :: string where "claimsGrantKey = ''request''"

definition encodeClaimSpec :: "ClaimSpec \<Rightarrow> json" where
  "encodeClaimSpec s =
     (if \<not> cs_Essential s \<and> cs_Value s = JNull \<and> cs_Values s = [] then JNull
      else JObject
        ((if cs_Essential s then [(''essential'', JBool True)] else [])
         @ (if cs_Value s \<noteq> JNull then [(''value'', cs_Value s)] else [])
         @ (if cs_Values s \<noteq> [] then [(''values'', JArray (cs_Values s))] else [])))"

definition encodeClaimsLocation :: "(string \<times> ClaimSpec) list \<Rightarrow> jobject" where
  "encodeClaimsLocation inp = map (\<lambda>(name, spec). (name, encodeClaimSpec spec)) inp"

definition EncodeClaimsToGrant :: "ClaimsRequest option \<Rightarrow> jobject" where
  "EncodeClaimsToGrant c =
     (case c of
        None \<Rightarrow> []
      | Some c \<Rightarrow>
          if cr_IDToken c = [] \<and> cr_UserInfo c = [] then []
          else [(claimsGrantKey, JObject
            ((if encodeClaimsLocation (cr_IDToken c) \<noteq> []
              then [(''id_token'', JObject (encodeClaimsLocation (cr_IDToken c)))] else [])
             @ (if encodeClaimsLocation (cr_UserInfo c) \<noteq> []
                then [(''userinfo'', JObject (encodeClaimsLocation (cr_UserInfo c)))] else [])))])"

definition decodeClaimSpec :: "json \<Rightarrow> ClaimSpec" where
  "decodeClaimSpec raw =
     (case raw of
        JObject body \<Rightarrow>
          \<lparr>cs_Essential = (case map_of body ''essential'' of Some (JBool b) \<Rightarrow> b | _ \<Rightarrow> False),
           cs_Value = (case map_of body ''value'' of Some v \<Rightarrow> v | None \<Rightarrow> JNull),
           cs_Values = (case map_of body ''values'' of Some (JArray vs) \<Rightarrow> vs | _ \<Rightarrow> [])\<rparr>
      | _ \<Rightarrow> zero_ClaimSpec)"

definition decodeClaimsLocation :: "json option \<Rightarrow> (string \<times> ClaimSpec) list" where
  "decodeClaimsLocation raw =
     (case raw of
        Some (JObject body) \<Rightarrow> map (\<lambda>(name, entry). (name, decodeClaimSpec entry)) body
      | _ \<Rightarrow> [])"

definition DecodeClaimsFromGrant :: "jobject \<Rightarrow> ClaimsRequest option" where
  "DecodeClaimsFromGrant g =
     (case map_of g claimsGrantKey of
        Some (JObject body) \<Rightarrow>
          let out = \<lparr>cr_IDToken = decodeClaimsLocation (map_of body ''id_token''),
                     cr_UserInfo = decodeClaimsLocation (map_of body ''userinfo'')\<rparr>
          in if cr_IDToken out = [] \<and> cr_UserInfo out = [] then None else Some out
      | _ \<Rightarrow> None)"


section \<open>The claims of a user\<close>

record User =
  us_Subject :: string
  us_Claims :: jobject
  us_UpdatedAt :: time

definition standardScopeClaims :: "string \<Rightarrow> string list" where
  "standardScopeClaims scope =
     (if scope = ''profile'' then
        [''name'', ''family_name'', ''given_name'', ''middle_name'', ''nickname'', ''preferred_username'',
         ''profile'', ''picture'', ''website'', ''gender'', ''birthdate'', ''zoneinfo'', ''locale'', ''updated_at'']
      else if scope = ''email'' then [''email'', ''email_verified'']
      else if scope = ''address'' then [''address'']
      else if scope = ''phone'' then [''phone_number'', ''phone_number_verified'']
      else [])"

text \<open>The set of names, each once.\<close>

definition ScopeClaimNames :: "string list \<Rightarrow> (string \<times> string list) list \<Rightarrow> string list" where
  "ScopeClaimNames scopes custom =
     remdups (concat (map (\<lambda>scope.
       case map_of custom scope of Some extras \<Rightarrow> extras | None \<Rightarrow> standardScopeClaims scope) scopes))"

text \<open>\<^verbatim>\<open>Unix()\<close> of an instant is \<open>unix\<close>, which the clock of the token package fixes.\<close>

definition userclaims_Source :: "(time \<Rightarrow> int) \<Rightarrow> User option \<Rightarrow> jobject" where
  "userclaims_Source unix u =
     (case u of
        None \<Rightarrow> []
      | Some u \<Rightarrow>
          if us_UpdatedAt u = zero_time then us_Claims u
          else if map_of (us_Claims u) ''updated_at'' \<noteq> None then us_Claims u
          else us_Claims u @ [(''updated_at'', JNumber (unix (us_UpdatedAt u)))])"


section \<open>The state of one authorization\<close>

record Authorization =
  az_AuthTime :: time
  az_ACR :: string
  az_AMR :: "string list"
  az_AuthorizationDetails :: "jobject list"
  az_Claims :: jobject

definition ContainsAuthorizationDetail :: "jobject list \<Rightarrow> jobject \<Rightarrow> bool" where
  "ContainsAuthorizationDetail ds el = list_ex (\<lambda>have. have = el) ds"

definition narrowAuthorizationDetails :: "jobject list \<Rightarrow> jobject list \<Rightarrow> jobject list" where
  "narrowAuthorizationDetails own granted =
     (if own = [] \<or> granted = [] then own else filter (ContainsAuthorizationDetail granted) own)"

definition fillFromGrant :: "Authorization \<Rightarrow> Grant \<Rightarrow> Authorization" where
  "fillFromGrant out g =
     \<lparr>az_AuthTime =
        (if az_AuthTime out = zero_time
         then (if gr_AuthTime g = zero_time then gr_UpdatedAt g else gr_AuthTime g) else az_AuthTime out),
      az_ACR = (if az_ACR out = [] then gr_ACR g else az_ACR out),
      az_AMR = (if az_AMR out = [] then gr_AMR g else az_AMR out),
      az_AuthorizationDetails =
        (if gr_AuthorizationDetails g \<noteq> [] then gr_AuthorizationDetails g else az_AuthorizationDetails out),
      az_Claims = (if gr_Claims g \<noteq> [] then gr_Claims g else az_Claims out)\<rparr>"

definition ResolveAuthorization :: "Authorization \<Rightarrow> bool \<Rightarrow> Grant option \<Rightarrow> string \<Rightarrow> Authorization" where
  "ResolveAuthorization own recorded g clientID =
     (case g of
        None \<Rightarrow> own
      | Some g \<Rightarrow>
          if gr_ClientID g \<noteq> clientID then own
          else if \<not> recorded then fillFromGrant own g
          else own\<lparr>az_AuthorizationDetails :=
                 narrowAuthorizationDetails (az_AuthorizationDetails own) (gr_AuthorizationDetails g)\<rparr>)"


section \<open>Lemmas\<close>

lemma decode_encode_spec: "decodeClaimSpec (encodeClaimSpec s) = s"
  by (cases s) (auto simp: encodeClaimSpec_def decodeClaimSpec_def zero_ClaimSpec_def)

lemma decode_encode_location: "decodeClaimsLocation (Some (JObject (encodeClaimsLocation l))) = l"
  by (induction l) (auto simp: decodeClaimsLocation_def encodeClaimsLocation_def decode_encode_spec)

lemma decodeClaimsLocation_None: "decodeClaimsLocation None = []"
  by (simp add: decodeClaimsLocation_def)

lemma encodeClaimsLocation_Nil [simp]: "encodeClaimsLocation l = [] \<longleftrightarrow> l = []"
  by (simp add: encodeClaimsLocation_def)

lemma ContainsAuthorizationDetail_iff [simp]: "ContainsAuthorizationDetail ds el \<longleftrightarrow> el \<in> set ds"
  by (auto simp: ContainsAuthorizationDetail_def list_ex_iff)

lemma narrow_subset: "set (narrowAuthorizationDetails own granted) \<subseteq> set own"
  by (auto simp: narrowAuthorizationDetails_def)

text \<open>
  A well-formed JSON value: the entries of an object have different keys. On such values the comparison
  is reflexive, so a claim that is asked for with the value the user has is released.
\<close>

fun json_wf :: "json \<Rightarrow> bool" where
  "json_wf (JArray xs) = list_all json_wf xs"
| "json_wf (JObject m) = (distinct (map fst m) \<and> list_all (\<lambda>(k, v). json_wf v) m)"
| "json_wf _ = True"

lemma jsonEqual_refl: "json_wf v \<Longrightarrow> jsonEqual v v"
proof (induction v)
  case (JArray xs)
  have "jsonEqual x y" if "(x, y) \<in> set (zip xs xs)" for x y
  proof -
    from that have "x = y" "x \<in> set xs" by (auto simp: set_zip)
    with JArray show ?thesis by (simp add: list_all_iff)
  qed
  then show ?case by (simp add: list_all_iff split_beta)
next
  case (JObject m)
  have "map_of m k = Some v \<and> jsonEqual v v" if "(k, v) \<in> set m" for k v
    using that JObject.prems JObject.IH [of "(k, v)" v] by (auto simp: list_all_iff)
  then show ?case by (auto simp: list_all_iff)
qed simp_all

text \<open>
  C38. A claims request survives the grant it is stored on: what is read back from the stored form of a
  request that names at least one claim is that request.
\<close>

theorem claims_request_roundtrip:
  assumes "cr_IDToken c \<noteq> [] \<or> cr_UserInfo c \<noteq> []"
  shows "DecodeClaimsFromGrant (EncodeClaimsToGrant (Some c)) = Some c"
proof (cases "cr_IDToken c = []")
  case True
  with assms show ?thesis
    by (simp add: DecodeClaimsFromGrant_def EncodeClaimsToGrant_def decode_encode_location decodeClaimsLocation_None Let_def)
next
  case False
  then show ?thesis
    by (cases "cr_UserInfo c = []")
      (simp_all add: DecodeClaimsFromGrant_def EncodeClaimsToGrant_def decode_encode_location decodeClaimsLocation_None Let_def)
qed

definition sample_request :: ClaimsRequest where
  "sample_request =
     \<lparr>cr_IDToken = [(''acr'', \<lparr>cs_Essential = True, cs_Value = JNull, cs_Values = [JString ''urn:mfa'']\<rparr>)],
      cr_UserInfo = [(''email'', zero_ClaimSpec)]\<rparr>"

theorem claims_request_roundtrip_witness:
  "EncodeClaimsToGrant (Some sample_request) \<noteq> [] \<and>
   DecodeClaimsFromGrant (EncodeClaimsToGrant (Some sample_request)) = Some sample_request"
  using claims_request_roundtrip [of sample_request]
  by (simp add: sample_request_def EncodeClaimsToGrant_def)

text \<open>
  C39. A later consent never widens what an artifact was issued with: the state an artifact recorded is
  what it is resolved to, whatever the grant has become, with its authorization_details at most
  narrowed; and a grant of another client changes nothing, recorded or not.
\<close>

theorem recorded_authorization_not_widened:
  "(recorded \<longrightarrow>
      az_AuthTime (ResolveAuthorization own recorded g clientID) = az_AuthTime own
      \<and> az_ACR (ResolveAuthorization own recorded g clientID) = az_ACR own
      \<and> az_AMR (ResolveAuthorization own recorded g clientID) = az_AMR own
      \<and> az_Claims (ResolveAuthorization own recorded g clientID) = az_Claims own
      \<and> set (az_AuthorizationDetails (ResolveAuthorization own recorded g clientID))
          \<subseteq> set (az_AuthorizationDetails own))
   \<and> ((\<forall>r. g = Some r \<longrightarrow> gr_ClientID r \<noteq> clientID) \<longrightarrow> ResolveAuthorization own recorded g clientID = own)"
  using narrow_subset by (auto simp: ResolveAuthorization_def split: option.splits)

definition sample_authorization :: Authorization where
  "sample_authorization =
     \<lparr>az_AuthTime = second, az_ACR = ''a'', az_AMR = [''pwd''],
      az_AuthorizationDetails = [[(''type'', JString ''x'')], [(''type'', JString ''y'')]], az_Claims = []\<rparr>"

definition sample_consent :: Grant where
  "sample_consent =
     \<lparr>gr_ID = ''g1'', gr_Subject = ''alice'', gr_ClientID = ''c1'', gr_Scope = [''openid''], gr_Claims = [],
      gr_AuthTime = 2 * second, gr_ACR = ''b'', gr_AMR = [], gr_AuthorizationDetails = [[(''type'', JString ''y'')]],
      gr_CreatedAt = second, gr_UpdatedAt = second\<rparr>"

theorem recorded_authorization_not_widened_witness:
  "az_ACR (ResolveAuthorization sample_authorization True (Some sample_consent) ''c1'') = ''a''
   \<and> az_AuthorizationDetails (ResolveAuthorization sample_authorization True (Some sample_consent) ''c1'')
       = [[(''type'', JString ''y'')]]
   \<and> ResolveAuthorization sample_authorization False (Some sample_consent) ''c2'' = sample_authorization"
  using recorded_authorization_not_widened [of True sample_authorization "Some sample_consent" "''c1''"]
    recorded_authorization_not_widened [of False sample_authorization "Some sample_consent" "''c2''"]
  by (simp add: sample_authorization_def sample_consent_def ResolveAuthorization_def narrowAuthorizationDetails_def)

end
