(* ===== verification/Digest512.thy ===== *)
theory Digest512
  imports Digest
begin

text \<open>
  \<^verbatim>\<open>sha512.Sum512\<close> and \<^verbatim>\<open>sha512.Sum384\<close> of Go's standard library (FIPS 180-4, on 64-bit words), which the
  hash claims of an id_token use next to \<^verbatim>\<open>sha256.Sum256\<close>, and the lengths of the digests.
\<close>

unbundle bit_operations_syntax

type_synonym word64 = "64 word"

definition sha5_rotr :: "nat \<Rightarrow> word64 \<Rightarrow> word64" where
  "sha5_rotr n x = drop_bit n x OR push_bit (64 - n) x"

definition sha5_Ch :: "word64 \<Rightarrow> word64 \<Rightarrow> word64 \<Rightarrow> word64" where
  "sha5_Ch x y z = (x AND y) XOR (NOT x AND z)"

definition sha5_Maj :: "word64 \<Rightarrow> word64 \<Rightarrow> word64 \<Rightarrow> word64" where
  "sha5_Maj x y z = (x AND y) XOR (x AND z) XOR (y AND z)"

definition sha5_Sigma0 :: "word64 \<Rightarrow> word64" where
  "sha5_Sigma0 x = sha5_rotr 28 x XOR sha5_rotr 34 x XOR sha5_rotr 39 x"

definition sha5_Sigma1 :: "word64 \<Rightarrow> word64" where
  "sha5_Sigma1 x = sha5_rotr 14 x XOR sha5_rotr 18 x XOR sha5_rotr 41 x"

definition sha5_sigma0 :: "word64 \<Rightarrow> word64" where
  "sha5_sigma0 x = sha5_rotr 1 x XOR sha5_rotr 8 x XOR drop_bit 7 x"

definition sha5_sigma1 :: "word64 \<Rightarrow> word64" where
  "sha5_sigma1 x = sha5_rotr 19 x XOR sha5_rotr 61 x XOR drop_bit 6 x"

text \<open>
  The round constants and the two initial states: the first 64 bits of the fractional parts of the
  cube roots of the first 80 primes, of the square roots of the first 8 and of the next 8, in decimal.
\<close>

definition sha5_K :: "word64 list" where
  "sha5_K =
    [4794697086780616226, 8158064640168781261, 13096744586834688815, 16840607885511220156,
     4131703408338449720, 6480981068601479193, 10538285296894168987, 12329834152419229976,
     15566598209576043074, 1334009975649890238, 2608012711638119052, 6128411473006802146,
     8268148722764581231, 9286055187155687089, 11230858885718282805, 13951009754708518548,
     16472876342353939154, 17275323862435702243, 1135362057144423861, 2597628984639134821,
     3308224258029322869, 5365058923640841347, 6679025012923562964, 8573033837759648693,
     10970295158949994411, 12119686244451234320, 12683024718118986047, 13788192230050041572,
     14330467153632333762, 15395433587784984357, 489312712824947311, 1452737877330783856,
     2861767655752347644, 3322285676063803686, 5560940570517711597, 5996557281743188959,
     7280758554555802590, 8532644243296465576, 9350256976987008742, 10552545826968843579,
     11727347734174303076, 12113106623233404929, 14000437183269869457, 14369950271660146224,
     15101387698204529176, 15463397548674623760, 17586052441742319658, 1182934255886127544,
     1847814050463011016, 2177327727835720531, 2830643537854262169, 3796741975233480872,
     4115178125766777443, 5681478168544905931, 6601373596472566643, 7507060721942968483,
     8399075790359081724, 8693463985226723168, 9568029438360202098, 10144078919501101548,
     10430055236837252648, 11840083180663258601, 13761210420658862357, 14299343276471374635,
     14566680578165727644, 15097957966210449927, 16922976911328602910, 17689382322260857208,
     500013540394364858, 748580250866718886, 1242879168328830382, 1977374033974150939,
     2944078676154940804, 3659926193048069267, 4368137639120453308, 4836135668995329356,
     5532061633213252278, 6448918945643986474, 6902733635092675308, 7801388544844847127]"

definition sha512_H0 :: "word64 list" where
  "sha512_H0 =
    [7640891576956012808, 13503953896175478587, 4354685564936845355, 11912009170470909681,
     5840696475078001361, 11170449401992604703, 2270897969802886507, 6620516959819538809]"

definition sha384_H0 :: "word64 list" where
  "sha384_H0 =
    [14680500436340154072, 7105036623409894663, 10473403895298186519, 1526699215303891257,
     7436329637833083697, 10282925794625328401, 15784041429090275239, 5167115440072839076]"

fun sha5_round :: "word64 list \<Rightarrow> word64 \<times> word64 \<Rightarrow> word64 list" where
  "sha5_round [a, b, c, d, e, f, g, h] (k, w) =
     (let t1 = h + sha5_Sigma1 e + sha5_Ch e f g + k + w;
          t2 = sha5_Sigma0 a + sha5_Maj a b c
      in [t1 + t2, a, b, c, d + t1, e, f, g])"
| "sha5_round xs _ = xs"

fun sha5_expand :: "nat \<Rightarrow> word64 list \<Rightarrow> word64 list" where
  "sha5_expand 0 ws = ws"
| "sha5_expand (Suc n) ws =
     (case ws of
        [] \<Rightarrow> []
      | w # rest \<Rightarrow>
          w # sha5_expand n (rest @ [sha5_sigma1 (ws ! 14) + ws ! 9 + sha5_sigma0 (ws ! 1) + w]))"

definition sha5_block :: "word64 list \<Rightarrow> word64 list \<Rightarrow> word64 list" where
  "sha5_block h ws = map2 (+) h (foldl sha5_round h (zip sha5_K (sha5_expand 64 ws)))"

fun sha5_blocks :: "nat \<Rightarrow> word64 list \<Rightarrow> word64 list \<Rightarrow> word64 list" where
  "sha5_blocks 0 h ws = h"
| "sha5_blocks (Suc n) h ws = sha5_blocks n (sha5_block h (take 16 ws)) (drop 16 ws)"

fun sha5_words :: "byte list \<Rightarrow> word64 list" where
  "sha5_words (a # b # c # d # e # f # g # h # xs) =
     (push_bit 56 (ucast a) OR push_bit 48 (ucast b) OR push_bit 40 (ucast c) OR push_bit 32 (ucast d)
      OR push_bit 24 (ucast e) OR push_bit 16 (ucast f) OR push_bit 8 (ucast g) OR ucast h)
     # sha5_words xs"
| "sha5_words _ = []"

text \<open>The length field has sixteen bytes; the upper eight are zero for every slice Go can hold.\<close>

definition sha5_pad :: "byte list \<Rightarrow> byte list" where
  "sha5_pad m =
     (let l = length m
      in m @ [128] @ replicate ((239 - l mod 128) mod 128) 0 @ replicate 8 0 @ sha_bytes64 (8 * of_nat l))"

definition sha5_sum :: "word64 list \<Rightarrow> byte list \<Rightarrow> byte list" where
  "sha5_sum h0 m =
     (let ws = sha5_words (sha5_pad m)
      in concat (map sha_bytes64 (sha5_blocks (length ws div 16) h0 ws)))"

definition sha512_Sum512 :: "byte list \<Rightarrow> byte list" where
  "sha512_Sum512 m = sha5_sum sha512_H0 m"

definition sha512_Sum384 :: "byte list \<Rightarrow> byte list" where
  "sha512_Sum384 m = take 48 (sha5_sum sha384_H0 m)"


section \<open>The lengths of the digests\<close>

lemma length_sha5_round: "length (sha5_round h kw) = length h"
  by (cases "(h, kw)" rule: sha5_round.cases) (simp_all add: Let_def)

lemma length_sha5_rounds: "length (foldl sha5_round h kws) = length h"
  by (induction kws arbitrary: h) (simp_all add: length_sha5_round)

lemma length_sha5_blocks: "length (sha5_blocks n h ws) = length h"
  by (induction n h ws rule: sha5_blocks.induct) (simp_all add: sha5_block_def length_sha5_rounds)

lemma length_sha5_sum: "length (sha5_sum h m) = 8 * length h"
  by (simp add: sha5_sum_def length_concat comp_def sha_bytes64_def length_sha5_blocks sum_list_triv Let_def)

lemma length_sha512 [simp]: "length (sha512_Sum512 m) = 64" "length (sha512_Sum384 m) = 48"
  by (simp_all add: sha512_Sum512_def sha512_Sum384_def length_sha5_sum sha512_H0_def sha384_H0_def)

end
