(* ===== verification/Indexes.thy ===== *)
theory Indexes
  imports Store_Common
begin

text \<open>
  Secondary indexes of the in-memory adapter and the breadth-first walk over them: \<^verbatim>\<open>refreshIndex\<close> with
  \<^verbatim>\<open>add\<close> and \<^verbatim>\<open>remove\<close> (\<^verbatim>\<open>inmem/refreshstore.go\<close>), and the worklist loop that \<^verbatim>\<open>revokeChainLocked\<close> and
  \<^verbatim>\<open>markChainStaged\<close> share. An index is correct for a map of records when the keys it holds under a
  value are exactly the keys of the records with this attribute; the walk visits exactly the keys
  that are reachable from its root, each once.
\<close>

type_synonym refreshIndex = "key fset gomap"

definition refreshIndex_add :: "string \<Rightarrow> key \<Rightarrow> refreshIndex \<Rightarrow> refreshIndex" where
  "refreshIndex_add v i idx =
     (if v = [] then idx else fmupd v (finsert i (gm_set idx v)) idx)"

definition refreshIndex_remove :: "string \<Rightarrow> key \<Rightarrow> refreshIndex \<Rightarrow> refreshIndex" where
  "refreshIndex_remove v i idx =
     (case fmlookup idx v of
        None \<Rightarrow> idx
      | Some ids \<Rightarrow>
          let ids = ids |-| {|i|}
          in if ids = {||} then fmdrop v idx else fmupd v ids idx)"

lemma gm_set_refreshIndex_add [simp]:
  "gm_set (refreshIndex_add v i idx) w =
     (if w = v \<and> v \<noteq> [] then finsert i (gm_set idx v) else gm_set idx w)"
  by (simp add: refreshIndex_add_def)

lemma gm_set_refreshIndex_remove [simp]:
  "gm_set (refreshIndex_remove v i idx) w =
     (if w = v then gm_set idx v |-| {|i|} else gm_set idx w)"
  by (auto simp: refreshIndex_remove_def gm_set_def Let_def split: option.splits)


section \<open>Correct indexes\<close>

text \<open>
  \<open>attr r\<close> is the value a record is filed under, None when it is not filed (an empty identifier, a
  record without parent).
\<close>

definition index_ok :: "('v \<Rightarrow> string option) \<Rightarrow> (key \<Rightarrow> 'v option) \<Rightarrow> refreshIndex \<Rightarrow> bool" where
  "index_ok attr M idx \<longleftrightarrow>
     (\<forall>v k. k |\<in>| gm_set idx v \<longleftrightarrow> (\<exists>r. M k = Some r \<and> attr r = Some v))"

definition nonempty :: "string \<Rightarrow> string option" where
  "nonempty v = (if v = [] then None else Some v)"

lemma nonempty_Some [simp]: "nonempty v = Some w \<longleftrightarrow> v = w \<and> w \<noteq> []"
  by (auto simp: nonempty_def)

lemma index_okD: "index_ok attr M idx \<Longrightarrow> k |\<in>| gm_set idx v \<longleftrightarrow> (\<exists>r. M k = Some r \<and> attr r = Some v)"
  by (simp add: index_ok_def)

lemma index_ok_empty [simp]: "index_ok attr (\<lambda>k. None) fmempty"
  by (simp add: index_ok_def)

lemma index_ok_fmempty [simp]: "index_ok attr (fmlookup fmempty) fmempty"
  by (simp add: index_ok_def)

lemma index_ok_add:
  assumes "index_ok attr M idx" and "M k = None" and "attr r = nonempty v"
  shows "index_ok attr (M(k \<mapsto> r)) (refreshIndex_add v k idx)"
  using assms by (auto simp: index_ok_def)

lemma index_ok_unfiled:
  assumes "index_ok attr M idx" and "M k = None" and "attr r = None"
  shows "index_ok attr (M(k \<mapsto> r)) idx"
  using assms by (auto simp: index_ok_def)

lemma index_ok_same_attr:
  assumes "index_ok attr M idx" and "\<And>k. map_option attr (N k) = map_option attr (M k)"
  shows "index_ok attr N idx"
proof (unfold index_ok_def, intro allI)
  fix v k
  have "k |\<in>| gm_set idx v \<longleftrightarrow> map_option attr (M k) = Some (Some v)"
    using index_okD [OF assms(1), of k v] by auto
  then show "k |\<in>| gm_set idx v \<longleftrightarrow> (\<exists>r. N k = Some r \<and> attr r = Some v)"
    unfolding assms(2) [symmetric] by auto
qed

lemma index_ok_remove:
  assumes "index_ok attr M idx" and "M k = Some r" and "attr r = nonempty v"
  shows "index_ok attr (M(k := None)) (refreshIndex_remove v k idx)"
  using assms unfolding index_ok_def by auto


section \<open>The breadth-first walk\<close>

text \<open>
  The loop body of the walk over the children of one key, \<open>for childKey := range children\<close>: a child
  seen before is skipped; a new one is marked, stamped and queued.
\<close>

fun visit_children ::
  "(key \<Rightarrow> 'm \<Rightarrow> 'm) \<Rightarrow> key list \<Rightarrow> key fset \<times> key list \<times> 'm \<Rightarrow> key fset \<times> key list \<times> 'm" where
  "visit_children stamp [] st = st"
| "visit_children stamp (c # cs) (seen, queue, m) =
     (if c |\<in>| seen then visit_children stamp cs (seen, queue, m)
      else visit_children stamp cs (finsert c seen, queue @ [c], stamp c m))"

text \<open>The children of a key in one or more indexes, in the order the walk ranges over them.\<close>

definition children_of :: "refreshIndex list \<Rightarrow> key \<Rightarrow> key list" where
  "children_of idxs p = concat (map (\<lambda>idx. sorted_list_of_fset (gm_set idx p)) idxs)"

definition index_range :: "refreshIndex list \<Rightarrow> key fset" where
  "index_range idxs = ffUnion (fset_of_list (map (\<lambda>idx. ffUnion (fmran idx)) idxs))"

lemma fset_of_list_iff [simp]: "x |\<in>| fset_of_list xs \<longleftrightarrow> x \<in> set xs"
  by (simp add: fset_of_list.rep_eq)

lemma sorted_list_of_fset_empty [simp]: "sorted_list_of_fset {||} = []"
  by (simp add: sorted_list_of_fset.rep_eq)

lemma distinct_sorted_list_of_fset [simp]: "distinct (sorted_list_of_fset A)"
  by (simp add: sorted_list_of_fset.rep_eq)

lemma set_children_of [simp]: "set (children_of idxs p) = (\<Union>idx\<in>set idxs. fset (gm_set idx p))"
  by (simp add: children_of_def)

lemma children_in_range: "c \<in> set (children_of idxs p) \<Longrightarrow> c |\<in>| index_range idxs"
proof -
  assume "c \<in> set (children_of idxs p)"
  then obtain idx ids where "idx \<in> set idxs" and "fmlookup idx p = Some ids" and "c |\<in>| ids"
    by (auto simp: gm_set_def split: option.splits)
  moreover from this have "ids |\<in>| fmran idx"
    by (intro fmranI)
  ultimately show ?thesis
    unfolding index_range_def ffUnion.rep_eq by (auto simp: ffUnion.rep_eq)
qed

lemma visit_children_spec:
  "\<exists>ns. visit_children stamp cs (seen, queue, m) =
          (seen |\<union>| fset_of_list ns, queue @ ns, fold stamp ns m)
        \<and> distinct ns \<and> set ns = set cs - fset seen"
proof (induction cs arbitrary: seen queue m)
  case (Cons c cs)
  show ?case
  proof (cases "c |\<in>| seen")
    case True
    with Cons.IH [of seen queue m] show ?thesis by (auto simp: insert_Diff_if)
  next
    case False
    obtain ns where
      "visit_children stamp cs (finsert c seen, queue @ [c], stamp c m) =
         (finsert c seen |\<union>| fset_of_list ns, queue @ [c] @ ns, fold stamp ns (stamp c m))"
      and "distinct ns" and "set ns = set cs - fset (finsert c seen)"
      using Cons.IH [of "finsert c seen" "queue @ [c]" "stamp c m"] by auto
    with False show ?thesis
      by (intro exI [of _ "c # ns"]) auto
  qed
qed simp

function chain_bfs ::
  "refreshIndex list \<Rightarrow> (key \<Rightarrow> 'm \<Rightarrow> 'm) \<Rightarrow> key fset \<Rightarrow> key list \<Rightarrow> 'm \<Rightarrow> 'm" where
  "chain_bfs idxs stamp seen [] m = m"
| "chain_bfs idxs stamp seen (p # queue) m =
     (case visit_children stamp (children_of idxs p) (seen, queue, m) of
        (seen, queue, m) \<Rightarrow> chain_bfs idxs stamp seen queue m)"
  by pat_completeness auto

text \<open>A step removes one key of the queue and adds only keys of the indexes that were not seen.\<close>

lemma bfs_measure_decreases:
  assumes "visit_children stamp (children_of idxs p) (seen, queue, m) = (seen', queue', m')"
  shows "2 * fcard (index_range idxs |-| seen') + length queue' <
         2 * fcard (index_range idxs |-| seen) + length (p # queue)"
proof -
  obtain ns where seen': "seen' = seen |\<union>| fset_of_list ns" and queue': "queue' = queue @ ns"
    and dist: "distinct ns" and ns: "set ns = set (children_of idxs p) - fset seen"
    using visit_children_spec [of stamp "children_of idxs p" seen queue m] assms by auto
  let ?U = "fset (index_range idxs)" and ?S = "fset seen"
  have "set ns \<subseteq> ?U - ?S"
    using ns children_in_range [of _ idxs p] by auto
  moreover have "finite (?U - ?S)"
    by simp
  ultimately have "card (?U - ?S - set ns) + card (set ns) = card (?U - ?S)"
    by (metis card_Diff_subset card_mono finite_set le_add_diff_inverse2)
  moreover have "fcard (index_range idxs |-| seen') = card (?U - ?S - set ns)"
    by (simp add: fcard.rep_eq seen' fset_of_list.rep_eq Diff_Diff_Int set_diff_eq Un_iff conj_assoc)
  moreover have "card (set ns) = length ns"
    using dist by (rule distinct_card)
  ultimately show ?thesis
    by (simp add: fcard.rep_eq queue')
qed

termination chain_bfs
  apply (relation "measure (\<lambda>(idxs, stamp, seen, queue, m).
    2 * fcard (index_range idxs |-| seen) + length queue)")
   apply simp
  subgoal for idxs stamp seen p queue m
    using bfs_measure_decreases [of stamp idxs p seen queue m] by (simp split: prod.splits)
  done


section \<open>The walk visits exactly the reachable keys\<close>

definition child_in :: "refreshIndex list \<Rightarrow> key \<Rightarrow> key \<Rightarrow> bool" where
  "child_in idxs p c \<longleftrightarrow> c \<in> set (children_of idxs p)"

lemma closed_reach:
  assumes "\<And>x y. x \<in> A \<Longrightarrow> R x y \<Longrightarrow> y \<in> A" and "R\<^sup>*\<^sup>* x y" and "x \<in> A"
  shows "y \<in> A"
  using assms(2,3) by (induction rule: rtranclp_induct) (auto intro: assms(1))

lemma chain_bfs_visits:
  assumes "set queue \<subseteq> fset seen"
    and "\<forall>x y. x |\<in>| seen \<longrightarrow> x \<notin> set queue \<longrightarrow> child_in idxs x y \<longrightarrow> y |\<in>| seen"
  shows "\<exists>ks. chain_bfs idxs stamp seen queue m = fold stamp ks m \<and> distinct ks
           \<and> set ks = {y. \<exists>x. x |\<in>| seen \<and> (child_in idxs)\<^sup>*\<^sup>* x y} - fset seen"
  using assms
proof (induction idxs stamp seen queue m rule: chain_bfs.induct)
  case (1 idxs stamp seen m)
  have "y |\<in>| seen" if "x |\<in>| seen" and "(child_in idxs)\<^sup>*\<^sup>* x y" for x y
    using closed_reach [of "fset seen" "child_in idxs" x y] that "1.prems"(2) by auto
  then have "{y. \<exists>x. x |\<in>| seen \<and> (child_in idxs)\<^sup>*\<^sup>* x y} - fset seen = {}"
    by auto
  then show ?case by (intro exI [of _ "[]"]) simp
next
  case (2 idxs stamp seen p queue m)
  obtain ns where visit: "visit_children stamp (children_of idxs p) (seen, queue, m) =
          (seen |\<union>| fset_of_list ns, queue @ ns, fold stamp ns m)"
    and dist: "distinct ns" and ns: "set ns = set (children_of idxs p) - fset seen"
    using visit_children_spec [of stamp "children_of idxs p" seen queue m] by blast
  let ?seen = "seen |\<union>| fset_of_list ns"
  have mem [simp]: "x |\<in>| ?seen \<longleftrightarrow> x |\<in>| seen \<or> x \<in> set ns" for x
    by (simp add: fset_of_list.rep_eq)
  have sub: "set (queue @ ns) \<subseteq> fset ?seen"
    using "2.prems"(1) by (auto simp: fset_of_list.rep_eq)
  have "y |\<in>| ?seen"
    if "x |\<in>| ?seen" and "x \<notin> set (queue @ ns)" and "child_in idxs x y" for x y
  proof (cases "x = p")
    case True
    with that(3) ns show ?thesis by (auto simp: child_in_def)
  next
    case False
    with that "2.prems"(2) show ?thesis by auto
  qed
  then have closed: "\<forall>x y. x |\<in>| ?seen \<longrightarrow> x \<notin> set (queue @ ns) \<longrightarrow> child_in idxs x y \<longrightarrow> y |\<in>| ?seen"
    by blast
  obtain ks where ks: "chain_bfs idxs stamp ?seen (queue @ ns) (fold stamp ns m) =
        fold stamp ks (fold stamp ns m)"
    and dks: "distinct ks"
    and set_ks: "set ks = {y. \<exists>x. x |\<in>| ?seen \<and> (child_in idxs)\<^sup>*\<^sup>* x y} - fset ?seen"
    using "2.IH" [OF visit [symmetric] refl sub closed] by blast
  have "(\<exists>x. x |\<in>| ?seen \<and> (child_in idxs)\<^sup>*\<^sup>* x y) \<longleftrightarrow> (\<exists>x. x |\<in>| seen \<and> (child_in idxs)\<^sup>*\<^sup>* x y)"
    for y
  proof -
    have "(child_in idxs)\<^sup>*\<^sup>* p y" if "x \<in> set ns" and "(child_in idxs)\<^sup>*\<^sup>* x y" for x
      using that ns by (intro converse_rtranclp_into_rtranclp [of _ p x]) (auto simp: child_in_def)
    moreover have "p |\<in>| seen"
      using "2.prems"(1) by simp
    ultimately show ?thesis by auto
  qed
  moreover have "set ns \<subseteq> {y. \<exists>x. x |\<in>| seen \<and> (child_in idxs)\<^sup>*\<^sup>* x y}"
    using ns "2.prems"(1) by (auto simp: child_in_def intro!: exI [of _ p] r_into_rtranclp)
  ultimately have "set (ns @ ks) = {y. \<exists>x. x |\<in>| seen \<and> (child_in idxs)\<^sup>*\<^sup>* x y} - fset seen"
    using set_ks ns by auto
  moreover have "set ks \<inter> set ns = {}"
    unfolding set_ks by auto
  then have "distinct (ns @ ks)"
    using dist dks by auto
  moreover have "chain_bfs idxs stamp seen (p # queue) m = fold stamp (ns @ ks) m"
    using visit ks by simp
  ultimately show ?case by blast
qed

lemma chain_bfs_root:
  obtains ks where "chain_bfs idxs stamp {|root|} [root] m = fold stamp ks m" and "distinct ks"
    and "set ks = {y. (child_in idxs)\<^sup>*\<^sup>* root y} - {root}"
  using chain_bfs_visits [of "[root]" "{|root|}" idxs stamp m] by auto

end
