(* ===== verification/RefreshStore.thy ===== *)
theory RefreshStore
  imports Indexes
begin

text \<open>
  The refresh-token substore: the record of \<^verbatim>\<open>op/store/refresh.go\<close> and the direct operations of
  \<^verbatim>\<open>op/storeadapter/inmem/refreshstore.go\<close>, with its three secondary indexes and the sealed retry
  responses. The abstract specification is a map from digests to records on which a chain is what
  the parent links of the records say; every operation implements it.
\<close>

type_synonym RefreshTokenOrigin = string

definition RefreshOriginAuthCode :: RefreshTokenOrigin where
  "RefreshOriginAuthCode = ''authcode''"

definition RefreshOriginCustomGrant :: RefreshTokenOrigin where
  "RefreshOriginCustomGrant = ''custom_grant''"

definition RefreshOriginDeviceCode :: RefreshTokenOrigin where
  "RefreshOriginDeviceCode = ''device_code''"

definition RefreshOriginCIBA :: RefreshTokenOrigin where
  "RefreshOriginCIBA = ''ciba''"

record RefreshToken =
  rt_ID :: string
  rt_ClientID :: string
  rt_Subject :: string
  rt_SubjectPublic :: bool
  rt_GrantID :: string
  rt_Scope :: "string list"
  rt_Resource :: string
  rt_Origin :: RefreshTokenOrigin
  rt_AuthTime :: time
  rt_ACR :: string
  rt_AMR :: "string list"
  rt_AuthorizationDetails :: "jobject list"
  rt_Claims :: jobject
  rt_AuthorizationRecorded :: bool
  rt_AccessTokenExtra :: jobject
  rt_ParentID :: "string option"
  rt_ConsumedAt :: "time option"
  rt_ExpiresAt :: time
  rt_CreatedAt :: time
  rt_DPoPJKT :: string
  rt_MTLSCertThumbprint :: string
  rt_Nonce :: string
  rt_ChainID :: string
  rt_Revoked :: bool

record retryResponse =
  rr_sealed :: "byte list"
  rr_expiresAt :: time

record refreshStore =
  rs_m :: "RefreshToken gomap"
  rs_byClient :: refreshIndex
  rs_byGrant :: refreshIndex
  rs_byParent :: refreshIndex
  rs_retries :: "retryResponse gomap"
  rs_retriesSinceGC :: "32 word"

definition newRefreshStore :: refreshStore where
  "newRefreshStore =
     \<lparr>rs_m = fmempty, rs_byClient = fmempty, rs_byGrant = fmempty, rs_byParent = fmempty,
      rs_retries = fmempty, rs_retriesSinceGC = 0\<rparr>"

definition retryReclaimable :: "retryResponse \<Rightarrow> time \<Rightarrow> bool" where
  "retryReclaimable rec now = IsExpiredStrict (rr_expiresAt rec) now"

definition storeRefresh :: "RefreshToken \<Rightarrow> key \<Rightarrow> RefreshToken" where
  "storeRefresh token key = token\<lparr>rt_ID := key\<rparr>"

definition refreshStore_indexRefreshLocked ::
  "key \<Rightarrow> RefreshToken \<Rightarrow> refreshStore \<Rightarrow> refreshStore" where
  "refreshStore_indexRefreshLocked i rec s =
     (let s = s\<lparr>rs_byClient := refreshIndex_add (rt_ClientID rec) i (rs_byClient s)\<rparr>;
          s = s\<lparr>rs_byGrant := refreshIndex_add (rt_GrantID rec) i (rs_byGrant s)\<rparr>
      in case rt_ParentID rec of
           None \<Rightarrow> s
         | Some p \<Rightarrow> s\<lparr>rs_byParent := refreshIndex_add (hashKey p) i (rs_byParent s)\<rparr>)"

definition refreshStore_assertParentAliveLocked ::
  "string option \<Rightarrow> refreshStore \<Rightarrow> store_err option" where
  "refreshStore_assertParentAliveLocked parentID s =
     (case parentID of
        None \<Rightarrow> None
      | Some p \<Rightarrow>
          (case fmlookup (rs_m s) (hashKey p) of
             Some parent \<Rightarrow> if rt_Revoked parent then Some ErrAlreadyConsumed else None
           | None \<Rightarrow> None))"

definition refreshStore_Save ::
  "RefreshToken option \<Rightarrow> refreshStore \<Rightarrow> store_err option \<times> refreshStore" where
  "refreshStore_Save token s =
     (case token of
        None \<Rightarrow> (Some (ErrOther ''inmem: nil refresh token''), s)
      | Some t \<Rightarrow>
          let key = hashKey (rt_ID t)
          in if fmlookup (rs_m s) key \<noteq> None then (Some ErrAlreadyExists, s)
             else
               (case refreshStore_assertParentAliveLocked (rt_ParentID t) s of
                  Some e \<Rightarrow> (Some e, s)
                | None \<Rightarrow>
                    let stored = storeRefresh t key;
                        s = s\<lparr>rs_m := fmupd key stored (rs_m s)\<rparr>
                    in (None, refreshStore_indexRefreshLocked key stored s)))"

definition retryRetention :: "RefreshToken option \<Rightarrow> RefreshToken \<Rightarrow> time" where
  "retryRetention predecessor successor =
     (case predecessor of Some p \<Rightarrow> rt_ExpiresAt p | None \<Rightarrow> rt_ExpiresAt successor)"

definition refreshStore_gcRetriesLocked :: "time \<Rightarrow> refreshStore \<Rightarrow> refreshStore" where
  "refreshStore_gcRetriesLocked now s =
     s\<lparr>rs_retries := gm_sweep (\<lambda>rec. retryReclaimable rec now) (rs_retries s)\<rparr>"

definition refreshStore_maybeGCRetriesLocked :: "time \<Rightarrow> refreshStore \<Rightarrow> refreshStore" where
  "refreshStore_maybeGCRetriesLocked now s =
     (case sweeper_due (rs_retriesSinceGC s) (gm_len (rs_retries s)) of
        (due, w) \<Rightarrow>
          let s = s\<lparr>rs_retriesSinceGC := w\<rparr>
          in if due then refreshStore_gcRetriesLocked now s else s)"

definition refreshStore_SaveRotationWithRetry ::
  "time \<Rightarrow> RefreshToken option \<Rightarrow> byte list \<Rightarrow> refreshStore \<Rightarrow> store_err option \<times> refreshStore" where
  "refreshStore_SaveRotationWithRetry now token sealed s =
     (let bad = (Some (ErrOther ''inmem: retryable refresh rotation requires successor, parent, and sealed response''), s)
      in case token of
           None \<Rightarrow> bad
         | Some t \<Rightarrow>
             (case rt_ParentID t of
                None \<Rightarrow> bad
              | Some p \<Rightarrow>
                  if sealed = [] then bad
                  else
                    let key = hashKey (rt_ID t)
                    in if fmlookup (rs_m s) key \<noteq> None then (Some ErrAlreadyExists, s)
                       else
                         (case refreshStore_assertParentAliveLocked (rt_ParentID t) s of
                            Some e \<Rightarrow> (Some e, s)
                          | None \<Rightarrow>
                              let parentKey = hashKey p;
                                  stored = storeRefresh t key;
                                  s = s\<lparr>rs_m := fmupd key stored (rs_m s)\<rparr>;
                                  s = refreshStore_indexRefreshLocked key stored s;
                                  s = refreshStore_maybeGCRetriesLocked now s
                              in (None,
                                  s\<lparr>rs_retries := fmupd parentKey
                                      \<lparr>rr_sealed = sealed,
                                       rr_expiresAt = retryRetention (fmlookup (rs_m s) parentKey) t\<rparr>
                                      (rs_retries s)\<rparr>))))"

definition refreshStore_LoadRetryResponse ::
  "time \<Rightarrow> string \<Rightarrow> refreshStore \<Rightarrow> byte list option \<times> store_err option" where
  "refreshStore_LoadRetryResponse now predecessorID s =
     (case fmlookup (rs_retries s) (hashKey predecessorID) of
        None \<Rightarrow> (None, Some ErrNotFound)
      | Some rec \<Rightarrow>
          if retryReclaimable rec now then (None, Some ErrNotFound)
          else (Some (rr_sealed rec), None))"

definition refreshStore_Find ::
  "time \<Rightarrow> string \<Rightarrow> refreshStore \<Rightarrow> RefreshToken option \<times> store_err option" where
  "refreshStore_Find now i s =
     (let key = hashKey i
      in case fmlookup (rs_m s) key of
           None \<Rightarrow> (None, Some ErrNotFound)
         | Some rec \<Rightarrow>
             if \<not> constantTimeKeyMatch (rt_ID rec) key then (None, Some ErrNotFound)
             else if isExpired (rt_ExpiresAt rec) now then (None, Some ErrNotFound)
             else (Some (rec\<lparr>rt_ID := i\<rparr>), None))"

definition refreshStore_Consume ::
  "time \<Rightarrow> string \<Rightarrow> refreshStore \<Rightarrow>
     (RefreshToken option \<times> store_err option) \<times> refreshStore" where
  "refreshStore_Consume now i s =
     (let key = hashKey i
      in case fmlookup (rs_m s) key of
           None \<Rightarrow> ((None, Some ErrNotFound), s)
         | Some rec \<Rightarrow>
             if \<not> constantTimeKeyMatch (rt_ID rec) key then ((None, Some ErrNotFound), s)
             else if isExpired (rt_ExpiresAt rec) now then ((None, Some ErrNotFound), s)
             else if rt_ConsumedAt rec \<noteq> None
               then ((Some (rec\<lparr>rt_ID := i\<rparr>), Some ErrAlreadyConsumed), s)
             else
               let rec = rec\<lparr>rt_ConsumedAt := Some now\<rparr>
               in ((Some (rec\<lparr>rt_ID := i\<rparr>), None), s\<lparr>rs_m := fmupd key rec (rs_m s)\<rparr>))"

text \<open>\<^verbatim>\<open>markRevoked\<close> on a record that is present; a nil record is handled by \<open>gm_modify\<close>.\<close>

definition markRevoked :: "time \<Rightarrow> RefreshToken \<Rightarrow> RefreshToken" where
  "markRevoked now rec =
     (let rec = (if rt_ConsumedAt rec = None then rec\<lparr>rt_ConsumedAt := Some now\<rparr> else rec)
      in rec\<lparr>rt_Revoked := True\<rparr>)"

definition refreshStore_revokeChainLocked :: "key \<Rightarrow> time \<Rightarrow> refreshStore \<Rightarrow> refreshStore" where
  "refreshStore_revokeChainLocked rootKey now s =
     (let m = gm_modify rootKey (markRevoked now) (rs_m s)
      in s\<lparr>rs_m := chain_bfs [rs_byParent s] (\<lambda>k. gm_modify k (markRevoked now))
             {|rootKey|} [rootKey] m\<rparr>)"

definition refreshStore_RevokeChain ::
  "time \<Rightarrow> string \<Rightarrow> refreshStore \<Rightarrow> store_err option \<times> refreshStore" where
  "refreshStore_RevokeChain now rootID s =
     (let rootKey = hashKey rootID
      in if fmlookup (rs_m s) rootKey = None then (Some ErrNotFound, s)
         else (None, refreshStore_revokeChainLocked rootKey now s))"

text \<open>
  \<^verbatim>\<open>revokeByIndexLocked\<close>: the rows an index names under a value are marked, and their number is
  returned.
\<close>

definition refreshStore_revokeByIndexLocked ::
  "refreshIndex \<Rightarrow> string \<Rightarrow> time \<Rightarrow> refreshStore \<Rightarrow> nat \<times> refreshStore" where
  "refreshStore_revokeByIndexLocked idx v now s =
     (fcard (ffilter (\<lambda>i. fmlookup (rs_m s) i \<noteq> None) (gm_set idx v)),
      s\<lparr>rs_m := gm_update_keys (gm_set idx v) (markRevoked now) (rs_m s)\<rparr>)"

definition refreshStore_RevokeByGrant ::
  "time \<Rightarrow> string \<Rightarrow> refreshStore \<Rightarrow> store_err option \<times> refreshStore" where
  "refreshStore_RevokeByGrant now grantID s =
     (if grantID = [] then (None, s)
      else (None, snd (refreshStore_revokeByIndexLocked (rs_byGrant s) grantID now s)))"

definition refreshStore_RevokeByClient ::
  "time \<Rightarrow> string \<Rightarrow> refreshStore \<Rightarrow> store_err option \<times> refreshStore" where
  "refreshStore_RevokeByClient now clientID s =
     (if clientID = [] then (None, s)
      else (None, snd (refreshStore_revokeByIndexLocked (rs_byClient s) clientID now s)))"


section \<open>The abstract specification\<close>

text \<open>
  A map from digests to records. The parent links of the records make it a forest: \<open>child_key M p c\<close>
  says that the record under \<open>c\<close> names as its parent a token whose digest is \<open>p\<close>, and \<open>descends\<close> is
  the reflexive-transitive closure.
\<close>

type_synonym refresh_map = "key \<Rightarrow> RefreshToken option"

definition parent_key :: "RefreshToken \<Rightarrow> key option" where
  "parent_key r = map_option hashKey (rt_ParentID r)"

definition child_key :: "refresh_map \<Rightarrow> key \<Rightarrow> key \<Rightarrow> bool" where
  "child_key M p c \<longleftrightarrow> (\<exists>r. M c = Some r \<and> parent_key r = Some p)"

definition descends :: "refresh_map \<Rightarrow> key \<Rightarrow> key \<Rightarrow> bool" where
  "descends M = (child_key M)\<^sup>*\<^sup>*"

definition parent_revoked :: "refresh_map \<Rightarrow> RefreshToken \<Rightarrow> bool" where
  "parent_revoked M t \<longleftrightarrow>
     (\<exists>p r. parent_key t = Some p \<and> M p = Some r \<and> rt_Revoked r)"

definition spec_refresh_save :: "RefreshToken \<Rightarrow> refresh_map \<Rightarrow> store_err option \<times> refresh_map" where
  "spec_refresh_save t M =
     (let k = hashKey (rt_ID t)
      in if M k \<noteq> None then (Some ErrAlreadyExists, M)
         else if parent_revoked M t then (Some ErrAlreadyConsumed, M)
         else (None, M(k \<mapsto> t\<lparr>rt_ID := k\<rparr>)))"

definition spec_refresh_find ::
  "time \<Rightarrow> string \<Rightarrow> refresh_map \<Rightarrow> RefreshToken option \<times> store_err option" where
  "spec_refresh_find now i M =
     (case M (hashKey i) of
        None \<Rightarrow> (None, Some ErrNotFound)
      | Some r \<Rightarrow> if isExpired (rt_ExpiresAt r) now then (None, Some ErrNotFound)
                  else (Some (r\<lparr>rt_ID := i\<rparr>), None))"

definition spec_refresh_consume ::
  "time \<Rightarrow> string \<Rightarrow> refresh_map \<Rightarrow> (RefreshToken option \<times> store_err option) \<times> refresh_map" where
  "spec_refresh_consume now i M =
     (case M (hashKey i) of
        None \<Rightarrow> ((None, Some ErrNotFound), M)
      | Some r \<Rightarrow>
          if isExpired (rt_ExpiresAt r) now then ((None, Some ErrNotFound), M)
          else if rt_ConsumedAt r \<noteq> None then ((Some (r\<lparr>rt_ID := i\<rparr>), Some ErrAlreadyConsumed), M)
          else ((Some (r\<lparr>rt_ConsumedAt := Some now, rt_ID := i\<rparr>), None),
                M(hashKey i \<mapsto> r\<lparr>rt_ConsumedAt := Some now\<rparr>)))"

definition revoke_where :: "(key \<Rightarrow> bool) \<Rightarrow> time \<Rightarrow> refresh_map \<Rightarrow> refresh_map" where
  "revoke_where P now M = (\<lambda>k. if P k then map_option (markRevoked now) (M k) else M k)"

definition spec_refresh_revokeChain ::
  "time \<Rightarrow> string \<Rightarrow> refresh_map \<Rightarrow> store_err option \<times> refresh_map" where
  "spec_refresh_revokeChain now i M =
     (if M (hashKey i) = None then (Some ErrNotFound, M)
      else (None, revoke_where (descends M (hashKey i)) now M))"

definition spec_refresh_revokeBy ::
  "(RefreshToken \<Rightarrow> string) \<Rightarrow> time \<Rightarrow> string \<Rightarrow> refresh_map \<Rightarrow> store_err option \<times> refresh_map" where
  "spec_refresh_revokeBy attr now v M =
     (None, if v = [] then M else revoke_where (\<lambda>k. \<exists>r. M k = Some r \<and> attr r = v) now M)"

lemmas refresh_spec_defs =
  spec_refresh_save_def spec_refresh_find_def spec_refresh_consume_def spec_refresh_revokeChain_def
  spec_refresh_revokeBy_def


section \<open>What the record transformers keep\<close>

lemma markRevoked_sel [rec_simps, simp]:
  "rt_ID (markRevoked now r) = rt_ID r"
  "rt_ClientID (markRevoked now r) = rt_ClientID r"
  "rt_GrantID (markRevoked now r) = rt_GrantID r"
  "rt_ParentID (markRevoked now r) = rt_ParentID r"
  "rt_ExpiresAt (markRevoked now r) = rt_ExpiresAt r"
  "rt_Revoked (markRevoked now r)"
  "rt_ConsumedAt (markRevoked now r) =
     (case rt_ConsumedAt r of None \<Rightarrow> Some now | Some t \<Rightarrow> Some t)"
  by (simp_all add: markRevoked_def Let_def split: option.splits)

lemma parent_key_upd [rec_simps, simp]:
  "parent_key (markRevoked now r) = parent_key r"
  "parent_key (r\<lparr>rt_ID := k\<rparr>) = parent_key r"
  "parent_key (r\<lparr>rt_ConsumedAt := c\<rparr>) = parent_key r"
  by (simp_all add: parent_key_def)

lemma markRevoked_revoked: "rt_Revoked r \<Longrightarrow> rt_ConsumedAt r \<noteq> None \<Longrightarrow> markRevoked now r = r"
  by (auto simp: markRevoked_def)

lemma markRevoked_twice [simp]: "markRevoked now' (markRevoked now r) = markRevoked now r"
  by (rule markRevoked_revoked) (simp_all split: option.split)

lemma child_key_markRevoked [simp]: "child_key (revoke_where P now M) = child_key M"
  by (auto simp: fun_eq_iff child_key_def revoke_where_def)

lemma descends_markRevoked [simp]: "descends (revoke_where P now M) = descends M"
  by (simp add: descends_def)


section \<open>The invariant of the store\<close>

abbreviation tokens_of :: "refreshStore \<Rightarrow> refresh_map" where
  "tokens_of s \<equiv> fmlookup (rs_m s)"

definition tokens_keyed :: "refresh_map \<Rightarrow> bool" where
  "tokens_keyed M \<longleftrightarrow> (\<forall>k r. M k = Some r \<longrightarrow> rt_ID r = k)"

definition client_attr :: "RefreshToken \<Rightarrow> string option" where
  "client_attr r = nonempty (rt_ClientID r)"

definition grant_attr :: "RefreshToken \<Rightarrow> string option" where
  "grant_attr r = nonempty (rt_GrantID r)"

definition refresh_wf :: "refreshStore \<Rightarrow> bool" where
  "refresh_wf s \<longleftrightarrow>
     tokens_keyed (tokens_of s)
     \<and> index_ok client_attr (tokens_of s) (rs_byClient s)
     \<and> index_ok grant_attr (tokens_of s) (rs_byGrant s)
     \<and> index_ok parent_key (tokens_of s) (rs_byParent s)"

lemma refresh_wf_new [simp]: "refresh_wf newRefreshStore"
  by (simp add: refresh_wf_def newRefreshStore_def tokens_keyed_def)

text \<open>Rewriting records without touching their identity and their links keeps the invariant.\<close>

definition same_links :: "RefreshToken \<Rightarrow> RefreshToken \<Rightarrow> bool" where
  "same_links r r' \<longleftrightarrow> rt_ID r' = rt_ID r \<and> rt_ClientID r' = rt_ClientID r
     \<and> rt_GrantID r' = rt_GrantID r \<and> rt_ParentID r' = rt_ParentID r"

lemma same_links_markRevoked [simp]: "same_links r (markRevoked now r)"
  by (simp add: same_links_def)

lemma same_links_refl [simp]: "same_links r r"
  by (simp add: same_links_def)

lemma same_links_attr:
  "same_links r r' \<Longrightarrow> client_attr r' = client_attr r"
  "same_links r r' \<Longrightarrow> grant_attr r' = grant_attr r"
  "same_links r r' \<Longrightarrow> parent_key r' = parent_key r"
  by (simp_all add: same_links_def client_attr_def grant_attr_def parent_key_def)

lemma refresh_wf_rewrite:
  assumes wf: "refresh_wf s"
    and rows: "\<And>k. rel_option same_links (tokens_of s k) (fmlookup m k)"
  shows "refresh_wf (s\<lparr>rs_m := m\<rparr>)"
proof -
  have keep: "index_ok f (fmlookup m) idx"
    if "index_ok f (tokens_of s) idx" and "\<And>r r'. same_links r r' \<Longrightarrow> f r' = f r" for f idx
  proof (rule index_ok_same_attr [OF that(1)])
    fix k
    show "map_option f (fmlookup m k) = map_option f (tokens_of s k)"
      using rows [of k] that(2) by (auto elim: option.rel_cases)
  qed
  have "rt_ID r' = k" if row: "fmlookup m k = Some r'" for k r'
  proof -
    obtain r where "tokens_of s k = Some r" and "same_links r r'"
      using rows [of k] row by (auto elim: option.rel_cases)
    with wf show ?thesis by (simp add: refresh_wf_def tokens_keyed_def same_links_def)
  qed
  moreover have "index_ok client_attr (fmlookup m) (rs_byClient s)"
    and "index_ok grant_attr (fmlookup m) (rs_byGrant s)"
    and "index_ok parent_key (fmlookup m) (rs_byParent s)"
    using wf by (simp_all add: refresh_wf_def keep same_links_attr)
  ultimately show ?thesis by (simp add: refresh_wf_def tokens_keyed_def)
qed

lemma refresh_wf_insert:
  assumes wf: "refresh_wf s" and new: "tokens_of s k = None" and r: "rt_ID r = k"
  shows "refresh_wf (refreshStore_indexRefreshLocked k r (s\<lparr>rs_m := fmupd k r (rs_m s)\<rparr>))"
proof -
  have upd: "fmlookup (fmupd k r (rs_m s)) = (tokens_of s)(k \<mapsto> r)"
    by (simp add: fun_eq_iff)
  have "index_ok client_attr ((tokens_of s)(k \<mapsto> r)) (refreshIndex_add (rt_ClientID r) k (rs_byClient s))"
    and "index_ok grant_attr ((tokens_of s)(k \<mapsto> r)) (refreshIndex_add (rt_GrantID r) k (rs_byGrant s))"
    using wf new by (auto simp: refresh_wf_def client_attr_def grant_attr_def intro: index_ok_add)
  moreover have "index_ok parent_key ((tokens_of s)(k \<mapsto> r)) (rs_byParent s)"
    if "rt_ParentID r = None"
    using wf new that by (auto simp: refresh_wf_def parent_key_def intro: index_ok_unfiled)
  moreover have "index_ok parent_key ((tokens_of s)(k \<mapsto> r))
      (refreshIndex_add (hashKey p) k (rs_byParent s))" if "rt_ParentID r = Some p" for p
    using wf new that
    by (auto simp: refresh_wf_def parent_key_def nonempty_def hashKey_not_Nil intro: index_ok_add)
  ultimately show ?thesis
    using wf r
    by (simp add: refresh_wf_def tokens_keyed_def refreshStore_indexRefreshLocked_def Let_def upd
        split: option.split)
qed

lemma indexRefreshLocked_sel [simp]:
  "rs_m (refreshStore_indexRefreshLocked k r s) = rs_m s"
  "rs_retries (refreshStore_indexRefreshLocked k r s) = rs_retries s"
  "rs_retriesSinceGC (refreshStore_indexRefreshLocked k r s) = rs_retriesSinceGC s"
  by (simp_all add: refreshStore_indexRefreshLocked_def Let_def split: option.split)

lemma maybeGCRetries_sel [simp]:
  "rs_m (refreshStore_maybeGCRetriesLocked now s) = rs_m s"
  "rs_byClient (refreshStore_maybeGCRetriesLocked now s) = rs_byClient s"
  "rs_byGrant (refreshStore_maybeGCRetriesLocked now s) = rs_byGrant s"
  "rs_byParent (refreshStore_maybeGCRetriesLocked now s) = rs_byParent s"
  by (simp_all add: refreshStore_maybeGCRetriesLocked_def refreshStore_gcRetriesLocked_def Let_def
      split: prod.split)

lemma refresh_wf_maybeGCRetries [simp]:
  "refresh_wf (refreshStore_maybeGCRetriesLocked now s) = refresh_wf s"
  by (simp add: refresh_wf_def)

lemma refresh_wf_retries [simp]: "refresh_wf (s\<lparr>rs_retries := R\<rparr>) = refresh_wf s"
  by (simp add: refresh_wf_def)


section \<open>Chain revocation\<close>

lemma fold_gm_modify:
  "distinct ks \<Longrightarrow> fmlookup (fold (\<lambda>k. gm_modify k f) ks m) j =
     (if j \<in> set ks then map_option f (fmlookup m j) else fmlookup m j)"
  by (induction ks arbitrary: m) auto

lemma child_in_byParent:
  assumes "refresh_wf s"
  shows "child_in [rs_byParent s] = child_key (tokens_of s)"
proof -
  have "index_ok parent_key (tokens_of s) (rs_byParent s)"
    using assms by (simp add: refresh_wf_def)
  then show ?thesis
    by (simp add: fun_eq_iff child_in_def child_key_def index_ok_def)
qed

lemma revokeChainLocked_tokens:
  assumes "refresh_wf s"
  shows "tokens_of (refreshStore_revokeChainLocked root now s) =
           revoke_where (descends (tokens_of s) root) now (tokens_of s)"
proof -
  let ?stamp = "\<lambda>k. gm_modify k (markRevoked now)" and ?m = "gm_modify root (markRevoked now) (rs_m s)"
  obtain ks where ks: "chain_bfs [rs_byParent s] ?stamp {|root|} [root] ?m = fold ?stamp ks ?m"
    and dist: "distinct ks" and set_ks: "set ks = {y. (child_in [rs_byParent s])\<^sup>*\<^sup>* root y} - {root}"
    by (rule chain_bfs_root)
  have "set ks = {y. descends (tokens_of s) root y} - {root}"
    unfolding set_ks child_in_byParent [OF assms] descends_def ..
  moreover have "descends (tokens_of s) root root"
    by (simp add: descends_def)
  ultimately have "tokens_of (refreshStore_revokeChainLocked root now s) k =
      revoke_where (descends (tokens_of s) root) now (tokens_of s) k" for k
    by (auto simp: refreshStore_revokeChainLocked_def ks fold_gm_modify [OF dist]
        revoke_where_def Let_def simp del: chain_bfs.simps)
  then show ?thesis by (rule ext)
qed

lemma revokeChainLocked_sel [simp]:
  "rs_byClient (refreshStore_revokeChainLocked root now s) = rs_byClient s"
  "rs_byGrant (refreshStore_revokeChainLocked root now s) = rs_byGrant s"
  "rs_byParent (refreshStore_revokeChainLocked root now s) = rs_byParent s"
  "rs_retries (refreshStore_revokeChainLocked root now s) = rs_retries s"
  "rs_retriesSinceGC (refreshStore_revokeChainLocked root now s) = rs_retriesSinceGC s"
  by (simp_all add: refreshStore_revokeChainLocked_def Let_def)

lemma rel_option_revoke_where: "rel_option same_links (M k) (revoke_where P now M k)"
  by (cases "M k") (simp_all add: revoke_where_def)

lemma refresh_wf_revokeChainLocked:
  assumes "refresh_wf s"
  shows "refresh_wf (refreshStore_revokeChainLocked root now s)"
proof -
  let ?m = "rs_m (refreshStore_revokeChainLocked root now s)"
  have "refresh_wf (s\<lparr>rs_m := ?m\<rparr>)"
    by (rule refresh_wf_rewrite [OF assms])
      (simp add: revokeChainLocked_tokens [OF assms] rel_option_revoke_where)
  moreover have "s\<lparr>rs_m := ?m\<rparr> = refreshStore_revokeChainLocked root now s"
    by (simp add: refreshStore_revokeChainLocked_def Let_def)
  ultimately show ?thesis by simp
qed


section \<open>The direct store implements the specification\<close>

datatype refresh_call =
    RSave "RefreshToken option"
  | RSaveRotation time "RefreshToken option" "byte list"
  | RFind time string
  | RConsume time string
  | RRevokeChain time string
  | RRevokeByGrant time string

datatype refresh_reply =
    RReplyErr "store_err option"
  | RReplyRec "RefreshToken option \<times> store_err option"

fun refreshStore_call :: "refresh_call \<Rightarrow> refreshStore \<Rightarrow> refresh_reply \<times> refreshStore" where
  "refreshStore_call (RSave t) s = map_prod RReplyErr id (refreshStore_Save t s)"
| "refreshStore_call (RSaveRotation now t sealed) s =
     map_prod RReplyErr id (refreshStore_SaveRotationWithRetry now t sealed s)"
| "refreshStore_call (RFind now i) s = (RReplyRec (refreshStore_Find now i s), s)"
| "refreshStore_call (RConsume now i) s = map_prod RReplyRec id (refreshStore_Consume now i s)"
| "refreshStore_call (RRevokeChain now i) s = map_prod RReplyErr id (refreshStore_RevokeChain now i s)"
| "refreshStore_call (RRevokeByGrant now g) s = map_prod RReplyErr id (refreshStore_RevokeByGrant now g s)"

definition rotation_ok :: "RefreshToken option \<Rightarrow> byte list \<Rightarrow> bool" where
  "rotation_ok t sealed \<longleftrightarrow> (\<exists>x p. t = Some x \<and> rt_ParentID x = Some p \<and> sealed \<noteq> [])"

definition err_nil_refresh :: store_err where
  "err_nil_refresh = ErrOther ''inmem: nil refresh token''"

definition err_bad_rotation :: store_err where
  "err_bad_rotation = ErrOther
     ''inmem: retryable refresh rotation requires successor, parent, and sealed response''"

fun spec_refresh_call :: "refresh_call \<Rightarrow> refresh_map \<Rightarrow> refresh_reply \<times> refresh_map" where
  "spec_refresh_call (RSave None) M = (RReplyErr (Some err_nil_refresh), M)"
| "spec_refresh_call (RSave (Some t)) M = map_prod RReplyErr id (spec_refresh_save t M)"
| "spec_refresh_call (RSaveRotation now t sealed) M =
     (if rotation_ok t sealed then map_prod RReplyErr id (spec_refresh_save (the t) M)
      else (RReplyErr (Some err_bad_rotation), M))"
| "spec_refresh_call (RFind now i) M = (RReplyRec (spec_refresh_find now i M), M)"
| "spec_refresh_call (RConsume now i) M = map_prod RReplyRec id (spec_refresh_consume now i M)"
| "spec_refresh_call (RRevokeChain now i) M = map_prod RReplyErr id (spec_refresh_revokeChain now i M)"
| "spec_refresh_call (RRevokeByGrant now g) M =
     map_prod RReplyErr id (spec_refresh_revokeBy rt_GrantID now g M)"

lemma refresh_wf_keyed: "refresh_wf s \<Longrightarrow> tokens_of s k = Some r \<Longrightarrow> rt_ID r = k"
  by (simp add: refresh_wf_def tokens_keyed_def)

lemma assertParentAlive_spec:
  "refreshStore_assertParentAliveLocked (rt_ParentID t) s =
     (if parent_revoked (tokens_of s) t then Some ErrAlreadyConsumed else None)"
  by (auto simp: refreshStore_assertParentAliveLocked_def parent_revoked_def parent_key_def
      split: option.splits)

lemma refreshStore_Save_spec:
  "fst (refreshStore_Save (Some t) s) = fst (spec_refresh_save t (tokens_of s))"
  "tokens_of (snd (refreshStore_Save (Some t) s)) = snd (spec_refresh_save t (tokens_of s))"
  by (auto simp: refreshStore_Save_def spec_refresh_save_def assertParentAlive_spec storeRefresh_def
      Let_def fun_eq_iff)

lemma refreshStore_Save_wf: "refresh_wf s \<Longrightarrow> refresh_wf (snd (refreshStore_Save t s))"
  by (cases t)
    (auto simp: refreshStore_Save_def assertParentAlive_spec storeRefresh_def Let_def
      intro: refresh_wf_insert)

text \<open>The rotation is the plain Save together with the sealed response.\<close>

lemma SaveRotation_Save:
  assumes "rt_ParentID t = Some p" and "sealed \<noteq> []"
  shows "refreshStore_SaveRotationWithRetry now (Some t) sealed s =
     (case refreshStore_Save (Some t) s of
        (Some e, s1) \<Rightarrow> (Some e, s)
      | (None, s1) \<Rightarrow>
          (None, (refreshStore_maybeGCRetriesLocked now s1)
            \<lparr>rs_retries := fmupd (hashKey p)
               \<lparr>rr_sealed = sealed, rr_expiresAt = retryRetention (tokens_of s1 (hashKey p)) t\<rparr>
               (rs_retries (refreshStore_maybeGCRetriesLocked now s1))\<rparr>))"
  using assms
  by (simp add: refreshStore_SaveRotationWithRetry_def refreshStore_Save_def Let_def
      split: option.split)

lemma refreshStore_Save_error: "refreshStore_Save t s = (Some e, s') \<Longrightarrow> s' = s"
  by (auto simp: refreshStore_Save_def Let_def split: option.splits if_splits)

lemma SaveRotation_bad:
  "\<not> rotation_ok t sealed \<Longrightarrow>
     refreshStore_SaveRotationWithRetry now t sealed s = (Some err_bad_rotation, s)"
  by (auto simp: refreshStore_SaveRotationWithRetry_def rotation_ok_def err_bad_rotation_def Let_def
      split: option.splits)

lemma SaveRotation_spec:
  assumes "rotation_ok t sealed"
  shows "fst (refreshStore_SaveRotationWithRetry now t sealed s) =
           fst (spec_refresh_save (the t) (tokens_of s))"
    and "tokens_of (snd (refreshStore_SaveRotationWithRetry now t sealed s)) =
           snd (spec_refresh_save (the t) (tokens_of s))"
    and "refresh_wf s \<Longrightarrow> refresh_wf (snd (refreshStore_SaveRotationWithRetry now t sealed s))"
proof -
  obtain x p where t: "t = Some x" and p: "rt_ParentID x = Some p" and ne: "sealed \<noteq> []"
    using assms by (auto simp: rotation_ok_def)
  obtain e s1 where save: "refreshStore_Save (Some x) s = (e, s1)"
    by fastforce
  note eq = SaveRotation_Save [OF p ne, of now s, unfolded save]
  show "fst (refreshStore_SaveRotationWithRetry now t sealed s) =
          fst (spec_refresh_save (the t) (tokens_of s))"
    using refreshStore_Save_spec(1) [of x s] by (simp add: t eq save split: option.split)
  show "tokens_of (snd (refreshStore_SaveRotationWithRetry now t sealed s)) =
          snd (spec_refresh_save (the t) (tokens_of s))"
    using refreshStore_Save_spec(2) [of x s] refreshStore_Save_error [of "Some x" s _ s1]
    by (auto simp: t eq save split: option.split)
  show "refresh_wf (snd (refreshStore_SaveRotationWithRetry now t sealed s))" if "refresh_wf s"
    using refreshStore_Save_wf [OF that, of "Some x"] that
    by (simp add: t eq save split: option.split)
qed

lemma refreshStore_Find_spec:
  "refresh_wf s \<Longrightarrow> refreshStore_Find now i s = spec_refresh_find now i (tokens_of s)"
  by (auto simp: refreshStore_Find_def spec_refresh_find_def Let_def dest: refresh_wf_keyed
      split: option.split)

lemma refreshStore_Consume_spec:
  assumes "refresh_wf s"
  shows "fst (refreshStore_Consume now i s) = fst (spec_refresh_consume now i (tokens_of s))"
    and "tokens_of (snd (refreshStore_Consume now i s)) =
           snd (spec_refresh_consume now i (tokens_of s))"
  using refresh_wf_keyed [OF assms, of "hashKey i"]
  by (cases "tokens_of s (hashKey i)";
      simp add: refreshStore_Consume_def spec_refresh_consume_def Let_def fun_eq_iff)+

lemma refreshStore_Consume_wf:
  assumes "refresh_wf s"
  shows "refresh_wf (snd (refreshStore_Consume now i s))"
proof -
  have "refresh_wf (s\<lparr>rs_m := fmupd (hashKey i) (r\<lparr>rt_ConsumedAt := Some now\<rparr>) (rs_m s)\<rparr>)"
    if "tokens_of s (hashKey i) = Some r" for r
    by (rule refresh_wf_rewrite [OF assms])
      (use that in \<open>auto simp: option.rel_refl same_links_def\<close>)
  with assms show ?thesis
    by (auto simp: refreshStore_Consume_def Let_def split: option.split)
qed

lemma refreshStore_RevokeChain_spec:
  assumes "refresh_wf s"
  shows "fst (refreshStore_RevokeChain now i s) = fst (spec_refresh_revokeChain now i (tokens_of s))"
    and "tokens_of (snd (refreshStore_RevokeChain now i s)) =
           snd (spec_refresh_revokeChain now i (tokens_of s))"
    and "refresh_wf (snd (refreshStore_RevokeChain now i s))"
  using assms
  by (simp_all add: refreshStore_RevokeChain_def spec_refresh_revokeChain_def Let_def
      revokeChainLocked_tokens refresh_wf_revokeChainLocked)

lemma revokeByIndexLocked_spec:
  assumes wf: "refresh_wf s" and idx: "index_ok (\<lambda>r. nonempty (attr r)) (tokens_of s) idx" and "v \<noteq> []"
  shows "tokens_of (snd (refreshStore_revokeByIndexLocked idx v now s)) =
           revoke_where (\<lambda>k. \<exists>r. tokens_of s k = Some r \<and> attr r = v) now (tokens_of s)"
    and "refresh_wf (snd (refreshStore_revokeByIndexLocked idx v now s))"
proof -
  have mem: "k |\<in>| gm_set idx v \<longleftrightarrow> (\<exists>r. tokens_of s k = Some r \<and> attr r = v)" for k
    using index_okD [OF idx, of k v] \<open>v \<noteq> []\<close> by simp
  have rows: "fmlookup (gm_update_keys (gm_set idx v) (markRevoked now) (rs_m s)) =
      revoke_where (\<lambda>k. \<exists>r. tokens_of s k = Some r \<and> attr r = v) now (tokens_of s)"
  proof
    fix k
    show "fmlookup (gm_update_keys (gm_set idx v) (markRevoked now) (rs_m s)) k =
        revoke_where (\<lambda>k. \<exists>r. tokens_of s k = Some r \<and> attr r = v) now (tokens_of s) k"
      by (cases "tokens_of s k") (simp_all add: revoke_where_def mem)
  qed
  then show "tokens_of (snd (refreshStore_revokeByIndexLocked idx v now s)) =
      revoke_where (\<lambda>k. \<exists>r. tokens_of s k = Some r \<and> attr r = v) now (tokens_of s)"
    by (simp add: refreshStore_revokeByIndexLocked_def)
  show "refresh_wf (snd (refreshStore_revokeByIndexLocked idx v now s))"
    unfolding refreshStore_revokeByIndexLocked_def snd_conv
    by (rule refresh_wf_rewrite [OF wf]) (simp only: rows rel_option_revoke_where)
qed

lemma RevokeByGrant_spec:
  assumes "refresh_wf s"
  shows "fst (refreshStore_RevokeByGrant now g s) =
           fst (spec_refresh_revokeBy rt_GrantID now g (tokens_of s))"
    and "tokens_of (snd (refreshStore_RevokeByGrant now g s)) =
           snd (spec_refresh_revokeBy rt_GrantID now g (tokens_of s))"
    and "refresh_wf (snd (refreshStore_RevokeByGrant now g s))"
  using assms revokeByIndexLocked_spec [of s rt_GrantID "rs_byGrant s" g now]
  by (simp_all add: refreshStore_RevokeByGrant_def spec_refresh_revokeBy_def refresh_wf_def
      grant_attr_def [abs_def])

lemma RevokeByClient_spec:
  assumes "refresh_wf s"
  shows "fst (refreshStore_RevokeByClient now c s) =
           fst (spec_refresh_revokeBy rt_ClientID now c (tokens_of s))"
    and "tokens_of (snd (refreshStore_RevokeByClient now c s)) =
           snd (spec_refresh_revokeBy rt_ClientID now c (tokens_of s))"
    and "refresh_wf (snd (refreshStore_RevokeByClient now c s))"
  using assms revokeByIndexLocked_spec [of s rt_ClientID "rs_byClient s" c now]
  by (simp_all add: refreshStore_RevokeByClient_def spec_refresh_revokeBy_def refresh_wf_def
      client_attr_def [abs_def])

lemmas refreshStore_specs =
  refreshStore_Save_spec SaveRotation_spec refreshStore_Find_spec refreshStore_Consume_spec
  refreshStore_RevokeChain_spec RevokeByGrant_spec

interpretation refresh_direct: simulation
  refresh_wf tokens_of refreshStore_call spec_refresh_call
proof unfold_locales
  fix s c
  assume wf: "refresh_wf s"
  have nil: "refreshStore_Save None s = (Some err_nil_refresh, s)"
    by (simp add: refreshStore_Save_def err_nil_refresh_def)
  note rules = wf nil refreshStore_specs SaveRotation_bad refreshStore_Save_wf refreshStore_Consume_wf
  show "fst (spec_refresh_call c (tokens_of s)) = fst (refreshStore_call c s)"
    by (cases "(c, tokens_of s)" rule: spec_refresh_call.cases) (simp_all add: rules)
  show "snd (spec_refresh_call c (tokens_of s)) = tokens_of (snd (refreshStore_call c s))"
    by (cases "(c, tokens_of s)" rule: spec_refresh_call.cases) (simp_all add: rules)
  show "refresh_wf (snd (refreshStore_call c s))"
  proof (cases c)
    case (RSaveRotation now t sealed)
    then show ?thesis
      by (cases "rotation_ok t sealed") (simp_all add: rules)
  qed (simp_all add: rules)
qed


section \<open>Safety of the specification\<close>

text \<open>A record that was consumed stays in the map, consumed.\<close>

definition token_spent :: "key \<Rightarrow> refresh_map \<Rightarrow> bool" where
  "token_spent k M \<longleftrightarrow> (\<exists>r. M k = Some r \<and> rt_ConsumedAt r \<noteq> None)"

text \<open>
  The chain of a root is dead when its root is present and every descendant of the root is revoked
  and consumed.
\<close>

definition row_dead :: "RefreshToken \<Rightarrow> bool" where
  "row_dead r \<longleftrightarrow> rt_Revoked r \<and> rt_ConsumedAt r \<noteq> None"

definition chain_dead :: "key \<Rightarrow> refresh_map \<Rightarrow> bool" where
  "chain_dead root M \<longleftrightarrow>
     M root \<noteq> None \<and> (\<forall>k r. descends M root k \<longrightarrow> M k = Some r \<longrightarrow> row_dead r)"

lemma row_dead_markRevoked [simp]: "row_dead (markRevoked now r)"
  by (simp add: row_dead_def split: option.split)

lemma revoke_where_None [simp]: "revoke_where P now M k = None \<longleftrightarrow> M k = None"
  by (simp add: revoke_where_def)

lemma revoke_where_Some:
  "revoke_where P now M k = Some r \<longleftrightarrow>
     (\<exists>r0. M k = Some r0 \<and> r = (if P k then markRevoked now r0 else r0))"
  by (auto simp: revoke_where_def)

lemma descends_present: "descends M root k \<Longrightarrow> M root \<noteq> None \<Longrightarrow> M k \<noteq> None"
  unfolding descends_def by (induction rule: rtranclp_induct) (auto simp: child_key_def)

lemma descends_insert_dead:
  assumes dead: "chain_dead root M" and new: "M k = None" and alive: "\<not> parent_revoked M t"
    and path: "descends (M(k \<mapsto> t)) root j"
  shows "descends M root j"
  using path unfolding descends_def
proof (induction rule: rtranclp_induct)
  case (step x y)
  then have x: "descends M root x"
    by (simp add: descends_def)
  then obtain r where r: "M x = Some r" and "rt_Revoked r"
    using dead descends_present [OF x] by (auto simp: chain_dead_def row_dead_def)
  then have "parent_key t \<noteq> Some x"
    using alive by (auto simp: parent_revoked_def)
  with step.hyps(2) have "child_key M x y"
    by (auto simp: child_key_def split: if_splits)
  with step.IH show ?case by simp
qed simp

lemma chain_dead_save: "chain_dead root M \<Longrightarrow> chain_dead root (snd (spec_refresh_save t M))"
proof -
  assume dead: "chain_dead root M"
  let ?k = "hashKey (rt_ID t)" and ?t = "t\<lparr>rt_ID := hashKey (rt_ID t)\<rparr>"
  have "chain_dead root (M(?k \<mapsto> ?t))" if new: "M ?k = None" and alive: "\<not> parent_revoked M t"
  proof -
    have "\<not> parent_revoked M ?t"
      using alive by (simp add: parent_revoked_def)
    note old = descends_insert_dead [OF dead new this]
    have "row_dead r" if path: "descends (M(?k \<mapsto> ?t)) root j" and row: "(M(?k \<mapsto> ?t)) j = Some r"
      for j r
    proof -
      have "j \<noteq> ?k"
        using descends_present [OF old [OF path]] dead new by (auto simp: chain_dead_def)
      with old [OF path] row dead show ?thesis
        by (simp add: chain_dead_def)
    qed
    with dead show ?thesis
      by (simp add: chain_dead_def)
  qed
  with dead show ?thesis
    by (simp add: spec_refresh_save_def Let_def)
qed

lemma child_key_consume: 
  "M k = Some r \<Longrightarrow> child_key (M(k \<mapsto> r\<lparr>rt_ConsumedAt := c\<rparr>)) = child_key M"
  by (auto simp: fun_eq_iff child_key_def)

lemma chain_dead_consume: "chain_dead root M \<Longrightarrow> chain_dead root (snd (spec_refresh_consume now i M))"
  by (auto simp: spec_refresh_consume_def chain_dead_def descends_def child_key_consume row_dead_def
      split: option.split)

lemma chain_dead_revoke_where: "chain_dead root M \<Longrightarrow> chain_dead root (revoke_where P now M)"
  by (auto simp: chain_dead_def revoke_where_Some)

lemma chain_dead_call: "chain_dead root M \<Longrightarrow> chain_dead root (snd (spec_refresh_call c M))"
  by (cases "(c, M)" rule: spec_refresh_call.cases)
    (simp_all add: chain_dead_save chain_dead_consume spec_refresh_revokeChain_def
      spec_refresh_revokeBy_def chain_dead_revoke_where)

lemma chain_dead_revokeChain:
  "fst (spec_refresh_revokeChain now i M) = None \<Longrightarrow>
     chain_dead (hashKey i) (snd (spec_refresh_revokeChain now i M))"
  by (auto simp: spec_refresh_revokeChain_def chain_dead_def revoke_where_Some split: if_splits)

lemma token_spent_call: "token_spent k M \<Longrightarrow> token_spent k (snd (spec_refresh_call c M))"
  by (cases "(c, M)" rule: spec_refresh_call.cases)
    (auto simp: token_spent_def refresh_spec_defs revoke_where_def Let_def split: option.splits)

end
