(* ===== verification/Digest_Vectors.thy ===== *)
theory Digest_Vectors
  imports Digest
begin

text \<open>
  Known-answer vectors of the digest: \<open>abc\<close> (FIPS 180-4) and the code verifier of RFC 7636, appendix
  B, with its S256 challenge. They anchor the model of SHA-256 and supply two identifiers with
  different digests to the concrete executions of the other theories.
\<close>

definition sample_verifier :: string where
  "sample_verifier = ''dBjftJeZ4CVP-mB92K27uhbUJU1p1r_wW1gFWFOEjXk''"

definition sample_challenge :: string where
  "sample_challenge = ''E9Melhoa2OwvFrEMTJguCHaoeK1t8URWbuGJSstw-cM''"

lemma hashKey_abc:
  "hashKey ''abc'' = ''ba7816bf8f01cfea414140de5dae2223b00361a396177a9cb410ff61f20015ad''"
  by code_simp

lemma sha256_verifier:
  "sha256_Sum256 (bytes_of sample_verifier) =
     [19, 211, 30, 150, 26, 26, 216, 236, 47, 22, 177, 12, 76, 152, 46, 8, 118, 168,
       120, 173, 109, 241, 68, 86, 110, 225, 137, 74, 203, 112, 249, 195]"
  by code_simp

lemma hashKey_verifier:
  "hashKey sample_verifier = ''13d31e961a1ad8ec2f16b10c4c982e0876a878ad6df144566ee1894acb70f9c3''"
  unfolding hashKey_def Digest_def sha256_verifier by code_simp

lemma challenge_of_verifier:
  "base64_RawURL (sha256_Sum256 (bytes_of sample_verifier)) = sample_challenge"
  unfolding sha256_verifier by code_simp

lemma hashKey_distinct [simp]:
  "hashKey ''abc'' \<noteq> hashKey sample_verifier"
  "hashKey sample_verifier \<noteq> hashKey ''abc''"
  by (simp_all add: hashKey_abc hashKey_verifier)

end
