(* ===== verification/RefreshTx.thy ===== *)
theory RefreshTx
  imports RefreshStore Digest_Vectors
begin

text \<open>
  The refresh-token substore inside a transaction (\<^verbatim>\<open>op/storeadapter/inmem/tx.go\<close>): writes go to two
  overlays with indexes of their own, chain revocation stamps the staged view and queues its root for
  the commit, and \<^verbatim>\<open>flushLocked\<close> publishes the overlays. The staged operations implement the same
  specification as the direct ones, and the commit publishes exactly the view of the transaction.
\<close>

record refreshStaging =
  rst_added :: "RefreshToken gomap"
  rst_updated :: "RefreshToken gomap"
  rst_byGrant :: refreshIndex
  rst_byParent :: refreshIndex
  rst_revoked :: "key fset"
  rst_retries :: "retryResponse gomap"

definition newRefreshStaging :: refreshStaging where
  "newRefreshStaging =
     \<lparr>rst_added = fmempty, rst_updated = fmempty, rst_byGrant = fmempty, rst_byParent = fmempty,
      rst_revoked = {||}, rst_retries = fmempty\<rparr>"

definition refreshStaging_lookup :: "key \<Rightarrow> refreshStore \<Rightarrow> refreshStaging \<Rightarrow> RefreshToken option" where
  "refreshStaging_lookup i parent st = stagedLookup i (rst_updated st) (rst_added st) (rs_m parent)"

definition txRefreshes_Save ::
  "store_err option \<Rightarrow> RefreshToken option \<Rightarrow> refreshStore \<Rightarrow> refreshStaging \<Rightarrow>
     store_err option \<times> refreshStaging" where
  "txRefreshes_Save guard token parent st =
     (case guard of
        Some e \<Rightarrow> (Some e, st)
      | None \<Rightarrow>
          (case token of
             None \<Rightarrow> (Some (ErrOther ''inmem: nil refresh token''), st)
           | Some t \<Rightarrow>
               let key = hashKey (rt_ID t)
               in if fmlookup (rst_added st) key \<noteq> None then (Some ErrAlreadyExists, st)
                  else if fmlookup (rs_m parent) key \<noteq> None then (Some ErrAlreadyExists, st)
                  else if (case rt_ParentID t of
                             None \<Rightarrow> False
                           | Some p \<Rightarrow>
                               (case refreshStaging_lookup (hashKey p) parent st of
                                  None \<Rightarrow> False
                                | Some rec \<Rightarrow> rt_Revoked rec))
                    then (Some ErrAlreadyConsumed, st)
                  else
                    let stored = storeRefresh t key;
                        st = st\<lparr>rst_added := fmupd key stored (rst_added st)\<rparr>;
                        st = st\<lparr>rst_byGrant := refreshIndex_add (rt_GrantID stored) key (rst_byGrant st)\<rparr>
                    in (None,
                        case rt_ParentID stored of
                          None \<Rightarrow> st
                        | Some p \<Rightarrow>
                            st\<lparr>rst_byParent := refreshIndex_add (hashKey p) key (rst_byParent st)\<rparr>)))"

definition txRefreshes_SaveRotationWithRetry ::
  "bool \<Rightarrow> store_err option \<Rightarrow> RefreshToken option \<Rightarrow> byte list \<Rightarrow> refreshStore \<Rightarrow> refreshStaging \<Rightarrow>
     store_err option \<times> refreshStaging" where
  "txRefreshes_SaveRotationWithRetry closed ctxErr token sealed parent st =
     (if closed then (Some errTxClosed, st)
      else
        let bad = (Some (ErrOther ''inmem: retryable refresh rotation requires successor, parent, and sealed response''), st)
        in case token of
             None \<Rightarrow> bad
           | Some t \<Rightarrow>
               (case rt_ParentID t of
                  None \<Rightarrow> bad
                | Some p \<Rightarrow>
                    if sealed = [] then bad
                    else
                      (case txRefreshes_Save (tx_guard closed ctxErr) token parent st of
                         (Some e, st) \<Rightarrow> (Some e, st)
                       | (None, st) \<Rightarrow>
                           let parentKey = hashKey p
                           in (None,
                               st\<lparr>rst_retries := fmupd parentKey
                                   \<lparr>rr_sealed = sealed,
                                    rr_expiresAt =
                                      retryRetention (refreshStaging_lookup parentKey parent st) t\<rparr>
                                   (rst_retries st)\<rparr>))))"

definition txRefreshes_LoadRetryResponse ::
  "store_err option \<Rightarrow> time \<Rightarrow> string \<Rightarrow> refreshStore \<Rightarrow> refreshStaging \<Rightarrow>
     byte list option \<times> store_err option" where
  "txRefreshes_LoadRetryResponse guard now predecessorID parent st =
     (case guard of
        Some e \<Rightarrow> (None, Some e)
      | None \<Rightarrow>
          let key = hashKey predecessorID;
              rec = (case fmlookup (rst_retries st) key of
                       None \<Rightarrow> fmlookup (rs_retries parent) key
                     | Some rec \<Rightarrow> Some rec)
          in case rec of
               None \<Rightarrow> (None, Some ErrNotFound)
             | Some rec \<Rightarrow>
                 if retryReclaimable rec now then (None, Some ErrNotFound)
                 else (Some (rr_sealed rec), None))"

definition txRefreshes_Find ::
  "store_err option \<Rightarrow> time \<Rightarrow> string \<Rightarrow> refreshStore \<Rightarrow> refreshStaging \<Rightarrow>
     RefreshToken option \<times> store_err option" where
  "txRefreshes_Find guard now i parent st =
     (case guard of
        Some e \<Rightarrow> (None, Some e)
      | None \<Rightarrow>
          (case refreshStaging_lookup (hashKey i) parent st of
             None \<Rightarrow> (None, Some ErrNotFound)
           | Some rec \<Rightarrow>
               if isExpired (rt_ExpiresAt rec) now then (None, Some ErrNotFound)
               else (Some (rec\<lparr>rt_ID := i\<rparr>), None)))"

definition txRefreshes_Consume ::
  "store_err option \<Rightarrow> time \<Rightarrow> string \<Rightarrow> refreshStore \<Rightarrow> refreshStaging \<Rightarrow>
     (RefreshToken option \<times> store_err option) \<times> refreshStaging" where
  "txRefreshes_Consume guard now i parent st =
     (case guard of
        Some e \<Rightarrow> ((None, Some e), st)
      | None \<Rightarrow>
          let key = hashKey i
          in case refreshStaging_lookup key parent st of
               None \<Rightarrow> ((None, Some ErrNotFound), st)
             | Some rec \<Rightarrow>
                 if isExpired (rt_ExpiresAt rec) now then ((None, Some ErrNotFound), st)
                 else if rt_ConsumedAt rec \<noteq> None
                   then ((Some (rec\<lparr>rt_ID := i\<rparr>), Some ErrAlreadyConsumed), st)
                 else
                   let upd = rec\<lparr>rt_ConsumedAt := Some now, rt_ID := key\<rparr>
                   in ((Some (upd\<lparr>rt_ID := i\<rparr>), None),
                       st\<lparr>rst_updated := fmupd key upd (rst_updated st)\<rparr>))"

text \<open>
  The body shared by \<^verbatim>\<open>revokeIDs\<close>, \<^verbatim>\<open>markChainStaged\<close> and \<^verbatim>\<open>RevokeChain\<close>: the record a key resolves
  to is copied, marked and staged.
\<close>

definition refreshStaging_stamp :: "refreshStore \<Rightarrow> time \<Rightarrow> key \<Rightarrow> refreshStaging \<Rightarrow> refreshStaging" where
  "refreshStaging_stamp parent now i st =
     (case refreshStaging_lookup i parent st of
        None \<Rightarrow> st
      | Some rec \<Rightarrow>
          st\<lparr>rst_updated := fmupd i ((markRevoked now rec)\<lparr>rt_ID := i\<rparr>) (rst_updated st)\<rparr>)"

definition refreshStaging_markChainStaged ::
  "key \<Rightarrow> time \<Rightarrow> refreshStore \<Rightarrow> refreshStaging \<Rightarrow> refreshStaging" where
  "refreshStaging_markChainStaged rootID now parent st =
     chain_bfs [rs_byParent parent, rst_byParent st] (refreshStaging_stamp parent now)
       {|rootID|} [rootID] st"

definition txRefreshes_RevokeChain ::
  "store_err option \<Rightarrow> time \<Rightarrow> string \<Rightarrow> refreshStore \<Rightarrow> refreshStaging \<Rightarrow>
     store_err option \<times> refreshStaging" where
  "txRefreshes_RevokeChain guard now rootID parent st =
     (case guard of
        Some e \<Rightarrow> (Some e, st)
      | None \<Rightarrow>
          let rootKey = hashKey rootID
          in case refreshStaging_lookup rootKey parent st of
               None \<Rightarrow> (Some ErrNotFound, st)
             | Some rec \<Rightarrow>
                 let upd = (markRevoked now rec)\<lparr>rt_ID := rootKey\<rparr>;
                     st = st\<lparr>rst_updated := fmupd rootKey upd (rst_updated st)\<rparr>;
                     st = st\<lparr>rst_revoked := finsert rootKey (rst_revoked st)\<rparr>
                 in (None, refreshStaging_markChainStaged rootKey now parent st))"

definition refreshStaging_revokeIDs ::
  "key fset \<Rightarrow> time \<Rightarrow> refreshStore \<Rightarrow> refreshStaging \<Rightarrow> refreshStaging" where
  "refreshStaging_revokeIDs ids now parent st =
     fold (refreshStaging_stamp parent now) (sorted_list_of_fset ids) st"

definition txRefreshes_RevokeByGrant ::
  "store_err option \<Rightarrow> time \<Rightarrow> string \<Rightarrow> refreshStore \<Rightarrow> refreshStaging \<Rightarrow>
     store_err option \<times> refreshStaging" where
  "txRefreshes_RevokeByGrant guard now grantID parent st =
     (case guard of
        Some e \<Rightarrow> (Some e, st)
      | None \<Rightarrow>
          if grantID = [] then (None, st)
          else
            let st = refreshStaging_revokeIDs (gm_set (rs_byGrant parent) grantID) now parent st
            in (None, refreshStaging_revokeIDs (gm_set (rst_byGrant st) grantID) now parent st))"

text \<open>
  \<^verbatim>\<open>flushLocked\<close>: the added rows are stored and indexed, the updated ones overwrite, the sealed
  responses are copied (which may owe a sweep), and the queued roots are revoked once more over the
  merged map.
\<close>

definition flush_added_row :: "RefreshToken gomap \<Rightarrow> key \<Rightarrow> refreshStore \<Rightarrow> refreshStore" where
  "flush_added_row added i s =
     (case fmlookup added i of
        None \<Rightarrow> s
      | Some rec \<Rightarrow> refreshStore_indexRefreshLocked i rec (s\<lparr>rs_m := fmupd i rec (rs_m s)\<rparr>))"

definition refreshStaging_flushLocked ::
  "time \<Rightarrow> refreshStaging \<Rightarrow> refreshStore \<Rightarrow> refreshStore" where
  "refreshStaging_flushLocked now st parent =
     (let s = fold (flush_added_row (rst_added st)) (sorted_list_of_fset (fmdom (rst_added st))) parent;
          s = s\<lparr>rs_m := gm_copy (rs_m s) (rst_updated st)\<rparr>;
          s = s\<lparr>rs_retries := gm_copy (rs_retries s) (rst_retries st)\<rparr>;
          s = (if gm_len (rst_retries st) > 0 then refreshStore_maybeGCRetriesLocked now s else s)
      in if rst_revoked st \<noteq> {||}
         then fold (\<lambda>root. refreshStore_revokeChainLocked root now)
                (sorted_list_of_fset (rst_revoked st)) s
         else s)"


section \<open>The view of a transaction and its invariant\<close>

definition refresh_view :: "refreshStore \<Rightarrow> refreshStaging \<Rightarrow> refresh_map" where
  "refresh_view parent st = (\<lambda>k. refreshStaging_lookup k parent st)"

text \<open>The rows before the updates of the transaction.\<close>

definition refresh_base :: "refreshStore \<Rightarrow> refreshStaging \<Rightarrow> refresh_map" where
  "refresh_base parent st k =
     (case fmlookup (rst_added st) k of Some r \<Rightarrow> Some r | None \<Rightarrow> tokens_of parent k)"

definition staging_core :: "refreshStore \<Rightarrow> refreshStaging \<Rightarrow> bool" where
  "staging_core parent st \<longleftrightarrow>
     refresh_wf parent
     \<and> (\<forall>k r. fmlookup (rst_added st) k = Some r \<longrightarrow> tokens_of parent k = None \<and> rt_ID r = k)
     \<and> (\<forall>k r'. fmlookup (rst_updated st) k = Some r' \<longrightarrow>
          (\<exists>r. refresh_base parent st k = Some r \<and> same_links r r'))
     \<and> index_ok grant_attr (fmlookup (rst_added st)) (rst_byGrant st)
     \<and> index_ok parent_key (fmlookup (rst_added st)) (rst_byParent st)"

definition staging_inv :: "refreshStore \<Rightarrow> refreshStaging \<Rightarrow> bool" where
  "staging_inv parent st \<longleftrightarrow>
     staging_core parent st
     \<and> (\<forall>root. root |\<in>| rst_revoked st \<longrightarrow> chain_dead root (refresh_view parent st))"

lemma staging_inv_new [simp]: "staging_inv parent newRefreshStaging = refresh_wf parent"
  by (simp add: staging_inv_def staging_core_def newRefreshStaging_def)

lemma refresh_view_new [simp]: "refresh_view parent newRefreshStaging = tokens_of parent"
  by (simp add: refresh_view_def refreshStaging_lookup_def stagedLookup_def newRefreshStaging_def)

lemma refresh_base_upd [simp]:
  "refresh_base parent (st\<lparr>rst_updated := U\<rparr>) = refresh_base parent st"
  "refresh_base parent (st\<lparr>rst_revoked := R\<rparr>) = refresh_base parent st"
  "refresh_base parent (st\<lparr>rst_retries := T\<rparr>) = refresh_base parent st"
  by (simp_all add: fun_eq_iff refresh_base_def)

lemma view_cases:
  "refresh_view parent st k =
     (case fmlookup (rst_updated st) k of Some r \<Rightarrow> Some r | None \<Rightarrow> refresh_base parent st k)"
  by (simp add: refresh_view_def refreshStaging_lookup_def stagedLookup_def refresh_base_def
      split: option.split)

lemma staged_lookup_view [simp]: "refreshStaging_lookup k parent st = refresh_view parent st k"
  by (simp add: refresh_view_def)

lemma view_links:
  assumes "staging_core parent st"
  shows "rel_option same_links (refresh_base parent st k) (refresh_view parent st k)"
  using assms unfolding view_cases staging_core_def
  by (fastforce split: option.split intro: option.rel_refl_strong)

lemma base_keyed:
  "staging_core parent st \<Longrightarrow> refresh_base parent st k = Some r \<Longrightarrow> rt_ID r = k"
  by (auto simp: staging_core_def refresh_base_def dest: refresh_wf_keyed split: option.splits)

lemma view_base:
  assumes "staging_core parent st" and "refresh_view parent st k = Some r'"
  obtains r where "refresh_base parent st k = Some r" and "same_links r r'"
  using view_links [OF assms(1), of k] assms(2) by (auto elim: option.rel_cases)

lemma view_keyed:
  assumes "staging_core parent st" and "refresh_view parent st k = Some r"
  shows "rt_ID r = k"
  using view_base [OF assms] base_keyed [OF assms(1)] by (metis same_links_def)

lemma view_attr:
  assumes "staging_core parent st" and "\<And>r r'. same_links r r' \<Longrightarrow> f r' = f r"
  shows "(\<exists>r. refresh_view parent st k = Some r \<and> f r = v) \<longleftrightarrow>
         (\<exists>r. refresh_base parent st k = Some r \<and> f r = v)"
  using view_links [OF assms(1), of k] assms(2) by (auto elim!: option.rel_cases)

text \<open>The committed index and the staged one together index the view.\<close>

lemma base_attr_union:
  assumes core: "staging_core parent st"
    and p: "index_ok f (tokens_of parent) pidx" and s: "index_ok f (fmlookup (rst_added st)) sidx"
  shows "k |\<in>| gm_set pidx v \<or> k |\<in>| gm_set sidx v \<longleftrightarrow>
         (\<exists>r. refresh_base parent st k = Some r \<and> f r = Some v)"
proof (cases "fmlookup (rst_added st) k")
  case None
  then show ?thesis
    by (simp add: index_okD [OF p] index_okD [OF s] refresh_base_def)
next
  case (Some r)
  then have "tokens_of parent k = None"
    using core by (simp add: staging_core_def)
  with Some show ?thesis
    by (simp add: index_okD [OF p] index_okD [OF s] refresh_base_def)
qed

lemma staged_children:
  assumes "staging_core parent st"
  shows "child_in [rs_byParent parent, rst_byParent st] = child_key (refresh_view parent st)"
proof -
  have idx: "index_ok parent_key (tokens_of parent) (rs_byParent parent)"
    "index_ok parent_key (fmlookup (rst_added st)) (rst_byParent st)"
    using assms by (simp_all add: staging_core_def refresh_wf_def)
  have "(\<exists>r. refresh_view parent st c = Some r \<and> parent_key r = Some p) \<longleftrightarrow>
      (\<exists>r. refresh_base parent st c = Some r \<and> parent_key r = Some p)" for c p
    by (rule view_attr [OF assms]) (rule same_links_attr)
  then show ?thesis
    using base_attr_union [OF assms idx] by (auto simp: fun_eq_iff child_in_def child_key_def)
qed

lemma staged_grant_rows:
  assumes "staging_core parent st" and "g \<noteq> []"
  shows "k |\<in>| gm_set (rs_byGrant parent) g \<or> k |\<in>| gm_set (rst_byGrant st) g \<longleftrightarrow>
         (\<exists>r. refresh_view parent st k = Some r \<and> rt_GrantID r = g)"
proof -
  have idx: "index_ok grant_attr (tokens_of parent) (rs_byGrant parent)"
    "index_ok grant_attr (fmlookup (rst_added st)) (rst_byGrant st)"
    using assms by (simp_all add: staging_core_def refresh_wf_def)
  have "(\<exists>r. refresh_view parent st k = Some r \<and> rt_GrantID r = g) \<longleftrightarrow>
      (\<exists>r. refresh_base parent st k = Some r \<and> rt_GrantID r = g)"
    by (rule view_attr [OF assms(1)]) (simp add: same_links_def)
  then show ?thesis
    using base_attr_union [OF assms(1) idx, of k g] assms(2) by (auto simp: grant_attr_def)
qed


section \<open>Staged updates\<close>

lemma staging_core_update:
  assumes "staging_core parent st" and "refresh_view parent st k = Some r" and "same_links r r'"
  shows "staging_core parent (st\<lparr>rst_updated := fmupd k r' (rst_updated st)\<rparr>)"
proof -
  obtain r0 where "refresh_base parent st k = Some r0" and "same_links r0 r"
    using view_base [OF assms(1,2)] .
  then show ?thesis
    using assms(1,3) by (auto simp: staging_core_def same_links_def)
qed

lemma view_update:
  "refresh_view parent (st\<lparr>rst_updated := fmupd k r (rst_updated st)\<rparr>) =
     (refresh_view parent st)(k \<mapsto> r)"
  by (auto simp: fun_eq_iff view_cases split: option.split)

lemma rt_ID_same: "rt_ID r = k \<Longrightarrow> r\<lparr>rt_ID := k\<rparr> = r" for r :: RefreshToken
  by auto

lemma stamp_view:
  assumes "staging_core parent st"
  shows "refresh_view parent (refreshStaging_stamp parent now k st) =
           revoke_where (\<lambda>j. j = k) now (refresh_view parent st)"
    and "staging_core parent (refreshStaging_stamp parent now k st)"
proof -
  have stamp: "refreshStaging_stamp parent now k st =
      st\<lparr>rst_updated := fmupd k (markRevoked now r) (rst_updated st)\<rparr>"
    if "refresh_view parent st k = Some r" for r
    using view_keyed [OF assms that] that by (simp add: refreshStaging_stamp_def rt_ID_same)
  show "refresh_view parent (refreshStaging_stamp parent now k st) =
      revoke_where (\<lambda>j. j = k) now (refresh_view parent st)"
    by (cases "refresh_view parent st k")
      (simp_all add: stamp view_update, auto simp: refreshStaging_stamp_def revoke_where_def)
  show "staging_core parent (refreshStaging_stamp parent now k st)"
    by (cases "refresh_view parent st k")
      (simp_all add: stamp staging_core_update [OF assms],
        simp add: refreshStaging_stamp_def assms)
qed

lemma stamp_sel [simp]:
  "rst_added (refreshStaging_stamp parent now k st) = rst_added st"
  "rst_byGrant (refreshStaging_stamp parent now k st) = rst_byGrant st"
  "rst_byParent (refreshStaging_stamp parent now k st) = rst_byParent st"
  "rst_revoked (refreshStaging_stamp parent now k st) = rst_revoked st"
  "rst_retries (refreshStaging_stamp parent now k st) = rst_retries st"
  by (simp_all add: refreshStaging_stamp_def split: option.split)

lemma fold_stamp_sel [simp]:
  "rst_byGrant (fold (refreshStaging_stamp parent now) ks st) = rst_byGrant st"
  "rst_revoked (fold (refreshStaging_stamp parent now) ks st) = rst_revoked st"
  by (induction ks arbitrary: st) simp_all

lemma revoke_where_seq:
  "revoke_where P now (revoke_where Q now M) = revoke_where (\<lambda>k. P k \<or> Q k) now M"
  by (auto simp: fun_eq_iff revoke_where_def option.map_comp comp_def)

lemma fold_stamp_view:
  "staging_core parent st \<Longrightarrow>
     refresh_view parent (fold (refreshStaging_stamp parent now) ks st) =
       revoke_where (\<lambda>k. k \<in> set ks) now (refresh_view parent st)
     \<and> staging_core parent (fold (refreshStaging_stamp parent now) ks st)"
proof (induction ks arbitrary: st)
  case (Cons k ks)
  note stamp = stamp_view [OF Cons.prems, of now k]
  from Cons.IH [OF stamp(2)] stamp(1) show ?case
    by (simp add: revoke_where_seq) (simp add: disj_commute)
qed (simp add: revoke_where_def)


section \<open>Staged operations implement the specification\<close>

lemma staging_core_upd [simp]:
  "staging_core parent (st\<lparr>rst_revoked := R\<rparr>) = staging_core parent st"
  "staging_core parent (st\<lparr>rst_retries := T\<rparr>) = staging_core parent st"
  by (simp_all add: staging_core_def)

lemma refresh_view_upd [simp]:
  "refresh_view parent (st\<lparr>rst_revoked := R\<rparr>) = refresh_view parent st"
  "refresh_view parent (st\<lparr>rst_retries := T\<rparr>) = refresh_view parent st"
  by (simp_all add: fun_eq_iff view_cases split: option.split)

text \<open>What a successful staged Save leaves.\<close>

definition stage_row :: "key \<Rightarrow> RefreshToken \<Rightarrow> refreshStaging \<Rightarrow> refreshStaging" where
  "stage_row k r st =
     (let st = st\<lparr>rst_added := fmupd k r (rst_added st),
                  rst_byGrant := refreshIndex_add (rt_GrantID r) k (rst_byGrant st)\<rparr>
      in case rt_ParentID r of
           None \<Rightarrow> st
         | Some p \<Rightarrow> st\<lparr>rst_byParent := refreshIndex_add (hashKey p) k (rst_byParent st)\<rparr>)"

lemma stage_row_sel [simp]:
  "rst_added (stage_row k r st) = fmupd k r (rst_added st)"
  "rst_updated (stage_row k r st) = rst_updated st"
  "rst_revoked (stage_row k r st) = rst_revoked st"
  by (simp_all add: stage_row_def Let_def split: option.split)

lemma view_absent:
  assumes "staging_core parent st"
  shows "refresh_view parent st k = None \<longleftrightarrow>
         fmlookup (rst_added st) k = None \<and> tokens_of parent k = None"
  using view_links [OF assms, of k] by (auto simp: refresh_base_def elim: option.rel_cases split: option.splits)

lemma stage_row_view:
  assumes core: "staging_core parent st" and new: "refresh_view parent st k = None" and k: "rt_ID r = k"
  shows "refresh_view parent (stage_row k r st) = (refresh_view parent st)(k \<mapsto> r)"
    and "staging_core parent (stage_row k r st)"
proof -
  have absent: "fmlookup (rst_added st) k = None" "tokens_of parent k = None"
    using view_absent [OF core] new by simp_all
  have base: "refresh_base parent (stage_row k r st) = (refresh_base parent st)(k \<mapsto> r)"
    by (simp add: fun_eq_iff refresh_base_def)
  have upd: "fmlookup (rst_updated st) k = None"
    using new by (simp add: view_cases split: option.splits)
  then show "refresh_view parent (stage_row k r st) = (refresh_view parent st)(k \<mapsto> r)"
    by (simp add: fun_eq_iff view_cases base split: option.split)
  have added: "fmlookup (fmupd k r (rst_added st)) = (fmlookup (rst_added st))(k \<mapsto> r)"
    by (simp add: fun_eq_iff)
  have "index_ok grant_attr ((fmlookup (rst_added st))(k \<mapsto> r)) (rst_byGrant (stage_row k r st))"
    using core absent
    by (auto simp: staging_core_def stage_row_def grant_attr_def Let_def intro: index_ok_add
        split: option.split)
  moreover have "index_ok parent_key ((fmlookup (rst_added st))(k \<mapsto> r))
      (rst_byParent (stage_row k r st))"
    using core absent
    by (auto simp: staging_core_def stage_row_def parent_key_def nonempty_def hashKey_not_Nil Let_def
        intro: index_ok_add index_ok_unfiled split: option.split)
  ultimately show "staging_core parent (stage_row k r st)"
    using core absent k upd unfolding staging_core_def base by (auto simp: added)
qed

lemma txRefreshes_Save_stage:
  assumes "staging_core parent st"
  shows "txRefreshes_Save None (Some t) parent st =
     (let k = hashKey (rt_ID t)
      in if refresh_view parent st k \<noteq> None then (Some ErrAlreadyExists, st)
         else if parent_revoked (refresh_view parent st) t then (Some ErrAlreadyConsumed, st)
         else (None, stage_row k (t\<lparr>rt_ID := k\<rparr>) st))"
proof -
  have "(case rt_ParentID t of None \<Rightarrow> False
         | Some p \<Rightarrow> (case refreshStaging_lookup (hashKey p) parent st of None \<Rightarrow> False
                      | Some rec \<Rightarrow> rt_Revoked rec)) = parent_revoked (refresh_view parent st) t"
    by (auto simp: parent_revoked_def parent_key_def split: option.splits)
  then show ?thesis
    unfolding txRefreshes_Save_def
    using view_absent [OF assms, of "hashKey (rt_ID t)"]
    by (auto simp: stage_row_def storeRefresh_def Let_def split: option.split)
qed

lemma txRefreshes_Save_spec:
  assumes "staging_core parent st"
  shows "fst (txRefreshes_Save None (Some t) parent st) =
           fst (spec_refresh_save t (refresh_view parent st))"
    and "refresh_view parent (snd (txRefreshes_Save None (Some t) parent st)) =
           snd (spec_refresh_save t (refresh_view parent st))"
    and "staging_core parent (snd (txRefreshes_Save None (Some t) parent st))"
    and "rst_revoked (snd (txRefreshes_Save None (Some t) parent st)) = rst_revoked st"
  using assms
  by (simp_all add: txRefreshes_Save_stage spec_refresh_save_def stage_row_view Let_def)

lemma txRefreshes_SaveRotation_spec:
  assumes "staging_core parent st" and "rotation_ok t sealed"
  defines "res \<equiv> txRefreshes_SaveRotationWithRetry False None t sealed parent st"
  shows "fst res = fst (spec_refresh_save (the t) (refresh_view parent st))"
    and "refresh_view parent (snd res) = snd (spec_refresh_save (the t) (refresh_view parent st))"
    and "staging_core parent (snd res)" and "rst_revoked (snd res) = rst_revoked st"
proof -
  obtain x p where t: "t = Some x" and p: "rt_ParentID x = Some p" and ne: "sealed \<noteq> []"
    using assms(2) by (auto simp: rotation_ok_def)
  note save = txRefreshes_Save_spec [OF assms(1), of x]
  obtain e st1 where run: "txRefreshes_Save None (Some x) parent st = (e, st1)"
    by fastforce
  have res: "res = (case e of Some e \<Rightarrow> (Some e, st1)
      | None \<Rightarrow> (None, st1\<lparr>rst_retries := fmupd (hashKey p)
          \<lparr>rr_sealed = sealed, rr_expiresAt = retryRetention (refresh_view parent st1 (hashKey p)) x\<rparr>
          (rst_retries st1)\<rparr>))"
    unfolding res_def txRefreshes_SaveRotationWithRetry_def
    by (simp add: t p ne tx_guard_def run Let_def split: option.split)
  show "fst res = fst (spec_refresh_save (the t) (refresh_view parent st))"
    and "refresh_view parent (snd res) = snd (spec_refresh_save (the t) (refresh_view parent st))"
    and "staging_core parent (snd res)" and "rst_revoked (snd res) = rst_revoked st"
    using save by (simp_all add: res run t split: option.split)
qed

lemma txRefreshes_Find_spec:
  "txRefreshes_Find None now i parent st = spec_refresh_find now i (refresh_view parent st)"
  by (simp add: txRefreshes_Find_def spec_refresh_find_def)

lemma txRefreshes_Consume_spec:
  assumes "staging_core parent st"
  shows "fst (txRefreshes_Consume None now i parent st) =
           fst (spec_refresh_consume now i (refresh_view parent st))"
    and "refresh_view parent (snd (txRefreshes_Consume None now i parent st)) =
           snd (spec_refresh_consume now i (refresh_view parent st))"
    and "staging_core parent (snd (txRefreshes_Consume None now i parent st))"
    and "rst_revoked (snd (txRefreshes_Consume None now i parent st)) = rst_revoked st"
proof -
  have upd: "r\<lparr>rt_ConsumedAt := Some now, rt_ID := hashKey i\<rparr> = r\<lparr>rt_ConsumedAt := Some now\<rparr>"
    if "refresh_view parent st (hashKey i) = Some r" for r
    using view_keyed [OF assms that] by (simp add: rt_ID_same)
  have core: "staging_core parent
      (st\<lparr>rst_updated := fmupd (hashKey i) (r\<lparr>rt_ConsumedAt := Some now\<rparr>) (rst_updated st)\<rparr>)"
    if "refresh_view parent st (hashKey i) = Some r" for r
    by (rule staging_core_update [OF assms that]) (simp add: same_links_def)
  show "fst (txRefreshes_Consume None now i parent st) =
          fst (spec_refresh_consume now i (refresh_view parent st))"
    and "refresh_view parent (snd (txRefreshes_Consume None now i parent st)) =
          snd (spec_refresh_consume now i (refresh_view parent st))"
    and "staging_core parent (snd (txRefreshes_Consume None now i parent st))"
    and "rst_revoked (snd (txRefreshes_Consume None now i parent st)) = rst_revoked st"
    by (cases "refresh_view parent st (hashKey i)";
        simp add: txRefreshes_Consume_def spec_refresh_consume_def view_update upd core assms Let_def)+
qed


lemma markChainStaged_view:
  assumes core: "staging_core parent st"
  defines "M \<equiv> refresh_view parent st"
  shows "refresh_view parent (refreshStaging_markChainStaged root now parent st) =
           revoke_where (\<lambda>k. descends M root k \<and> k \<noteq> root) now M"
    and "staging_core parent (refreshStaging_markChainStaged root now parent st)"
    and "rst_revoked (refreshStaging_markChainStaged root now parent st) = rst_revoked st"
proof -
  let ?idxs = "[rs_byParent parent, rst_byParent st]" and ?stamp = "refreshStaging_stamp parent now"
  obtain ks where ks: "chain_bfs ?idxs ?stamp {|root|} [root] st = fold ?stamp ks st"
    and set_ks: "set ks = {y. (child_in ?idxs)\<^sup>*\<^sup>* root y} - {root}"
    by (rule chain_bfs_root)
  have set_ks: "set ks = {k. descends M root k \<and> k \<noteq> root}"
    unfolding set_ks staged_children [OF core] descends_def M_def by auto
  note eq = refreshStaging_markChainStaged_def [of root now parent st, unfolded ks]
  show "refresh_view parent (refreshStaging_markChainStaged root now parent st) =
      revoke_where (\<lambda>k. descends M root k \<and> k \<noteq> root) now M"
    using fold_stamp_view [OF core, of now ks] by (simp add: eq set_ks M_def)
  show "staging_core parent (refreshStaging_markChainStaged root now parent st)"
    using fold_stamp_view [OF core, of now ks] by (simp add: eq)
  show "rst_revoked (refreshStaging_markChainStaged root now parent st) = rst_revoked st"
    by (simp add: eq)
qed

lemma txRefreshes_RevokeChain_spec:
  assumes inv: "staging_inv parent st"
  shows "fst (txRefreshes_RevokeChain None now i parent st) =
           fst (spec_refresh_revokeChain now i (refresh_view parent st))"
    and "refresh_view parent (snd (txRefreshes_RevokeChain None now i parent st)) =
           snd (spec_refresh_revokeChain now i (refresh_view parent st))"
    and "staging_inv parent (snd (txRefreshes_RevokeChain None now i parent st))"
proof -
  let ?root = "hashKey i" and ?M = "refresh_view parent st"
  have core: "staging_core parent st"
    using inv by (simp add: staging_inv_def)
  define res where "res = txRefreshes_RevokeChain None now i parent st"
  have "fst res = fst (spec_refresh_revokeChain now i ?M)
      \<and> refresh_view parent (snd res) = snd (spec_refresh_revokeChain now i ?M)
      \<and> staging_inv parent (snd res)"
  proof (cases "?M ?root")
    case None
    with inv show ?thesis
      by (simp add: res_def txRefreshes_RevokeChain_def spec_refresh_revokeChain_def Let_def)
  next
    case (Some r)
    let ?st1 = "(refreshStaging_stamp parent now ?root st)\<lparr>rst_revoked := finsert ?root (rst_revoked st)\<rparr>"
    have "?st1 = st\<lparr>rst_updated := fmupd ?root ((markRevoked now r)\<lparr>rt_ID := ?root\<rparr>) (rst_updated st),
        rst_revoked := finsert ?root (rst_revoked st)\<rparr>"
      using Some by (simp add: refreshStaging_stamp_def)
    then have res: "res = (None, refreshStaging_markChainStaged ?root now parent ?st1)"
      using Some by (simp add: res_def txRefreshes_RevokeChain_def Let_def)
    have core1: "staging_core parent ?st1" and view1: "refresh_view parent ?st1 =
        revoke_where (\<lambda>j. j = ?root) now ?M"
      using stamp_view [OF core] by simp_all
    note mark = markChainStaged_view [OF core1, of ?root now]
    have root: "descends ?M ?root ?root"
      by (simp add: descends_def)
    have view: "refresh_view parent (snd res) = revoke_where (descends ?M ?root) now ?M"
      unfolding res snd_conv mark(1) view1 using root
      by (auto simp: revoke_where_seq intro!: arg_cong [of _ _ "\<lambda>P. revoke_where P now ?M"])
    have dead: "chain_dead q (refresh_view parent (snd res))" if "q |\<in>| rst_revoked (snd res)" for q
    proof (cases "q = ?root")
      case True
      then show ?thesis
        using chain_dead_revokeChain [of now i ?M] Some
        by (simp add: view spec_refresh_revokeChain_def)
    next
      case False
      with that have "q |\<in>| rst_revoked st"
        by (simp add: res mark)
      with inv show ?thesis
        by (simp add: view staging_inv_def chain_dead_revoke_where)
    qed
    with mark(2) view Some res show ?thesis
      by (simp add: spec_refresh_revokeChain_def staging_inv_def)
  qed
  then show "fst (txRefreshes_RevokeChain None now i parent st) =
      fst (spec_refresh_revokeChain now i ?M)"
    and "refresh_view parent (snd (txRefreshes_RevokeChain None now i parent st)) =
      snd (spec_refresh_revokeChain now i ?M)"
    and "staging_inv parent (snd (txRefreshes_RevokeChain None now i parent st))"
    by (simp_all add: res_def)
qed

lemma txRefreshes_RevokeByGrant_spec:
  assumes core: "staging_core parent st"
  shows "fst (txRefreshes_RevokeByGrant None now g parent st) =
           fst (spec_refresh_revokeBy rt_GrantID now g (refresh_view parent st))"
    and "refresh_view parent (snd (txRefreshes_RevokeByGrant None now g parent st)) =
           snd (spec_refresh_revokeBy rt_GrantID now g (refresh_view parent st))"
    and "staging_core parent (snd (txRefreshes_RevokeByGrant None now g parent st))"
    and "rst_revoked (snd (txRefreshes_RevokeByGrant None now g parent st)) = rst_revoked st"
proof -
  let ?stamp = "refreshStaging_stamp parent now"
  let ?p = "sorted_list_of_fset (gm_set (rs_byGrant parent) g)"
  let ?s = "sorted_list_of_fset (gm_set (rst_byGrant st) g)"
  note one = fold_stamp_view [OF core, of now ?p]
  note two = fold_stamp_view [OF conjunct2 [OF one], of now ?s]
  have rows: "(\<lambda>k. k \<in> set ?s \<or> k \<in> set ?p) =
      (\<lambda>k. \<exists>r. refresh_view parent st k = Some r \<and> rt_GrantID r = g)" if "g \<noteq> []"
    using staged_grant_rows [OF core that] by (auto simp: fun_eq_iff)
  have res: "txRefreshes_RevokeByGrant None now g parent st =
      (None, if g = [] then st else fold ?stamp ?s (fold ?stamp ?p st))"
    by (simp add: txRefreshes_RevokeByGrant_def refreshStaging_revokeIDs_def Let_def)
  show "fst (txRefreshes_RevokeByGrant None now g parent st) =
      fst (spec_refresh_revokeBy rt_GrantID now g (refresh_view parent st))"
    by (simp add: res spec_refresh_revokeBy_def)
  show "refresh_view parent (snd (txRefreshes_RevokeByGrant None now g parent st)) =
      snd (spec_refresh_revokeBy rt_GrantID now g (refresh_view parent st))"
    using one two rows by (simp add: res spec_refresh_revokeBy_def revoke_where_seq)
  show "staging_core parent (snd (txRefreshes_RevokeByGrant None now g parent st))"
    using two core by (simp add: res)
  show "rst_revoked (snd (txRefreshes_RevokeByGrant None now g parent st)) = rst_revoked st"
    by (simp add: res)
qed


fun tx_refresh_call ::
  "refresh_call \<Rightarrow> refreshStore \<Rightarrow> refreshStaging \<Rightarrow> refresh_reply \<times> refreshStaging" where
  "tx_refresh_call (RSave t) parent st = map_prod RReplyErr id (txRefreshes_Save None t parent st)"
| "tx_refresh_call (RSaveRotation now t sealed) parent st =
     map_prod RReplyErr id (txRefreshes_SaveRotationWithRetry False None t sealed parent st)"
| "tx_refresh_call (RFind now i) parent st = (RReplyRec (txRefreshes_Find None now i parent st), st)"
| "tx_refresh_call (RConsume now i) parent st =
     map_prod RReplyRec id (txRefreshes_Consume None now i parent st)"
| "tx_refresh_call (RRevokeChain now i) parent st =
     map_prod RReplyErr id (txRefreshes_RevokeChain None now i parent st)"
| "tx_refresh_call (RRevokeByGrant now g) parent st =
     map_prod RReplyErr id (txRefreshes_RevokeByGrant None now g parent st)"

abbreviation tx_refresh_run ::
  "refresh_call list \<Rightarrow> refreshStore \<Rightarrow> refreshStaging \<Rightarrow> refresh_reply list \<times> refreshStaging" where
  "tx_refresh_run calls parent st \<equiv> run_calls (\<lambda>c. tx_refresh_call c parent) calls st"

abbreviation spec_refresh_run :: "refresh_call list \<Rightarrow> refresh_map \<Rightarrow> refresh_reply list \<times> refresh_map" where
  "spec_refresh_run \<equiv> run_calls spec_refresh_call"

lemma txRefreshes_Save_nil: "txRefreshes_Save None None parent st = (Some err_nil_refresh, st)"
  by (simp add: txRefreshes_Save_def err_nil_refresh_def)

lemma txRefreshes_SaveRotation_bad:
  "\<not> rotation_ok t sealed \<Longrightarrow>
     txRefreshes_SaveRotationWithRetry False c t sealed parent st = (Some err_bad_rotation, st)"
  by (auto simp: txRefreshes_SaveRotationWithRetry_def rotation_ok_def err_bad_rotation_def Let_def
      split: option.splits)

lemmas txRefreshes_specs =
  txRefreshes_Save_nil txRefreshes_SaveRotation_bad txRefreshes_Save_spec txRefreshes_SaveRotation_spec
  txRefreshes_Find_spec txRefreshes_Consume_spec txRefreshes_RevokeChain_spec
  txRefreshes_RevokeByGrant_spec

interpretation refresh_tx: simulation
  "staging_inv parent" "refresh_view parent" "\<lambda>c. tx_refresh_call c parent" spec_refresh_call
  for parent
proof unfold_locales
  fix st c
  assume inv: "staging_inv parent st"
  then have core: "staging_core parent st"
    by (simp add: staging_inv_def)
  note rules = inv core txRefreshes_specs
  show reply: "fst (spec_refresh_call c (refresh_view parent st)) = fst (tx_refresh_call c parent st)"
    by (cases "(c, refresh_view parent st)" rule: spec_refresh_call.cases) (simp_all add: rules)
  show view: "snd (spec_refresh_call c (refresh_view parent st)) =
      refresh_view parent (snd (tx_refresh_call c parent st))"
    by (cases "(c, refresh_view parent st)" rule: spec_refresh_call.cases) (simp_all add: rules)
  have same: "staging_inv parent (snd (tx_refresh_call c parent st))"
    if "staging_core parent (snd (tx_refresh_call c parent st))"
      and "rst_revoked (snd (tx_refresh_call c parent st)) = rst_revoked st"
    using that inv unfolding staging_inv_def view [symmetric] by (simp add: chain_dead_call)
  show "staging_inv parent (snd (tx_refresh_call c parent st))"
  proof (cases "(c, refresh_view parent st)" rule: spec_refresh_call.cases)
    case (3 now t sealed M)
    show ?thesis
    proof (cases "rotation_ok t sealed")
      case True
      with 3 show ?thesis by (intro same) (simp_all add: rules)
    next
      case False
      with 3 show ?thesis by (simp add: rules)
    qed
  next
    case (6 now i M)
    then show ?thesis by (simp add: rules)
  qed (intro same; simp add: rules)+
qed


section \<open>The commit publishes the view\<close>

lemma flush_added_rows:
  assumes "distinct ks" and "refresh_wf s"
    and "\<And>k. k \<in> set ks \<Longrightarrow> \<exists>r. fmlookup A k = Some r \<and> rt_ID r = k \<and> tokens_of s k = None"
  shows "refresh_wf (fold (flush_added_row A) ks s)
    \<and> tokens_of (fold (flush_added_row A) ks s) =
        (\<lambda>k. if k \<in> set ks then fmlookup A k else tokens_of s k)"
  using assms
proof (induction ks arbitrary: s)
  case (Cons k ks)
  obtain r where r: "fmlookup A k = Some r" and rk: "rt_ID r = k" and new: "tokens_of s k = None"
    using Cons.prems(3) [of k] by auto
  let ?s = "refreshStore_indexRefreshLocked k r (s\<lparr>rs_m := fmupd k r (rs_m s)\<rparr>)"
  have step: "flush_added_row A k s = ?s"
    by (simp add: flush_added_row_def r)
  have "\<exists>r. fmlookup A j = Some r \<and> rt_ID r = j \<and> tokens_of ?s j = None" if "j \<in> set ks" for j
    using Cons.prems(1) Cons.prems(3) [of j] that by auto
  from Cons.IH [OF _ refresh_wf_insert [OF Cons.prems(2) new rk] this] Cons.prems(1) r
  show ?case by (auto simp: step fun_eq_iff)
qed simp

lemma revoke_dead_chain:
  assumes "chain_dead root M"
  shows "revoke_where (descends M root) now M = M"
proof
  fix k
  show "revoke_where (descends M root) now M k = M k"
    using assms
    by (cases "M k") (auto simp: revoke_where_def chain_dead_def row_dead_def intro!: markRevoked_revoked)
qed

lemma fold_revoke_dead_chains:
  "refresh_wf s \<Longrightarrow> \<forall>root \<in> set roots. chain_dead root (tokens_of s) \<Longrightarrow>
     tokens_of (fold (\<lambda>root. refreshStore_revokeChainLocked root now) roots s) = tokens_of s
     \<and> refresh_wf (fold (\<lambda>root. refreshStore_revokeChainLocked root now) roots s)"
proof (induction roots arbitrary: s)
  case (Cons root roots)
  have "tokens_of (refreshStore_revokeChainLocked root now s) = tokens_of s"
    using Cons.prems by (simp add: revokeChainLocked_tokens revoke_dead_chain)
  with Cons.IH [of "refreshStore_revokeChainLocked root now s"] Cons.prems show ?case
    by (simp add: refresh_wf_revokeChainLocked)
qed simp

lemma flushLocked_view:
  assumes inv: "staging_inv parent st"
  shows "tokens_of (refreshStaging_flushLocked now st parent) = refresh_view parent st"
    and "refresh_wf (refreshStaging_flushLocked now st parent)"
proof -
  have core: "staging_core parent st" and wf: "refresh_wf parent"
    using inv by (simp_all add: staging_inv_def staging_core_def)
  let ?ks = "sorted_list_of_fset (fmdom (rst_added st))"
  let ?s1 = "fold (flush_added_row (rst_added st)) ?ks parent"
  have rows: "\<exists>r. fmlookup (rst_added st) k = Some r \<and> rt_ID r = k \<and> tokens_of parent k = None"
    if "k \<in> set ?ks" for k
    using that core by (auto simp: staging_core_def fmlookup_dom_iff)
  have "distinct ?ks"
    by simp
  then have wf1: "refresh_wf ?s1" and "tokens_of ?s1 =
      (\<lambda>k. if k \<in> set ?ks then fmlookup (rst_added st) k else tokens_of parent k)"
    using flush_added_rows [OF _ wf rows] by blast+
  then have base: "tokens_of ?s1 = refresh_base parent st"
    by (auto simp: fun_eq_iff refresh_base_def fmlookup_dom_iff split: option.split)
  define s2 where "s2 = ?s1\<lparr>rs_m := gm_copy (rs_m ?s1) (rst_updated st)\<rparr>"
  have s2: "tokens_of s2 = refresh_view parent st"
    by (simp add: s2_def fun_eq_iff base view_cases split: option.split)
  have wf2: "refresh_wf s2"
    unfolding s2_def
  proof (rule refresh_wf_rewrite [OF wf1])
    fix k
    show "rel_option same_links (tokens_of ?s1 k) (fmlookup (gm_copy (rs_m ?s1) (rst_updated st)) k)"
      using view_links [OF core, of k] by (simp add: base view_cases split: option.splits)
  qed
  define s3 where "s3 = s2\<lparr>rs_retries := gm_copy (rs_retries s2) (rst_retries st)\<rparr>"
  define s4 where "s4 = (if gm_len (rst_retries st) > 0 then refreshStore_maybeGCRetriesLocked now s3 else s3)"
  have s4: "tokens_of s4 = refresh_view parent st" and wf4: "refresh_wf s4"
    using s2 wf2 by (simp_all add: s4_def s3_def)
  have flush: "refreshStaging_flushLocked now st parent =
      fold (\<lambda>root. refreshStore_revokeChainLocked root now) (sorted_list_of_fset (rst_revoked st)) s4"
    by (simp add: refreshStaging_flushLocked_def s4_def s3_def s2_def Let_def)
  have "\<forall>root \<in> set (sorted_list_of_fset (rst_revoked st)). chain_dead root (tokens_of s4)"
    using inv by (simp add: staging_inv_def s4)
  from fold_revoke_dead_chains [OF wf4 this, of now]
  show "tokens_of (refreshStaging_flushLocked now st parent) = refresh_view parent st"
    and "refresh_wf (refreshStaging_flushLocked now st parent)"
    by (simp_all add: flush s4)
qed


section \<open>Steps and reachable stores\<close>

text \<open>One step of the store: a direct call, the client cascade, or the commit of a transaction session.\<close>

inductive refresh_step :: "refreshStore \<Rightarrow> refreshStore \<Rightarrow> bool" where
  rstep_call: "refresh_step s (snd (refreshStore_call c s))"
| rstep_client: "refresh_step s (snd (refreshStore_RevokeByClient now cid s))"
| rstep_commit: "refresh_step s
     (refreshStaging_flushLocked now (snd (tx_refresh_run calls s newRefreshStaging)) s)"

definition refresh_reachable :: "refreshStore \<Rightarrow> bool" where
  "refresh_reachable s \<longleftrightarrow> refresh_step\<^sup>*\<^sup>* newRefreshStore s"

lemma commit_tokens:
  assumes "refresh_wf s"
  shows "tokens_of (refreshStaging_flushLocked now (snd (tx_refresh_run calls s newRefreshStaging)) s) =
           snd (spec_refresh_run calls (tokens_of s))"
    and "refresh_wf (refreshStaging_flushLocked now (snd (tx_refresh_run calls s newRefreshStaging)) s)"
proof -
  have inv: "staging_inv s (snd (tx_refresh_run calls s newRefreshStaging))"
    using assms by (intro refresh_tx.run_inv) simp
  have "refresh_view s (snd (tx_refresh_run calls s newRefreshStaging)) =
      snd (spec_refresh_run calls (tokens_of s))"
    using refresh_tx.run_sim [of s newRefreshStaging calls] assms by simp
  with flushLocked_view [OF inv, of now]
  show "tokens_of (refreshStaging_flushLocked now (snd (tx_refresh_run calls s newRefreshStaging)) s) =
      snd (spec_refresh_run calls (tokens_of s))"
    and "refresh_wf (refreshStaging_flushLocked now (snd (tx_refresh_run calls s newRefreshStaging)) s)"
    by simp_all
qed

lemma refresh_step_wf: "refresh_step s s' \<Longrightarrow> refresh_wf s \<Longrightarrow> refresh_wf s'"
  by (induction rule: refresh_step.induct)
    (auto intro: refresh_direct.call_inv RevokeByClient_spec(3) commit_tokens(2))

lemma refresh_steps_wf: "refresh_step\<^sup>*\<^sup>* s s' \<Longrightarrow> refresh_wf s \<Longrightarrow> refresh_wf s'"
  by (induction rule: rtranclp_induct) (auto intro: refresh_step_wf)

lemma refresh_reachable_wf: "refresh_reachable s \<Longrightarrow> refresh_wf s"
  by (auto simp: refresh_reachable_def intro: refresh_steps_wf)

text \<open>
  A property of the abstract map that every call of the specification and every revocation keeps
  holds along every execution of the store.
\<close>

lemma refresh_step_keeps:
  assumes "refresh_step s s'" and "refresh_wf s" and "P (tokens_of s)"
    and call: "\<And>c M. P M \<Longrightarrow> P (snd (spec_refresh_call c M))"
    and revoke: "\<And>Q now M. P M \<Longrightarrow> P (revoke_where Q now M)"
  shows "P (tokens_of s')"
  using assms(1-3)
proof (induction rule: refresh_step.induct)
  case (rstep_call s c)
  then show ?case using refresh_direct.call_view [of s c] call [of "tokens_of s" c] by simp
next
  case (rstep_client s now cid)
  then show ?case by (simp add: RevokeByClient_spec spec_refresh_revokeBy_def revoke)
next
  case (rstep_commit s now calls)
  have "P (snd (spec_refresh_run calls (tokens_of s)))"
    by (rule run_calls_invariant [where P = P]) (rule call, assumption, rule rstep_commit.prems)
  with rstep_commit.prems show ?case by (simp add: commit_tokens)
qed

lemma refresh_steps_keep:
  assumes "refresh_step\<^sup>*\<^sup>* s s'" and "refresh_wf s" and "P (tokens_of s)"
    and "\<And>c M. P M \<Longrightarrow> P (snd (spec_refresh_call c M))"
    and "\<And>Q now M. P M \<Longrightarrow> P (revoke_where Q now M)"
  shows "P (tokens_of s')"
  using assms(1-3)
proof (induction rule: rtranclp_induct)
  case (step y z)
  then show ?case
    using refresh_step_keeps [OF step.hyps(2) _ _ assms(4,5)] refresh_steps_wf [OF step.hyps(1)] by blast
qed

lemma chain_dead_steps:
  "refresh_step\<^sup>*\<^sup>* s s' \<Longrightarrow> refresh_wf s \<Longrightarrow> chain_dead root (tokens_of s) \<Longrightarrow>
     chain_dead root (tokens_of s')"
  by (rule refresh_steps_keep [where P = "chain_dead root"])
    (auto intro: chain_dead_call chain_dead_revoke_where)

text \<open>A consumed row only ever gains the revoked mark.\<close>

definition row_frozen :: "key \<Rightarrow> RefreshToken \<Rightarrow> refresh_map \<Rightarrow> bool" where
  "row_frozen k r M \<longleftrightarrow> M k = Some r \<or> M k = Some (r\<lparr>rt_Revoked := True\<rparr>)"

lemma markRevoked_consumed: "rt_ConsumedAt r \<noteq> None \<Longrightarrow> markRevoked now r = r\<lparr>rt_Revoked := True\<rparr>"
  by (auto simp: markRevoked_def)

lemma row_frozen_revoke:
  "rt_ConsumedAt r \<noteq> None \<Longrightarrow> row_frozen k r M \<Longrightarrow> row_frozen k r (revoke_where Q now M)"
  by (auto simp: row_frozen_def revoke_where_def markRevoked_consumed)

lemma row_frozen_save: "row_frozen k r M \<Longrightarrow> row_frozen k r (snd (spec_refresh_save t M))"
  by (auto simp: row_frozen_def spec_refresh_save_def Let_def)

lemma row_frozen_consume:
  "rt_ConsumedAt r \<noteq> None \<Longrightarrow> row_frozen k r M \<Longrightarrow>
     row_frozen k r (snd (spec_refresh_consume now i M))"
  by (auto simp: row_frozen_def spec_refresh_consume_def split: option.splits)

lemma row_frozen_call:
  "rt_ConsumedAt r \<noteq> None \<Longrightarrow> row_frozen k r M \<Longrightarrow> row_frozen k r (snd (spec_refresh_call c M))"
  by (cases "(c, M)" rule: spec_refresh_call.cases)
    (simp_all add: row_frozen_save row_frozen_consume row_frozen_revoke spec_refresh_revokeChain_def
      spec_refresh_revokeBy_def)

lemma row_frozen_steps:
  "refresh_step\<^sup>*\<^sup>* s s' \<Longrightarrow> refresh_wf s \<Longrightarrow> rt_ConsumedAt r \<noteq> None \<Longrightarrow>
     row_frozen k r (tokens_of s) \<Longrightarrow> row_frozen k r (tokens_of s')"
  by (rule refresh_steps_keep [where P = "row_frozen k r"])
    (auto intro: row_frozen_call row_frozen_revoke)

text \<open>A token that was marked revoked is refused ever after.\<close>

lemma revoked_row_refused:
  assumes "refresh_wf s1" and "tokens_of s1 (hashKey j) = Some (markRevoked now t)"
    and "refresh_step\<^sup>*\<^sup>* s1 s2"
  shows "snd (fst (refreshStore_Consume later j s2)) \<noteq> None"
proof -
  have "row_frozen (hashKey j) (markRevoked now t) (tokens_of s2)"
    using row_frozen_steps [OF assms(3,1), of "markRevoked now t" "hashKey j"] assms(2)
    by (simp add: row_frozen_def split: option.split)
  then show ?thesis
    by (auto simp: row_frozen_def refreshStore_Consume_spec(1) [OF refresh_steps_wf [OF assms(3,1)]]
        spec_refresh_consume_def split: option.splits)
qed


section \<open>A sample chain\<close>

definition sample_refresh :: "string \<Rightarrow> string option \<Rightarrow> RefreshToken" where
  "sample_refresh i parent =
     \<lparr>rt_ID = i, rt_ClientID = ''client'', rt_Subject = ''alice'', rt_SubjectPublic = False,
      rt_GrantID = ''g1'', rt_Scope = [''openid'', ''offline_access''], rt_Resource = [],
      rt_Origin = RefreshOriginAuthCode, rt_AuthTime = 5, rt_ACR = [], rt_AMR = [],
      rt_AuthorizationDetails = [], rt_Claims = [], rt_AuthorizationRecorded = True,
      rt_AccessTokenExtra = [], rt_ParentID = parent, rt_ConsumedAt = None, rt_ExpiresAt = 1000,
      rt_CreatedAt = 10, rt_DPoPJKT = [], rt_MTLSCertThumbprint = [], rt_Nonce = [],
      rt_ChainID = [], rt_Revoked = False\<rparr>"

text \<open>A root, consumed by its rotation at instant 20, and its successor.\<close>

definition sample_chain :: refreshStore where
  "sample_chain =
     snd (run_calls refreshStore_call
       [RSave (Some (sample_refresh ''abc'' None)),
        RConsume 20 ''abc'',
        RSave (Some (sample_refresh sample_verifier (Some ''abc'')))] newRefreshStore)"

abbreviation sample_child_id :: string where
  "sample_child_id \<equiv> sample_verifier"

lemma sample_refresh_sel [simp]:
  "rt_ID (sample_refresh i p) = i" "rt_ParentID (sample_refresh i p) = p"
  "rt_Revoked (sample_refresh i p) = False" "rt_ConsumedAt (sample_refresh i p) = None"
  "rt_ExpiresAt (sample_refresh i p) = 1000" "rt_GrantID (sample_refresh i p) = ''g1''"
  "rt_ClientID (sample_refresh i p) = ''client''"
  by (simp_all add: sample_refresh_def)

definition sample_map :: refresh_map where
  "sample_map =
     [hashKey ''abc'' \<mapsto> (sample_refresh (hashKey ''abc'') None)\<lparr>rt_ConsumedAt := Some 20\<rparr>,
      hashKey sample_child_id \<mapsto> sample_refresh (hashKey sample_child_id) (Some ''abc'')]"

lemma sample_rename: "(sample_refresh i p)\<lparr>rt_ID := k\<rparr> = sample_refresh k p"
  by (simp add: sample_refresh_def)

lemma sample_chain_reachable: "refresh_reachable sample_chain"
proof -
  have "refresh_step\<^sup>*\<^sup>* s (snd (run_calls refreshStore_call cs s))" for cs s
  proof (induction cs arbitrary: s)
    case (Cons c cs)
    have "refresh_step s (snd (refreshStore_call c s))"
      by (rule rstep_call)
    then have "refresh_step\<^sup>*\<^sup>* s (snd (run_calls refreshStore_call cs (snd (refreshStore_call c s))))"
      using Cons.IH by (rule converse_rtranclp_into_rtranclp)
    then show ?case by (simp add: case_prod_beta)
  qed simp
  then show ?thesis
    unfolding refresh_reachable_def sample_chain_def .
qed

lemma sample_chain_tokens: "tokens_of sample_chain = sample_map"
proof -
  let ?calls = "[RSave (Some (sample_refresh ''abc'' None)), RConsume 20 ''abc'',
    RSave (Some (sample_refresh sample_child_id (Some ''abc'')))]"
  have "tokens_of sample_chain = snd (spec_refresh_run ?calls (tokens_of newRefreshStore))"
    using refresh_direct.run_sim [OF refresh_wf_new, of ?calls] by (simp only: sample_chain_def snd_conv)
  also have "\<dots> = sample_map"
    by (simp add: newRefreshStore_def refresh_spec_defs parent_revoked_def parent_key_def isExpired_def
        IsExpiredStrict_def sample_map_def sample_rename Let_def fun_eq_iff)
  finally show ?thesis .
qed

lemma sample_chain_wf: "refresh_wf sample_chain"
  by (rule refresh_reachable_wf [OF sample_chain_reachable])

lemma sample_child_descends: "descends sample_map (hashKey ''abc'') (hashKey sample_child_id)"
  unfolding descends_def
  by (rule r_into_rtranclp) (simp add: child_key_def sample_map_def parent_key_def)

lemma sample_chain_revoked:
  "refreshStore_RevokeChain 30 ''abc'' sample_chain =
     (None, snd (refreshStore_RevokeChain 30 ''abc'' sample_chain))"
  using refreshStore_RevokeChain_spec(1) [OF sample_chain_wf, of 30 "''abc''"]
  by (simp add: prod_eq_iff sample_chain_tokens spec_refresh_revokeChain_def sample_map_def)


section \<open>Properties of the refresh-token store\<close>

text \<open>
  C11. Revoking a chain is exact: in every reachable store, RevokeChain on a present root marks as
  revoked and consumed the root and every token that descends from it through parent links, keeps
  the time of consumption of those that were consumed already, and leaves every other token and the
  indexes and sealed responses untouched. On an absent root nothing changes.
\<close>

theorem refresh_revokeChain_exact:
  assumes "refresh_reachable s"
  shows "refreshStore_RevokeChain now root s =
    (if tokens_of s (hashKey root) = None then (Some ErrNotFound, s)
     else (None, s\<lparr>rs_m := rs_m (snd (refreshStore_RevokeChain now root s))\<rparr>))
    \<and> (\<forall>k. tokens_of (snd (refreshStore_RevokeChain now root s)) k =
         (if tokens_of s (hashKey root) \<noteq> None \<and> descends (tokens_of s) (hashKey root) k
          then map_option (\<lambda>r. r\<lparr>rt_Revoked := True,
                 rt_ConsumedAt := Some (case rt_ConsumedAt r of None \<Rightarrow> now | Some t \<Rightarrow> t)\<rparr>)
               (tokens_of s k)
          else tokens_of s k))"
proof -
  have mark: "markRevoked now = (\<lambda>r. r\<lparr>rt_Revoked := True,
      rt_ConsumedAt := Some (case rt_ConsumedAt r of None \<Rightarrow> now | Some t \<Rightarrow> t)\<rparr>)"
    by (auto simp: fun_eq_iff markRevoked_def Let_def split: option.split)
  show ?thesis
    using refreshStore_RevokeChain_spec [OF refresh_reachable_wf [OF assms], of now root]
    by (simp add: refreshStore_RevokeChain_def spec_refresh_revokeChain_def revoke_where_def
        refreshStore_revokeChainLocked_def mark [symmetric] Let_def)
qed

theorem refresh_revokeChain_exact_witness:
  "tokens_of (snd (refreshStore_RevokeChain 30 ''abc'' sample_chain)) (hashKey sample_child_id) =
     Some ((sample_refresh (hashKey sample_child_id) (Some ''abc''))
       \<lparr>rt_Revoked := True, rt_ConsumedAt := Some 30\<rparr>)"
  using conjunct2 [OF refresh_revokeChain_exact [OF sample_chain_reachable, of 30 "''abc''"], rule_format,
      of "hashKey sample_child_id"]
  by (simp add: sample_chain_tokens sample_child_descends) (simp add: sample_map_def)

text \<open>
  C10. A revoked chain stays dead: once RevokeChain has succeeded, then after any sequence of direct
  calls, client cascades and committed transactions, no token that descends from the root can be
  consumed, and whatever Find still returns of the chain is marked revoked. In particular no
  rotation can attach a live token to the chain.
\<close>

theorem refresh_chain_death:
  assumes "refresh_reachable s" and "refreshStore_RevokeChain now root s = (None, s1)"
    and "refresh_step\<^sup>*\<^sup>* s1 s2" and "descends (tokens_of s2) (hashKey root) (hashKey i)"
  shows "snd (fst (refreshStore_Consume later i s2)) \<noteq> None
    \<and> (\<forall>r. fst (refreshStore_Find later i s2) = Some r \<longrightarrow> rt_Revoked r)"
proof -
  note wf = refresh_reachable_wf [OF assms(1)]
  note spec = refreshStore_RevokeChain_spec [OF wf, of now root, unfolded assms(2)]
  have dead1: "chain_dead (hashKey root) (tokens_of s1)"
    using chain_dead_revokeChain [of now root "tokens_of s"] spec by simp
  have wf2: "refresh_wf s2" and dead: "chain_dead (hashKey root) (tokens_of s2)"
    using spec(3) by (simp_all add: refresh_steps_wf [OF assms(3)] chain_dead_steps [OF assms(3) _ dead1])
  from dead assms(4) show ?thesis
    unfolding refreshStore_Find_spec [OF wf2] refreshStore_Consume_spec(1) [OF wf2]
    by (auto simp: spec_refresh_find_def spec_refresh_consume_def chain_dead_def row_dead_def
        split: option.splits if_splits)
qed

lemma sample_chain_after:
  "descends (tokens_of (snd (refreshStore_RevokeChain 30 ''abc'' sample_chain)))
     (hashKey ''abc'') (hashKey sample_child_id)"
  using refreshStore_RevokeChain_spec(2) [OF sample_chain_wf, of 30 "''abc''"] sample_child_descends
  by (simp add: sample_chain_tokens spec_refresh_revokeChain_def)

theorem refresh_chain_death_witness:
  "fst (refreshStore_RevokeChain 30 ''abc'' sample_chain) = None
   \<and> snd (fst (refreshStore_Consume 40 sample_child_id
        (snd (refreshStore_RevokeChain 30 ''abc'' sample_chain)))) \<noteq> None
   \<and> snd (fst (refreshStore_Consume 40 sample_child_id sample_chain)) = None"
proof (intro conjI)
  show "fst (refreshStore_RevokeChain 30 ''abc'' sample_chain) = None"
    using sample_chain_revoked by (metis fst_conv)
  show "snd (fst (refreshStore_Consume 40 sample_child_id
      (snd (refreshStore_RevokeChain 30 ''abc'' sample_chain)))) \<noteq> None"
    using refresh_chain_death [OF sample_chain_reachable sample_chain_revoked rtranclp.rtrancl_refl
        sample_chain_after, of 40] by simp
  show "snd (fst (refreshStore_Consume 40 sample_child_id sample_chain)) = None"
    by (simp add: refreshStore_Consume_spec [OF sample_chain_wf] sample_chain_tokens
        spec_refresh_consume_def) (simp add: sample_map_def isExpired_def IsExpiredStrict_def)
qed


text \<open>
  C13. A refresh token is consumed at most once, and a replay is recognised: after a successful
  Consume and any further steps of the store, a Consume of the same token before its expiry answers
  with the sentinel for consumed tokens together with the very record the first Consume returned
  (which may meanwhile carry the revoked mark); past the expiry it answers not found.
\<close>

theorem refresh_single_use:
  assumes "refresh_reachable s" and "refreshStore_Consume now i s = ((Some r, None), s1)"
    and "refresh_step\<^sup>*\<^sup>* s1 s2"
  shows "\<exists>r'. (r' = r \<or> r' = r\<lparr>rt_Revoked := True\<rparr>)
    \<and> fst (refreshStore_Consume later i s2) =
        (if isExpired (rt_ExpiresAt r) later then (None, Some ErrNotFound)
         else (Some r', Some ErrAlreadyConsumed))"
proof -
  note wf = refresh_reachable_wf [OF assms(1)]
  note spec = refreshStore_Consume_spec [OF wf, of now i, unfolded assms(2)]
  obtain r0 where r: "r = r0\<lparr>rt_ID := i\<rparr>" and r0: "tokens_of s1 (hashKey i) = Some r0"
    and "rt_ConsumedAt r0 = Some now"
    using spec by (auto simp: spec_refresh_consume_def split: option.splits if_splits)
  then have consumed: "rt_ConsumedAt r0 \<noteq> None"
    by simp
  have wf1: "refresh_wf s1"
    using refreshStore_Consume_wf [OF wf, of now i] assms(2) by simp
  note wf2 = refresh_steps_wf [OF assms(3) wf1]
  have "row_frozen (hashKey i) r0 (tokens_of s2)"
    by (rule row_frozen_steps [OF assms(3) wf1 consumed]) (simp add: row_frozen_def r0)
  then show ?thesis
    using consumed by (auto simp: row_frozen_def refreshStore_Consume_spec(1) [OF wf2] r spec_refresh_consume_def)
qed

lemma sample_child_consume:
  "refreshStore_Consume 40 sample_child_id sample_chain =
     ((Some ((sample_refresh sample_child_id (Some ''abc''))\<lparr>rt_ConsumedAt := Some 40\<rparr>), None),
      snd (refreshStore_Consume 40 sample_child_id sample_chain))"
  by (simp add: prod_eq_iff refreshStore_Consume_spec [OF sample_chain_wf] sample_chain_tokens
      spec_refresh_consume_def)
    (simp add: sample_map_def isExpired_def IsExpiredStrict_def, simp add: sample_refresh_def)

lemma rstep_clients: "refresh_step\<^sup>*\<^sup>* s (snd (refreshStore_RevokeByClient now c s))"
  by (rule r_into_rtranclp) (rule rstep_client)

theorem refresh_single_use_witness:
  "snd (fst (refreshStore_Consume 40 sample_child_id sample_chain)) = None
   \<and> snd (fst (refreshStore_Consume 50 sample_child_id
        (snd (refreshStore_RevokeByClient 45 ''client''
          (snd (refreshStore_Consume 40 sample_child_id sample_chain)))))) = Some ErrAlreadyConsumed"
proof
  show "snd (fst (refreshStore_Consume 40 sample_child_id sample_chain)) = None"
    by (subst sample_child_consume) simp
  show "snd (fst (refreshStore_Consume 50 sample_child_id
      (snd (refreshStore_RevokeByClient 45 ''client''
        (snd (refreshStore_Consume 40 sample_child_id sample_chain)))))) = Some ErrAlreadyConsumed"
    using refresh_single_use [OF sample_chain_reachable sample_child_consume
        rstep_clients [of _ 45 "''client''"], of 50]
    by (auto simp: isExpired_def IsExpiredStrict_def)
qed

text \<open>
  C18. The secondary indexes are exact in every reachable store: the keys filed under a client, a
  grant or a parent are precisely the keys of the rows with that client, grant or parent, and every
  row carries its digest as its ID. The administrative revocations, which visit only the keys an
  index names, therefore reach every row of their target and no other row.
\<close>

theorem refresh_indexes_exact:
  assumes "refresh_reachable s"
  shows "(c \<noteq> [] \<longrightarrow> fset (gm_set (rs_byClient s) c) = {k. \<exists>r. tokens_of s k = Some r \<and> rt_ClientID r = c})
    \<and> (g \<noteq> [] \<longrightarrow> fset (gm_set (rs_byGrant s) g) = {k. \<exists>r. tokens_of s k = Some r \<and> rt_GrantID r = g})
    \<and> fset (gm_set (rs_byParent s) (hashKey p)) =
        {k. \<exists>r q. tokens_of s k = Some r \<and> rt_ParentID r = Some q \<and> hashKey q = hashKey p}
    \<and> (tokens_of s k = Some t \<longrightarrow> rt_ID t = k)
    \<and> (c \<noteq> [] \<longrightarrow> tokens_of (snd (refreshStore_RevokeByClient now c s)) j =
         map_option (\<lambda>r. if rt_ClientID r = c then markRevoked now r else r) (tokens_of s j))
    \<and> (g \<noteq> [] \<longrightarrow> tokens_of (snd (refreshStore_RevokeByGrant now g s)) j =
         map_option (\<lambda>r. if rt_GrantID r = g then markRevoked now r else r) (tokens_of s j))"
proof -
  note wf = refresh_reachable_wf [OF assms]
  have "tokens_of (snd (refreshStore_RevokeByClient now c s)) j =
      map_option (\<lambda>r. if rt_ClientID r = c then markRevoked now r else r) (tokens_of s j)" if "c \<noteq> []"
    using that by (cases "tokens_of s j")
      (simp_all add: RevokeByClient_spec [OF wf] spec_refresh_revokeBy_def revoke_where_def)
  moreover have "tokens_of (snd (refreshStore_RevokeByGrant now g s)) j =
      map_option (\<lambda>r. if rt_GrantID r = g then markRevoked now r else r) (tokens_of s j)" if "g \<noteq> []"
    using that by (cases "tokens_of s j")
      (simp_all add: RevokeByGrant_spec [OF wf] spec_refresh_revokeBy_def revoke_where_def)
  ultimately show ?thesis
    using wf by (auto simp: refresh_wf_def tokens_keyed_def index_ok_def client_attr_def grant_attr_def
        parent_key_def)
qed

theorem refresh_indexes_exact_witness:
  "fset (gm_set (rs_byParent sample_chain) (hashKey ''abc'')) = {hashKey sample_child_id}"
proof -
  have "fset (gm_set (rs_byParent sample_chain) (hashKey ''abc'')) =
      {k. \<exists>r q. sample_map k = Some r \<and> rt_ParentID r = Some q \<and> hashKey q = hashKey ''abc''}"
    using refresh_indexes_exact [OF sample_chain_reachable, where p = "''abc''"]
    by (simp only: sample_chain_tokens)
  then show ?thesis
    by (simp add: sample_map_def) auto
qed

text \<open>
  C12. A transaction on the refresh-token store is atomic and answers like the specification: every
  call of the session returns what it returns on the abstract map, the commit publishes exactly the
  map at the end of the session (chain revocations of the session included), and the indexes of the
  committed store stay exact.
\<close>

theorem refresh_tx_session_refines:
  assumes "refresh_reachable s"
  shows "fst (tx_refresh_run calls s newRefreshStaging) = fst (spec_refresh_run calls (tokens_of s))
    \<and> tokens_of (refreshStaging_flushLocked now (snd (tx_refresh_run calls s newRefreshStaging)) s) =
        snd (spec_refresh_run calls (tokens_of s))
    \<and> refresh_wf (refreshStaging_flushLocked now (snd (tx_refresh_run calls s newRefreshStaging)) s)"
  using refresh_tx.run_sim [of s newRefreshStaging calls] refresh_reachable_wf [OF assms]
    commit_tokens [OF refresh_reachable_wf [OF assms], of now calls]
  by simp

lemma sample_session_spec:
  "spec_refresh_run [RRevokeChain 40 ''abc'', RConsume 45 sample_child_id] sample_map =
     ([RReplyErr None,
       RReplyRec (Some (markRevoked 40 (sample_refresh sample_child_id (Some ''abc''))),
         Some ErrAlreadyConsumed)],
      revoke_where (descends sample_map (hashKey ''abc'')) 40 sample_map)"
proof -
  let ?r = "sample_refresh (hashKey sample_child_id) (Some ''abc'')"
  have "sample_map (hashKey ''abc'') \<noteq> None" and row: "sample_map (hashKey sample_child_id) = Some ?r"
    by (simp_all add: sample_map_def)
  then have "spec_refresh_revokeChain 40 ''abc'' sample_map =
      (None, revoke_where (descends sample_map (hashKey ''abc'')) 40 sample_map)"
    by (simp add: spec_refresh_revokeChain_def)
  moreover have "revoke_where (descends sample_map (hashKey ''abc'')) 40 sample_map
      (hashKey sample_child_id) = Some (markRevoked 40 ?r)"
    using sample_child_descends row by (simp add: revoke_where_def)
  moreover have "(markRevoked 40 ?r)\<lparr>rt_ID := sample_child_id\<rparr> =
      markRevoked 40 (sample_refresh sample_child_id (Some ''abc''))"
    by (simp add: markRevoked_def sample_refresh_def)
  ultimately show ?thesis
    by (simp add: spec_refresh_consume_def isExpired_def IsExpiredStrict_def)
qed

theorem refresh_tx_session_refines_witness:
  "fst (tx_refresh_run [RRevokeChain 40 ''abc'', RConsume 45 sample_child_id] sample_chain
      newRefreshStaging) =
     [RReplyErr None,
      RReplyRec (Some (markRevoked 40 (sample_refresh sample_child_id (Some ''abc''))),
        Some ErrAlreadyConsumed)]"
  using refresh_tx_session_refines [OF sample_chain_reachable,
      of "[RRevokeChain 40 ''abc'', RConsume 45 sample_child_id]"]
  by (simp only: sample_chain_tokens sample_session_spec fst_conv)


lemma LoadRetry_maybeGC:
  assumes "now \<le> later"
  shows "refreshStore_LoadRetryResponse later q (refreshStore_maybeGCRetriesLocked now s) =
         refreshStore_LoadRetryResponse later q s"
proof -
  have "refreshStore_LoadRetryResponse later q (refreshStore_gcRetriesLocked now s) =
      refreshStore_LoadRetryResponse later q s" for s
    using isExpired_mono [OF _ assms]
    by (auto simp: refreshStore_LoadRetryResponse_def refreshStore_gcRetriesLocked_def
        retryReclaimable_def isExpired_IsExpiredStrict split: option.splits)
  then show ?thesis
    by (simp add: refreshStore_maybeGCRetriesLocked_def Let_def split: prod.split)
      (simp add: refreshStore_LoadRetryResponse_def)
qed

text \<open>
  A rotation saved with its sealed response makes the response available under the predecessor
  until the predecessor's own expiry (the successor's, when the predecessor row is absent) and not
  after it; responses held for other predecessors are served as before, whether or not the write
  triggered a sweep.
\<close>

theorem refresh_retry_retention:
  assumes save: "refreshStore_SaveRotationWithRetry now (Some t) sealed s = (None, s')"
    and p: "rt_ParentID t = Some p"
  shows "refreshStore_LoadRetryResponse later p s' =
      (if isExpired (case tokens_of s (hashKey p) of Some r \<Rightarrow> rt_ExpiresAt r | None \<Rightarrow> rt_ExpiresAt t) later
       then (None, Some ErrNotFound) else (Some sealed, None))
    \<and> (now \<le> later \<longrightarrow> hashKey q \<noteq> hashKey p \<longrightarrow>
         refreshStore_LoadRetryResponse later q s' = refreshStore_LoadRetryResponse later q s)"
proof -
  have ne: "sealed \<noteq> []"
    using save p by (auto simp: refreshStore_SaveRotationWithRetry_def Let_def split: if_splits)
  obtain s1 where run: "refreshStore_Save (Some t) s = (None, s1)"
    and s': "s' = (refreshStore_maybeGCRetriesLocked now s1)
        \<lparr>rs_retries := fmupd (hashKey p)
           \<lparr>rr_sealed = sealed, rr_expiresAt = retryRetention (tokens_of s1 (hashKey p)) t\<rparr>
           (rs_retries (refreshStore_maybeGCRetriesLocked now s1))\<rparr>"
    using save unfolding SaveRotation_Save [OF p ne] by (auto split: prod.splits option.splits)
  have s1: "tokens_of s1 = (tokens_of s)(hashKey (rt_ID t) \<mapsto> t\<lparr>rt_ID := hashKey (rt_ID t)\<rparr>)"
    and new: "tokens_of s (hashKey (rt_ID t)) = None" and same: "rs_retries s1 = rs_retries s"
    using run by (auto simp: refreshStore_Save_def storeRefresh_def Let_def fun_eq_iff
        split: option.splits if_splits)
  have "retryRetention (tokens_of s1 (hashKey p)) t =
      (case tokens_of s (hashKey p) of Some r \<Rightarrow> rt_ExpiresAt r | None \<Rightarrow> rt_ExpiresAt t)"
    using new by (cases "hashKey p = hashKey (rt_ID t)") (simp_all add: s1 retryRetention_def)
  moreover have "refreshStore_LoadRetryResponse later q s' = refreshStore_LoadRetryResponse later q s"
    if "now \<le> later" and "hashKey q \<noteq> hashKey p"
    using LoadRetry_maybeGC [OF that(1), of q s1] that(2)
    by (simp add: s' refreshStore_LoadRetryResponse_def same)
  ultimately show ?thesis
    by (simp add: s' refreshStore_LoadRetryResponse_def retryReclaimable_def isExpired_IsExpiredStrict)
qed

definition sample_rotation :: refreshStore where
  "sample_rotation = snd (refreshStore_SaveRotationWithRetry 20
     (Some (sample_refresh ''abc'' (Some ''lost''))) [1, 2, 3] newRefreshStore)"

lemma sample_rotation_saved:
  "refreshStore_SaveRotationWithRetry 20 (Some (sample_refresh ''abc'' (Some ''lost''))) [1, 2, 3]
     newRefreshStore = (None, sample_rotation)"
  by (simp add: sample_rotation_def refreshStore_SaveRotationWithRetry_def newRefreshStore_def
      refreshStore_assertParentAliveLocked_def Let_def)

theorem refresh_retry_retention_witness:
  "refreshStore_LoadRetryResponse 1000 ''lost'' sample_rotation = (Some [1, 2, 3], None)
   \<and> refreshStore_LoadRetryResponse 1001 ''lost'' sample_rotation = (None, Some ErrNotFound)"
  using refresh_retry_retention [OF sample_rotation_saved, of "''lost''" 1000]
    refresh_retry_retention [OF sample_rotation_saved, of "''lost''" 1001]
  by (simp add: newRefreshStore_def isExpired_def IsExpiredStrict_def)

end
