(* ===== verification/ChainRetire.thy ===== *)
theory ChainRetire
  imports RefreshTx
begin

text \<open>
  Chain retirement, \<^verbatim>\<open>internal/revocation/chain_root.go\<close> and \<^verbatim>\<open>chain_retire.go\<close>: the walk from a token
  to the root of its rotation chain, and the two-rung revocation that follows it. The code is written
  against the interface \<^verbatim>\<open>store.RefreshTokenStore\<close>, a record of operations here; its laws are the locale
  \<open>refresh_backend\<close>, which the in-memory store and a transaction on it both satisfy.
\<close>

record 's refresh_ops =
  ro_Save :: "RefreshToken option \<Rightarrow> 's \<Rightarrow> store_err option \<times> 's"
  ro_Find :: "time \<Rightarrow> string \<Rightarrow> 's \<Rightarrow> RefreshToken option \<times> store_err option"
  ro_Consume :: "time \<Rightarrow> string \<Rightarrow> 's \<Rightarrow> (RefreshToken option \<times> store_err option) \<times> 's"
  ro_RevokeChain :: "time \<Rightarrow> string \<Rightarrow> 's \<Rightarrow> store_err option \<times> 's"
  ro_RevokeByGrant :: "time \<Rightarrow> string \<Rightarrow> 's \<Rightarrow> store_err option \<times> 's"
  ro_FindByStoredHandle :: "(time \<Rightarrow> string \<Rightarrow> 's \<Rightarrow> RefreshToken option \<times> store_err option) option"

section \<open>Walking to the root\<close>

text \<open>
  \<^verbatim>\<open>resolveNode\<close>: a chain handle goes through \<^verbatim>\<open>RefreshChainResolver\<close> when the backend implements it
  (the last field of the record), a credential always through Find.
\<close>

definition resolveNode ::
  "'s refresh_ops \<Rightarrow> time \<Rightarrow> string \<Rightarrow> bool \<Rightarrow> 's \<Rightarrow> RefreshToken option \<times> store_err option" where
  "resolveNode tokens now i credential s =
     (case if credential then None else ro_FindByStoredHandle tokens of
        Some resolve \<Rightarrow> resolve now i s
      | None \<Rightarrow> ro_Find tokens now i s)"

definition chain_lookup ::
  "'s refresh_ops \<Rightarrow> time \<Rightarrow> string \<Rightarrow> bool \<Rightarrow> 's \<Rightarrow> store_err + RefreshToken" where
  "chain_lookup tokens now i credential s =
     (case resolveNode tokens now i credential s of
        (_, Some err) \<Rightarrow> Inl err
      | (None, None) \<Rightarrow> Inl ErrNotFound
      | (Some rec, None) \<Rightarrow> Inr rec)"

definition FindByHandle ::
  "'s refresh_ops \<Rightarrow> time \<Rightarrow> string \<Rightarrow> 's \<Rightarrow> store_err + RefreshToken" where
  "FindByHandle tokens now handle s = chain_lookup tokens now handle False s"

definition findRootErrorOutcome ::
  "store_err \<Rightarrow> bool \<Rightarrow> string \<Rightarrow> string \<times> bool \<times> store_err option" where
  "findRootErrorOutcome err firstHop deepest =
     (if deepest \<noteq> [] then (deepest, True, None)
      else if firstHop \<and> err \<noteq> ErrNotFound then ([], False, Some err)
      else ([], False, None))"

text \<open>The loop \<^verbatim>\<open>for i := range limit\<close>: the hops that are left, and whether this is the first one.\<close>

fun FindRoot_loop ::
  "'s refresh_ops \<Rightarrow> time \<Rightarrow> 's \<Rightarrow> nat \<Rightarrow> bool \<Rightarrow> string \<Rightarrow> string \<Rightarrow> string \<Rightarrow>
     string \<times> bool \<times> store_err option" where
  "FindRoot_loop tokens now s 0 first current clientID deepest = ([], False, None)"
| "FindRoot_loop tokens now s (Suc n) first current clientID deepest =
     (case chain_lookup tokens now current first s of
        Inl err \<Rightarrow> findRootErrorOutcome err first deepest
      | Inr rec \<Rightarrow>
          if clientID \<noteq> [] \<and> rt_ClientID rec \<noteq> clientID then ([], False, None)
          else
            let clientID = (if clientID = [] then rt_ClientID rec else clientID)
            in case rt_ParentID rec of
                 None \<Rightarrow> (current, True, None)
               | Some p \<Rightarrow> FindRoot_loop tokens now s n False p clientID current)"

definition FindRoot ::
  "'s refresh_ops option \<Rightarrow> time \<Rightarrow> string \<Rightarrow> int \<Rightarrow> 's \<Rightarrow> string \<times> bool \<times> store_err option" where
  "FindRoot tokens now startID limit s =
     (case tokens of
        None \<Rightarrow> ([], False, None)
      | Some ops \<Rightarrow>
          if startID = [] \<or> limit \<le> 0 then ([], False, None)
          else FindRoot_loop ops now s (nat limit) True startID [] [])"


section \<open>Retiring a chain\<close>

definition chainWalkLimit :: int where
  "chainWalkLimit = 1024"

record Retirement =
  rm_RootErr :: "store_err option"
  rm_RootUnresolved :: bool
  rm_ChainErr :: "store_err option"
  rm_GrantUnresolved :: bool
  rm_GrantErr :: "store_err option"

definition zero_Retirement :: Retirement where
  "zero_Retirement =
     \<lparr>rm_RootErr = None, rm_RootUnresolved = False, rm_ChainErr = None, rm_GrantUnresolved = False,
      rm_GrantErr = None\<rparr>"

definition Retirement_FellBackToGrant :: "Retirement \<Rightarrow> bool" where
  "Retirement_FellBackToGrant r \<longleftrightarrow> rm_RootUnresolved r \<or> rm_ChainErr r \<noteq> None"

definition Retirement_Retired :: "Retirement \<Rightarrow> bool" where
  "Retirement_Retired r \<longleftrightarrow>
     (if \<not> Retirement_FellBackToGrant r then True
      else \<not> rm_GrantUnresolved r \<and> rm_GrantErr r = None)"

text \<open>The grant rung: the tail of \<^verbatim>\<open>Retire\<close>, reached when the chain rung did not complete.\<close>

definition Retire_grant_rung ::
  "'s refresh_ops \<Rightarrow> time \<Rightarrow> string \<Rightarrow> Retirement \<Rightarrow> 's \<Rightarrow> Retirement \<times> 's" where
  "Retire_grant_rung tokens now grantID out s =
     (if grantID = [] then (out\<lparr>rm_GrantUnresolved := True\<rparr>, s)
      else case ro_RevokeByGrant tokens now grantID s of (e, s) \<Rightarrow> (out\<lparr>rm_GrantErr := e\<rparr>, s))"

definition Retire ::
  "'s refresh_ops \<Rightarrow> time \<Rightarrow> string \<Rightarrow> string \<Rightarrow> 's \<Rightarrow> Retirement \<times> 's" where
  "Retire tokens now startID grantID s =
     (case FindRoot (Some tokens) now startID chainWalkLimit s of
        (rootID, ok, err) \<Rightarrow>
          if ok then
            (case ro_RevokeChain tokens now rootID s of
               (None, s) \<Rightarrow> (zero_Retirement, s)
             | (Some e, s) \<Rightarrow>
                 Retire_grant_rung tokens now grantID (zero_Retirement\<lparr>rm_ChainErr := Some e\<rparr>) s)
          else
            Retire_grant_rung tokens now grantID
              (zero_Retirement\<lparr>rm_RootErr := err, rm_RootUnresolved := True\<rparr>) s)"

definition JoinsForeignGrant :: "RefreshToken \<Rightarrow> bool" where
  "JoinsForeignGrant rec \<longleftrightarrow> rt_Origin rec = RefreshOriginCustomGrant"

definition RetireRecord ::
  "'s refresh_ops \<Rightarrow> time \<Rightarrow> string \<Rightarrow> RefreshToken \<Rightarrow> 's \<Rightarrow> Retirement \<times> 's" where
  "RetireRecord tokens now startID rec s =
     (let grantID = (if JoinsForeignGrant rec then [] else rt_GrantID rec)
      in Retire tokens now startID grantID s)"


text \<open>
  A chain from a token to its root in which every record is live at an instant and belongs to one
  client, written as the list of the identifiers on the way.
\<close>

fun chain_path :: "refresh_map \<Rightarrow> time \<Rightarrow> string \<Rightarrow> string list \<Rightarrow> bool" where
  "chain_path M now cid [] = False"
| "chain_path M now cid (x # xs) =
     (\<exists>r. M (hashKey x) = Some r \<and> \<not> isExpired (rt_ExpiresAt r) now \<and> rt_ClientID r = cid
        \<and> rt_ParentID r = (case xs of [] \<Rightarrow> None | y # _ \<Rightarrow> Some y)
        \<and> (xs = [] \<or> chain_path M now cid xs))"


section \<open>The contract of a refresh-token backend\<close>

text \<open>
  A backend without \<^verbatim>\<open>RefreshChainResolver\<close> whose operations answer like the abstract map. \<open>inv\<close> is
  the backend's invariant and \<open>view\<close> the map it represents.
\<close>

locale refresh_backend =
  fixes ops :: "'s refresh_ops"
    and inv :: "'s \<Rightarrow> bool"
    and view :: "'s \<Rightarrow> refresh_map"
  assumes no_resolver: "ro_FindByStoredHandle ops = None"
    and find: "inv s \<Longrightarrow> ro_Find ops now i s = spec_refresh_find now i (view s)"
    and save: "inv s \<Longrightarrow> fst (ro_Save ops (Some t) s) = fst (spec_refresh_save t (view s))"
      "inv s \<Longrightarrow> view (snd (ro_Save ops (Some t) s)) = snd (spec_refresh_save t (view s))"
      "inv s \<Longrightarrow> inv (snd (ro_Save ops (Some t) s))"
    and consume: "inv s \<Longrightarrow> fst (ro_Consume ops now i s) = fst (spec_refresh_consume now i (view s))"
      "inv s \<Longrightarrow> view (snd (ro_Consume ops now i s)) = snd (spec_refresh_consume now i (view s))"
      "inv s \<Longrightarrow> inv (snd (ro_Consume ops now i s))"
    and revokeChain:
      "inv s \<Longrightarrow> fst (ro_RevokeChain ops now i s) = fst (spec_refresh_revokeChain now i (view s))"
      "inv s \<Longrightarrow> view (snd (ro_RevokeChain ops now i s)) = snd (spec_refresh_revokeChain now i (view s))"
      "inv s \<Longrightarrow> inv (snd (ro_RevokeChain ops now i s))"
    and revokeByGrant:
      "inv s \<Longrightarrow> fst (ro_RevokeByGrant ops now g s) = fst (spec_refresh_revokeBy rt_GrantID now g (view s))"
      "inv s \<Longrightarrow> view (snd (ro_RevokeByGrant ops now g s)) =
         snd (spec_refresh_revokeBy rt_GrantID now g (view s))"
      "inv s \<Longrightarrow> inv (snd (ro_RevokeByGrant ops now g s))"
begin

lemma lookup_view:
  assumes "inv s"
  shows "chain_lookup ops now i cred s =
    (case view s (hashKey i) of
       None \<Rightarrow> Inl ErrNotFound
     | Some r \<Rightarrow> if isExpired (rt_ExpiresAt r) now then Inl ErrNotFound else Inr (r\<lparr>rt_ID := i\<rparr>))"
  by (simp add: chain_lookup_def resolveNode_def no_resolver find [OF assms] spec_refresh_find_def
      split: option.split)

lemma lookup_Inr:
  assumes "inv s" and "chain_lookup ops now i cred s = Inr rec"
  obtains r where "view s (hashKey i) = Some r" and "rec = r\<lparr>rt_ID := i\<rparr>"
  using assms(2) by (auto simp: lookup_view [OF assms(1)] split: option.splits if_splits)

lemma FindRoot_loop_sound:
  assumes "inv s"
  shows "FindRoot_loop ops now s n first current cid deepest = (root, True, e) \<Longrightarrow>
     descends (view s) (hashKey current) start \<Longrightarrow>
     (deepest \<noteq> [] \<Longrightarrow> view s (hashKey deepest) \<noteq> None \<and> descends (view s) (hashKey deepest) start) \<Longrightarrow>
     view s (hashKey root) \<noteq> None \<and> descends (view s) (hashKey root) start"
proof (induction n arbitrary: first current cid deepest)
  case (Suc n)
  show ?case
  proof (cases "chain_lookup ops now current first s")
    case (Inl err)
    with Suc.prems show ?thesis
      by (auto simp: findRootErrorOutcome_def split: if_splits)
  next
    case (Inr rec)
    then obtain r where row: "view s (hashKey current) = Some r" and rec: "rec = r\<lparr>rt_ID := current\<rparr>"
      using lookup_Inr [OF assms] by blast
    show ?thesis
    proof (cases "rt_ParentID rec")
      case None
      with Inr Suc.prems row show ?thesis
        by (auto simp: Let_def split: if_splits)
    next
      case (Some p)
      then have step: "child_key (view s) (hashKey p) (hashKey current)"
        using row rec by (simp add: child_key_def parent_key_def)
      have up: "descends (view s) (hashKey p) start"
        using step Suc.prems(2) unfolding descends_def by (rule converse_rtranclp_into_rtranclp)
      obtain cid' where "FindRoot_loop ops now s n False p cid' current = (root, True, e)"
        using Suc.prems(1) Inr Some by (auto simp: Let_def split: if_splits)
      from Suc.IH [OF this up] Suc.prems(2) row show ?thesis by simp
    qed
  qed
qed simp

lemma FindRoot_sound:
  assumes "inv s" and "FindRoot (Some ops) now i limit s = (root, True, e)"
  shows "view s (hashKey root) \<noteq> None" and "descends (view s) (hashKey root) (hashKey i)"
proof -
  have "FindRoot_loop ops now s (nat limit) True i [] [] = (root, True, e)"
    using assms(2) by (simp add: FindRoot_def split: if_splits)
  from FindRoot_loop_sound [OF assms(1) this, of "hashKey i"]
  show "view s (hashKey root) \<noteq> None" and "descends (view s) (hashKey root) (hashKey i)"
    by (simp_all add: descends_def)
qed

lemma FindRoot_loop_complete:
  assumes "inv s"
  shows "chain_path (view s) now cid (x # xs) \<Longrightarrow> length xs < n \<Longrightarrow> c = [] \<or> c = cid \<Longrightarrow>
     FindRoot_loop ops now s n first x c deepest = (last (x # xs), True, None)"
proof (induction xs arbitrary: x n first c deepest)
  case Nil
  then obtain m where "n = Suc m" by (cases n) auto
  with Nil show ?case
    by (auto simp: lookup_view [OF assms] Let_def)
next
  case (Cons y ys)
  then obtain m where n: "n = Suc m" and m: "length ys < m" by (cases n) auto
  have path: "chain_path (view s) now cid (y # ys)"
    using Cons.prems(1) by (auto simp del: chain_path.simps(2) simp add: chain_path.simps(2) [of _ _ _ x])
  have "FindRoot_loop ops now s n first x c deepest = FindRoot_loop ops now s m False y cid x"
    using Cons.prems(1,3) by (auto simp: n lookup_view [OF assms] Let_def)
  also have "\<dots> = (last (y # ys), True, None)"
    by (rule Cons.IH [OF path m]) simp
  finally show ?case by simp
qed

lemma Retire_chain_rung:
  assumes "inv s" and "FindRoot (Some ops) now i chainWalkLimit s = (root, True, e)"
  shows "fst (Retire ops now i g s) = zero_Retirement"
    and "view (snd (Retire ops now i g s)) = revoke_where (descends (view s) (hashKey root)) now (view s)"
    and "inv (snd (Retire ops now i g s))"
proof -
  obtain s' where run: "ro_RevokeChain ops now root s = (None, s')"
    and view: "view s' = revoke_where (descends (view s) (hashKey root)) now (view s)" and "inv s'"
    using revokeChain [OF assms(1), of now root] FindRoot_sound(1) [OF assms]
    by (cases "ro_RevokeChain ops now root s") (auto simp: spec_refresh_revokeChain_def)
  then show "fst (Retire ops now i g s) = zero_Retirement"
    and "view (snd (Retire ops now i g s)) = revoke_where (descends (view s) (hashKey root)) now (view s)"
    and "inv (snd (Retire ops now i g s))"
    by (simp_all add: Retire_def assms(2))
qed

lemma Retire_grant_rung:
  assumes "inv s" and "FindRoot (Some ops) now i chainWalkLimit s = (root, False, e)"
  shows "fst (Retire ops now i g s) =
           zero_Retirement\<lparr>rm_RootErr := e, rm_RootUnresolved := True, rm_GrantUnresolved := (g = [])\<rparr>"
    and "view (snd (Retire ops now i g s)) = snd (spec_refresh_revokeBy rt_GrantID now g (view s))"
    and "inv (snd (Retire ops now i g s))"
proof -
  note grant = revokeByGrant [OF assms(1), of now g]
  have "fst (ro_RevokeByGrant ops now g s) = None"
    by (simp add: grant spec_refresh_revokeBy_def)
  with grant assms show "fst (Retire ops now i g s) =
      zero_Retirement\<lparr>rm_RootErr := e, rm_RootUnresolved := True, rm_GrantUnresolved := (g = [])\<rparr>"
    and "view (snd (Retire ops now i g s)) = snd (spec_refresh_revokeBy rt_GrantID now g (view s))"
    and "inv (snd (Retire ops now i g s))"
    by (auto simp: Retire_def ChainRetire.Retire_grant_rung_def zero_Retirement_def
        spec_refresh_revokeBy_def split: prod.splits)
qed

lemma Retire_inv: "inv s \<Longrightarrow> inv (snd (Retire ops now i g s))"
  using Retire_chain_rung(3) Retire_grant_rung(3)
  by (cases "FindRoot (Some ops) now i chainWalkLimit s") (metis (full_types))

text \<open>
  What a completed retirement leaves: every token below the presented one is dead, through the chain
  rung, or through the grant rung when it carries the grant the rung was keyed on.
\<close>

lemma Retire_retires:
  assumes inv: "inv s" and retired: "Retirement_Retired (fst (Retire ops now i g s))"
    and below: "descends (view s) (hashKey i) k" and row: "view s k = Some t"
    and grant: "Retirement_FellBackToGrant (fst (Retire ops now i g s)) \<Longrightarrow> rt_GrantID t = g"
  shows "view (snd (Retire ops now i g s)) k = Some (markRevoked now t)"
proof -
  obtain root ok e where walk: "FindRoot (Some ops) now i chainWalkLimit s = (root, ok, e)"
    by (cases "FindRoot (Some ops) now i chainWalkLimit s") auto
  show ?thesis
  proof (cases ok)
    case True
    have "descends (view s) (hashKey root) k"
      using FindRoot_sound(2) [OF inv] walk True below unfolding descends_def
      by (metis (full_types) rtranclp_trans)
    then show ?thesis
      using Retire_chain_rung(2) [OF inv] walk True row by (simp add: revoke_where_def)
  next
    case False
    have run: "fst (Retire ops now i g s) =
        zero_Retirement\<lparr>rm_RootErr := e, rm_RootUnresolved := True, rm_GrantUnresolved := (g = [])\<rparr>"
      and view: "view (snd (Retire ops now i g s)) = snd (spec_refresh_revokeBy rt_GrantID now g (view s))"
      using Retire_grant_rung [OF inv] walk False by auto
    have "g \<noteq> []"
      using retired run by (simp add: Retirement_Retired_def Retirement_FellBackToGrant_def)
    moreover have "rt_GrantID t = g"
      using grant run by (simp add: Retirement_FellBackToGrant_def)
    ultimately show ?thesis
      using row by (simp add: view spec_refresh_revokeBy_def revoke_where_def)
  qed
qed

end


section \<open>The in-memory store and its transactions are backends\<close>

definition inmem_refresh_ops :: "refreshStore refresh_ops" where
  "inmem_refresh_ops =
     \<lparr>ro_Save = refreshStore_Save, ro_Find = refreshStore_Find, ro_Consume = refreshStore_Consume,
      ro_RevokeChain = refreshStore_RevokeChain, ro_RevokeByGrant = refreshStore_RevokeByGrant,
      ro_FindByStoredHandle = None\<rparr>"

definition tx_refresh_ops :: "refreshStore \<Rightarrow> refreshStaging refresh_ops" where
  "tx_refresh_ops parent =
     \<lparr>ro_Save = (\<lambda>t. txRefreshes_Save None t parent),
      ro_Find = (\<lambda>now i. txRefreshes_Find None now i parent),
      ro_Consume = (\<lambda>now i. txRefreshes_Consume None now i parent),
      ro_RevokeChain = (\<lambda>now i. txRefreshes_RevokeChain None now i parent),
      ro_RevokeByGrant = (\<lambda>now g. txRefreshes_RevokeByGrant None now g parent),
      ro_FindByStoredHandle = None\<rparr>"

interpretation inmem_backend: refresh_backend inmem_refresh_ops refresh_wf tokens_of
  by unfold_locales
    (simp_all add: inmem_refresh_ops_def refreshStore_specs refreshStore_Save_wf refreshStore_Consume_wf)

interpretation tx_backend: refresh_backend
  "tx_refresh_ops parent" "staging_inv parent" "refresh_view parent"
  for parent
proof unfold_locales
  fix st now and i g :: string and t
  assume inv: "staging_inv parent st"
  then have core: "staging_core parent st"
    by (simp add: staging_inv_def)
  note inv_call = refresh_tx.call_inv [OF inv]
  show "staging_inv parent (snd (ro_Save (tx_refresh_ops parent) (Some t) st))"
    using inv_call [of "RSave (Some t)"] by (simp add: tx_refresh_ops_def)
  show "staging_inv parent (snd (ro_Consume (tx_refresh_ops parent) now i st))"
    using inv_call [of "RConsume now i"] by (simp add: tx_refresh_ops_def)
  show "staging_inv parent (snd (ro_RevokeChain (tx_refresh_ops parent) now i st))"
    using inv_call [of "RRevokeChain now i"] by (simp add: tx_refresh_ops_def)
  show "staging_inv parent (snd (ro_RevokeByGrant (tx_refresh_ops parent) now g st))"
    using inv_call [of "RRevokeByGrant now g"] by (simp add: tx_refresh_ops_def)
qed (simp_all add: tx_refresh_ops_def staging_inv_def txRefreshes_specs)


section \<open>Properties of chain retirement\<close>

text \<open>
  C17. The walk finds the root of a rotation chain: when every record from a token up to a parentless
  one is live, belongs to one client and is within the hop limit, FindRoot returns that parentless
  token. Whatever handle the walk returns, on any reachable store, names a stored token from which
  the presented one descends, so that revoking from it covers the presented token.
\<close>

theorem findRoot_correct:
  assumes "refresh_reachable s"
  shows "(i \<noteq> [] \<longrightarrow> chain_path (tokens_of s) now cid (i # ids) \<longrightarrow> int (length ids) < limit \<longrightarrow>
       FindRoot (Some inmem_refresh_ops) now i limit s = (last (i # ids), True, None))
    \<and> (FindRoot (Some inmem_refresh_ops) now i limit s = (root, True, e) \<longrightarrow>
         tokens_of s (hashKey root) \<noteq> None \<and> descends (tokens_of s) (hashKey root) (hashKey i))"
proof (intro conjI impI)
  note wf = refresh_reachable_wf [OF assms]
  assume "i \<noteq> []" and path: "chain_path (tokens_of s) now cid (i # ids)" and "int (length ids) < limit"
  then have "length ids < nat limit" and "limit > 0"
    by auto
  with \<open>i \<noteq> []\<close> inmem_backend.FindRoot_loop_complete [OF wf path]
  show "FindRoot (Some inmem_refresh_ops) now i limit s = (last (i # ids), True, None)"
    by (simp add: FindRoot_def del: last.simps)
next
  assume run: "FindRoot (Some inmem_refresh_ops) now i limit s = (root, True, e)"
  show "tokens_of s (hashKey root) \<noteq> None" and "descends (tokens_of s) (hashKey root) (hashKey i)"
    using inmem_backend.FindRoot_sound [OF refresh_reachable_wf [OF assms] run] by simp_all
qed

lemma sample_path: "chain_path (tokens_of sample_chain) 30 ''client'' [sample_child_id, ''abc'']"
  by (simp add: sample_chain_tokens) (simp add: sample_map_def isExpired_def IsExpiredStrict_def)

theorem findRoot_correct_witness:
  "FindRoot (Some inmem_refresh_ops) 30 sample_child_id chainWalkLimit sample_chain = (''abc'', True, None)"
  using findRoot_correct [OF sample_chain_reachable, of sample_child_id 30 "''client''" "[''abc'']"
      chainWalkLimit] sample_path
  by (simp add: chainWalkLimit_def sample_verifier_def)

text \<open>
  A retirement that reports completion has retired the chain for good: every token below the
  presented one that existed (and that carries the grant, when the walk failed and the grant rung ran
  instead) can never again be consumed, after any further steps of the store.
\<close>

theorem retire_kills_chain:
  assumes reach: "refresh_reachable s"
    and run: "Retire inmem_refresh_ops now i g s = (res, s1)" and "Retirement_Retired res"
    and below: "descends (tokens_of s) (hashKey i) (hashKey j)" and row: "tokens_of s (hashKey j) = Some t"
    and "Retirement_FellBackToGrant res \<Longrightarrow> rt_GrantID t = g"
    and steps: "refresh_step\<^sup>*\<^sup>* s1 s2"
  shows "snd (fst (refreshStore_Consume later j s2)) \<noteq> None"
proof -
  note wf = refresh_reachable_wf [OF reach]
  have wf1: "refresh_wf s1"
    using inmem_backend.Retire_inv [OF wf, of now i g] run by simp
  have "tokens_of s1 (hashKey j) = Some (markRevoked now t)"
    using inmem_backend.Retire_retires [OF wf, of now i g, OF _ below row] assms(3,6) run by simp
  then show ?thesis
    by (rule revoked_row_refused [OF wf1 _ steps])
qed

lemma sample_retire:
  "Retire inmem_refresh_ops 30 sample_child_id ''g1'' sample_chain =
     (zero_Retirement, snd (Retire inmem_refresh_ops 30 sample_child_id ''g1'' sample_chain))"
proof -
  have "FindRoot (Some inmem_refresh_ops) 30 sample_child_id chainWalkLimit sample_chain = (''abc'', True, None)"
    using inmem_backend.FindRoot_loop_complete [OF sample_chain_wf sample_path, of "nat chainWalkLimit" "[]" True "[]"]
    by (simp add: FindRoot_def chainWalkLimit_def sample_verifier_def)
  from inmem_backend.Retire_chain_rung(1) [OF sample_chain_wf this] show ?thesis
    by (simp add: prod_eq_iff)
qed

theorem retire_kills_chain_witness:
  "Retirement_Retired zero_Retirement
   \<and> snd (fst (refreshStore_Consume 50 sample_child_id
        (snd (Retire inmem_refresh_ops 30 sample_child_id ''g1'' sample_chain)))) \<noteq> None"
proof
  show retired: "Retirement_Retired zero_Retirement"
    by (simp add: Retirement_Retired_def Retirement_FellBackToGrant_def zero_Retirement_def)
  have "tokens_of sample_chain (hashKey sample_child_id) =
      Some (sample_refresh (hashKey sample_child_id) (Some ''abc''))"
    by (simp add: sample_chain_tokens) (simp add: sample_map_def)
  then show "snd (fst (refreshStore_Consume 50 sample_child_id
      (snd (Retire inmem_refresh_ops 30 sample_child_id ''g1'' sample_chain)))) \<noteq> None"
    using retire_kills_chain [OF sample_chain_reachable sample_retire retired _ _ _ rtranclp.rtrancl_refl,
        of sample_child_id _ 50]
    by (simp add: descends_def)
qed

end
