(* ===== verification/AuthCodeStore.thy ===== *)
theory AuthCodeStore
  imports Store_Common
begin

text \<open>
  The authorization-code substore: the record of \<^verbatim>\<open>op/store/authcode.go\<close>, the direct operations of
  \<^verbatim>\<open>op/storeadapter/inmem/authcodestore.go\<close> and the transactional ones of \<^verbatim>\<open>inmem/tx.go\<close>, which stage
  their writes in two overlays and publish them at commit. The abstract specification is a map from
  digests to codes; the direct operations and the staged ones both implement it.
\<close>

record AuthorizationCode =
  ac_ID :: string
  ac_ClientID :: string
  ac_Subject :: string
  ac_GrantID :: string
  ac_RedirectURI :: string
  ac_Scope :: "string list"
  ac_Resource :: string
  ac_CodeChallenge :: string
  ac_CodeChallengeMethod :: string
  ac_Nonce :: string
  ac_State :: string
  ac_DPoPJKT :: string
  ac_AuthTime :: time
  ac_ACR :: string
  ac_AMR :: "string list"
  ac_AuthorizationDetails :: "jobject list"
  ac_Claims :: jobject
  ac_AuthorizationRecorded :: bool
  ac_ExpiresAt :: time
  ac_ConsumedAt :: "time option"
  ac_CreatedAt :: time

record authCodeStore =
  acs_m :: "AuthorizationCode gomap"
  acs_savesSinceGC :: "32 word"

definition newAuthCodeStore :: authCodeStore where
  "newAuthCodeStore = \<lparr>acs_m = fmempty, acs_savesSinceGC = 0\<rparr>"

definition authCodeStore_gcLocked :: "time \<Rightarrow> authCodeStore \<Rightarrow> authCodeStore" where
  "authCodeStore_gcLocked now s =
     s\<lparr>acs_m := gm_sweep (\<lambda>rec. IsExpiredStrict (ac_ExpiresAt rec) now) (acs_m s)\<rparr>"

definition authCodeStore_maybeGCLocked :: "time \<Rightarrow> authCodeStore \<Rightarrow> authCodeStore" where
  "authCodeStore_maybeGCLocked now s =
     (case sweeper_due (acs_savesSinceGC s) (gm_len (acs_m s)) of
        (due, w) \<Rightarrow>
          let s = s\<lparr>acs_savesSinceGC := w\<rparr>
          in if due then authCodeStore_gcLocked now s else s)"

definition authCodeStore_Save ::
  "time \<Rightarrow> AuthorizationCode option \<Rightarrow> authCodeStore \<Rightarrow> store_err option \<times> authCodeStore" where
  "authCodeStore_Save now code s =
     (case code of
        None \<Rightarrow> (Some (ErrOther ''inmem: nil authorization code''), s)
      | Some c \<Rightarrow>
          let s = authCodeStore_maybeGCLocked now s;
              key = hashKey (ac_ID c)
          in if fmlookup (acs_m s) key \<noteq> None then (Some ErrAlreadyExists, s)
             else (None, s\<lparr>acs_m := fmupd key (c\<lparr>ac_ID := key\<rparr>) (acs_m s)\<rparr>))"

definition authCodeStore_Find ::
  "time \<Rightarrow> string \<Rightarrow> authCodeStore \<Rightarrow> AuthorizationCode option \<times> store_err option" where
  "authCodeStore_Find now i s =
     (let key = hashKey i
      in case fmlookup (acs_m s) key of
           None \<Rightarrow> (None, Some ErrNotFound)
         | Some rec \<Rightarrow>
             if \<not> constantTimeKeyMatch (ac_ID rec) key then (None, Some ErrNotFound)
             else if isExpired (ac_ExpiresAt rec) now then (None, Some ErrNotFound)
             else (Some (rec\<lparr>ac_ID := i\<rparr>), None))"

definition authCodeStore_Consume ::
  "time \<Rightarrow> string \<Rightarrow> authCodeStore \<Rightarrow>
     (AuthorizationCode option \<times> store_err option) \<times> authCodeStore" where
  "authCodeStore_Consume now i s =
     (let key = hashKey i
      in case fmlookup (acs_m s) key of
           None \<Rightarrow> ((None, Some ErrNotFound), s)
         | Some rec \<Rightarrow>
             if \<not> constantTimeKeyMatch (ac_ID rec) key then ((None, Some ErrNotFound), s)
             else if isExpired (ac_ExpiresAt rec) now then ((None, Some ErrNotFound), s)
             else if ac_ConsumedAt rec \<noteq> None
               then ((Some (rec\<lparr>ac_ID := i\<rparr>), Some ErrAlreadyConsumed), s)
             else
               let rec = rec\<lparr>ac_ConsumedAt := Some now\<rparr>
               in ((Some (rec\<lparr>ac_ID := i\<rparr>), None), s\<lparr>acs_m := fmupd key rec (acs_m s)\<rparr>))"


section \<open>Staging inside a transaction\<close>

record authCodeStaging =
  acst_added :: "AuthorizationCode gomap"
  acst_updated :: "AuthorizationCode gomap"

definition newAuthCodeStaging :: authCodeStaging where
  "newAuthCodeStaging = \<lparr>acst_added = fmempty, acst_updated = fmempty\<rparr>"

definition authCodeStaging_lookup ::
  "key \<Rightarrow> authCodeStaging \<Rightarrow> authCodeStore \<Rightarrow> AuthorizationCode option" where
  "authCodeStaging_lookup key st parent =
     stagedLookup key (acst_updated st) (acst_added st) (acs_m parent)"

definition authCodeStaging_flushLocked ::
  "time \<Rightarrow> authCodeStaging \<Rightarrow> authCodeStore \<Rightarrow> authCodeStore" where
  "authCodeStaging_flushLocked now st parent =
     authCodeStore_maybeGCLocked now
       (parent\<lparr>acs_m := gm_copy (gm_copy (acs_m parent) (acst_added st)) (acst_updated st)\<rparr>)"

text \<open>
  The transactional substore. \<open>guard\<close> is the outcome of \<^verbatim>\<open>tx.guard(ctx)\<close>: the error a call on a
  closed transaction or a cancelled context returns before it touches the staging.
\<close>

definition txAuthCodes_Save ::
  "store_err option \<Rightarrow> AuthorizationCode option \<Rightarrow> authCodeStore \<Rightarrow> authCodeStaging \<Rightarrow>
     store_err option \<times> authCodeStaging" where
  "txAuthCodes_Save guard code parent st =
     (case guard of
        Some e \<Rightarrow> (Some e, st)
      | None \<Rightarrow>
          (case code of
             None \<Rightarrow> (Some (ErrOther ''inmem: nil authorization code''), st)
           | Some c \<Rightarrow>
               let key = hashKey (ac_ID c)
               in if fmlookup (acst_added st) key \<noteq> None then (Some ErrAlreadyExists, st)
                  else if fmlookup (acs_m parent) key \<noteq> None then (Some ErrAlreadyExists, st)
                  else
                    (None,
                     st\<lparr>acst_added := fmupd key (c\<lparr>ac_ID := key\<rparr>) (acst_added st)\<rparr>)))"

definition txAuthCodes_Find ::
  "store_err option \<Rightarrow> time \<Rightarrow> string \<Rightarrow> authCodeStore \<Rightarrow> authCodeStaging \<Rightarrow>
     AuthorizationCode option \<times> store_err option" where
  "txAuthCodes_Find guard now i parent st =
     (case guard of
        Some e \<Rightarrow> (None, Some e)
      | None \<Rightarrow>
          (case authCodeStaging_lookup (hashKey i) st parent of
             None \<Rightarrow> (None, Some ErrNotFound)
           | Some rec \<Rightarrow>
               if isExpired (ac_ExpiresAt rec) now then (None, Some ErrNotFound)
               else (Some (rec\<lparr>ac_ID := i\<rparr>), None)))"

definition txAuthCodes_Consume ::
  "store_err option \<Rightarrow> time \<Rightarrow> string \<Rightarrow> authCodeStore \<Rightarrow> authCodeStaging \<Rightarrow>
     (AuthorizationCode option \<times> store_err option) \<times> authCodeStaging" where
  "txAuthCodes_Consume guard now i parent st =
     (case guard of
        Some e \<Rightarrow> ((None, Some e), st)
      | None \<Rightarrow>
          let key = hashKey i
          in case authCodeStaging_lookup key st parent of
               None \<Rightarrow> ((None, Some ErrNotFound), st)
             | Some rec \<Rightarrow>
                 if isExpired (ac_ExpiresAt rec) now then ((None, Some ErrNotFound), st)
                 else if ac_ConsumedAt rec \<noteq> None
                   then ((Some (rec\<lparr>ac_ID := i\<rparr>), Some ErrAlreadyConsumed), st)
                 else
                   let upd = rec\<lparr>ac_ConsumedAt := Some now, ac_ID := key\<rparr>
                   in ((Some (upd\<lparr>ac_ID := i\<rparr>), None),
                       st\<lparr>acst_updated := fmupd key upd (acst_updated st)\<rparr>))"


section \<open>The abstract specification\<close>

text \<open>A store of codes is a map from digests to codes, each carrying its digest as its ID.\<close>

type_synonym code_map = "key \<Rightarrow> AuthorizationCode option"

definition codes_keyed :: "code_map \<Rightarrow> bool" where
  "codes_keyed M \<longleftrightarrow> (\<forall>k r. M k = Some r \<longrightarrow> ac_ID r = k)"

definition spec_code_save :: "AuthorizationCode \<Rightarrow> code_map \<Rightarrow> store_err option \<times> code_map" where
  "spec_code_save c M =
     (let k = hashKey (ac_ID c)
      in if M k \<noteq> None then (Some ErrAlreadyExists, M) else (None, M(k \<mapsto> c\<lparr>ac_ID := k\<rparr>)))"

definition spec_code_find :: "time \<Rightarrow> string \<Rightarrow> code_map \<Rightarrow> AuthorizationCode option \<times> store_err option" where
  "spec_code_find now i M =
     (case M (hashKey i) of
        None \<Rightarrow> (None, Some ErrNotFound)
      | Some r \<Rightarrow> if isExpired (ac_ExpiresAt r) now then (None, Some ErrNotFound)
                  else (Some (r\<lparr>ac_ID := i\<rparr>), None))"

definition spec_code_consume ::
  "time \<Rightarrow> string \<Rightarrow> code_map \<Rightarrow> (AuthorizationCode option \<times> store_err option) \<times> code_map" where
  "spec_code_consume now i M =
     (case spec_code_find now i M of
        (None, e) \<Rightarrow> ((None, e), M)
      | (Some r, e) \<Rightarrow>
          if ac_ConsumedAt r \<noteq> None then ((Some r, Some ErrAlreadyConsumed), M)
          else ((Some (r\<lparr>ac_ConsumedAt := Some now\<rparr>), None),
                M(hashKey i \<mapsto> (r\<lparr>ac_ConsumedAt := Some now\<rparr>)\<lparr>ac_ID := hashKey i\<rparr>)))"

text \<open>What a transaction sees: the committed map under its overlays.\<close>

definition tx_codes :: "authCodeStore \<Rightarrow> authCodeStaging \<Rightarrow> code_map" where
  "tx_codes parent st = (\<lambda>k. authCodeStaging_lookup k st parent)"

lemmas authcode_store_defs =
  authCodeStore_gcLocked_def authCodeStore_maybeGCLocked_def authCodeStore_Save_def
  authCodeStore_Find_def authCodeStore_Consume_def

lemmas authcode_tx_defs =
  txAuthCodes_Save_def txAuthCodes_Find_def txAuthCodes_Consume_def authCodeStaging_lookup_def
  stagedLookup_def tx_codes_def

lemmas code_spec_defs = spec_code_save_def spec_code_find_def spec_code_consume_def


section \<open>The direct store implements the specification\<close>

abbreviation codes_of :: "authCodeStore \<Rightarrow> code_map" where
  "codes_of s \<equiv> fmlookup (acs_m s)"

lemma codes_keyedD: "codes_keyed M \<Longrightarrow> M k = Some r \<Longrightarrow> ac_ID r = k"
  by (simp add: codes_keyed_def)

lemma codes_keyed_upd: "codes_keyed M \<Longrightarrow> ac_ID r = k \<Longrightarrow> codes_keyed (M(k \<mapsto> r))"
  by (simp add: codes_keyed_def)

lemma authCodeStore_Find_spec:
  "codes_keyed (codes_of s) \<Longrightarrow> authCodeStore_Find now i s = spec_code_find now i (codes_of s)"
  by (auto simp: authCodeStore_Find_def spec_code_find_def Let_def dest: codes_keyedD
      split: option.split)

lemma authCodeStore_Consume_spec:
  assumes "codes_keyed (codes_of s)"
  shows "fst (authCodeStore_Consume now i s) = fst (spec_code_consume now i (codes_of s))"
    and "codes_of (snd (authCodeStore_Consume now i s)) = snd (spec_code_consume now i (codes_of s))"
  using assms
  by (auto simp: authCodeStore_Consume_def spec_code_consume_def spec_code_find_def Let_def fun_eq_iff
      dest: codes_keyedD split: option.split)

lemma codes_of_gcLocked:
  "codes_of (authCodeStore_gcLocked now s) k =
     (case codes_of s k of None \<Rightarrow> None
      | Some r \<Rightarrow> if isExpired (ac_ExpiresAt r) now then None else Some r)"
  by (simp add: authCodeStore_gcLocked_def isExpired_IsExpiredStrict split: option.split)

lemma codes_of_maybeGCLocked:
  "codes_of (authCodeStore_maybeGCLocked now s) = codes_of s
   \<or> codes_of (authCodeStore_maybeGCLocked now s) = codes_of (authCodeStore_gcLocked now s)"
  by (auto simp: authCodeStore_maybeGCLocked_def authCodeStore_gcLocked_def Let_def split: prod.split)

lemma maybeGCLocked_Some:
  "codes_of (authCodeStore_maybeGCLocked now s) k = Some r \<Longrightarrow> codes_of s k = Some r"
  using codes_of_maybeGCLocked [of now s]
  by (auto simp: codes_of_gcLocked split: option.splits if_splits)

lemma codes_keyed_maybeGCLocked:
  "codes_keyed (codes_of s) \<Longrightarrow> codes_keyed (codes_of (authCodeStore_maybeGCLocked now s))"
  by (auto simp: codes_keyed_def dest: maybeGCLocked_Some)

lemma authCodeStore_Save_spec:
  "fst (authCodeStore_Save now (Some c) s) =
     fst (spec_code_save c (codes_of (authCodeStore_maybeGCLocked now s)))"
  "codes_of (snd (authCodeStore_Save now (Some c) s)) =
     snd (spec_code_save c (codes_of (authCodeStore_maybeGCLocked now s)))"
  by (auto simp: authCodeStore_Save_def spec_code_save_def Let_def fun_eq_iff)

lemma spec_find_sweep:
  assumes "now \<le> later"
  shows "spec_code_find later i (codes_of (authCodeStore_maybeGCLocked now s)) =
         spec_code_find later i (codes_of s)"
  using codes_of_maybeGCLocked [of now s] assms
  by (auto simp: spec_code_find_def codes_of_gcLocked split: option.splits if_splits
      dest: isExpired_mono [OF _ assms(1)])

lemma spec_consume_reply:
  "fst (spec_code_consume now i M) =
     (case spec_code_find now i M of
        (None, e) \<Rightarrow> (None, e)
      | (Some r, e) \<Rightarrow>
          if ac_ConsumedAt r \<noteq> None then (Some r, Some ErrAlreadyConsumed)
          else (Some (r\<lparr>ac_ConsumedAt := Some now\<rparr>), None))"
  by (auto simp: spec_code_consume_def split: option.split prod.split)


section \<open>Staged operations implement the specification\<close>

text \<open>Every staged update rewrites a record that the transaction added or the parent holds.\<close>

definition staging_ok :: "authCodeStore \<Rightarrow> authCodeStaging \<Rightarrow> bool" where
  "staging_ok parent st \<longleftrightarrow>
     (\<forall>k. fmlookup (acst_updated st) k \<noteq> None \<longrightarrow>
        fmlookup (acst_added st) k \<noteq> None \<or> codes_of parent k \<noteq> None)"

lemma staging_ok_new [simp]: "staging_ok parent newAuthCodeStaging"
  by (simp add: staging_ok_def newAuthCodeStaging_def)

lemma tx_codes_new [simp]: "tx_codes parent newAuthCodeStaging = codes_of parent"
  by (simp add: authcode_tx_defs newAuthCodeStaging_def)

lemma txAuthCodes_Find_spec:
  "txAuthCodes_Find None now i parent st = spec_code_find now i (tx_codes parent st)"
  by (simp add: txAuthCodes_Find_def spec_code_find_def tx_codes_def)

lemma txAuthCodes_Consume_spec:
  "fst (txAuthCodes_Consume None now i parent st) =
     fst (spec_code_consume now i (tx_codes parent st))"
  "tx_codes parent (snd (txAuthCodes_Consume None now i parent st)) =
     snd (spec_code_consume now i (tx_codes parent st))"
  by (auto simp: authcode_tx_defs spec_code_consume_def spec_code_find_def Let_def fun_eq_iff
      split: option.split)

lemma txAuthCodes_Consume_ok:
  "staging_ok parent st \<Longrightarrow> staging_ok parent (snd (txAuthCodes_Consume g now i parent st))"
  by (auto simp: staging_ok_def authcode_tx_defs Let_def split: option.splits)

lemma txAuthCodes_Save_spec:
  assumes "staging_ok parent st"
  shows "fst (txAuthCodes_Save None (Some c) parent st) =
           fst (spec_code_save c (tx_codes parent st))"
    and "tx_codes parent (snd (txAuthCodes_Save None (Some c) parent st)) =
           snd (spec_code_save c (tx_codes parent st))"
  using assms
  by (auto simp: staging_ok_def authcode_tx_defs spec_code_save_def Let_def fun_eq_iff
      split: option.splits)

lemma txAuthCodes_Save_ok:
  "staging_ok parent st \<Longrightarrow> staging_ok parent (snd (txAuthCodes_Save g c parent st))"
  by (auto simp: staging_ok_def txAuthCodes_Save_def Let_def split: option.splits)

lemma codes_of_flush_unswept:
  "fmlookup (gm_copy (gm_copy (acs_m parent) (acst_added st)) (acst_updated st)) k =
     tx_codes parent st k"
  by (simp add: authcode_tx_defs split: option.split)


section \<open>Sessions: a sequence of calls on one transaction\<close>

datatype code_call =
    CallSave "AuthorizationCode option"
  | CallFind time string
  | CallConsume time string

datatype code_reply =
    ReplyErr "store_err option"
  | ReplyRec "AuthorizationCode option \<times> store_err option"

fun tx_code_call ::
  "code_call \<Rightarrow> authCodeStore \<Rightarrow> authCodeStaging \<Rightarrow> code_reply \<times> authCodeStaging" where
  "tx_code_call (CallSave c) parent st = map_prod ReplyErr id (txAuthCodes_Save None c parent st)"
| "tx_code_call (CallFind now i) parent st = (ReplyRec (txAuthCodes_Find None now i parent st), st)"
| "tx_code_call (CallConsume now i) parent st =
     map_prod ReplyRec id (txAuthCodes_Consume None now i parent st)"

abbreviation tx_code_run ::
  "code_call list \<Rightarrow> authCodeStore \<Rightarrow> authCodeStaging \<Rightarrow> code_reply list \<times> authCodeStaging" where
  "tx_code_run calls parent st \<equiv> run_calls (\<lambda>c. tx_code_call c parent) calls st"

fun spec_code_call :: "code_call \<Rightarrow> code_map \<Rightarrow> code_reply \<times> code_map" where
  "spec_code_call (CallSave None) M =
     (ReplyErr (Some (ErrOther ''inmem: nil authorization code'')), M)"
| "spec_code_call (CallSave (Some c)) M = map_prod ReplyErr id (spec_code_save c M)"
| "spec_code_call (CallFind now i) M = (ReplyRec (spec_code_find now i M), M)"
| "spec_code_call (CallConsume now i) M = map_prod ReplyRec id (spec_code_consume now i M)"

abbreviation spec_code_run :: "code_call list \<Rightarrow> code_map \<Rightarrow> code_reply list \<times> code_map" where
  "spec_code_run \<equiv> run_calls spec_code_call"

interpretation code_tx: simulation
  "staging_ok parent" "tx_codes parent" "\<lambda>c. tx_code_call c parent" spec_code_call
  for parent
proof unfold_locales
  fix st c
  assume ok: "staging_ok parent st"
  show "fst (spec_code_call c (tx_codes parent st)) = fst (tx_code_call c parent st)"
    by (cases "(c, tx_codes parent st)" rule: spec_code_call.cases)
      (simp_all add: txAuthCodes_Save_spec [OF ok] txAuthCodes_Find_spec txAuthCodes_Consume_spec,
        simp add: txAuthCodes_Save_def)
  show "snd (spec_code_call c (tx_codes parent st)) = tx_codes parent (snd (tx_code_call c parent st))"
    by (cases "(c, tx_codes parent st)" rule: spec_code_call.cases)
      (simp_all add: txAuthCodes_Save_spec [OF ok] txAuthCodes_Find_spec txAuthCodes_Consume_spec,
        simp add: txAuthCodes_Save_def)
  show "staging_ok parent (snd (tx_code_call c parent st))"
    by (cases c) (simp_all add: txAuthCodes_Save_ok [OF ok] txAuthCodes_Consume_ok [OF ok] ok)
qed


text \<open>What a commit publishes, before the sweep it may trigger.\<close>

lemma commit_unswept:
  "\<exists>s1. authCodeStaging_flushLocked now (snd (tx_code_run calls s newAuthCodeStaging)) s =
          authCodeStore_maybeGCLocked now s1
        \<and> codes_of s1 = snd (spec_code_run calls (codes_of s))"
proof -
  let ?st = "snd (tx_code_run calls s newAuthCodeStaging)"
  let ?s1 = "s\<lparr>acs_m := gm_copy (gm_copy (acs_m s) (acst_added ?st)) (acst_updated ?st)\<rparr>"
  have "codes_of ?s1 = tx_codes s ?st"
    by (simp add: fun_eq_iff codes_of_flush_unswept del: fmlookup_gm_copy)
  then have "codes_of ?s1 = snd (spec_code_run calls (codes_of s))"
    using code_tx.run_sim [OF staging_ok_new, of calls s] by simp
  then show ?thesis
    unfolding authCodeStaging_flushLocked_def by blast
qed


section \<open>Steps of the store\<close>

text \<open>
  One operation of the store that does not issue a code under the digest of \<open>i\<close>: a direct call, or
  the commit of a whole transaction session.
\<close>

inductive authcode_step :: "string \<Rightarrow> authCodeStore \<Rightarrow> authCodeStore \<Rightarrow> bool" for i where
  step_save_nil: "authcode_step i s (snd (authCodeStore_Save now None s))"
| step_save: "hashKey (ac_ID c) \<noteq> hashKey i \<Longrightarrow>
     authcode_step i s (snd (authCodeStore_Save now (Some c) s))"
| step_consume: "authcode_step i s (snd (authCodeStore_Consume now j s))"
| step_commit:
    "\<forall>c. CallSave (Some c) \<in> set calls \<longrightarrow> hashKey (ac_ID c) \<noteq> hashKey i \<Longrightarrow>
     authcode_step i s
       (authCodeStaging_flushLocked now (snd (tx_code_run calls s newAuthCodeStaging)) s)"

definition code_spent :: "string \<Rightarrow> code_map \<Rightarrow> bool" where
  "code_spent i M \<longleftrightarrow> (\<forall>r. M (hashKey i) = Some r \<longrightarrow> ac_ConsumedAt r \<noteq> None)"

lemma code_spent_maybeGC:
  "code_spent i (codes_of s) \<Longrightarrow> code_spent i (codes_of (authCodeStore_maybeGCLocked now s))"
  by (auto simp: code_spent_def dest: maybeGCLocked_Some)

lemma code_spent_spec_save:
  "hashKey (ac_ID c) \<noteq> hashKey i \<Longrightarrow> code_spent i M \<Longrightarrow> code_spent i (snd (spec_code_save c M))"
  by (auto simp: code_spent_def spec_code_save_def Let_def)

lemma code_spent_spec_consume:
  "code_spent i M \<Longrightarrow> code_spent i (snd (spec_code_consume now j M))"
  by (auto simp: code_spent_def spec_code_consume_def spec_code_find_def split: option.splits)

lemma code_spent_direct_consume:
  "code_spent i (codes_of s) \<Longrightarrow> code_spent i (codes_of (snd (authCodeStore_Consume now j s)))"
  by (auto simp: code_spent_def authCodeStore_Consume_def Let_def split: option.splits)

lemma code_spent_spec_run:
  "\<forall>c. CallSave (Some c) \<in> set calls \<longrightarrow> hashKey (ac_ID c) \<noteq> hashKey i \<Longrightarrow> code_spent i M \<Longrightarrow>
     code_spent i (snd (spec_code_run calls M))"
proof (rule run_calls_invariant [where P = "code_spent i"])
  fix c N
  assume "\<forall>c. CallSave (Some c) \<in> set calls \<longrightarrow> hashKey (ac_ID c) \<noteq> hashKey i"
    and "c \<in> set calls" and "code_spent i N"
  then show "code_spent i (snd (spec_code_call c N))"
    by (cases "(c, N)" rule: spec_code_call.cases)
      (auto intro: code_spent_spec_save code_spent_spec_consume)
qed

lemma code_spent_step: "authcode_step i s s' \<Longrightarrow> code_spent i (codes_of s) \<Longrightarrow> code_spent i (codes_of s')"
proof (induction rule: authcode_step.induct)
  case (step_save c s now)
  then show ?case
    by (simp add: authCodeStore_Save_spec code_spent_spec_save code_spent_maybeGC)
next
  case (step_commit calls s now)
  then show ?case
    using commit_unswept [where now = now and calls = calls and s = s] code_spent_spec_run code_spent_maybeGC by metis
qed (simp_all add: authCodeStore_Save_def code_spent_direct_consume)

interpretation code_once: one_time_store
  authCodeStore_Consume "\<lambda>i s. code_spent i (codes_of s)" authcode_step
proof unfold_locales
  fix now i s r s'
  assume "authCodeStore_Consume now i s = ((r, None), s')"
  then show "code_spent i (codes_of s')"
    by (auto simp: authCodeStore_Consume_def code_spent_def Let_def split: option.splits if_splits)
next
  fix i s now
  assume "code_spent i (codes_of s)"
  then show "snd (fst (authCodeStore_Consume now i s)) \<noteq> None"
    by (auto simp: authCodeStore_Consume_def code_spent_def Let_def split: option.splits)
qed (rule code_spent_step)


section \<open>Reachable stores\<close>

inductive authcode_reachable :: "authCodeStore \<Rightarrow> bool" where
  reach_new: "authcode_reachable newAuthCodeStore"
| reach_save: "authcode_reachable s \<Longrightarrow> authcode_reachable (snd (authCodeStore_Save now c s))"
| reach_consume: "authcode_reachable s \<Longrightarrow> authcode_reachable (snd (authCodeStore_Consume now i s))"
| reach_commit: "authcode_reachable s \<Longrightarrow>
     authcode_reachable
       (authCodeStaging_flushLocked now (snd (tx_code_run calls s newAuthCodeStaging)) s)"

lemma codes_keyed_spec_call: "codes_keyed M \<Longrightarrow> codes_keyed (snd (spec_code_call c M))"
  by (cases "(c, M)" rule: spec_code_call.cases)
    (auto simp: code_spec_defs codes_keyed_def Let_def split: option.splits)

lemma codes_keyed_spec_run: "codes_keyed M \<Longrightarrow> codes_keyed (snd (spec_code_run cs M))"
  by (rule run_calls_invariant [where P = codes_keyed]) (rule codes_keyed_spec_call)

lemma authcode_reachable_keyed: "authcode_reachable s \<Longrightarrow> codes_keyed (codes_of s)"
proof (induction rule: authcode_reachable.induct)
  case reach_new
  then show ?case by (simp add: newAuthCodeStore_def codes_keyed_def)
next
  case (reach_save s now c)
  have "codes_keyed (codes_of (authCodeStore_maybeGCLocked now s))"
    by (rule codes_keyed_maybeGCLocked [OF reach_save.IH])
  with reach_save.IH show ?case
    by (cases c) (auto simp: authCodeStore_Save_def codes_keyed_def Let_def)
next
  case (reach_consume s now i)
  then show ?case
    using codes_keyed_spec_call [of "codes_of s" "CallConsume now i"]
    by (simp add: authCodeStore_Consume_spec)
next
  case (reach_commit s now calls)
  then show ?case
    using commit_unswept [where now = now and calls = calls and s = s] codes_keyed_spec_run codes_keyed_maybeGCLocked by metis
qed


section \<open>Properties of the authorization-code store\<close>

text \<open>
  C14. Once a Consume of a code has succeeded, every later Consume of the same code fails, whatever
  direct calls and committed transactions run in between, as long as none of them issues a code under
  the same digest.
\<close>

theorem authcode_single_use:
  assumes "authCodeStore_Consume now i s = ((r, None), s1)"
    and "(authcode_step i)\<^sup>*\<^sup>* s1 s2"
  shows "snd (fst (authCodeStore_Consume later i s2)) \<noteq> None"
  by (rule code_once.consumed_once [OF assms])

definition sample_code :: AuthorizationCode where
  "sample_code =
     \<lparr>ac_ID = ''code-1'', ac_ClientID = ''client'', ac_Subject = ''alice'', ac_GrantID = ''g1'',
      ac_RedirectURI = ''https://rp/cb'', ac_Scope = [''openid''], ac_Resource = [],
      ac_CodeChallenge = [], ac_CodeChallengeMethod = [], ac_Nonce = [], ac_State = [],
      ac_DPoPJKT = [], ac_AuthTime = 5, ac_ACR = [], ac_AMR = [], ac_AuthorizationDetails = [],
      ac_Claims = [], ac_AuthorizationRecorded = True, ac_ExpiresAt = 100, ac_ConsumedAt = None,
      ac_CreatedAt = 10\<rparr>"

definition sample_code_store :: authCodeStore where
  "sample_code_store = snd (authCodeStore_Save 10 (Some sample_code) newAuthCodeStore)"

lemma sample_code_save:
  "authCodeStore_Save 10 (Some sample_code) newAuthCodeStore = (None, sample_code_store)"
  "sample_code_store =
     \<lparr>acs_m = fmupd (hashKey ''code-1'') (sample_code\<lparr>ac_ID := hashKey ''code-1''\<rparr>) fmempty,
      acs_savesSinceGC = 1\<rparr>"
  by (simp_all add: sample_code_store_def authCodeStore_Save_def authCodeStore_maybeGCLocked_def
      sweeper_due_def sweepDue_def fullGCInterval_def newAuthCodeStore_def sample_code_def Let_def)

lemma sample_code_consume:
  "authCodeStore_Consume 20 ''code-1'' sample_code_store =
     ((Some (sample_code\<lparr>ac_ConsumedAt := Some 20\<rparr>), None),
      \<lparr>acs_m = fmupd (hashKey ''code-1'')
          (sample_code\<lparr>ac_ID := hashKey ''code-1'', ac_ConsumedAt := Some 20\<rparr>) fmempty,
       acs_savesSinceGC = 1\<rparr>)"
  by (simp add: sample_code_save authCodeStore_Consume_def sample_code_def isExpired_def
      IsExpiredStrict_def Let_def)

lemma sample_code_step:
  "(authcode_step i)\<^sup>*\<^sup>* s (snd (authCodeStore_Consume 30 ''other'' s))"
  by (rule r_into_rtranclp) (rule step_consume)

theorem authcode_single_use_witness:
  "snd (fst (authCodeStore_Consume 20 ''code-1'' sample_code_store)) = None
   \<and> snd (fst (authCodeStore_Consume 40 ''code-1''
       (snd (authCodeStore_Consume 30 ''other''
         (snd (authCodeStore_Consume 20 ''code-1'' sample_code_store)))))) \<noteq> None"
  using authcode_single_use [OF sample_code_consume sample_code_step, of 40]
  by (simp add: sample_code_consume)

text \<open>
  C15. A transaction on the code store is atomic and answers like the abstract map: every call of the
  session returns what the same sequence of calls returns on a map of codes, and after the commit
  every Find of the store, at any later instant, answers as the map at the end of the session does.
  The sweep the commit may trigger is invisible.
\<close>

theorem authcode_tx_session_refines:
  "fst (tx_code_run calls s newAuthCodeStaging) = fst (spec_code_run calls (codes_of s))
   \<and> (authcode_reachable s \<longrightarrow> now \<le> later \<longrightarrow>
        authCodeStore_Find later i
          (authCodeStaging_flushLocked now (snd (tx_code_run calls s newAuthCodeStaging)) s) =
        spec_code_find later i (snd (spec_code_run calls (codes_of s))))"
proof (intro conjI impI)
  show "fst (tx_code_run calls s newAuthCodeStaging) = fst (spec_code_run calls (codes_of s))"
    using code_tx.run_sim [OF staging_ok_new, of calls s] by simp
next
  assume reach: "authcode_reachable s" and le: "now \<le> later"
  obtain s1 where flush: "authCodeStaging_flushLocked now
        (snd (tx_code_run calls s newAuthCodeStaging)) s = authCodeStore_maybeGCLocked now s1"
    and s1: "codes_of s1 = snd (spec_code_run calls (codes_of s))"
    using commit_unswept by blast
  have "codes_keyed (codes_of (authCodeStore_maybeGCLocked now s1))"
    using authcode_reachable_keyed [OF reach_commit [OF reach, of now calls]] flush by simp
  from authCodeStore_Find_spec [OF this] spec_find_sweep [OF le, of i s1] s1 flush
  show "authCodeStore_Find later i
          (authCodeStaging_flushLocked now (snd (tx_code_run calls s newAuthCodeStaging)) s) =
        spec_code_find later i (snd (spec_code_run calls (codes_of s)))"
    by simp
qed

theorem authcode_tx_session_refines_witness:
  "authCodeStore_Find 50 ''code-1''
     (authCodeStaging_flushLocked 30
        (snd (tx_code_run [CallSave (Some sample_code), CallConsume 20 ''code-1'']
           newAuthCodeStore newAuthCodeStaging)) newAuthCodeStore) =
   (Some (sample_code\<lparr>ac_ConsumedAt := Some 20\<rparr>), None)"
proof -
  let ?calls = "[CallSave (Some sample_code), CallConsume 20 ''code-1'']"
  have "spec_code_find 50 ''code-1'' (snd (spec_code_run ?calls (codes_of newAuthCodeStore))) =
          (Some (sample_code\<lparr>ac_ConsumedAt := Some 20\<rparr>), None)"
    by (simp add: newAuthCodeStore_def code_spec_defs sample_code_def isExpired_def
        IsExpiredStrict_def Let_def)
  with conjunct2 [OF authcode_tx_session_refines
      [where calls = ?calls and s = newAuthCodeStore and now = 30 and later = 50 and i = "''code-1''"]]
  show ?thesis by (simp only: reach_new)
qed

text \<open>
  A code that was saved can be found again under its plaintext identifier, with every field as
  it was issued, until it expires; and an expired code is reported as not found.
\<close>

theorem authcode_save_find:
  assumes "authCodeStore_Save now (Some c) s = (None, s')"
  shows "authCodeStore_Find later (ac_ID c) s' =
           (if isExpired (ac_ExpiresAt c) later then (None, Some ErrNotFound) else (Some c, None))"
  using assms
  by (auto simp: authCodeStore_Save_def authCodeStore_Find_def Let_def split: if_splits)

theorem authcode_save_find_witness:
  "authCodeStore_Save 10 (Some sample_code) newAuthCodeStore = (None, sample_code_store)
   \<and> authCodeStore_Find 100 ''code-1'' sample_code_store = (Some sample_code, None)
   \<and> authCodeStore_Find 101 ''code-1'' sample_code_store = (None, Some ErrNotFound)"
  using authcode_save_find [OF sample_code_save(1), of 100]
    authcode_save_find [OF sample_code_save(1), of 101] sample_code_save(1)
  by (simp add: sample_code_def isExpired_def IsExpiredStrict_def)

end
