(* ===== verification/TokenRows.thy ===== *)
theory TokenRows
  imports Indexes
begin

text \<open>
  What the auxiliary substores share: the row operations and the grant and client indexes of
  \<^verbatim>\<open>inmem/token_rows.go\<close>, and the generic transactional overlay of \<^verbatim>\<open>inmem/tx_aux.go\<close>. A Go loop
  \<^verbatim>\<open>for key := range ids\<close> is a fold over the keys in ascending order; the loop bodies touch only
  the entry of their own key, so that the order does not matter.

  The locale \<open>token_rows\<close> states what the accessors of a row type promise, and holds the lemmas on
  revocation, reclamation and commit that the JWT registry and the opaque store both use.
\<close>

record 'v tokenRowOps =
  ro_grantID :: "'v \<Rightarrow> string"
  ro_clientID :: "'v \<Rightarrow> string"
  ro_expiresAt :: "'v \<Rightarrow> time"
  ro_revoked :: "'v \<Rightarrow> bool"
  ro_setRevoked :: "'v \<Rightarrow> 'v"

record tokenIndex =
  ti_byGrant :: refreshIndex
  ti_byClient :: refreshIndex

definition newTokenIndex :: tokenIndex where
  "newTokenIndex = \<lparr>ti_byGrant = fmempty, ti_byClient = fmempty\<rparr>"

definition tokenRowOps_track ::
  "('v, 'z) tokenRowOps_scheme \<Rightarrow> key \<Rightarrow> 'v \<Rightarrow> tokenIndex \<Rightarrow> tokenIndex" where
  "tokenRowOps_track ops key rec idx =
     idx\<lparr>ti_byGrant := refreshIndex_add (ro_grantID ops rec) key (ti_byGrant idx),
         ti_byClient := refreshIndex_add (ro_clientID ops rec) key (ti_byClient idx)\<rparr>"

definition tokenRowOps_untrack ::
  "('v, 'z) tokenRowOps_scheme \<Rightarrow> key \<Rightarrow> 'v \<Rightarrow> tokenIndex \<Rightarrow> tokenIndex" where
  "tokenRowOps_untrack ops key rec idx =
     idx\<lparr>ti_byGrant := refreshIndex_remove (ro_grantID ops rec) key (ti_byGrant idx),
         ti_byClient := refreshIndex_remove (ro_clientID ops rec) key (ti_byClient idx)\<rparr>"

definition revokeIndexed ::
  "('v, 'z) tokenRowOps_scheme \<Rightarrow> 'v gomap \<Rightarrow> key fset \<Rightarrow> ('v \<Rightarrow> bool) \<Rightarrow> nat \<times> 'v gomap" where
  "revokeIndexed ops m ids match =
     fold (\<lambda>key (n, m).
         case fmlookup m key of
           None \<Rightarrow> (n, m)
         | Some rec \<Rightarrow>
             if ro_revoked ops rec \<or> \<not> match rec then (n, m)
             else (n + 1, fmupd key (ro_setRevoked ops rec) m))
       (sorted_list_of_fset ids) (0, m)"

definition gcRows ::
  "('v, 'z) tokenRowOps_scheme \<Rightarrow> 'v gomap \<Rightarrow> tokenIndex \<Rightarrow> time \<Rightarrow> nat \<times> 'v gomap \<times> tokenIndex" where
  "gcRows ops m idx cutoff =
     fold (\<lambda>key (n, m, idx).
         case fmlookup m key of
           None \<Rightarrow> (n, m, idx)
         | Some rec \<Rightarrow>
             if \<not> IsExpiredStrict (ro_expiresAt ops rec) cutoff then (n, m, idx)
             else (n + 1, fmdrop key m, tokenRowOps_untrack ops key rec idx))
       (sorted_list_of_fset (fmdom m)) (0, m, idx)"


section \<open>The overlay of a transaction\<close>

text \<open>
  The committed map \<open>base\<close> stays fixed while the transaction is open and is an argument of the reads;
  the commit takes it, together with the index the hooks maintain, to its next value.
\<close>

record 'v overlay =
  ov_written :: "'v gomap"
  ov_deleted :: "key fset"

definition newOverlay :: "'v overlay" where
  "newOverlay = \<lparr>ov_written = fmempty, ov_deleted = {||}\<rparr>"

definition overlay_lookup :: "'v gomap \<Rightarrow> 'v overlay \<Rightarrow> key \<Rightarrow> 'v option" where
  "overlay_lookup base s key =
     (case fmlookup (ov_written s) key of
        Some rec \<Rightarrow> Some rec
      | None \<Rightarrow> if key |\<in>| ov_deleted s then None else fmlookup base key)"

definition overlay_stage :: "key \<Rightarrow> 'v \<Rightarrow> 'v overlay \<Rightarrow> 'v overlay" where
  "overlay_stage key rec s =
     s\<lparr>ov_deleted := ov_deleted s |-| {|key|}, ov_written := fmupd key rec (ov_written s)\<rparr>"

definition overlay_drop :: "key \<Rightarrow> 'v overlay \<Rightarrow> 'v overlay" where
  "overlay_drop key s =
     s\<lparr>ov_written := fmdrop key (ov_written s), ov_deleted := finsert key (ov_deleted s)\<rparr>"

text \<open>
  \<^verbatim>\<open>iter\<close>: the callback may change the overlay and its own state. The first loop ranges over the
  staged rows, the second over the committed ones and skips what is staged or gone by then.
\<close>

definition overlay_iter ::
  "'v gomap \<Rightarrow> (key \<Rightarrow> 'v \<Rightarrow> 'v overlay \<times> 's \<Rightarrow> 'v overlay \<times> 's) \<Rightarrow>
     'v overlay \<times> 's \<Rightarrow> 'v overlay \<times> 's" where
  "overlay_iter base fn st =
     (let st =
            fold (\<lambda>key st.
                case fmlookup (ov_written (fst st)) key of
                  None \<Rightarrow> st
                | Some rec \<Rightarrow> fn key rec st)
              (sorted_list_of_fset (fmdom (ov_written (fst st)))) st
      in fold (\<lambda>key st.
             if key |\<in>| fmdom (ov_written (fst st)) then st
             else if key |\<in>| ov_deleted (fst st) then st
             else (case fmlookup base key of None \<Rightarrow> st | Some rec \<Rightarrow> fn key rec st))
           (sorted_list_of_fset (fmdom base)) st)"

text \<open>The \<^verbatim>\<open>GC\<close> bodies of the staged substores: drop what is expired at the cutoff and count it.\<close>

definition overlay_gc :: "('v \<Rightarrow> time) \<Rightarrow> 'v gomap \<Rightarrow> time \<Rightarrow> 'v overlay \<Rightarrow> 'v overlay \<times> nat" where
  "overlay_gc expiresAt base cutoff s =
     overlay_iter base
       (\<lambda>key rec (s, n).
          if \<not> IsExpiredStrict (expiresAt rec) cutoff then (s, n)
          else (overlay_drop key s, n + 1))
       (s, 0)"

definition overlay_flushLocked ::
  "(key \<Rightarrow> 'v \<Rightarrow> 'i \<Rightarrow> 'i) \<Rightarrow> (key \<Rightarrow> 'v \<Rightarrow> 'i \<Rightarrow> 'i) \<Rightarrow> 'v overlay \<Rightarrow>
     'v gomap \<times> 'i \<Rightarrow> 'v gomap \<times> 'i" where
  "overlay_flushLocked onPut onDrop s st =
     (let st =
            fold (\<lambda>key (base, idx).
                (fmdrop key base,
                 case fmlookup base key of Some rec \<Rightarrow> onDrop key rec idx | None \<Rightarrow> idx))
              (sorted_list_of_fset (ov_deleted s)) st
      in fold (\<lambda>key (base, idx).
             case fmlookup (ov_written s) key of
               None \<Rightarrow> (base, idx)
             | Some rec \<Rightarrow> (fmupd key rec base, onPut key rec idx))
           (sorted_list_of_fset (fmdom (ov_written s))) st)"

definition overlay_clear :: "'v overlay \<Rightarrow> 'v overlay" where
  "overlay_clear s = s\<lparr>ov_written := fmempty, ov_deleted := {||}\<rparr>"

definition revokeStaged ::
  "('v, 'z) tokenRowOps_scheme \<Rightarrow> 'v gomap \<Rightarrow> 'v overlay \<Rightarrow> key fset \<Rightarrow> ('v \<Rightarrow> bool) \<Rightarrow>
     nat \<times> 'v overlay" where
  "revokeStaged ops base s ids match =
     (let keys = ids |\<union>| fmdom (ov_written s)
      in fold (\<lambda>key (n, s).
             case overlay_lookup base s key of
               None \<Rightarrow> (n, s)
             | Some rec \<Rightarrow>
                 if ro_revoked ops rec \<or> \<not> match rec then (n, s)
                 else (n + 1, overlay_stage key (ro_setRevoked ops rec) s))
           (sorted_list_of_fset keys) (0, s))"


section \<open>What the overlay shows\<close>

lemma overlay_lookup_new [simp]: "overlay_lookup base newOverlay = fmlookup base"
  by (simp add: overlay_lookup_def newOverlay_def fun_eq_iff)

lemma overlay_lookup_stage [simp]:
  "overlay_lookup base (overlay_stage key rec s) = (overlay_lookup base s)(key \<mapsto> rec)"
  by (auto simp: overlay_lookup_def overlay_stage_def fun_eq_iff split: option.splits)

lemma overlay_lookup_drop [simp]:
  "overlay_lookup base (overlay_drop key s) = (overlay_lookup base s)(key := None)"
  by (auto simp: overlay_lookup_def overlay_drop_def fun_eq_iff split: option.splits)

lemma overlay_clear_new: "overlay_lookup base (overlay_clear s) = fmlookup base"
  by (simp add: overlay_lookup_def overlay_clear_def fun_eq_iff)

text \<open>The rows a commit leaves in the committed map are the rows the transaction saw.\<close>

lemma flush_deletes:
  "fmlookup (fst (fold (\<lambda>key (base, idx).
       (fmdrop key base, case fmlookup base key of Some rec \<Rightarrow> onDrop key rec idx | None \<Rightarrow> idx)) ks st)) k
   = (if k \<in> set ks then None else fmlookup (fst st) k)"
  by (induction ks arbitrary: st) (auto simp: case_prod_beta)

lemma flush_puts:
  "fmlookup (fst (fold (\<lambda>key (base, idx).
       case fmlookup w key of None \<Rightarrow> (base, idx) | Some rec \<Rightarrow> (fmupd key rec base, onPut key rec idx)) ks st)) k
   = (if k \<in> set ks then (case fmlookup w k of None \<Rightarrow> fmlookup (fst st) k | Some r \<Rightarrow> Some r)
      else fmlookup (fst st) k)"
  by (induction ks arbitrary: st) (auto simp: case_prod_beta split: option.split)

lemma overlay_flush_view:
  "fmlookup (fst (overlay_flushLocked onPut onDrop s (base, idx))) = overlay_lookup base s"
  by (rule ext)
     (auto simp: overlay_flushLocked_def flush_deletes flush_puts overlay_lookup_def fmlookup_dom_iff
        split: option.split)

text \<open>Reclamation through the overlay removes exactly the visible rows that are expired.\<close>

lemma card_insert_filter:
  "x \<notin> set xs \<Longrightarrow> card {k \<in> insert x (set xs). P k} = (if P x then 1 else 0) + card {k \<in> set xs. P k}"
proof -
  assume "x \<notin> set xs"
  moreover have "{k \<in> insert x (set xs). P k} =
      (if P x then insert x {k \<in> set xs. P k} else {k \<in> set xs. P k})"
    by auto
  ultimately show ?thesis by simp
qed

definition expired_row :: "('v \<Rightarrow> time) \<Rightarrow> time \<Rightarrow> (key \<Rightarrow> 'v option) \<Rightarrow> key \<Rightarrow> bool" where
  "expired_row expiresAt cutoff M k \<longleftrightarrow>
     (\<exists>r. M k = Some r \<and> IsExpiredStrict (expiresAt r) cutoff)"


lemma expired_row_some:
  "M k = None \<Longrightarrow> \<not> expired_row ex c M k"
  "M k = Some r \<Longrightarrow> expired_row ex c M k = IsExpiredStrict (ex r) c"
  by (simp_all add: expired_row_def)

lemma overlay_drops_lookup:
  "overlay_lookup base (fold overlay_drop ds s) k =
     (if k \<in> set ds then None else overlay_lookup base s k)"
  by (induction ds arbitrary: s) auto

lemma overlay_drops_written:
  "fmlookup (ov_written (fold overlay_drop ds s)) k =
     (if k \<in> set ds then None else fmlookup (ov_written s) k)"
  by (induction ds arbitrary: s) (auto simp: overlay_drop_def)

lemma overlay_drops_deleted:
  "k |\<in>| ov_deleted (fold overlay_drop ds s) \<longleftrightarrow> k \<in> set ds \<or> k |\<in>| ov_deleted s"
  by (induction ds arbitrary: s) (auto simp: overlay_drop_def)

lemma gc_staged_loop:
  assumes "distinct ks"
  shows "fold (\<lambda>key st. case fmlookup (ov_written (fst st)) key of None \<Rightarrow> st
           | Some rec \<Rightarrow> (case st of (s, n) \<Rightarrow>
               if \<not> IsExpiredStrict (ex rec) c then (s, n) else (overlay_drop key s, n + 1))) ks (s, n)
     = (let ds = filter (expired_row ex c (fmlookup (ov_written s))) ks
        in (fold overlay_drop ds s, n + length ds))"
  using assms
proof (induction ks arbitrary: s n)
  case (Cons k ks)
  have "filter (expired_row ex c (fmlookup (ov_written (overlay_drop k s)))) ks =
        filter (expired_row ex c (fmlookup (ov_written s))) ks"
    using Cons.prems by (intro filter_cong) (auto simp: expired_row_def overlay_drop_def)
  then show ?case
    using Cons.IH Cons.prems
    by (cases "fmlookup (ov_written s) k") (simp_all add: expired_row_some Let_def)
qed simp

lemma gc_base_loop:
  assumes "distinct ks"
  shows "fold (\<lambda>key st. if key |\<in>| fmdom (ov_written (fst st)) then st
           else if key |\<in>| ov_deleted (fst st) then st
           else (case fmlookup base key of None \<Rightarrow> st
             | Some rec \<Rightarrow> (case st of (s, n) \<Rightarrow>
                 if \<not> IsExpiredStrict (ex rec) c then (s, n) else (overlay_drop key s, n + 1)))) ks (s, n)
     = (let ds = filter (\<lambda>k. fmlookup (ov_written s) k = None \<and> k |\<notin>| ov_deleted s \<and>
                 expired_row ex c (fmlookup base) k) ks
        in (fold overlay_drop ds s, n + length ds))"
  using assms
proof (induction ks arbitrary: s n)
  case (Cons k ks)
  have "filter (\<lambda>j. fmlookup (ov_written (overlay_drop k s)) j = None \<and>
            j |\<notin>| ov_deleted (overlay_drop k s) \<and> expired_row ex c (fmlookup base) j) ks =
        filter (\<lambda>j. fmlookup (ov_written s) j = None \<and> j |\<notin>| ov_deleted s \<and>
            expired_row ex c (fmlookup base) j) ks"
    using Cons.prems by (intro filter_cong) (auto simp: overlay_drop_def)
  then show ?case
    using Cons.IH Cons.prems
    by (cases "fmlookup base k"; cases "fmlookup (ov_written s) k")
       (simp_all add: expired_row_some fmlookup_dom_iff Let_def)
qed simp

lemma overlay_gc_drops:
  obtains ds where "overlay_gc ex base c s = (fold overlay_drop ds s, length ds)" and "distinct ds"
    and "set ds = {k. expired_row ex c (overlay_lookup base s) k}"
proof -
  let ?W = "sorted_list_of_fset (fmdom (ov_written s))" and ?B = "sorted_list_of_fset (fmdom base)"
  define ws where "ws = filter (expired_row ex c (fmlookup (ov_written s))) ?W"
  define s1 where "s1 = fold overlay_drop ws s"
  define bs where "bs = filter (\<lambda>k. fmlookup (ov_written s1) k = None \<and> k |\<notin>| ov_deleted s1 \<and>
                          expired_row ex c (fmlookup base) k) ?B"
  have "overlay_gc ex base c s = (fold overlay_drop bs s1, length ws + length bs)"
    by (simp add: overlay_gc_def overlay_iter_def gc_staged_loop gc_base_loop Let_def
        ws_def [symmetric] s1_def [symmetric] bs_def [symmetric])
  then have gc: "overlay_gc ex base c s = (fold overlay_drop (ws @ bs) s, length (ws @ bs))"
    by (simp add: s1_def)
  have ws: "k \<in> set ws \<longleftrightarrow> expired_row ex c (fmlookup (ov_written s)) k" for k
    by (auto simp: ws_def expired_row_def fmlookup_dom_iff)
  have bs: "k \<in> set bs \<longleftrightarrow> fmlookup (ov_written s) k = None \<and> k |\<notin>| ov_deleted s \<and>
              expired_row ex c (fmlookup base) k" for k
    using ws [of k]
    by (auto simp: bs_def s1_def overlay_drops_written overlay_drops_deleted expired_row_def fmlookup_dom_iff)
  have "distinct (ws @ bs)"
    using ws bs by (auto simp: ws_def bs_def expired_row_def)
  moreover have "set (ws @ bs) = {k. expired_row ex c (overlay_lookup base s) k}"
    using ws bs by (auto simp: expired_row_def overlay_lookup_def split: option.splits if_splits)
  ultimately show thesis
    using gc by (intro that)
qed

lemma overlay_gc_view:
  "overlay_lookup base (fst (overlay_gc ex base c s)) =
     (\<lambda>k. if expired_row ex c (overlay_lookup base s) k then None else overlay_lookup base s k)"
  by (rule overlay_gc_drops [of ex base c s]) (auto simp: overlay_drops_lookup fun_eq_iff)

lemma overlay_gc_count:
  "snd (overlay_gc ex base c s) = card {k. expired_row ex c (overlay_lookup base s) k}"
  by (rule overlay_gc_drops [of ex base c s]) (metis distinct_card snd_conv)

lemma overlay_lookup_finite: "finite {k. \<exists>r. overlay_lookup base s k = Some r \<and> P k r}"
proof (rule finite_subset)
  show "{k. \<exists>r. overlay_lookup base s k = Some r \<and> P k r} \<subseteq>
          fset (fmdom (ov_written s)) \<union> fset (fmdom base)"
    by (auto simp: overlay_lookup_def fmlookup_dom_iff split: option.splits if_splits)
qed simp


section \<open>Rows and their indexes\<close>

text \<open>
  \<open>rows_ok\<close>: the two indexes hold exactly the keys of the rows that carry the grant or the client.
  \<open>rows_covered\<close>: they miss none of them, which is what makes a revocation by index complete.
  \<open>revocable\<close>: a row the revocation loop flips.
\<close>

definition rows_ok ::
  "('v, 'z) tokenRowOps_scheme \<Rightarrow> (key \<Rightarrow> 'v option) \<Rightarrow> tokenIndex \<Rightarrow> bool" where
  "rows_ok ops M idx \<longleftrightarrow>
     index_ok (\<lambda>r. nonempty (ro_grantID ops r)) M (ti_byGrant idx) \<and>
     index_ok (\<lambda>r. nonempty (ro_clientID ops r)) M (ti_byClient idx)"

definition index_covers :: "('v \<Rightarrow> string option) \<Rightarrow> (key \<Rightarrow> 'v option) \<Rightarrow> refreshIndex \<Rightarrow> bool" where
  "index_covers attr M idx \<longleftrightarrow>
     (\<forall>v k r. M k = Some r \<longrightarrow> attr r = Some v \<longrightarrow> k |\<in>| gm_set idx v)"

definition rows_covered ::
  "('v, 'z) tokenRowOps_scheme \<Rightarrow> (key \<Rightarrow> 'v option) \<Rightarrow> tokenIndex \<Rightarrow> bool" where
  "rows_covered ops M idx \<longleftrightarrow>
     index_covers (\<lambda>r. nonempty (ro_grantID ops r)) M (ti_byGrant idx) \<and>
     index_covers (\<lambda>r. nonempty (ro_clientID ops r)) M (ti_byClient idx)"

definition revocable ::
  "('v, 'z) tokenRowOps_scheme \<Rightarrow> ('v \<Rightarrow> bool) \<Rightarrow> (key \<Rightarrow> 'v option) \<Rightarrow> key \<Rightarrow> bool" where
  "revocable ops match M k \<longleftrightarrow> (\<exists>r. M k = Some r \<and> \<not> ro_revoked ops r \<and> match r)"

text \<open>
  A staged row that replaces a committed one keeps its grant and client, unless the transaction
  dropped the committed row and wrote the key anew.
\<close>

definition attrs_stable :: "('v, 'z) tokenRowOps_scheme \<Rightarrow> 'v gomap \<Rightarrow> 'v overlay \<Rightarrow> bool" where
  "attrs_stable ops base s \<longleftrightarrow>
     (\<forall>k r r0. fmlookup (ov_written s) k = Some r \<longrightarrow> fmlookup base k = Some r0 \<longrightarrow>
        ro_grantID ops r = ro_grantID ops r0 \<and> ro_clientID ops r = ro_clientID ops r0)"

lemma revocable_some:
  "M k = None \<Longrightarrow> \<not> revocable ops match M k"
  "M k = Some r \<Longrightarrow> revocable ops match M k \<longleftrightarrow> \<not> ro_revoked ops r \<and> match r"
  by (simp_all add: revocable_def)

lemma rows_ok_covered: "rows_ok ops M idx \<Longrightarrow> rows_covered ops M idx"
  by (auto simp: rows_ok_def rows_covered_def index_ok_def index_covers_def)

lemma rows_ok_grant:
  "rows_ok ops M idx \<Longrightarrow> g \<noteq> [] \<Longrightarrow>
     k |\<in>| gm_set (ti_byGrant idx) g \<longleftrightarrow> (\<exists>r. M k = Some r \<and> ro_grantID ops r = g)"
  by (auto simp: rows_ok_def index_okD)

lemma rows_ok_client:
  "rows_ok ops M idx \<Longrightarrow> c \<noteq> [] \<Longrightarrow>
     k |\<in>| gm_set (ti_byClient idx) c \<longleftrightarrow> (\<exists>r. M k = Some r \<and> ro_clientID ops r = c)"
  by (auto simp: rows_ok_def index_okD)

lemma rows_ok_new: "rows_ok ops (fmlookup fmempty) newTokenIndex"
  by (simp add: rows_ok_def newTokenIndex_def index_ok_def)

lemma rows_ok_track:
  "rows_ok ops M idx \<Longrightarrow> M k = None \<Longrightarrow> rows_ok ops (M(k \<mapsto> r)) (tokenRowOps_track ops k r idx)"
  by (simp add: rows_ok_def tokenRowOps_track_def index_ok_add)

lemma rows_ok_untrack:
  "rows_ok ops M idx \<Longrightarrow> M k = Some r \<Longrightarrow> rows_ok ops (M(k := None)) (tokenRowOps_untrack ops k r idx)"
  by (simp add: rows_ok_def tokenRowOps_untrack_def index_ok_remove)

lemma rows_ok_retrack:
  assumes "rows_ok ops M idx" and "M k = Some r0"
    and "ro_grantID ops r = ro_grantID ops r0" and "ro_clientID ops r = ro_clientID ops r0"
  shows "rows_ok ops (M(k \<mapsto> r)) (tokenRowOps_track ops k r idx)"
  using assms unfolding rows_ok_def tokenRowOps_track_def index_ok_def by auto

lemma index_covers_add:
  "index_covers attr M idx \<Longrightarrow> attr r = nonempty v \<Longrightarrow>
     index_covers attr (M(k \<mapsto> r)) (refreshIndex_add v k idx)"
  by (auto simp: index_covers_def)

lemma index_covers_remove:
  "index_covers attr M idx \<Longrightarrow> index_covers attr (M(k := None)) (refreshIndex_remove v k idx)"
  by (auto simp: index_covers_def)

lemma rows_covered_track:
  "rows_covered ops M idx \<Longrightarrow> rows_covered ops (M(k \<mapsto> r)) (tokenRowOps_track ops k r idx)"
  by (simp add: rows_covered_def tokenRowOps_track_def index_covers_add)

lemma rows_covered_untrack:
  "rows_covered ops M idx \<Longrightarrow> rows_covered ops (M(k := None)) (tokenRowOps_untrack ops k r idx)"
  by (simp add: rows_covered_def tokenRowOps_untrack_def index_covers_remove)

lemma rows_covered_grant:
  "rows_covered ops M idx \<Longrightarrow> M k = Some r \<Longrightarrow> ro_grantID ops r = g \<Longrightarrow> g \<noteq> [] \<Longrightarrow>
     k |\<in>| gm_set (ti_byGrant idx) g"
  by (fastforce simp: rows_covered_def index_covers_def)

lemma rows_covered_client:
  "rows_covered ops M idx \<Longrightarrow> M k = Some r \<Longrightarrow> ro_clientID ops r = c \<Longrightarrow> c \<noteq> [] \<Longrightarrow>
     k |\<in>| gm_set (ti_byClient idx) c"
  by (fastforce simp: rows_covered_def index_covers_def)

lemma rows_ok_same:
  assumes "rows_ok ops M idx"
    and "\<And>k. map_option (ro_grantID ops) (N k) = map_option (ro_grantID ops) (M k)"
    and "\<And>k. map_option (ro_clientID ops) (N k) = map_option (ro_clientID ops) (M k)"
  shows "rows_ok ops N idx"
proof -
  have "map_option (\<lambda>r. nonempty (ro_grantID ops r)) (N k) =
        map_option (\<lambda>r. nonempty (ro_grantID ops r)) (M k)"
    and "map_option (\<lambda>r. nonempty (ro_clientID ops r)) (N k) =
         map_option (\<lambda>r. nonempty (ro_clientID ops r)) (M k)" for k
    using assms(2,3) [of k] by (cases "N k"; cases "M k"; simp)+
  with assms(1) show ?thesis
    unfolding rows_ok_def by (blast intro: index_ok_same_attr)
qed

lemma rows_covered_same:
  assumes "rows_covered ops M idx"
    and "\<And>k. map_option (ro_grantID ops) (N k) = map_option (ro_grantID ops) (M k)"
    and "\<And>k. map_option (ro_clientID ops) (N k) = map_option (ro_clientID ops) (M k)"
  shows "rows_covered ops N idx"
proof -
  have "\<exists>r0. M k = Some r0 \<and> ro_grantID ops r0 = ro_grantID ops r \<and> ro_clientID ops r0 = ro_clientID ops r"
    if "N k = Some r" for k r
    using assms(2,3) [of k] that by (cases "M k") auto
  with assms(1) show ?thesis
    unfolding rows_covered_def index_covers_def by (metis (no_types, lifting))
qed


lemma length_filter_sorted:
  "length (filter P (sorted_list_of_fset A)) = card {k. k |\<in>| A \<and> P k}"
proof -
  have "length (filter P (sorted_list_of_fset A)) = card (set (filter P (sorted_list_of_fset A)))"
    by (intro distinct_card [symmetric]) simp
  then show ?thesis by simp
qed


text \<open>
  The commit of an overlay whose hooks keep the indexes. It never loses an index entry; it keeps
  the indexes exact when the staged rows keep the attributes of the rows they replace.
\<close>

lemma fmlookup_fmdrop_fun: "fmlookup (fmdrop k m) = (fmlookup m)(k := None)"
  by auto

lemma fmlookup_fmupd_fun: "fmlookup (fmupd k r m) = (fmlookup m)(k \<mapsto> r)"
  by auto

lemma flush_deletes_rows:
  assumes "fold (\<lambda>key (base, idx).
        (fmdrop key base, case fmlookup base key of Some rec \<Rightarrow> tokenRowOps_untrack ops key rec idx | None \<Rightarrow> idx))
      ks (base, idx) = (base', idx')"
  shows "(rows_covered ops (fmlookup base) idx \<longrightarrow> rows_covered ops (fmlookup base') idx')
    \<and> (rows_ok ops (fmlookup base) idx \<longrightarrow> rows_ok ops (fmlookup base') idx')"
  using assms
proof (induction ks arbitrary: base idx)
  case (Cons k ks)
  show ?case
  proof (cases "fmlookup base k")
    case None
    then have "fmdrop k base = base"
      by (intro fmap_ext) auto
    with Cons.IH [of base idx] Cons.prems None show ?thesis by simp
  next
    case (Some r)
    let ?idx = "tokenRowOps_untrack ops k r idx"
    have "fold (\<lambda>key (base, idx).
        (fmdrop key base, case fmlookup base key of Some rec \<Rightarrow> tokenRowOps_untrack ops key rec idx | None \<Rightarrow> idx))
      ks (fmdrop k base, ?idx) = (base', idx')"
      using Cons.prems Some by simp
    note IH = Cons.IH [OF this]
    have "rows_covered ops (fmlookup base) idx \<Longrightarrow> rows_covered ops (fmlookup (fmdrop k base)) ?idx"
      and "rows_ok ops (fmlookup base) idx \<Longrightarrow> rows_ok ops (fmlookup (fmdrop k base)) ?idx"
      unfolding fmlookup_fmdrop_fun using Some by (blast intro: rows_covered_untrack rows_ok_untrack)+
    with IH show ?thesis by blast
  qed
qed simp

lemma flush_puts_rows:
  assumes "fold (\<lambda>key (base, idx). case fmlookup w key of None \<Rightarrow> (base, idx)
      | Some rec \<Rightarrow> (fmupd key rec base, tokenRowOps_track ops key rec idx)) ks (base, idx) = (base', idx')"
    and "distinct ks"
  shows "(rows_covered ops (fmlookup base) idx \<longrightarrow> rows_covered ops (fmlookup base') idx')
    \<and> (rows_ok ops (fmlookup base) idx \<longrightarrow>
        (\<forall>k r r0. k \<in> set ks \<longrightarrow> fmlookup w k = Some r \<longrightarrow> fmlookup base k = Some r0 \<longrightarrow>
          ro_grantID ops r = ro_grantID ops r0 \<and> ro_clientID ops r = ro_clientID ops r0) \<longrightarrow>
        rows_ok ops (fmlookup base') idx')"
  using assms
proof (induction ks arbitrary: base idx)
  case (Cons k ks)
  show ?case
  proof (cases "fmlookup w k")
    case None
    with Cons.IH [of base idx] Cons.prems show ?thesis by simp
  next
    case (Some r)
    let ?base = "fmupd k r base" and ?idx = "tokenRowOps_track ops k r idx"
    have step: "fold (\<lambda>key (base, idx). case fmlookup w key of None \<Rightarrow> (base, idx)
        | Some rec \<Rightarrow> (fmupd key rec base, tokenRowOps_track ops key rec idx)) ks (?base, ?idx) = (base', idx')"
      using Cons.prems(1) Some by simp
    have dist: "distinct ks"
      using Cons.prems(2) by simp
    note IH = Cons.IH [OF step dist]
    have cov: "rows_covered ops (fmlookup base) idx \<Longrightarrow> rows_covered ops (fmlookup ?base) ?idx"
      unfolding fmlookup_fmupd_fun by (rule rows_covered_track)
    have ok: "rows_ok ops (fmlookup ?base) ?idx"
      if "rows_ok ops (fmlookup base) idx"
        and "\<And>r0. fmlookup base k = Some r0 \<Longrightarrow>
          ro_grantID ops r = ro_grantID ops r0 \<and> ro_clientID ops r = ro_clientID ops r0"
      unfolding fmlookup_fmupd_fun using that
      by (cases "fmlookup base k") (auto intro: rows_ok_track rows_ok_retrack)
    have rest: "fmlookup ?base j = fmlookup base j" if "j \<in> set ks" for j
      using that Cons.prems(2) by auto
    show ?thesis
    proof (intro conjI impI)
      assume "rows_covered ops (fmlookup base) idx"
      with cov IH show "rows_covered ops (fmlookup base') idx'" by blast
    next
      assume "rows_ok ops (fmlookup base) idx"
        and same: "\<forall>j r r0. j \<in> set (k # ks) \<longrightarrow> fmlookup w j = Some r \<longrightarrow> fmlookup base j = Some r0 \<longrightarrow>
          ro_grantID ops r = ro_grantID ops r0 \<and> ro_clientID ops r = ro_clientID ops r0"
      with ok Some have "rows_ok ops (fmlookup ?base) ?idx" by simp
      moreover have "\<forall>j r r0. j \<in> set ks \<longrightarrow> fmlookup w j = Some r \<longrightarrow> fmlookup ?base j = Some r0 \<longrightarrow>
          ro_grantID ops r = ro_grantID ops r0 \<and> ro_clientID ops r = ro_clientID ops r0"
        using same rest by (metis list.set_intros(2))
      ultimately show "rows_ok ops (fmlookup base') idx'"
        using IH by blast
    qed
  qed
qed simp

lemma flush_rows:
  assumes "overlay_flushLocked (tokenRowOps_track ops) (tokenRowOps_untrack ops) s (base, idx) = (base', idx')"
  shows "rows_covered ops (fmlookup base) idx \<Longrightarrow> rows_covered ops (fmlookup base') idx'"
    and "rows_ok ops (fmlookup base) idx \<Longrightarrow> attrs_stable ops base s \<Longrightarrow> rows_ok ops (fmlookup base') idx'"
proof -
  obtain base1 idx1 where del: "fold (\<lambda>key (base, idx).
        (fmdrop key base, case fmlookup base key of Some rec \<Rightarrow> tokenRowOps_untrack ops key rec idx | None \<Rightarrow> idx))
      (sorted_list_of_fset (ov_deleted s)) (base, idx) = (base1, idx1)"
    by fastforce
  have base1: "fmlookup base1 k = (if k |\<in>| ov_deleted s then None else fmlookup base k)" for k
    using flush_deletes [of "tokenRowOps_untrack ops" "sorted_list_of_fset (ov_deleted s)" "(base, idx)" k] del
    by simp
  note put = flush_puts_rows [OF assms [unfolded overlay_flushLocked_def Let_def del]
      distinct_sorted_list_of_fset]
  show "rows_covered ops (fmlookup base) idx \<Longrightarrow> rows_covered ops (fmlookup base') idx'"
    using flush_deletes_rows [OF del] put by blast
  assume "rows_ok ops (fmlookup base) idx" and "attrs_stable ops base s"
  then show "rows_ok ops (fmlookup base') idx'"
    using flush_deletes_rows [OF del] put base1 by (auto simp: attrs_stable_def split: if_splits)
qed


section \<open>Abstract registry of rows\<close>

text \<open>
  On the abstract map from keys to rows, a revocation flips every live row that satisfies a
  predicate and counts the flips, and a reclamation forgets the expired rows.
\<close>

definition rows_revoke ::
  "('v, 'z) tokenRowOps_scheme \<Rightarrow> (key \<Rightarrow> 'v \<Rightarrow> bool) \<Rightarrow> (key \<Rightarrow> 'v option) \<Rightarrow> key \<Rightarrow> 'v option" where
  "rows_revoke ops P M k =
     map_option (\<lambda>r. if \<not> ro_revoked ops r \<and> P k r then ro_setRevoked ops r else r) (M k)"

definition rows_count ::
  "('v, 'z) tokenRowOps_scheme \<Rightarrow> (key \<Rightarrow> 'v \<Rightarrow> bool) \<Rightarrow> (key \<Rightarrow> 'v option) \<Rightarrow> nat" where
  "rows_count ops P M = card {k. \<exists>r. M k = Some r \<and> \<not> ro_revoked ops r \<and> P k r}"

definition rows_expire :: "('v \<Rightarrow> time) \<Rightarrow> time \<Rightarrow> (key \<Rightarrow> 'v option) \<Rightarrow> key \<Rightarrow> 'v option" where
  "rows_expire ex c M k = (if expired_row ex c M k then None else M k)"


section \<open>The row types\<close>

locale token_rows =
  fixes ops :: "('v, 'z) tokenRowOps_scheme"
  assumes setRevoked_grantID [simp]: "ro_grantID ops (ro_setRevoked ops r) = ro_grantID ops r"
    and setRevoked_clientID [simp]: "ro_clientID ops (ro_setRevoked ops r) = ro_clientID ops r"
    and setRevoked_expiresAt [simp]: "ro_expiresAt ops (ro_setRevoked ops r) = ro_expiresAt ops r"
    and setRevoked_revoked [simp]: "ro_revoked ops (ro_setRevoked ops r)"
begin

lemma revokeIndexed_loop:
  assumes "distinct ks"
  shows "fold (\<lambda>key (n, m). case fmlookup m key of None \<Rightarrow> (n, m)
           | Some rec \<Rightarrow> if ro_revoked ops rec \<or> \<not> match rec then (n, m)
               else (n + 1, fmupd key (ro_setRevoked ops rec) m)) ks (n, m)
     = (n + length (filter (revocable ops match (fmlookup m)) ks),
        gm_update_keys (fset_of_list (filter (revocable ops match (fmlookup m)) ks)) (ro_setRevoked ops) m)"
  using assms
proof (induction ks arbitrary: n m)
  case Nil
  show ?case by (auto intro!: fmap_ext simp: option.map_ident)
next
  case (Cons k ks)
  show ?case
  proof (cases "revocable ops match (fmlookup m) k")
    case False
    then show ?thesis
      using Cons by (cases "fmlookup m k") (auto simp: revocable_some)
  next
    case True
    then obtain r where r: "fmlookup m k = Some r" and ok: "\<not> ro_revoked ops r" "match r"
      by (auto simp: revocable_def)
    let ?m = "fmupd k (ro_setRevoked ops r) m"
    have same: "filter (revocable ops match (fmlookup ?m)) ks = filter (revocable ops match (fmlookup m)) ks"
      using Cons.prems by (intro filter_cong) (auto simp: revocable_def)
    have upd: "gm_update_keys (fset_of_list (filter (revocable ops match (fmlookup m)) ks)) (ro_setRevoked ops) ?m =
          gm_update_keys (fset_of_list (filter (revocable ops match (fmlookup m)) (k # ks))) (ro_setRevoked ops) m"
      using Cons.prems True r by (intro fmap_ext) auto
    have dist: "distinct ks"
      using Cons.prems by simp
    show ?thesis
      using True r ok Cons.IH [OF dist, of "n + 1" ?m, unfolded same upd] by simp
  qed
qed

lemma revokeIndexed_lookup:
  "fmlookup (snd (revokeIndexed ops m ids match)) k =
     (if k |\<in>| ids \<and> revocable ops match (fmlookup m) k
      then map_option (ro_setRevoked ops) (fmlookup m k) else fmlookup m k)"
  by (auto simp: revokeIndexed_def revokeIndexed_loop option.map_ident)

lemma revokeIndexed_count:
  "fst (revokeIndexed ops m ids match) = card {k. k |\<in>| ids \<and> revocable ops match (fmlookup m) k}"
  by (simp add: revokeIndexed_def revokeIndexed_loop length_filter_sorted)

lemma revokeIndexed_attrs:
  "map_option (ro_grantID ops) (fmlookup (snd (revokeIndexed ops m ids match)) k) =
     map_option (ro_grantID ops) (fmlookup m k)"
  "map_option (ro_clientID ops) (fmlookup (snd (revokeIndexed ops m ids match)) k) =
     map_option (ro_clientID ops) (fmlookup m k)"
  by (simp_all add: revokeIndexed_lookup option.map_comp comp_def)

lemma revokeIndexed_revokes:
  assumes "fmlookup (snd (revokeIndexed ops m ids match)) k = Some r" and "match = (\<lambda>_. True)"
  obtains r0 where "fmlookup m k = Some r0" and "ro_grantID ops r0 = ro_grantID ops r"
    and "ro_clientID ops r0 = ro_clientID ops r" and "k |\<in>| ids \<Longrightarrow> ro_revoked ops r"
  using assms by (cases "fmlookup m k") (auto simp: revokeIndexed_lookup revocable_some split: if_splits)

lemma rows_ok_revokeIndexed:
  "rows_ok ops (fmlookup m) idx \<Longrightarrow> rows_ok ops (fmlookup (snd (revokeIndexed ops m ids match))) idx"
  by (rule rows_ok_same) (simp_all add: revokeIndexed_attrs)

lemma rows_covered_revokeIndexed:
  "rows_covered ops (fmlookup m) idx \<Longrightarrow>
     rows_covered ops (fmlookup (snd (revokeIndexed ops m ids match))) idx"
  by (rule rows_covered_same) (simp_all add: revokeIndexed_attrs)

lemma gcRows_loop:
  assumes "distinct ks"
    and "fold (\<lambda>key (n, m, idx). case fmlookup m key of None \<Rightarrow> (n, m, idx)
           | Some rec \<Rightarrow> if \<not> IsExpiredStrict (ro_expiresAt ops rec) c then (n, m, idx)
               else (n + 1, fmdrop key m, tokenRowOps_untrack ops key rec idx)) ks (n, m, idx) = (n', m', idx')"
  shows "n' = n + length (filter (expired_row (ro_expiresAt ops) c (fmlookup m)) ks)
    \<and> (\<forall>k. fmlookup m' k =
         (if k \<in> set ks \<and> expired_row (ro_expiresAt ops) c (fmlookup m) k then None else fmlookup m k))
    \<and> (rows_ok ops (fmlookup m) idx \<longrightarrow> rows_ok ops (fmlookup m') idx')
    \<and> (rows_covered ops (fmlookup m) idx \<longrightarrow> rows_covered ops (fmlookup m') idx')"
  using assms
proof (induction ks arbitrary: n m idx)
  case (Cons k ks)
  have dist: "distinct ks"
    using Cons.prems(1) by simp
  show ?case
  proof (cases "expired_row (ro_expiresAt ops) c (fmlookup m) k")
    case False
    have "fold (\<lambda>key (n, m, idx). case fmlookup m key of None \<Rightarrow> (n, m, idx)
           | Some rec \<Rightarrow> if \<not> IsExpiredStrict (ro_expiresAt ops rec) c then (n, m, idx)
               else (n + 1, fmdrop key m, tokenRowOps_untrack ops key rec idx)) ks (n, m, idx) = (n', m', idx')"
      using Cons.prems(2) False by (cases "fmlookup m k") (simp_all add: expired_row_some)
    note IH = Cons.IH [OF dist this]
    have "fmlookup m' j = (if j \<in> set (k # ks) \<and> expired_row (ro_expiresAt ops) c (fmlookup m) j
        then None else fmlookup m j)" for j
      using IH False by (cases "j = k") auto
    with IH False show ?thesis by (intro conjI allI; simp)
  next
    case True
    then obtain r where r: "fmlookup m k = Some r" and ex: "IsExpiredStrict (ro_expiresAt ops r) c"
      by (auto simp: expired_row_def)
    let ?m = "fmdrop k m" and ?idx = "tokenRowOps_untrack ops k r idx"
    have look: "fmlookup ?m = (fmlookup m)(k := None)"
      by auto
    have rest: "expired_row (ro_expiresAt ops) c (fmlookup ?m) j = expired_row (ro_expiresAt ops) c (fmlookup m) j"
      if "j \<noteq> k" for j
      using that by (simp add: expired_row_def)
    have filt: "filter (expired_row (ro_expiresAt ops) c (fmlookup ?m)) ks =
        filter (expired_row (ro_expiresAt ops) c (fmlookup m)) ks"
      using Cons.prems(1) by (intro filter_cong refl rest) auto
    have ok: "rows_ok ops (fmlookup m) idx \<Longrightarrow> rows_ok ops (fmlookup ?m) ?idx"
      and cov: "rows_covered ops (fmlookup m) idx \<Longrightarrow> rows_covered ops (fmlookup ?m) ?idx"
      unfolding look using r by (simp_all add: rows_ok_untrack rows_covered_untrack)
    have "fold (\<lambda>key (n, m, idx). case fmlookup m key of None \<Rightarrow> (n, m, idx)
           | Some rec \<Rightarrow> if \<not> IsExpiredStrict (ro_expiresAt ops rec) c then (n, m, idx)
               else (n + 1, fmdrop key m, tokenRowOps_untrack ops key rec idx)) ks (n + 1, ?m, ?idx) = (n', m', idx')"
      using Cons.prems(2) r ex by simp
    note IH = Cons.IH [OF dist this, unfolded filt]
    have "fmlookup m' j = (if j \<in> set (k # ks) \<and> expired_row (ro_expiresAt ops) c (fmlookup m) j
        then None else fmlookup m j)" for j
    proof -
      have "fmlookup m' j = (if j \<in> set ks \<and> expired_row (ro_expiresAt ops) c (fmlookup ?m) j
          then None else fmlookup ?m j)"
        using IH by blast
      then show ?thesis
        using True by (cases "j = k") (auto simp: expired_row_def)
    qed
    moreover have "n' = n + length (filter (expired_row (ro_expiresAt ops) c (fmlookup m)) (k # ks))"
      using IH True by simp
    ultimately show ?thesis
      using IH ok cov by blast
  qed
qed auto

lemma gcRows_facts:
  assumes "gcRows ops m idx c = (n, m', idx')"
  shows "n = card {k. expired_row (ro_expiresAt ops) c (fmlookup m) k}"
    and "fmlookup m' k = (if expired_row (ro_expiresAt ops) c (fmlookup m) k then None else fmlookup m k)"
    and "rows_ok ops (fmlookup m) idx \<Longrightarrow> rows_ok ops (fmlookup m') idx'"
    and "rows_covered ops (fmlookup m) idx \<Longrightarrow> rows_covered ops (fmlookup m') idx'"
proof -
  have dom: "k |\<in>| fmdom m" if "expired_row (ro_expiresAt ops) c (fmlookup m) k" for k
    using that by (auto simp: expired_row_def fmlookup_dom_iff)
  note facts = gcRows_loop [OF distinct_sorted_list_of_fset assms [unfolded gcRows_def]]
  show "n = card {k. expired_row (ro_expiresAt ops) c (fmlookup m) k}"
    using facts dom by (simp add: length_filter_sorted) (metis (no_types, lifting))
  show "fmlookup m' k = (if expired_row (ro_expiresAt ops) c (fmlookup m) k then None else fmlookup m k)"
    using facts dom by auto
  show "rows_ok ops (fmlookup m) idx \<Longrightarrow> rows_ok ops (fmlookup m') idx'"
    and "rows_covered ops (fmlookup m) idx \<Longrightarrow> rows_covered ops (fmlookup m') idx'"
    using facts by blast+
qed

text \<open>
  Revocation through the overlay. The candidates are the committed rows the index names together
  with every row the transaction has written.
\<close>

lemma revokeStaged_loop:
  assumes "distinct ks"
    and "fold (\<lambda>key (n, s). case overlay_lookup base s key of None \<Rightarrow> (n, s)
           | Some rec \<Rightarrow> if ro_revoked ops rec \<or> \<not> match rec then (n, s)
               else (n + 1, overlay_stage key (ro_setRevoked ops rec) s)) ks (n, s) = (n', s')"
  shows "n' = n + length (filter (revocable ops match (overlay_lookup base s)) ks)
    \<and> (\<forall>k. overlay_lookup base s' k =
         (if k \<in> set ks \<and> revocable ops match (overlay_lookup base s) k
          then map_option (ro_setRevoked ops) (overlay_lookup base s k) else overlay_lookup base s k))
    \<and> (attrs_stable ops base s \<longrightarrow> attrs_stable ops base s')"
  using assms
proof (induction ks arbitrary: n s)
  case (Cons k ks)
  have dist: "distinct ks"
    using Cons.prems(1) by simp
  let ?V = "overlay_lookup base s"
  show ?case
  proof (cases "revocable ops match ?V k")
    case False
    have "fold (\<lambda>key (n, s). case overlay_lookup base s key of None \<Rightarrow> (n, s)
           | Some rec \<Rightarrow> if ro_revoked ops rec \<or> \<not> match rec then (n, s)
               else (n + 1, overlay_stage key (ro_setRevoked ops rec) s)) ks (n, s) = (n', s')"
      using Cons.prems(2) False by (cases "?V k") (simp_all add: revocable_some)
    note IH = Cons.IH [OF dist this]
    have "overlay_lookup base s' j = (if j \<in> set (k # ks) \<and> revocable ops match ?V j
        then map_option (ro_setRevoked ops) (?V j) else ?V j)" for j
      using IH False by (cases "j = k") auto
    with IH False show ?thesis by simp
  next
    case True
    then obtain r where r: "?V k = Some r" and ok: "\<not> ro_revoked ops r" "match r"
      by (auto simp: revocable_def)
    let ?s = "overlay_stage k (ro_setRevoked ops r) s"
    have filt: "filter (revocable ops match (overlay_lookup base ?s)) ks = filter (revocable ops match ?V) ks"
      using Cons.prems(1) by (intro filter_cong) (auto simp: revocable_def)
    have stable: "attrs_stable ops base s \<Longrightarrow> attrs_stable ops base ?s"
      using r by (auto simp: attrs_stable_def overlay_stage_def overlay_lookup_def split: option.splits if_splits)
    have "fold (\<lambda>key (n, s). case overlay_lookup base s key of None \<Rightarrow> (n, s)
           | Some rec \<Rightarrow> if ro_revoked ops rec \<or> \<not> match rec then (n, s)
               else (n + 1, overlay_stage key (ro_setRevoked ops rec) s)) ks (n + 1, ?s) = (n', s')"
      using Cons.prems(2) r ok by simp
    note IH = Cons.IH [OF dist this, unfolded filt]
    have "overlay_lookup base s' j = (if j \<in> set (k # ks) \<and> revocable ops match ?V j
        then map_option (ro_setRevoked ops) (?V j) else ?V j)" for j
    proof -
      have "overlay_lookup base s' j = (if j \<in> set ks \<and> revocable ops match (overlay_lookup base ?s) j
          then map_option (ro_setRevoked ops) (overlay_lookup base ?s j) else overlay_lookup base ?s j)"
        using IH by blast
      then show ?thesis
        using True r Cons.prems(1) by (cases "j = k") (auto simp: revocable_def)
    qed
    moreover have "n' = n + length (filter (revocable ops match ?V) (k # ks))"
      using IH True by simp
    ultimately show ?thesis
      using IH stable by blast
  qed
qed auto

lemma revokeStaged_facts:
  assumes "revokeStaged ops base s ids match = (n, s')"
  shows "n = card {k. (k |\<in>| ids \<or> fmlookup (ov_written s) k \<noteq> None) \<and>
                 revocable ops match (overlay_lookup base s) k}"
    and "overlay_lookup base s' k =
      (if (k |\<in>| ids \<or> fmlookup (ov_written s) k \<noteq> None) \<and> revocable ops match (overlay_lookup base s) k
       then map_option (ro_setRevoked ops) (overlay_lookup base s k) else overlay_lookup base s k)"
    and "attrs_stable ops base s \<Longrightarrow> attrs_stable ops base s'"
proof -
  note facts = revokeStaged_loop [OF distinct_sorted_list_of_fset
      assms [unfolded revokeStaged_def Let_def]]
  have mem: "k |\<in>| ids |\<union>| fmdom (ov_written s) \<longleftrightarrow> k |\<in>| ids \<or> fmlookup (ov_written s) k \<noteq> None" for k
    by (auto simp: fmlookup_dom_iff)
  show "n = card {k. (k |\<in>| ids \<or> fmlookup (ov_written s) k \<noteq> None) \<and>
                 revocable ops match (overlay_lookup base s) k}"
    using facts by (simp only: length_filter_sorted mem)
  show "overlay_lookup base s' k =
      (if (k |\<in>| ids \<or> fmlookup (ov_written s) k \<noteq> None) \<and> revocable ops match (overlay_lookup base s) k
       then map_option (ro_setRevoked ops) (overlay_lookup base s k) else overlay_lookup base s k)"
    using facts mem by simp
  show "attrs_stable ops base s \<Longrightarrow> attrs_stable ops base s'"
    using facts by blast
qed

text \<open>What the loops do, on the abstract map.\<close>

lemma revokeIndexed_rows:
  assumes "\<And>k r. fmlookup m k = Some r \<Longrightarrow> k |\<in>| ids \<and> match r \<longleftrightarrow> P k r"
  shows "fmlookup (snd (revokeIndexed ops m ids match)) = rows_revoke ops P (fmlookup m)"
    and "fst (revokeIndexed ops m ids match) = rows_count ops P (fmlookup m)"
proof -
  show "fmlookup (snd (revokeIndexed ops m ids match)) = rows_revoke ops P (fmlookup m)"
  proof (rule ext)
    fix k show "fmlookup (snd (revokeIndexed ops m ids match)) k = rows_revoke ops P (fmlookup m) k"
      using assms [of k]
      by (cases "fmlookup m k") (auto simp: revokeIndexed_lookup rows_revoke_def revocable_some)
  qed
  have "{k. k |\<in>| ids \<and> revocable ops match (fmlookup m) k} =
        {k. \<exists>r. fmlookup m k = Some r \<and> \<not> ro_revoked ops r \<and> P k r}"
    using assms by (auto simp: revocable_def)
  then show "fst (revokeIndexed ops m ids match) = rows_count ops P (fmlookup m)"
    by (simp add: revokeIndexed_count rows_count_def)
qed

lemma revokeByGrant_rows:
  assumes "rows_ok ops (fmlookup m) idx" and "g \<noteq> []"
  shows "fmlookup (snd (revokeIndexed ops m (gm_set (ti_byGrant idx) g) match)) =
           rows_revoke ops (\<lambda>k r. ro_grantID ops r = g \<and> match r) (fmlookup m)"
    and "fst (revokeIndexed ops m (gm_set (ti_byGrant idx) g) match) =
           rows_count ops (\<lambda>k r. ro_grantID ops r = g \<and> match r) (fmlookup m)"
  by (rule revokeIndexed_rows; simp add: rows_ok_grant [OF assms])+

lemma revokeByClient_rows:
  assumes "rows_ok ops (fmlookup m) idx" and "c \<noteq> []"
  shows "fmlookup (snd (revokeIndexed ops m (gm_set (ti_byClient idx) c) match)) =
           rows_revoke ops (\<lambda>k r. ro_clientID ops r = c \<and> match r) (fmlookup m)"
  by (rule revokeIndexed_rows; simp add: rows_ok_client [OF assms])

lemma gcRows_rows:
  assumes "gcRows ops m idx c = (n, m', idx')"
  shows "fmlookup m' = rows_expire (ro_expiresAt ops) c (fmlookup m)"
  by (rule ext) (simp add: gcRows_facts(2) [OF assms] rows_expire_def)

lemma revokeStaged_rows:
  assumes "rows_ok ops (fmlookup base) idx" and "g \<noteq> []"
    and "revokeStaged ops base s (gm_set (ti_byGrant idx) g) match = (n, s')"
  shows "overlay_lookup base s' =
           rows_revoke ops (\<lambda>k r. (ro_grantID ops r = g \<or> fmlookup (ov_written s) k \<noteq> None) \<and> match r)
             (overlay_lookup base s)" (is "_ = rows_revoke ops ?P ?V")
    and "n = rows_count ops (\<lambda>k r. (ro_grantID ops r = g \<or> fmlookup (ov_written s) k \<noteq> None) \<and> match r)
             (overlay_lookup base s)"
proof -
  let ?C = "\<lambda>k. k |\<in>| gm_set (ti_byGrant idx) g \<or> fmlookup (ov_written s) k \<noteq> None"
  have cand: "?C k \<and> match r \<longleftrightarrow> ?P k r" if "?V k = Some r" for k r
    using that rows_ok_grant [OF assms(1,2), of k]
    by (auto simp: overlay_lookup_def split: option.splits if_splits)
  show "overlay_lookup base s' = rows_revoke ops ?P ?V"
  proof (rule ext)
    fix k show "overlay_lookup base s' k = rows_revoke ops ?P ?V k"
      using cand [of k]
      by (cases "?V k") (auto simp: revokeStaged_facts(2) [OF assms(3)] rows_revoke_def revocable_some)
  qed
  have "{k. ?C k \<and> revocable ops match ?V k} = {k. \<exists>r. ?V k = Some r \<and> \<not> ro_revoked ops r \<and> ?P k r}"
    unfolding revocable_def using cand by blast
  then show "n = rows_count ops ?P ?V"
    by (simp add: revokeStaged_facts(1) [OF assms(3)] rows_count_def)
qed

end

end
