(* ===== verification/AccessTokens.thy ===== *)
theory AccessTokens
  imports TokenRows
begin

text \<open>
  The registry of issued JWT access tokens, \<^verbatim>\<open>inmem/access_tokens.go\<close> and its staging in
  \<^verbatim>\<open>inmem/tx_aux.go\<close>. The abstract registry is a map from JTIs to records. A session of direct calls
  answers as the map; a transaction does too, on the map it shows, except that its
  \<^verbatim>\<open>RevokeByGrant\<close> also reaches every row the transaction itself has written.
\<close>

record AccessTokenRecord =
  at_JTI :: string
  at_GrantID :: string
  at_Subject :: string
  at_ClientID :: string
  at_Scopes :: "string list"
  at_IssuedAt :: time
  at_ExpiresAt :: time
  at_Revoked :: bool

record accessTokenStore =
  ats_m :: "AccessTokenRecord gomap"
  ats_idx :: tokenIndex

definition newAccessTokenStore :: accessTokenStore where
  "newAccessTokenStore = \<lparr>ats_m = fmempty, ats_idx = newTokenIndex\<rparr>"

definition accessTokenRowOps :: "AccessTokenRecord tokenRowOps" where
  "accessTokenRowOps =
     \<lparr>ro_grantID = at_GrantID, ro_clientID = at_ClientID, ro_expiresAt = at_ExpiresAt,
      ro_revoked = at_Revoked, ro_setRevoked = (\<lambda>r. r\<lparr>at_Revoked := True\<rparr>)\<rparr>"

definition matchAnyToken :: "'v \<Rightarrow> bool" where
  "matchAnyToken r = True"

definition err_empty_jti :: store_err where
  "err_empty_jti = ErrOther ''inmem: AccessTokenRecord requires a non-empty JTI''"

definition accessTokenStore_Register ::
  "AccessTokenRecord \<Rightarrow> accessTokenStore \<Rightarrow> store_err option \<times> accessTokenStore" where
  "accessTokenStore_Register rec s =
     (if at_JTI rec = [] then (Some err_empty_jti, s)
      else if fmlookup (ats_m s) (at_JTI rec) \<noteq> None then (Some ErrAlreadyExists, s)
      else
        (None, s\<lparr>ats_m := fmupd (at_JTI rec) rec (ats_m s),
                 ats_idx := tokenRowOps_track accessTokenRowOps (at_JTI rec) rec (ats_idx s)\<rparr>))"

definition accessTokenStore_Find ::
  "string \<Rightarrow> accessTokenStore \<Rightarrow> AccessTokenRecord option \<times> store_err option" where
  "accessTokenStore_Find jti s = (if jti = [] then (None, None) else (fmlookup (ats_m s) jti, None))"

definition accessTokenStore_RevokeByJTI ::
  "string \<Rightarrow> accessTokenStore \<Rightarrow> store_err option \<times> accessTokenStore" where
  "accessTokenStore_RevokeByJTI jti s =
     (if jti = [] then (None, s)
      else
        (case fmlookup (ats_m s) jti of
           None \<Rightarrow> (None, s)
         | Some rec \<Rightarrow> (None, s\<lparr>ats_m := fmupd jti (rec\<lparr>at_Revoked := True\<rparr>) (ats_m s)\<rparr>)))"

definition accessTokenStore_RevokeByGrant ::
  "string \<Rightarrow> accessTokenStore \<Rightarrow> (nat \<times> store_err option) \<times> accessTokenStore" where
  "accessTokenStore_RevokeByGrant grantID s =
     (if grantID = [] then ((0, None), s)
      else
        (case revokeIndexed accessTokenRowOps (ats_m s) (gm_set (ti_byGrant (ats_idx s)) grantID)
                matchAnyToken of
           (n, m) \<Rightarrow> ((n, None), s\<lparr>ats_m := m\<rparr>)))"

definition accessTokenStore_RevokeByClient ::
  "string \<Rightarrow> accessTokenStore \<Rightarrow> store_err option \<times> accessTokenStore" where
  "accessTokenStore_RevokeByClient clientID s =
     (if clientID = [] then (None, s)
      else
        (case revokeIndexed accessTokenRowOps (ats_m s) (gm_set (ti_byClient (ats_idx s)) clientID)
                matchAnyToken of
           (n, m) \<Rightarrow> (None, s\<lparr>ats_m := m\<rparr>)))"

definition accessTokenStore_GC ::
  "time \<Rightarrow> accessTokenStore \<Rightarrow> (nat \<times> store_err option) \<times> accessTokenStore" where
  "accessTokenStore_GC cutoff s =
     (case gcRows accessTokenRowOps (ats_m s) (ats_idx s) cutoff of
        (n, m, idx) \<Rightarrow> ((n, None), s\<lparr>ats_m := m, ats_idx := idx\<rparr>))"


section \<open>The staged registry\<close>

text \<open>
  \<open>guard\<close> is the outcome of \<^verbatim>\<open>tx.guard(ctx)\<close>, \<open>parent\<close> the committed registry. The commit runs the
  hooks that \<^verbatim>\<open>accessTokenStore.overlay\<close> installs.
\<close>

definition txAccessTokens_Register ::
  "store_err option \<Rightarrow> accessTokenStore \<Rightarrow> AccessTokenRecord \<Rightarrow> AccessTokenRecord overlay \<Rightarrow>
     store_err option \<times> AccessTokenRecord overlay" where
  "txAccessTokens_Register guard parent rec st =
     (case guard of
        Some e \<Rightarrow> (Some e, st)
      | None \<Rightarrow>
          if at_JTI rec = [] then (Some err_empty_jti, st)
          else if overlay_lookup (ats_m parent) st (at_JTI rec) \<noteq> None then (Some ErrAlreadyExists, st)
          else (None, overlay_stage (at_JTI rec) rec st))"

definition txAccessTokens_Find ::
  "store_err option \<Rightarrow> accessTokenStore \<Rightarrow> string \<Rightarrow> AccessTokenRecord overlay \<Rightarrow>
     AccessTokenRecord option \<times> store_err option" where
  "txAccessTokens_Find guard parent jti st =
     (case guard of
        Some e \<Rightarrow> (None, Some e)
      | None \<Rightarrow> if jti = [] then (None, None) else (overlay_lookup (ats_m parent) st jti, None))"

definition txAccessTokens_RevokeByJTI ::
  "store_err option \<Rightarrow> accessTokenStore \<Rightarrow> string \<Rightarrow> AccessTokenRecord overlay \<Rightarrow>
     store_err option \<times> AccessTokenRecord overlay" where
  "txAccessTokens_RevokeByJTI guard parent jti st =
     (case guard of
        Some e \<Rightarrow> (Some e, st)
      | None \<Rightarrow>
          if jti = [] then (None, st)
          else
            (case overlay_lookup (ats_m parent) st jti of
               None \<Rightarrow> (None, st)
             | Some rec \<Rightarrow> (None, overlay_stage jti (rec\<lparr>at_Revoked := True\<rparr>) st)))"

definition txAccessTokens_RevokeByGrant ::
  "store_err option \<Rightarrow> accessTokenStore \<Rightarrow> string \<Rightarrow> AccessTokenRecord overlay \<Rightarrow>
     (nat \<times> store_err option) \<times> AccessTokenRecord overlay" where
  "txAccessTokens_RevokeByGrant guard parent grantID st =
     (case guard of
        Some e \<Rightarrow> ((0, Some e), st)
      | None \<Rightarrow>
          if grantID = [] then ((0, None), st)
          else
            (case revokeStaged accessTokenRowOps (ats_m parent) st
                    (gm_set (ti_byGrant (ats_idx parent)) grantID) matchAnyToken of
               (n, st) \<Rightarrow> ((n, None), st)))"

definition txAccessTokens_GC ::
  "store_err option \<Rightarrow> accessTokenStore \<Rightarrow> time \<Rightarrow> AccessTokenRecord overlay \<Rightarrow>
     (nat \<times> store_err option) \<times> AccessTokenRecord overlay" where
  "txAccessTokens_GC guard parent cutoff st =
     (case guard of
        Some e \<Rightarrow> ((0, Some e), st)
      | None \<Rightarrow>
          (case overlay_gc at_ExpiresAt (ats_m parent) cutoff st of (st, n) \<Rightarrow> ((n, None), st)))"

definition accessTokenStore_overlay_flush ::
  "AccessTokenRecord overlay \<Rightarrow> accessTokenStore \<Rightarrow> accessTokenStore" where
  "accessTokenStore_overlay_flush st s =
     (case overlay_flushLocked (tokenRowOps_track accessTokenRowOps)
             (tokenRowOps_untrack accessTokenRowOps) st (ats_m s, ats_idx s) of
        (m, idx) \<Rightarrow> s\<lparr>ats_m := m, ats_idx := idx\<rparr>)"


section \<open>The abstract registry\<close>

type_synonym access_map = "key \<Rightarrow> AccessTokenRecord option"

datatype access_call =
    ARegister AccessTokenRecord
  | AFind string
  | ARevokeByJTI string
  | ARevokeByGrant string
  | AGC time

datatype access_reply =
    AErr "store_err option"
  | ARecord "AccessTokenRecord option \<times> store_err option"
  | ACount "nat \<times> store_err option"

fun accessTokenStore_call :: "access_call \<Rightarrow> accessTokenStore \<Rightarrow> access_reply \<times> accessTokenStore" where
  "accessTokenStore_call (ARegister rec) s = apfst AErr (accessTokenStore_Register rec s)"
| "accessTokenStore_call (AFind jti) s = (ARecord (accessTokenStore_Find jti s), s)"
| "accessTokenStore_call (ARevokeByJTI jti) s = apfst AErr (accessTokenStore_RevokeByJTI jti s)"
| "accessTokenStore_call (ARevokeByGrant g) s = apfst ACount (accessTokenStore_RevokeByGrant g s)"
| "accessTokenStore_call (AGC cutoff) s = apfst ACount (accessTokenStore_GC cutoff s)"

fun txAccessTokens_call ::
  "store_err option \<Rightarrow> accessTokenStore \<Rightarrow> access_call \<Rightarrow> AccessTokenRecord overlay \<Rightarrow>
     access_reply \<times> AccessTokenRecord overlay" where
  "txAccessTokens_call guard parent (ARegister rec) st = apfst AErr (txAccessTokens_Register guard parent rec st)"
| "txAccessTokens_call guard parent (AFind jti) st = (ARecord (txAccessTokens_Find guard parent jti st), st)"
| "txAccessTokens_call guard parent (ARevokeByJTI jti) st = apfst AErr (txAccessTokens_RevokeByJTI guard parent jti st)"
| "txAccessTokens_call guard parent (ARevokeByGrant g) st = apfst ACount (txAccessTokens_RevokeByGrant guard parent g st)"
| "txAccessTokens_call guard parent (AGC cutoff) st = apfst ACount (txAccessTokens_GC guard parent cutoff st)"

text \<open>
  The specification. \<open>W k\<close> says that a revocation by grant reaches the row \<open>k\<close> whatever its grant; it
  is false everywhere for direct calls.
\<close>

fun spec_access_call ::
  "(key \<Rightarrow> bool) \<Rightarrow> access_call \<Rightarrow> access_map \<Rightarrow> access_reply \<times> access_map" where
  "spec_access_call W (ARegister rec) M =
     (if at_JTI rec = [] then (AErr (Some err_empty_jti), M)
      else if M (at_JTI rec) \<noteq> None then (AErr (Some ErrAlreadyExists), M)
      else (AErr None, M(at_JTI rec \<mapsto> rec)))"
| "spec_access_call W (AFind jti) M = (ARecord (if jti = [] then None else M jti, None), M)"
| "spec_access_call W (ARevokeByJTI jti) M =
     (AErr None, if jti = [] then M else M(jti := map_option (\<lambda>r. r\<lparr>at_Revoked := True\<rparr>) (M jti)))"
| "spec_access_call W (ARevokeByGrant g) M =
     (if g = [] then (ACount (0, None), M)
      else (ACount (rows_count accessTokenRowOps (\<lambda>k r. at_GrantID r = g \<or> W k) M, None),
            rows_revoke accessTokenRowOps (\<lambda>k r. at_GrantID r = g \<or> W k) M))"
| "spec_access_call W (AGC cutoff) M =
     (ACount (card {k. expired_row at_ExpiresAt cutoff M k}, None), rows_expire at_ExpiresAt cutoff M)"

abbreviation access_rows_ok :: "accessTokenStore \<Rightarrow> bool" where
  "access_rows_ok s \<equiv> rows_ok accessTokenRowOps (fmlookup (ats_m s)) (ats_idx s)"

abbreviation access_covered :: "accessTokenStore \<Rightarrow> bool" where
  "access_covered s \<equiv> rows_covered accessTokenRowOps (fmlookup (ats_m s)) (ats_idx s)"

lemma accessTokenRowOps_sel [simp]:
  "ro_grantID accessTokenRowOps = at_GrantID" "ro_clientID accessTokenRowOps = at_ClientID"
  "ro_expiresAt accessTokenRowOps = at_ExpiresAt" "ro_revoked accessTokenRowOps = at_Revoked"
  "ro_setRevoked accessTokenRowOps r = r\<lparr>at_Revoked := True\<rparr>"
  by (simp_all add: accessTokenRowOps_def)

lemma matchAnyToken_True [simp]: "matchAnyToken r"
  by (simp add: matchAnyToken_def)

interpretation access_rows: token_rows accessTokenRowOps
  by unfold_locales simp_all


section \<open>Direct calls\<close>

lemma access_RevokeByJTI_rows:
  "fmlookup (ats_m (snd (accessTokenStore_RevokeByJTI jti s))) =
     (if jti = [] then fmlookup (ats_m s)
      else (fmlookup (ats_m s))(jti := map_option (\<lambda>r. r\<lparr>at_Revoked := True\<rparr>) (fmlookup (ats_m s) jti)))"
  "ats_idx (snd (accessTokenStore_RevokeByJTI jti s)) = ats_idx s"
  "fst (accessTokenStore_RevokeByJTI jti s) = None"
  by (auto simp: accessTokenStore_RevokeByJTI_def fun_eq_iff split: option.split)

lemma access_call_refines:
  assumes "access_rows_ok s"
  shows "spec_access_call (\<lambda>_. False) c (fmlookup (ats_m s)) =
     (fst (accessTokenStore_call c s), fmlookup (ats_m (snd (accessTokenStore_call c s))))"
proof (cases c)
  case (ARegister rec)
  then show ?thesis
    by (auto simp: accessTokenStore_Register_def fmlookup_fmupd_fun)
next
  case (AFind jti)
  then show ?thesis by (simp add: accessTokenStore_Find_def)
next
  case (ARevokeByJTI jti)
  then show ?thesis by (auto simp: access_RevokeByJTI_rows)
next
  case (ARevokeByGrant g)
  then show ?thesis
    using access_rows.revokeByGrant_rows [OF assms, of g matchAnyToken]
    by (simp add: accessTokenStore_RevokeByGrant_def case_prod_beta)
next
  case (AGC cutoff)
  obtain n m idx where gc: "gcRows accessTokenRowOps (ats_m s) (ats_idx s) cutoff = (n, m, idx)"
    by (cases "gcRows accessTokenRowOps (ats_m s) (ats_idx s) cutoff") auto
  with AGC show ?thesis
    using access_rows.gcRows_rows [OF gc] access_rows.gcRows_facts(1) [OF gc]
    by (simp add: accessTokenStore_GC_def)
qed

text \<open>Every operation keeps the two indexes exact, and keeps them complete when they are only that.\<close>

lemma access_call_rows:
  "access_rows_ok s \<Longrightarrow> access_rows_ok (snd (accessTokenStore_call c s))"
  "access_covered s \<Longrightarrow> access_covered (snd (accessTokenStore_call c s))"
proof -
  have jti: "map_option f (fmlookup (ats_m (snd (accessTokenStore_RevokeByJTI jti s))) k) =
      map_option f (fmlookup (ats_m s) k)"
    if "\<And>r. f (r\<lparr>at_Revoked := True\<rparr>) = f r" for f :: "AccessTokenRecord \<Rightarrow> string" and jti k
    using that by (simp add: access_RevokeByJTI_rows option.map_comp comp_def)
  show "access_rows_ok s \<Longrightarrow> access_rows_ok (snd (accessTokenStore_call c s))"
  proof (cases c)
    case (ARevokeByJTI jti)
    assume "access_rows_ok s"
    then have "rows_ok accessTokenRowOps (fmlookup (ats_m (snd (accessTokenStore_RevokeByJTI jti s)))) (ats_idx s)"
      by (rule rows_ok_same) (simp_all add: jti)
    with ARevokeByJTI show ?thesis by (simp add: access_RevokeByJTI_rows(2))
  next
    case (AGC cutoff)
    assume "access_rows_ok s"
    then show ?thesis
      using AGC access_rows.gcRows_facts(3)
      by (fastforce simp: accessTokenStore_GC_def split: prod.split)
  qed (auto simp: accessTokenStore_Register_def fmlookup_fmupd_fun rows_ok_track
      accessTokenStore_RevokeByGrant_def case_prod_beta access_rows.rows_ok_revokeIndexed)
  show "access_covered s \<Longrightarrow> access_covered (snd (accessTokenStore_call c s))"
  proof (cases c)
    case (ARevokeByJTI jti)
    assume "access_covered s"
    then have "rows_covered accessTokenRowOps (fmlookup (ats_m (snd (accessTokenStore_RevokeByJTI jti s)))) (ats_idx s)"
      by (rule rows_covered_same) (simp_all add: jti)
    with ARevokeByJTI show ?thesis by (simp add: access_RevokeByJTI_rows(2))
  next
    case (AGC cutoff)
    assume "access_covered s"
    then show ?thesis
      using AGC access_rows.gcRows_facts(4)
      by (fastforce simp: accessTokenStore_GC_def split: prod.split)
  qed (auto simp: accessTokenStore_Register_def fmlookup_fmupd_fun rows_covered_track
      accessTokenStore_RevokeByGrant_def case_prod_beta access_rows.rows_covered_revokeIndexed)
qed

lemma access_client_rows:
  "access_rows_ok s \<Longrightarrow> access_rows_ok (snd (accessTokenStore_RevokeByClient c s))"
  "access_covered s \<Longrightarrow> access_covered (snd (accessTokenStore_RevokeByClient c s))"
  by (simp_all add: accessTokenStore_RevokeByClient_def case_prod_beta
      access_rows.rows_ok_revokeIndexed access_rows.rows_covered_revokeIndexed)

lemma access_rows_ok_new: "access_rows_ok newAccessTokenStore"
  by (simp add: newAccessTokenStore_def rows_ok_new)

interpretation access_direct: simulation access_rows_ok "\<lambda>s. fmlookup (ats_m s)"
  accessTokenStore_call "spec_access_call (\<lambda>_. False)"
  by unfold_locales (simp_all add: access_call_refines access_call_rows)


section \<open>Transactions\<close>

abbreviation access_view :: "accessTokenStore \<Rightarrow> AccessTokenRecord overlay \<Rightarrow> access_map" where
  "access_view parent st \<equiv> overlay_lookup (ats_m parent) st"

lemma tx_access_call_refines:
  assumes "access_rows_ok parent"
  shows "spec_access_call (\<lambda>k. fmlookup (ov_written st) k \<noteq> None) c (access_view parent st) =
     (fst (txAccessTokens_call None parent c st), access_view parent (snd (txAccessTokens_call None parent c st)))"
proof (cases c)
  case (ARegister rec)
  then show ?thesis by (auto simp: txAccessTokens_Register_def)
next
  case (AFind jti)
  then show ?thesis by (simp add: txAccessTokens_Find_def)
next
  case (ARevokeByJTI jti)
  then show ?thesis
    by (cases "access_view parent st jti") (auto simp: txAccessTokens_RevokeByJTI_def fun_eq_iff)
next
  case (ARevokeByGrant g)
  obtain n st' where rev: "revokeStaged accessTokenRowOps (ats_m parent) st
      (gm_set (ti_byGrant (ats_idx parent)) g) matchAnyToken = (n, st')"
    by fastforce
  show ?thesis
  proof (cases "g = []")
    case False
    with ARevokeByGrant rev show ?thesis
      using access_rows.revokeStaged_rows [OF assms False rev]
      by (simp add: txAccessTokens_RevokeByGrant_def)
  qed (simp add: ARevokeByGrant txAccessTokens_RevokeByGrant_def)
next
  case (AGC cutoff)
  then show ?thesis
    by (simp add: txAccessTokens_GC_def case_prod_beta overlay_gc_view overlay_gc_count rows_expire_def fun_eq_iff)
qed

lemma access_flush_view:
  "fmlookup (ats_m (accessTokenStore_overlay_flush st parent)) = access_view parent st"
  using overlay_flush_view [of "tokenRowOps_track accessTokenRowOps" "tokenRowOps_untrack accessTokenRowOps"
      st "ats_m parent" "ats_idx parent"]
  by (simp add: accessTokenStore_overlay_flush_def case_prod_beta)

lemma access_flush_covered:
  "access_covered parent \<Longrightarrow> access_covered (accessTokenStore_overlay_flush st parent)"
  using flush_rows(1)
  by (fastforce simp: accessTokenStore_overlay_flush_def split: prod.split)

text \<open>
  The registry as it is used: direct calls, the client cascade, and transactions that run a sequence
  of calls on a fresh overlay and commit. A rolled back transaction changes nothing.
\<close>

inductive access_step :: "accessTokenStore \<Rightarrow> accessTokenStore \<Rightarrow> bool" where
  astep_direct: "access_step s (snd (accessTokenStore_call c s))"
| astep_client: "access_step s (snd (accessTokenStore_RevokeByClient c s))"
| astep_commit: "access_step s (accessTokenStore_overlay_flush
      (snd (run_calls (txAccessTokens_call None s) cs newOverlay)) s)"

lemma access_reachable_covered:
  "access_step\<^sup>*\<^sup>* newAccessTokenStore s \<Longrightarrow> access_covered s"
proof (induction rule: rtranclp_induct)
  case base
  show ?case by (rule rows_ok_covered [OF access_rows_ok_new])
next
  case (step s s')
  from step.hyps(2) step.IH show ?case
    by (induction rule: access_step.induct)
       (simp_all add: access_call_rows access_client_rows access_flush_covered)
qed

lemma access_RevokeByGrant_revokes:
  assumes "access_covered s" and "g \<noteq> []"
    and "fmlookup (ats_m (snd (accessTokenStore_RevokeByGrant g s))) k = Some r" and "at_GrantID r = g"
  shows "at_Revoked r"
proof -
  from assms(2,3) have "fmlookup (snd (revokeIndexed accessTokenRowOps (ats_m s)
      (gm_set (ti_byGrant (ats_idx s)) g) matchAnyToken)) k = Some r"
    by (simp add: accessTokenStore_RevokeByGrant_def case_prod_beta)
  then obtain r0 where "fmlookup (ats_m s) k = Some r0" and "at_GrantID r0 = at_GrantID r"
    and "k |\<in>| gm_set (ti_byGrant (ats_idx s)) g \<Longrightarrow> at_Revoked r"
    by (rule access_rows.revokeIndexed_revokes) (auto simp: matchAnyToken_def fun_eq_iff)
  then show ?thesis
    using rows_covered_grant [OF assms(1), of k r0 g] assms(2,4) by simp
qed

lemma access_RevokeByClient_revokes:
  assumes "access_covered s" and "c \<noteq> []"
    and "fmlookup (ats_m (snd (accessTokenStore_RevokeByClient c s))) k = Some r" and "at_ClientID r = c"
  shows "at_Revoked r"
proof -
  from assms(2,3) have "fmlookup (snd (revokeIndexed accessTokenRowOps (ats_m s)
      (gm_set (ti_byClient (ats_idx s)) c) matchAnyToken)) k = Some r"
    by (simp add: accessTokenStore_RevokeByClient_def case_prod_beta)
  then obtain r0 where "fmlookup (ats_m s) k = Some r0" and "at_ClientID r0 = at_ClientID r"
    and "k |\<in>| gm_set (ti_byClient (ats_idx s)) c \<Longrightarrow> at_Revoked r"
    by (rule access_rows.revokeIndexed_revokes) (auto simp: matchAnyToken_def fun_eq_iff)
  then show ?thesis
    using rows_covered_client [OF assms(1), of k r0 c] assms(2,4) by simp
qed


section \<open>The properties of the registry\<close>

abbreviation access_after :: "access_call list \<Rightarrow> accessTokenStore" where
  "access_after cs \<equiv> snd (run_calls accessTokenStore_call cs newAccessTokenStore)"

text \<open>
  The registry implements its abstract map: from the empty store, every sequence of direct
  calls gets the replies the map gives, \<^verbatim>\<open>RevokeByGrant\<close> flipping and counting exactly the live rows
  of the grant and \<^verbatim>\<open>GC\<close> dropping exactly the expired ones, and leaves the rows the map holds.
\<close>

theorem access_registry_refines:
  "run_calls (spec_access_call (\<lambda>_. False)) cs (\<lambda>_. None) =
     (fst (run_calls accessTokenStore_call cs newAccessTokenStore),
      fmlookup (ats_m (snd (run_calls accessTokenStore_call cs newAccessTokenStore))))"
  using access_direct.run_sim [OF access_rows_ok_new, of cs]
  by (simp add: newAccessTokenStore_def fmempty_lookup [abs_def])

text \<open>
  Inside a transaction on a registry that direct calls have built, every call answers as the
  abstract map on the rows the transaction sees, with one difference: \<^verbatim>\<open>RevokeByGrant\<close> flips, besides
  the live rows of the grant, every live row the transaction has written, whatever its grant. The
  commit makes the committed rows exactly those the transaction saw.
\<close>

theorem access_tx_refines:
  "spec_access_call (\<lambda>k. fmlookup (ov_written st) k \<noteq> None) c (access_view (access_after cs) st) =
     (fst (txAccessTokens_call None (access_after cs) c st),
      access_view (access_after cs) (snd (txAccessTokens_call None (access_after cs) c st)))
   \<and> fmlookup (ats_m (accessTokenStore_overlay_flush st (access_after cs))) = access_view (access_after cs) st"
  using tx_access_call_refines [OF access_direct.run_inv [OF access_rows_ok_new, of cs], of st c]
  by (simp add: access_flush_view)

text \<open>
  No access token escapes a cascade: in every state that direct calls, client cascades and
  committed transactions can reach, after \<^verbatim>\<open>RevokeByGrant\<close> every row of the grant is revoked and
  after \<^verbatim>\<open>RevokeByClient\<close> every row of the client is.
\<close>

theorem access_cascade_complete:
  assumes "access_step\<^sup>*\<^sup>* newAccessTokenStore s"
  shows "(g \<noteq> [] \<longrightarrow> fst (accessTokenStore_Find j (snd (accessTokenStore_RevokeByGrant g s))) = Some r \<longrightarrow>
            at_GrantID r = g \<longrightarrow> at_Revoked r)
       \<and> (c \<noteq> [] \<longrightarrow> fst (accessTokenStore_Find j (snd (accessTokenStore_RevokeByClient c s))) = Some r \<longrightarrow>
            at_ClientID r = c \<longrightarrow> at_Revoked r)"
  using access_RevokeByGrant_revokes [OF access_reachable_covered [OF assms], of g j r]
    access_RevokeByClient_revokes [OF access_reachable_covered [OF assms], of c j r]
  by (simp add: accessTokenStore_Find_def)

definition sample_token :: "string \<Rightarrow> string \<Rightarrow> time \<Rightarrow> AccessTokenRecord" where
  "sample_token jti grant expires =
     \<lparr>at_JTI = jti, at_GrantID = grant, at_Subject = ''alice'', at_ClientID = ''app'',
      at_Scopes = [''openid''], at_IssuedAt = 10, at_ExpiresAt = expires, at_Revoked = False\<rparr>"

definition sample_registry :: accessTokenStore where
  "sample_registry = snd (accessTokenStore_Register (sample_token ''t1'' ''g1'' 100) newAccessTokenStore)"

lemma sorted_list_of_fset_single [simp]: "sorted_list_of_fset {|x|} = [x]"
  by (simp add: sorted_list_of_fset.rep_eq)

lemmas sample_registry_eval = sample_registry_def accessTokenStore_Register_def
  newAccessTokenStore_def newTokenIndex_def tokenRowOps_track_def refreshIndex_add_def sample_token_def

theorem access_cascade_complete_witness:
  "access_step\<^sup>*\<^sup>* newAccessTokenStore sample_registry \<and>
   (\<exists>r. fst (accessTokenStore_Find ''t1'' (snd (accessTokenStore_RevokeByGrant ''g1'' sample_registry))) = Some r \<and>
        at_GrantID r = ''g1'' \<and> at_Revoked r)"
proof -
  have reach: "access_step\<^sup>*\<^sup>* newAccessTokenStore sample_registry"
    using astep_direct [of newAccessTokenStore "ARegister (sample_token ''t1'' ''g1'' 100)"]
    by (simp add: sample_registry_def r_into_rtranclp)
  let ?s = "snd (accessTokenStore_RevokeByGrant ''g1'' sample_registry)"
  let ?r = "(sample_token ''t1'' ''g1'' 100)\<lparr>at_Revoked := True\<rparr>"
  have "fst (accessTokenStore_Find ''t1'' ?s) = Some ?r"
    by (simp add: sample_registry_eval accessTokenStore_RevokeByGrant_def revokeIndexed_def
        accessTokenStore_Find_def)
  with access_cascade_complete [OF reach, of "''g1''" "''t1''" ?r "''app''"] reach show ?thesis
    by (auto simp: sample_token_def)
qed

text \<open>
  What the transactional \<^verbatim>\<open>RevokeByGrant\<close> does beyond its grant: a token registered under \<open>g2\<close> in a
  transaction is revoked by a cascade on \<open>g1\<close> in the same transaction.
\<close>

lemma access_tx_revokes_other_grant:
  "let st = snd (txAccessTokens_Register None newAccessTokenStore (sample_token ''t2'' ''g2'' 100) newOverlay);
       st = snd (txAccessTokens_RevokeByGrant None newAccessTokenStore ''g1'' st)
   in fst (txAccessTokens_Find None newAccessTokenStore ''t2'' st) =
        Some ((sample_token ''t2'' ''g2'' 100)\<lparr>at_Revoked := True\<rparr>)"
  by (simp add: txAccessTokens_Register_def txAccessTokens_RevokeByGrant_def txAccessTokens_Find_def
      newAccessTokenStore_def newTokenIndex_def sample_token_def revokeStaged_def overlay_stage_def
      newOverlay_def overlay_lookup_def)

text \<open>
  A transaction that reclaims an expired row and registers its JTI anew under another grant leaves
  the old index entry behind, so that a later direct cascade on the old grant revokes the new token.
\<close>

lemma access_stale_index_revokes_other_grant:
  "let st = snd (txAccessTokens_GC None sample_registry 200 newOverlay);
       st = snd (txAccessTokens_Register None sample_registry (sample_token ''t1'' ''g2'' 300) st);
       s = accessTokenStore_overlay_flush st sample_registry
   in fst (accessTokenStore_Find ''t1'' (snd (accessTokenStore_RevokeByGrant ''g1'' s))) =
        Some ((sample_token ''t1'' ''g2'' 300)\<lparr>at_Revoked := True\<rparr>)"
  by (simp add: sample_registry_eval txAccessTokens_GC_def overlay_gc_def overlay_iter_def
      newOverlay_def txAccessTokens_Register_def overlay_lookup_def overlay_drop_def overlay_stage_def
      accessTokenStore_overlay_flush_def overlay_flushLocked_def accessTokenStore_RevokeByGrant_def
      revokeIndexed_def accessTokenStore_Find_def IsExpiredStrict_def)

end
