(* ===== verification/OpaqueTokens.thy ===== *)
theory OpaqueTokens
  imports AccessTokens
begin

text \<open>
  The opaque access-token store, \<^verbatim>\<open>inmem/opaque_access_tokens.go\<close> and its staging in
  \<^verbatim>\<open>inmem/tx_aux.go\<close>: the row machinery of the JWT registry with hash-on-store on top. The raw
  bearer secret is never kept: a row is filed under the digest of the identifier and carries the
  digest in place of it; \<^verbatim>\<open>Find\<close> puts the presented identifier back.
\<close>

record OpaqueAccessToken =
  oa_ID :: string
  oa_GrantID :: string
  oa_Subject :: string
  oa_ClientID :: string
  oa_Scope :: "string list"
  oa_Audience :: string
  oa_ACR :: string
  oa_AMR :: "string list"
  oa_AuthTime :: time
  oa_AuthorizationDetails :: "jobject list"
  oa_Claims :: jobject
  oa_AuthorizationRecorded :: bool
  oa_DPoPJKT :: string
  oa_MTLSCertThumbprint :: string
  oa_ChainID :: string
  oa_IssuedAt :: time
  oa_ExpiresAt :: time
  oa_Revoked :: bool

record opaqueAccessTokenStore =
  oas_m :: "OpaqueAccessToken gomap"
  oas_idx :: tokenIndex

definition newOpaqueAccessTokenStore :: opaqueAccessTokenStore where
  "newOpaqueAccessTokenStore = \<lparr>oas_m = fmempty, oas_idx = newTokenIndex\<rparr>"

definition opaqueTokenRowOps :: "OpaqueAccessToken tokenRowOps" where
  "opaqueTokenRowOps =
     \<lparr>ro_grantID = oa_GrantID, ro_clientID = oa_ClientID, ro_expiresAt = oa_ExpiresAt,
      ro_revoked = oa_Revoked, ro_setRevoked = (\<lambda>r. r\<lparr>oa_Revoked := True\<rparr>)\<rparr>"

definition matchChain :: "string \<Rightarrow> OpaqueAccessToken \<Rightarrow> bool" where
  "matchChain chainID r \<longleftrightarrow> oa_ChainID r = chainID"

definition err_nil_opaque :: store_err where
  "err_nil_opaque = ErrOther ''inmem: nil opaque access token''"

definition err_empty_opaque :: store_err where
  "err_empty_opaque = ErrOther ''inmem: OpaqueAccessToken requires a non-empty ID''"

definition opaqueAccessTokenStore_Save ::
  "OpaqueAccessToken option \<Rightarrow> opaqueAccessTokenStore \<Rightarrow> store_err option \<times> opaqueAccessTokenStore" where
  "opaqueAccessTokenStore_Save tok s =
     (case tok of
        None \<Rightarrow> (Some err_nil_opaque, s)
      | Some t \<Rightarrow>
          if oa_ID t = [] then (Some err_empty_opaque, s)
          else
            let key = hashKey (oa_ID t)
            in if fmlookup (oas_m s) key \<noteq> None then (Some ErrAlreadyExists, s)
               else
                 let stored = t\<lparr>oa_ID := key\<rparr>
                 in (None, s\<lparr>oas_m := fmupd key stored (oas_m s),
                             oas_idx := tokenRowOps_track opaqueTokenRowOps key stored (oas_idx s)\<rparr>))"

definition opaqueAccessTokenStore_Find ::
  "string \<Rightarrow> opaqueAccessTokenStore \<Rightarrow> OpaqueAccessToken option \<times> store_err option" where
  "opaqueAccessTokenStore_Find i s =
     (if i = [] then (None, Some ErrNotFound)
      else
        let key = hashKey i
        in case fmlookup (oas_m s) key of
             None \<Rightarrow> (None, Some ErrNotFound)
           | Some rec \<Rightarrow>
               if \<not> constantTimeKeyMatch (oa_ID rec) key then (None, Some ErrNotFound)
               else (Some (rec\<lparr>oa_ID := i\<rparr>), None))"

definition opaqueAccessTokenStore_RevokeByID ::
  "string \<Rightarrow> opaqueAccessTokenStore \<Rightarrow> store_err option \<times> opaqueAccessTokenStore" where
  "opaqueAccessTokenStore_RevokeByID i s =
     (if i = [] then (None, s)
      else
        let key = hashKey i
        in case fmlookup (oas_m s) key of
             None \<Rightarrow> (None, s)
           | Some rec \<Rightarrow> (None, s\<lparr>oas_m := fmupd key (rec\<lparr>oa_Revoked := True\<rparr>) (oas_m s)\<rparr>))"

definition opaqueAccessTokenStore_RevokeByGrant ::
  "string \<Rightarrow> opaqueAccessTokenStore \<Rightarrow> (nat \<times> store_err option) \<times> opaqueAccessTokenStore" where
  "opaqueAccessTokenStore_RevokeByGrant grantID s =
     (if grantID = [] then ((0, None), s)
      else
        (case revokeIndexed opaqueTokenRowOps (oas_m s) (gm_set (ti_byGrant (oas_idx s)) grantID)
                matchAnyToken of
           (n, m) \<Rightarrow> ((n, None), s\<lparr>oas_m := m\<rparr>)))"

definition opaqueAccessTokenStore_RevokeByChain ::
  "string \<Rightarrow> string \<Rightarrow> opaqueAccessTokenStore \<Rightarrow> (nat \<times> store_err option) \<times> opaqueAccessTokenStore" where
  "opaqueAccessTokenStore_RevokeByChain grantID chainID s =
     (if grantID = [] \<or> chainID = [] then ((0, None), s)
      else
        (case revokeIndexed opaqueTokenRowOps (oas_m s) (gm_set (ti_byGrant (oas_idx s)) grantID)
                (matchChain chainID) of
           (n, m) \<Rightarrow> ((n, None), s\<lparr>oas_m := m\<rparr>)))"

definition opaqueAccessTokenStore_RevokeByClient ::
  "string \<Rightarrow> opaqueAccessTokenStore \<Rightarrow> store_err option \<times> opaqueAccessTokenStore" where
  "opaqueAccessTokenStore_RevokeByClient clientID s =
     (if clientID = [] then (None, s)
      else
        (case revokeIndexed opaqueTokenRowOps (oas_m s) (gm_set (ti_byClient (oas_idx s)) clientID)
                matchAnyToken of
           (n, m) \<Rightarrow> (None, s\<lparr>oas_m := m\<rparr>)))"

definition opaqueAccessTokenStore_GC ::
  "time \<Rightarrow> opaqueAccessTokenStore \<Rightarrow> (nat \<times> store_err option) \<times> opaqueAccessTokenStore" where
  "opaqueAccessTokenStore_GC cutoff s =
     (case gcRows opaqueTokenRowOps (oas_m s) (oas_idx s) cutoff of
        (n, m, idx) \<Rightarrow> ((n, None), s\<lparr>oas_m := m, oas_idx := idx\<rparr>))"


section \<open>The staged store\<close>

definition txOpaqueAccessTokens_Save ::
  "store_err option \<Rightarrow> opaqueAccessTokenStore \<Rightarrow> OpaqueAccessToken option \<Rightarrow> OpaqueAccessToken overlay \<Rightarrow>
     store_err option \<times> OpaqueAccessToken overlay" where
  "txOpaqueAccessTokens_Save guard parent tok st =
     (case guard of
        Some e \<Rightarrow> (Some e, st)
      | None \<Rightarrow>
          (case tok of
             None \<Rightarrow> (Some err_nil_opaque, st)
           | Some t \<Rightarrow>
               if oa_ID t = [] then (Some err_empty_opaque, st)
               else
                 let key = hashKey (oa_ID t)
                 in if overlay_lookup (oas_m parent) st key \<noteq> None then (Some ErrAlreadyExists, st)
                    else (None, overlay_stage key (t\<lparr>oa_ID := key\<rparr>) st)))"

definition txOpaqueAccessTokens_Find ::
  "store_err option \<Rightarrow> opaqueAccessTokenStore \<Rightarrow> string \<Rightarrow> OpaqueAccessToken overlay \<Rightarrow>
     OpaqueAccessToken option \<times> store_err option" where
  "txOpaqueAccessTokens_Find guard parent i st =
     (case guard of
        Some e \<Rightarrow> (None, Some e)
      | None \<Rightarrow>
          if i = [] then (None, Some ErrNotFound)
          else
            let key = hashKey i
            in case overlay_lookup (oas_m parent) st key of
                 None \<Rightarrow> (None, Some ErrNotFound)
               | Some rec \<Rightarrow>
                   if \<not> constantTimeKeyMatch (oa_ID rec) key then (None, Some ErrNotFound)
                   else (Some (rec\<lparr>oa_ID := i\<rparr>), None))"

definition txOpaqueAccessTokens_RevokeByID ::
  "store_err option \<Rightarrow> opaqueAccessTokenStore \<Rightarrow> string \<Rightarrow> OpaqueAccessToken overlay \<Rightarrow>
     store_err option \<times> OpaqueAccessToken overlay" where
  "txOpaqueAccessTokens_RevokeByID guard parent i st =
     (case guard of
        Some e \<Rightarrow> (Some e, st)
      | None \<Rightarrow>
          if i = [] then (None, st)
          else
            let key = hashKey i
            in case overlay_lookup (oas_m parent) st key of
                 None \<Rightarrow> (None, st)
               | Some rec \<Rightarrow> (None, overlay_stage key (rec\<lparr>oa_Revoked := True\<rparr>) st))"

definition txOpaqueAccessTokens_RevokeByGrant ::
  "store_err option \<Rightarrow> opaqueAccessTokenStore \<Rightarrow> string \<Rightarrow> OpaqueAccessToken overlay \<Rightarrow>
     (nat \<times> store_err option) \<times> OpaqueAccessToken overlay" where
  "txOpaqueAccessTokens_RevokeByGrant guard parent grantID st =
     (case guard of
        Some e \<Rightarrow> ((0, Some e), st)
      | None \<Rightarrow>
          if grantID = [] then ((0, None), st)
          else
            (case revokeStaged opaqueTokenRowOps (oas_m parent) st
                    (gm_set (ti_byGrant (oas_idx parent)) grantID) matchAnyToken of
               (n, st) \<Rightarrow> ((n, None), st)))"

definition txOpaqueAccessTokens_RevokeByChain ::
  "store_err option \<Rightarrow> opaqueAccessTokenStore \<Rightarrow> string \<Rightarrow> string \<Rightarrow> OpaqueAccessToken overlay \<Rightarrow>
     (nat \<times> store_err option) \<times> OpaqueAccessToken overlay" where
  "txOpaqueAccessTokens_RevokeByChain guard parent grantID chainID st =
     (case guard of
        Some e \<Rightarrow> ((0, Some e), st)
      | None \<Rightarrow>
          if grantID = [] \<or> chainID = [] then ((0, None), st)
          else
            (case revokeStaged opaqueTokenRowOps (oas_m parent) st
                    (gm_set (ti_byGrant (oas_idx parent)) grantID) (matchChain chainID) of
               (n, st) \<Rightarrow> ((n, None), st)))"

definition txOpaqueAccessTokens_GC ::
  "store_err option \<Rightarrow> opaqueAccessTokenStore \<Rightarrow> time \<Rightarrow> OpaqueAccessToken overlay \<Rightarrow>
     (nat \<times> store_err option) \<times> OpaqueAccessToken overlay" where
  "txOpaqueAccessTokens_GC guard parent cutoff st =
     (case guard of
        Some e \<Rightarrow> ((0, Some e), st)
      | None \<Rightarrow>
          (case overlay_gc oa_ExpiresAt (oas_m parent) cutoff st of (st, n) \<Rightarrow> ((n, None), st)))"

definition opaqueAccessTokenStore_overlay_flush ::
  "OpaqueAccessToken overlay \<Rightarrow> opaqueAccessTokenStore \<Rightarrow> opaqueAccessTokenStore" where
  "opaqueAccessTokenStore_overlay_flush st s =
     (case overlay_flushLocked (tokenRowOps_track opaqueTokenRowOps)
             (tokenRowOps_untrack opaqueTokenRowOps) st (oas_m s, oas_idx s) of
        (m, idx) \<Rightarrow> s\<lparr>oas_m := m, oas_idx := idx\<rparr>)"


section \<open>The abstract store\<close>

type_synonym opaque_map = "key \<Rightarrow> OpaqueAccessToken option"

datatype opaque_call =
    OSave "OpaqueAccessToken option"
  | OFind string
  | ORevokeByID string
  | ORevokeByGrant string
  | ORevokeByChain string string
  | OGC time

datatype opaque_reply =
    OErr "store_err option"
  | ORecord "OpaqueAccessToken option \<times> store_err option"
  | OCount "nat \<times> store_err option"

fun opaqueAccessTokenStore_call ::
  "opaque_call \<Rightarrow> opaqueAccessTokenStore \<Rightarrow> opaque_reply \<times> opaqueAccessTokenStore" where
  "opaqueAccessTokenStore_call (OSave tok) s = apfst OErr (opaqueAccessTokenStore_Save tok s)"
| "opaqueAccessTokenStore_call (OFind i) s = (ORecord (opaqueAccessTokenStore_Find i s), s)"
| "opaqueAccessTokenStore_call (ORevokeByID i) s = apfst OErr (opaqueAccessTokenStore_RevokeByID i s)"
| "opaqueAccessTokenStore_call (ORevokeByGrant g) s = apfst OCount (opaqueAccessTokenStore_RevokeByGrant g s)"
| "opaqueAccessTokenStore_call (ORevokeByChain g c) s = apfst OCount (opaqueAccessTokenStore_RevokeByChain g c s)"
| "opaqueAccessTokenStore_call (OGC cutoff) s = apfst OCount (opaqueAccessTokenStore_GC cutoff s)"

fun txOpaqueAccessTokens_call ::
  "store_err option \<Rightarrow> opaqueAccessTokenStore \<Rightarrow> opaque_call \<Rightarrow> OpaqueAccessToken overlay \<Rightarrow>
     opaque_reply \<times> OpaqueAccessToken overlay" where
  "txOpaqueAccessTokens_call guard parent (OSave tok) st = apfst OErr (txOpaqueAccessTokens_Save guard parent tok st)"
| "txOpaqueAccessTokens_call guard parent (OFind i) st = (ORecord (txOpaqueAccessTokens_Find guard parent i st), st)"
| "txOpaqueAccessTokens_call guard parent (ORevokeByID i) st = apfst OErr (txOpaqueAccessTokens_RevokeByID guard parent i st)"
| "txOpaqueAccessTokens_call guard parent (ORevokeByGrant g) st = apfst OCount (txOpaqueAccessTokens_RevokeByGrant guard parent g st)"
| "txOpaqueAccessTokens_call guard parent (ORevokeByChain g c) st = apfst OCount (txOpaqueAccessTokens_RevokeByChain guard parent g c st)"
| "txOpaqueAccessTokens_call guard parent (OGC cutoff) st = apfst OCount (txOpaqueAccessTokens_GC guard parent cutoff st)"

fun spec_opaque_call ::
  "(key \<Rightarrow> bool) \<Rightarrow> opaque_call \<Rightarrow> opaque_map \<Rightarrow> opaque_reply \<times> opaque_map" where
  "spec_opaque_call W (OSave None) M = (OErr (Some err_nil_opaque), M)"
| "spec_opaque_call W (OSave (Some t)) M =
     (if oa_ID t = [] then (OErr (Some err_empty_opaque), M)
      else if M (hashKey (oa_ID t)) \<noteq> None then (OErr (Some ErrAlreadyExists), M)
      else (OErr None, M(hashKey (oa_ID t) \<mapsto> t\<lparr>oa_ID := hashKey (oa_ID t)\<rparr>)))"
| "spec_opaque_call W (OFind i) M =
     (ORecord (case if i = [] then None else M (hashKey i) of
                 None \<Rightarrow> (None, Some ErrNotFound)
               | Some r \<Rightarrow> (Some (r\<lparr>oa_ID := i\<rparr>), None)), M)"
| "spec_opaque_call W (ORevokeByID i) M =
     (OErr None, if i = [] then M
                 else M(hashKey i := map_option (\<lambda>r. r\<lparr>oa_Revoked := True\<rparr>) (M (hashKey i))))"
| "spec_opaque_call W (ORevokeByGrant g) M =
     (if g = [] then (OCount (0, None), M)
      else (OCount (rows_count opaqueTokenRowOps (\<lambda>k r. oa_GrantID r = g \<or> W k) M, None),
            rows_revoke opaqueTokenRowOps (\<lambda>k r. oa_GrantID r = g \<or> W k) M))"
| "spec_opaque_call W (ORevokeByChain g c) M =
     (if g = [] \<or> c = [] then (OCount (0, None), M)
      else (OCount (rows_count opaqueTokenRowOps (\<lambda>k r. (oa_GrantID r = g \<or> W k) \<and> oa_ChainID r = c) M, None),
            rows_revoke opaqueTokenRowOps (\<lambda>k r. (oa_GrantID r = g \<or> W k) \<and> oa_ChainID r = c) M))"
| "spec_opaque_call W (OGC cutoff) M =
     (OCount (card {k. expired_row oa_ExpiresAt cutoff M k}, None), rows_expire oa_ExpiresAt cutoff M)"

text \<open>Every row carries its key, a digest, in place of the bearer secret.\<close>

definition opaque_keyed :: "opaque_map \<Rightarrow> bool" where
  "opaque_keyed M \<longleftrightarrow> (\<forall>k r. M k = Some r \<longrightarrow> oa_ID r = k \<and> (\<exists>i. k = hashKey i))"

abbreviation opaque_rows_ok :: "opaqueAccessTokenStore \<Rightarrow> bool" where
  "opaque_rows_ok s \<equiv> rows_ok opaqueTokenRowOps (fmlookup (oas_m s)) (oas_idx s)"

abbreviation opaque_covered :: "opaqueAccessTokenStore \<Rightarrow> bool" where
  "opaque_covered s \<equiv> rows_covered opaqueTokenRowOps (fmlookup (oas_m s)) (oas_idx s)"

lemma opaqueTokenRowOps_sel [simp]:
  "ro_grantID opaqueTokenRowOps = oa_GrantID" "ro_clientID opaqueTokenRowOps = oa_ClientID"
  "ro_expiresAt opaqueTokenRowOps = oa_ExpiresAt" "ro_revoked opaqueTokenRowOps = oa_Revoked"
  "ro_setRevoked opaqueTokenRowOps r = r\<lparr>oa_Revoked := True\<rparr>"
  by (simp_all add: opaqueTokenRowOps_def)

interpretation opaque_rows: token_rows opaqueTokenRowOps
  by unfold_locales simp_all

lemma opaque_keyed_empty [simp]: "opaque_keyed (\<lambda>_. None)"
  by (simp add: opaque_keyed_def)

lemma opaque_keyed_upd: "opaque_keyed M \<Longrightarrow> opaque_keyed (M(hashKey i \<mapsto> r\<lparr>oa_ID := hashKey i\<rparr>))"
  unfolding opaque_keyed_def by auto

lemma opaque_keyed_sub:
  assumes "opaque_keyed M" and "\<And>k r. N k = Some r \<Longrightarrow> \<exists>r0. M k = Some r0 \<and> oa_ID r0 = oa_ID r"
  shows "opaque_keyed N"
  using assms unfolding opaque_keyed_def by metis

lemma opaque_keyed_rows:
  assumes "opaque_keyed M"
  shows "opaque_keyed (rows_revoke opaqueTokenRowOps P M)" and "opaque_keyed (rows_expire ex c M)"
    and "opaque_keyed (M(k := map_option (\<lambda>r. r\<lparr>oa_Revoked := True\<rparr>) (M k)))"
  by (rule opaque_keyed_sub [OF assms], auto simp: rows_revoke_def rows_expire_def split: if_splits)+

lemma opaque_keyed_spec: "opaque_keyed M \<Longrightarrow> opaque_keyed (snd (spec_opaque_call W c M))"
  by (induction W c M rule: spec_opaque_call.induct) (simp_all add: opaque_keyed_upd opaque_keyed_rows)


section \<open>Direct calls\<close>

lemma opaque_RevokeByID_rows:
  "fmlookup (oas_m (snd (opaqueAccessTokenStore_RevokeByID i s))) =
     (if i = [] then fmlookup (oas_m s)
      else (fmlookup (oas_m s))(hashKey i :=
             map_option (\<lambda>r. r\<lparr>oa_Revoked := True\<rparr>) (fmlookup (oas_m s) (hashKey i))))"
  "oas_idx (snd (opaqueAccessTokenStore_RevokeByID i s)) = oas_idx s"
  "fst (opaqueAccessTokenStore_RevokeByID i s) = None"
  by (auto simp: opaqueAccessTokenStore_RevokeByID_def fun_eq_iff Let_def split: option.split)

lemma opaque_call_refines:
  assumes "opaque_rows_ok s" and "opaque_keyed (fmlookup (oas_m s))"
  shows "spec_opaque_call (\<lambda>_. False) c (fmlookup (oas_m s)) =
     (fst (opaqueAccessTokenStore_call c s), fmlookup (oas_m (snd (opaqueAccessTokenStore_call c s))))"
proof (cases c)
  case (OSave tok)
  then show ?thesis
    by (cases tok) (auto simp: opaqueAccessTokenStore_Save_def fmlookup_fmupd_fun Let_def)
next
  case (OFind i)
  with assms(2) show ?thesis
    by (cases "fmlookup (oas_m s) (hashKey i)")
       (auto simp: opaqueAccessTokenStore_Find_def opaque_keyed_def constantTimeKeyMatch_iff Let_def)
next
  case (ORevokeByID i)
  then show ?thesis by (auto simp: opaque_RevokeByID_rows)
next
  case (ORevokeByGrant g)
  then show ?thesis
    using opaque_rows.revokeByGrant_rows [OF assms(1), of g matchAnyToken]
    by (simp add: opaqueAccessTokenStore_RevokeByGrant_def case_prod_beta)
next
  case (ORevokeByChain g ch)
  then show ?thesis
    using opaque_rows.revokeByGrant_rows [OF assms(1), of g "matchChain ch"]
    by (simp add: opaqueAccessTokenStore_RevokeByChain_def case_prod_beta matchChain_def)
next
  case (OGC cutoff)
  obtain n m idx where gc: "gcRows opaqueTokenRowOps (oas_m s) (oas_idx s) cutoff = (n, m, idx)"
    by (cases "gcRows opaqueTokenRowOps (oas_m s) (oas_idx s) cutoff") auto
  with OGC show ?thesis
    using opaque_rows.gcRows_rows [OF gc] opaque_rows.gcRows_facts(1) [OF gc]
    by (simp add: opaqueAccessTokenStore_GC_def)
qed

lemma opaque_RevokeByID_attrs:
  "(\<And>r. f (r\<lparr>oa_Revoked := True\<rparr>) = f r) \<Longrightarrow>
     map_option f (fmlookup (oas_m (snd (opaqueAccessTokenStore_RevokeByID i s))) k) =
     map_option f (fmlookup (oas_m s) k)"
  by (simp add: opaque_RevokeByID_rows option.map_comp comp_def)

lemma opaque_call_rows_ok:
  assumes "opaque_rows_ok s"
  shows "opaque_rows_ok (snd (opaqueAccessTokenStore_call c s))"
proof (cases c)
  case (ORevokeByID i)
  have "rows_ok opaqueTokenRowOps (fmlookup (oas_m (snd (opaqueAccessTokenStore_RevokeByID i s)))) (oas_idx s)"
    using assms by (rule rows_ok_same) (simp_all add: opaque_RevokeByID_attrs)
  with ORevokeByID show ?thesis by (simp add: opaque_RevokeByID_rows(2))
next
  case (OGC cutoff)
  with assms show ?thesis
    using opaque_rows.gcRows_facts(3) by (fastforce simp: opaqueAccessTokenStore_GC_def split: prod.split)
next
  case (OSave tok)
  with assms show ?thesis
    by (cases tok) (auto simp: opaqueAccessTokenStore_Save_def Let_def fmlookup_fmupd_fun rows_ok_track)
qed (use assms in \<open>simp_all add: opaqueAccessTokenStore_RevokeByGrant_def
      opaqueAccessTokenStore_RevokeByChain_def case_prod_beta opaque_rows.rows_ok_revokeIndexed\<close>)

lemma opaque_call_covered:
  assumes "opaque_covered s"
  shows "opaque_covered (snd (opaqueAccessTokenStore_call c s))"
proof (cases c)
  case (ORevokeByID i)
  have "rows_covered opaqueTokenRowOps (fmlookup (oas_m (snd (opaqueAccessTokenStore_RevokeByID i s)))) (oas_idx s)"
    using assms by (rule rows_covered_same) (simp_all add: opaque_RevokeByID_attrs)
  with ORevokeByID show ?thesis by (simp add: opaque_RevokeByID_rows(2))
next
  case (OGC cutoff)
  with assms show ?thesis
    using opaque_rows.gcRows_facts(4) by (fastforce simp: opaqueAccessTokenStore_GC_def split: prod.split)
next
  case (OSave tok)
  with assms show ?thesis
    by (cases tok) (auto simp: opaqueAccessTokenStore_Save_def Let_def fmlookup_fmupd_fun rows_covered_track)
qed (use assms in \<open>simp_all add: opaqueAccessTokenStore_RevokeByGrant_def
      opaqueAccessTokenStore_RevokeByChain_def case_prod_beta opaque_rows.rows_covered_revokeIndexed\<close>)

lemma opaque_rows_ok_new: "opaque_rows_ok newOpaqueAccessTokenStore"
  by (simp add: newOpaqueAccessTokenStore_def rows_ok_new)

lemma opaque_keyed_new: "opaque_keyed (fmlookup (oas_m newOpaqueAccessTokenStore))"
  by (simp add: newOpaqueAccessTokenStore_def opaque_keyed_def)

interpretation opaque_direct: simulation "\<lambda>s. opaque_rows_ok s \<and> opaque_keyed (fmlookup (oas_m s))"
  "\<lambda>s. fmlookup (oas_m s)" opaqueAccessTokenStore_call "spec_opaque_call (\<lambda>_. False)"
proof
  fix s c
  assume ok: "opaque_rows_ok s \<and> opaque_keyed (fmlookup (oas_m s))"
  then have sim: "spec_opaque_call (\<lambda>_. False) c (fmlookup (oas_m s)) =
      (fst (opaqueAccessTokenStore_call c s), fmlookup (oas_m (snd (opaqueAccessTokenStore_call c s))))"
    by (simp add: opaque_call_refines)
  then show "fst (spec_opaque_call (\<lambda>_. False) c (fmlookup (oas_m s))) = fst (opaqueAccessTokenStore_call c s)"
    and "snd (spec_opaque_call (\<lambda>_. False) c (fmlookup (oas_m s))) =
      fmlookup (oas_m (snd (opaqueAccessTokenStore_call c s)))"
    by simp_all
  show "opaque_rows_ok (snd (opaqueAccessTokenStore_call c s)) \<and>
      opaque_keyed (fmlookup (oas_m (snd (opaqueAccessTokenStore_call c s))))"
    using ok opaque_call_rows_ok [of s c] opaque_keyed_spec [of "fmlookup (oas_m s)" "\<lambda>_. False" c] sim
    by simp
qed


section \<open>Transactions\<close>

abbreviation opaque_view :: "opaqueAccessTokenStore \<Rightarrow> OpaqueAccessToken overlay \<Rightarrow> opaque_map" where
  "opaque_view parent st \<equiv> overlay_lookup (oas_m parent) st"

lemma tx_opaque_revoke:
  assumes "opaque_rows_ok parent" and "g \<noteq> []"
  shows "fst (revokeStaged opaqueTokenRowOps (oas_m parent) st (gm_set (ti_byGrant (oas_idx parent)) g) match) =
           rows_count opaqueTokenRowOps
             (\<lambda>k r. (oa_GrantID r = g \<or> fmlookup (ov_written st) k \<noteq> None) \<and> match r) (opaque_view parent st)"
    and "opaque_view parent (snd (revokeStaged opaqueTokenRowOps (oas_m parent) st
             (gm_set (ti_byGrant (oas_idx parent)) g) match)) =
           rows_revoke opaqueTokenRowOps
             (\<lambda>k r. (oa_GrantID r = g \<or> fmlookup (ov_written st) k \<noteq> None) \<and> match r) (opaque_view parent st)"
  using opaque_rows.revokeStaged_rows [OF assms prod.collapse [symmetric], of st match] by simp_all

lemma tx_opaque_call_refines:
  assumes "opaque_rows_ok parent" and "opaque_keyed (opaque_view parent st)"
  shows "spec_opaque_call (\<lambda>k. fmlookup (ov_written st) k \<noteq> None) c (opaque_view parent st) =
     (fst (txOpaqueAccessTokens_call None parent c st),
      opaque_view parent (snd (txOpaqueAccessTokens_call None parent c st)))"
proof (cases c)
  case (OSave tok)
  then show ?thesis by (cases tok) (auto simp: txOpaqueAccessTokens_Save_def Let_def)
next
  case (OFind i)
  with assms(2) show ?thesis
    by (cases "opaque_view parent st (hashKey i)")
       (auto simp: txOpaqueAccessTokens_Find_def opaque_keyed_def constantTimeKeyMatch_iff Let_def)
next
  case (ORevokeByID i)
  then show ?thesis
    by (cases "opaque_view parent st (hashKey i)")
       (auto simp: txOpaqueAccessTokens_RevokeByID_def fun_eq_iff Let_def)
next
  case (ORevokeByGrant g)
  then show ?thesis
    using tx_opaque_revoke [OF assms(1), of g st matchAnyToken]
    by (simp add: txOpaqueAccessTokens_RevokeByGrant_def case_prod_beta)
next
  case (ORevokeByChain g ch)
  then show ?thesis
    using tx_opaque_revoke [OF assms(1), of g st "matchChain ch"]
    by (simp add: txOpaqueAccessTokens_RevokeByChain_def case_prod_beta matchChain_def)
next
  case (OGC cutoff)
  then show ?thesis
    by (simp add: txOpaqueAccessTokens_GC_def case_prod_beta overlay_gc_view overlay_gc_count rows_expire_def fun_eq_iff)
qed

lemma opaque_flush_view:
  "fmlookup (oas_m (opaqueAccessTokenStore_overlay_flush st parent)) = opaque_view parent st"
  using overlay_flush_view [of "tokenRowOps_track opaqueTokenRowOps" "tokenRowOps_untrack opaqueTokenRowOps"
      st "oas_m parent" "oas_idx parent"]
  by (simp add: opaqueAccessTokenStore_overlay_flush_def case_prod_beta)

lemma opaque_flush_covered:
  "opaque_covered parent \<Longrightarrow> opaque_covered (opaqueAccessTokenStore_overlay_flush st parent)"
  using flush_rows(1)
  by (fastforce simp: opaqueAccessTokenStore_overlay_flush_def split: prod.split)

lemma tx_opaque_keyed:
  assumes "opaque_keyed (opaque_view parent st)"
  shows "opaque_keyed (opaque_view parent (snd (txOpaqueAccessTokens_call None parent c st)))"
proof -
  have staged: "opaque_keyed (opaque_view parent (snd (revokeStaged opaqueTokenRowOps (oas_m parent) st ids match)))"
    for ids match
    by (rule opaque_keyed_sub [OF assms])
       (auto simp: opaque_rows.revokeStaged_facts(2) [OF prod.collapse [symmetric]] split: if_splits)
  show ?thesis
  proof (cases c)
    case (OSave tok)
    with assms show ?thesis
      by (cases tok) (simp_all add: txOpaqueAccessTokens_Save_def Let_def opaque_keyed_upd)
  next
    case (ORevokeByID i)
    with opaque_keyed_rows(3) [OF assms, of "hashKey i"] assms show ?thesis
      by (cases "opaque_view parent st (hashKey i)") (simp_all add: txOpaqueAccessTokens_RevokeByID_def Let_def)
  next
    case (OGC cutoff)
    have "opaque_view parent (snd (txOpaqueAccessTokens_call None parent c st)) =
        rows_expire oa_ExpiresAt cutoff (opaque_view parent st)"
      by (simp add: OGC txOpaqueAccessTokens_GC_def case_prod_beta overlay_gc_view rows_expire_def fun_eq_iff)
    with opaque_keyed_rows(2) [OF assms] show ?thesis by simp
  qed (use assms staged in \<open>simp_all add: txOpaqueAccessTokens_RevokeByGrant_def
        txOpaqueAccessTokens_RevokeByChain_def case_prod_beta\<close>)
qed

inductive opaque_step :: "opaqueAccessTokenStore \<Rightarrow> opaqueAccessTokenStore \<Rightarrow> bool" where
  ostep_direct: "opaque_step s (snd (opaqueAccessTokenStore_call c s))"
| ostep_client: "opaque_step s (snd (opaqueAccessTokenStore_RevokeByClient c s))"
| ostep_commit: "opaque_step s (opaqueAccessTokenStore_overlay_flush
      (snd (run_calls (txOpaqueAccessTokens_call None s) cs newOverlay)) s)"

lemma opaque_keyed_revokeIndexed:
  "opaque_keyed (fmlookup m) \<Longrightarrow> opaque_keyed (fmlookup (snd (revokeIndexed opaqueTokenRowOps m ids match)))"
  by (erule opaque_keyed_sub) (auto simp: opaque_rows.revokeIndexed_lookup split: if_splits)

lemma opaque_call_keyed:
  assumes "opaque_keyed (fmlookup (oas_m s))"
  shows "opaque_keyed (fmlookup (oas_m (snd (opaqueAccessTokenStore_call c s))))"
proof (cases c)
  case (OSave tok)
  with assms show ?thesis
    by (cases tok) (simp_all add: opaqueAccessTokenStore_Save_def Let_def fmlookup_fmupd_fun opaque_keyed_upd)
next
  case (ORevokeByID i)
  with assms show ?thesis
    by (simp add: opaque_RevokeByID_rows opaque_keyed_rows)
next
  case (OGC cutoff)
  obtain n m idx where gc: "gcRows opaqueTokenRowOps (oas_m s) (oas_idx s) cutoff = (n, m, idx)"
    by (cases "gcRows opaqueTokenRowOps (oas_m s) (oas_idx s) cutoff") auto
  with OGC assms show ?thesis
    by (simp add: opaqueAccessTokenStore_GC_def opaque_rows.gcRows_rows [OF gc] opaque_keyed_rows)
qed (use assms in \<open>simp_all add: opaqueAccessTokenStore_RevokeByGrant_def
      opaqueAccessTokenStore_RevokeByChain_def case_prod_beta opaque_keyed_revokeIndexed\<close>)

lemma opaque_flush_keyed:
  assumes "opaque_keyed (fmlookup (oas_m s))"
  shows "opaque_keyed (fmlookup (oas_m (opaqueAccessTokenStore_overlay_flush
           (snd (run_calls (txOpaqueAccessTokens_call None s) cs newOverlay)) s)))"
  unfolding opaque_flush_view
  by (rule run_calls_invariant [where P = "\<lambda>st. opaque_keyed (opaque_view s st)"])
     (use assms in \<open>simp_all add: tx_opaque_keyed\<close>)

lemma opaque_reachable:
  "opaque_step\<^sup>*\<^sup>* newOpaqueAccessTokenStore s \<Longrightarrow> opaque_covered s \<and> opaque_keyed (fmlookup (oas_m s))"
proof (induction rule: rtranclp_induct)
  case base
  show ?case by (simp add: rows_ok_covered [OF opaque_rows_ok_new] opaque_keyed_new)
next
  case (step s s')
  from step.hyps(2) step.IH show ?case
    by (induction rule: opaque_step.induct)
       (simp_all add: opaque_call_covered opaque_call_keyed opaque_flush_covered opaque_flush_keyed
          opaqueAccessTokenStore_RevokeByClient_def case_prod_beta
          opaque_rows.rows_covered_revokeIndexed opaque_keyed_revokeIndexed)
qed


lemma opaque_revokeIndexed_revokes:
  assumes "opaque_covered s" and "g \<noteq> []"
    and "fmlookup (snd (revokeIndexed opaqueTokenRowOps (oas_m s) (gm_set (ti_byGrant (oas_idx s)) g) match)) k = Some r"
    and "oa_GrantID r = g" and "match r" and "\<And>r. match (r\<lparr>oa_Revoked := True\<rparr>) = match r"
  shows "oa_Revoked r"
proof -
  from assms(3) obtain r0 where r0: "fmlookup (oas_m s) k = Some r0"
    by (auto simp: opaque_rows.revokeIndexed_lookup split: if_splits)
  with assms(3,4) have "oa_GrantID r0 = g"
    by (auto simp: opaque_rows.revokeIndexed_lookup split: if_splits)
  with rows_covered_grant [OF assms(1), of k r0 g] r0 assms(2) have "k |\<in>| gm_set (ti_byGrant (oas_idx s)) g"
    by simp
  with r0 assms(3,5,6) show ?thesis
    by (auto simp: opaque_rows.revokeIndexed_lookup revocable_some split: if_splits)
qed


section \<open>The properties of the store\<close>

text \<open>
  C20. The opaque store implements its abstract map: from the empty store every sequence of direct
  calls gets the replies the map gives, \<^verbatim>\<open>RevokeByGrant\<close> and \<^verbatim>\<open>RevokeByChain\<close> flipping and counting
  exactly the live rows of the grant and of the chain under it, and leaves the rows the map holds.
\<close>

theorem opaque_registry_refines:
  "run_calls (spec_opaque_call (\<lambda>_. False)) cs (\<lambda>_. None) =
     (fst (run_calls opaqueAccessTokenStore_call cs newOpaqueAccessTokenStore),
      fmlookup (oas_m (snd (run_calls opaqueAccessTokenStore_call cs newOpaqueAccessTokenStore))))"
  using opaque_direct.run_sim [OF conjI [OF opaque_rows_ok_new opaque_keyed_new], of cs]
  by (simp add: newOpaqueAccessTokenStore_def fmempty_lookup [abs_def])

text \<open>
  In every state that direct calls, client cascades and committed transactions can reach, no
  stored row holds a bearer secret (its identifier is the digest it is filed under), and after
  \<^verbatim>\<open>RevokeByChain\<close> no token of the chain is left unrevoked, nor any of the grant after
  \<^verbatim>\<open>RevokeByGrant\<close>.
\<close>

theorem opaque_cascade_complete:
  assumes "opaque_step\<^sup>*\<^sup>* newOpaqueAccessTokenStore s" and "g \<noteq> []"
  shows "(fmlookup (oas_m s) k = Some r0 \<longrightarrow> oa_ID r0 = k \<and> (\<exists>i. k = hashKey i))
       \<and> (fst (opaqueAccessTokenStore_Find i (snd (opaqueAccessTokenStore_RevokeByGrant g s))) = Some r \<longrightarrow>
            oa_GrantID r = g \<longrightarrow> oa_Revoked r)
       \<and> (ch \<noteq> [] \<longrightarrow>
            fst (opaqueAccessTokenStore_Find i (snd (opaqueAccessTokenStore_RevokeByChain g ch s))) = Some r \<longrightarrow>
            oa_GrantID r = g \<longrightarrow> oa_ChainID r = ch \<longrightarrow> oa_Revoked r)"
proof -
  from opaque_reachable [OF assms(1)] have cov: "opaque_covered s" and keyed: "opaque_keyed (fmlookup (oas_m s))"
    by simp_all
  have find: "\<exists>r0. fmlookup (oas_m s') (hashKey i) = Some r0 \<and> r = r0\<lparr>oa_ID := i\<rparr>"
    if "fst (opaqueAccessTokenStore_Find i s') = Some r" for s'
    using that by (auto simp: opaqueAccessTokenStore_Find_def Let_def split: if_splits option.splits)
  have "oa_Revoked r" if "fst (opaqueAccessTokenStore_Find i (snd (opaqueAccessTokenStore_RevokeByGrant g s))) = Some r"
    and "oa_GrantID r = g"
    using find [OF that(1)] that(2) opaque_revokeIndexed_revokes [OF cov assms(2), of matchAnyToken "hashKey i"]
    by (auto simp: opaqueAccessTokenStore_RevokeByGrant_def assms(2) case_prod_beta)
  moreover have "oa_Revoked r"
    if "ch \<noteq> []" and "fst (opaqueAccessTokenStore_Find i (snd (opaqueAccessTokenStore_RevokeByChain g ch s))) = Some r"
      and "oa_GrantID r = g" and "oa_ChainID r = ch"
    using find [OF that(2)] that(1,3,4) opaque_revokeIndexed_revokes [OF cov assms(2), of "matchChain ch" "hashKey i"]
    by (auto simp: opaqueAccessTokenStore_RevokeByChain_def assms(2) case_prod_beta matchChain_def)
  ultimately show ?thesis
    using keyed by (auto simp: opaque_keyed_def)
qed

definition sample_opaque :: OpaqueAccessToken where
  "sample_opaque =
     \<lparr>oa_ID = ''secret'', oa_GrantID = ''g1'', oa_Subject = ''alice'', oa_ClientID = ''app'',
      oa_Scope = [''openid''], oa_Audience = ''api'', oa_ACR = [], oa_AMR = [], oa_AuthTime = 5,
      oa_AuthorizationDetails = [], oa_Claims = [], oa_AuthorizationRecorded = True, oa_DPoPJKT = [],
      oa_MTLSCertThumbprint = [], oa_ChainID = ''c1'', oa_IssuedAt = 10, oa_ExpiresAt = 100,
      oa_Revoked = False\<rparr>"

definition sample_opaque_store :: opaqueAccessTokenStore where
  "sample_opaque_store = snd (opaqueAccessTokenStore_Save (Some sample_opaque) newOpaqueAccessTokenStore)"

lemma sample_opaque_revoked:
  "fst (opaqueAccessTokenStore_Find ''secret''
      (snd (opaqueAccessTokenStore_RevokeByChain ''g1'' ''c1'' sample_opaque_store))) =
     Some (sample_opaque\<lparr>oa_Revoked := True\<rparr>)"
  by (simp add: sample_opaque_store_def sample_opaque_def opaqueAccessTokenStore_Save_def Let_def
      newOpaqueAccessTokenStore_def newTokenIndex_def tokenRowOps_track_def refreshIndex_add_def
      opaqueAccessTokenStore_RevokeByChain_def revokeIndexed_def matchChain_def
      opaqueAccessTokenStore_Find_def constantTimeKeyMatch_iff)

theorem opaque_cascade_complete_witness:
  "opaque_step\<^sup>*\<^sup>* newOpaqueAccessTokenStore sample_opaque_store \<and>
   (\<exists>r. fst (opaqueAccessTokenStore_Find ''secret''
          (snd (opaqueAccessTokenStore_RevokeByChain ''g1'' ''c1'' sample_opaque_store))) = Some r \<and>
        oa_GrantID r = ''g1'' \<and> oa_ChainID r = ''c1'' \<and> oa_Revoked r)"
proof -
  have reach: "opaque_step\<^sup>*\<^sup>* newOpaqueAccessTokenStore sample_opaque_store"
    using ostep_direct [of newOpaqueAccessTokenStore "OSave (Some sample_opaque)"]
    by (simp add: sample_opaque_store_def r_into_rtranclp)
  let ?r = "sample_opaque\<lparr>oa_Revoked := True\<rparr>"
  have "oa_GrantID ?r = ''g1''" and "oa_ChainID ?r = ''c1''"
    by (simp_all add: sample_opaque_def)
  with opaque_cascade_complete [OF reach, of "''g1''" _ _ "''secret''" ?r "''c1''"] sample_opaque_revoked reach
  show ?thesis by auto
qed

end
