(* ===== verification/GrantRevocation.thy ===== *)
theory GrantRevocation
  imports TokenRows
begin

text \<open>
  Grant tombstones and the JTI denylist, \<^verbatim>\<open>op/store/grant_revocation.go\<close>,
  \<^verbatim>\<open>inmem/grant_revocation.go\<close> and the staging in \<^verbatim>\<open>inmem/tx_aux.go\<close>. The abstract state is the pair
  of maps from grants to tombstones and from JTIs to denylist rows; direct calls and transactions
  both implement it. What the verifier sees is then read off the history of the revocations.
\<close>

record GrantTombstone =
  gt_GrantID :: string
  gt_RevokedAt :: time
  gt_ExpiresAt :: time
  gt_Reason :: string
  gt_AccessTokensOnly :: bool

record RevokedJTI =
  rj_JTI :: string
  rj_GrantID :: string
  rj_ExpiresAt :: time

record tombstoneRow =
  tr_revokedAt :: time
  tr_accessRevokedAt :: time
  tr_expiresAt :: time
  tr_reason :: string

definition tombstoneRow_merge :: "GrantTombstone \<Rightarrow> tombstoneRow \<Rightarrow> tombstoneRow" where
  "tombstoneRow_merge t r =
     (let r = (if gt_AccessTokensOnly t
               then (if gt_RevokedAt t > tr_accessRevokedAt r
                     then r\<lparr>tr_accessRevokedAt := gt_RevokedAt t\<rparr> else r)
               else (if gt_RevokedAt t > tr_revokedAt r
                     then r\<lparr>tr_revokedAt := gt_RevokedAt t\<rparr> else r));
          r = (if gt_ExpiresAt t > tr_expiresAt r then r\<lparr>tr_expiresAt := gt_ExpiresAt t\<rparr> else r)
      in if tr_reason r = [] \<and> gt_Reason t \<noteq> [] then r\<lparr>tr_reason := gt_Reason t\<rparr> else r)"

definition newTombstoneRow :: "GrantTombstone \<Rightarrow> tombstoneRow" where
  "newTombstoneRow t =
     tombstoneRow_merge t
       \<lparr>tr_revokedAt = zero_time, tr_accessRevokedAt = zero_time, tr_expiresAt = zero_time, tr_reason = []\<rparr>"

definition covers :: "time \<Rightarrow> time \<Rightarrow> bool" where
  "covers cutoff iat \<longleftrightarrow> cutoff \<noteq> zero_time \<and> \<not> cutoff < iat"

definition tombstoneRow_revokes :: "tombstoneRow \<Rightarrow> time \<Rightarrow> bool" where
  "tombstoneRow_revokes r iat \<longleftrightarrow> covers (tr_revokedAt r) iat \<or> covers (tr_accessRevokedAt r) iat"

definition tombstoneRow_refusesIssuance :: "tombstoneRow \<Rightarrow> time \<Rightarrow> bool" where
  "tombstoneRow_refusesIssuance r issuedAt \<longleftrightarrow> covers (tr_revokedAt r) issuedAt"

record grantRevocationStore =
  grv_tombstones :: "tombstoneRow gomap"
  grv_denylist :: "RevokedJTI gomap"

definition newGrantRevocationStore :: grantRevocationStore where
  "newGrantRevocationStore = \<lparr>grv_tombstones = fmempty, grv_denylist = fmempty\<rparr>"

definition grantRevocationStore_RevokeGrant ::
  "GrantTombstone \<Rightarrow> grantRevocationStore \<Rightarrow> store_err option \<times> grantRevocationStore" where
  "grantRevocationStore_RevokeGrant t s =
     (if gt_GrantID t = [] then (None, s)
      else
        (case fmlookup (grv_tombstones s) (gt_GrantID t) of
           Some existing \<Rightarrow>
             (None, s\<lparr>grv_tombstones :=
                        fmupd (gt_GrantID t) (tombstoneRow_merge t existing) (grv_tombstones s)\<rparr>)
         | None \<Rightarrow>
             (None, s\<lparr>grv_tombstones := fmupd (gt_GrantID t) (newTombstoneRow t) (grv_tombstones s)\<rparr>)))"

definition grantRevocationStore_RevokeJTI ::
  "RevokedJTI \<Rightarrow> grantRevocationStore \<Rightarrow> store_err option \<times> grantRevocationStore" where
  "grantRevocationStore_RevokeJTI r s =
     (if rj_JTI r = [] then (None, s)
      else if fmlookup (grv_denylist s) (rj_JTI r) \<noteq> None then (None, s)
      else (None, s\<lparr>grv_denylist := fmupd (rj_JTI r) r (grv_denylist s)\<rparr>))"

definition grantRevocationStore_IsRevoked ::
  "string \<Rightarrow> string \<Rightarrow> time \<Rightarrow> grantRevocationStore \<Rightarrow> bool \<times> store_err option" where
  "grantRevocationStore_IsRevoked grantID jti iat s =
     (if jti \<noteq> [] \<and> fmlookup (grv_denylist s) jti \<noteq> None then (True, None)
      else if grantID = [] then (False, None)
      else
        (case fmlookup (grv_tombstones s) grantID of
           None \<Rightarrow> (False, None)
         | Some tomb \<Rightarrow> (tombstoneRow_revokes tomb iat, None)))"

definition grantRevocationStore_IsIssuanceRevoked ::
  "string \<Rightarrow> time \<Rightarrow> grantRevocationStore \<Rightarrow> bool \<times> store_err option" where
  "grantRevocationStore_IsIssuanceRevoked grantID issuedAt s =
     (if grantID = [] then (False, None)
      else
        (case fmlookup (grv_tombstones s) grantID of
           None \<Rightarrow> (False, None)
         | Some tomb \<Rightarrow> (tombstoneRow_refusesIssuance tomb issuedAt, None)))"

text \<open>A loop that deletes the dead entries of a map and counts them.\<close>

definition gm_sweep_count :: "('v \<Rightarrow> bool) \<Rightarrow> 'v gomap \<Rightarrow> nat \<times> 'v gomap" where
  "gm_sweep_count dead m =
     fold (\<lambda>key (n, m).
         case fmlookup m key of
           None \<Rightarrow> (n, m)
         | Some rec \<Rightarrow> if dead rec then (n + 1, fmdrop key m) else (n, m))
       (sorted_list_of_fset (fmdom m)) (0, m)"

definition grantRevocationStore_GC ::
  "time \<Rightarrow> grantRevocationStore \<Rightarrow> (nat \<times> store_err option) \<times> grantRevocationStore" where
  "grantRevocationStore_GC cutoff s =
     (case gm_sweep_count (\<lambda>tomb. IsExpiredStrict (tr_expiresAt tomb) cutoff) (grv_tombstones s) of
        (n1, tombs) \<Rightarrow>
          (case gm_sweep_count (\<lambda>row. IsExpiredStrict (rj_ExpiresAt row) cutoff) (grv_denylist s) of
             (n2, deny) \<Rightarrow>
               ((n1 + n2, None), s\<lparr>grv_tombstones := tombs, grv_denylist := deny\<rparr>)))"


section \<open>The staged store\<close>

record grantRevocationStaging =
  gst_tombstones :: "tombstoneRow overlay"
  gst_denylist :: "RevokedJTI overlay"

definition newGrantRevocationStaging :: grantRevocationStaging where
  "newGrantRevocationStaging = \<lparr>gst_tombstones = newOverlay, gst_denylist = newOverlay\<rparr>"

definition txGrantRevocations_RevokeGrant ::
  "store_err option \<Rightarrow> grantRevocationStore \<Rightarrow> GrantTombstone \<Rightarrow> grantRevocationStaging \<Rightarrow>
     store_err option \<times> grantRevocationStaging" where
  "txGrantRevocations_RevokeGrant guard parent t st =
     (case guard of
        Some e \<Rightarrow> (Some e, st)
      | None \<Rightarrow>
          if gt_GrantID t = [] then (None, st)
          else
            let merged =
                  (case overlay_lookup (grv_tombstones parent) (gst_tombstones st) (gt_GrantID t) of
                     None \<Rightarrow> newTombstoneRow t
                   | Some row \<Rightarrow> tombstoneRow_merge t row)
            in (None, st\<lparr>gst_tombstones := overlay_stage (gt_GrantID t) merged (gst_tombstones st)\<rparr>))"

definition txGrantRevocations_RevokeJTI ::
  "store_err option \<Rightarrow> grantRevocationStore \<Rightarrow> RevokedJTI \<Rightarrow> grantRevocationStaging \<Rightarrow>
     store_err option \<times> grantRevocationStaging" where
  "txGrantRevocations_RevokeJTI guard parent r st =
     (case guard of
        Some e \<Rightarrow> (Some e, st)
      | None \<Rightarrow>
          if rj_JTI r = [] then (None, st)
          else if overlay_lookup (grv_denylist parent) (gst_denylist st) (rj_JTI r) \<noteq> None then (None, st)
          else (None, st\<lparr>gst_denylist := overlay_stage (rj_JTI r) r (gst_denylist st)\<rparr>))"

definition txGrantRevocations_IsRevoked ::
  "store_err option \<Rightarrow> grantRevocationStore \<Rightarrow> string \<Rightarrow> string \<Rightarrow> time \<Rightarrow> grantRevocationStaging \<Rightarrow>
     bool \<times> store_err option" where
  "txGrantRevocations_IsRevoked guard parent grantID jti iat st =
     (case guard of
        Some e \<Rightarrow> (False, Some e)
      | None \<Rightarrow>
          if jti \<noteq> [] \<and> overlay_lookup (grv_denylist parent) (gst_denylist st) jti \<noteq> None then (True, None)
          else if grantID = [] then (False, None)
          else
            (case overlay_lookup (grv_tombstones parent) (gst_tombstones st) grantID of
               None \<Rightarrow> (False, None)
             | Some tomb \<Rightarrow> (tombstoneRow_revokes tomb iat, None)))"

definition txGrantRevocations_IsIssuanceRevoked ::
  "store_err option \<Rightarrow> grantRevocationStore \<Rightarrow> string \<Rightarrow> time \<Rightarrow> grantRevocationStaging \<Rightarrow>
     bool \<times> store_err option" where
  "txGrantRevocations_IsIssuanceRevoked guard parent grantID issuedAt st =
     (case guard of
        Some e \<Rightarrow> (False, Some e)
      | None \<Rightarrow>
          if grantID = [] then (False, None)
          else
            (case overlay_lookup (grv_tombstones parent) (gst_tombstones st) grantID of
               None \<Rightarrow> (False, None)
             | Some tomb \<Rightarrow> (tombstoneRow_refusesIssuance tomb issuedAt, None)))"

definition txGrantRevocations_GC ::
  "store_err option \<Rightarrow> grantRevocationStore \<Rightarrow> time \<Rightarrow> grantRevocationStaging \<Rightarrow>
     (nat \<times> store_err option) \<times> grantRevocationStaging" where
  "txGrantRevocations_GC guard parent cutoff st =
     (case guard of
        Some e \<Rightarrow> ((0, Some e), st)
      | None \<Rightarrow>
          (case overlay_gc tr_expiresAt (grv_tombstones parent) cutoff (gst_tombstones st) of
             (tombs, n1) \<Rightarrow>
               (case overlay_gc rj_ExpiresAt (grv_denylist parent) cutoff (gst_denylist st) of
                  (deny, n2) \<Rightarrow>
                    ((n1 + n2, None), st\<lparr>gst_tombstones := tombs, gst_denylist := deny\<rparr>))))"

text \<open>Neither overlay has hooks: the commit threads a unit in place of an index.\<close>

definition grantRevocationStaging_flushLocked ::
  "grantRevocationStaging \<Rightarrow> grantRevocationStore \<Rightarrow> grantRevocationStore" where
  "grantRevocationStaging_flushLocked st s =
     s\<lparr>grv_tombstones :=
         fst (overlay_flushLocked (\<lambda>_ _ u. u) (\<lambda>_ _ u. u) (gst_tombstones st) (grv_tombstones s, ())),
       grv_denylist :=
         fst (overlay_flushLocked (\<lambda>_ _ u. u) (\<lambda>_ _ u. u) (gst_denylist st) (grv_denylist s, ()))\<rparr>"

definition grantRevocationStaging_clear :: "grantRevocationStaging \<Rightarrow> grantRevocationStaging" where
  "grantRevocationStaging_clear st =
     st\<lparr>gst_tombstones := overlay_clear (gst_tombstones st), gst_denylist := overlay_clear (gst_denylist st)\<rparr>"


section \<open>The abstract state\<close>

type_synonym grv_map = "(key \<Rightarrow> tombstoneRow option) \<times> (key \<Rightarrow> RevokedJTI option)"

datatype grv_call =
    GRevokeGrant GrantTombstone
  | GRevokeJTI RevokedJTI
  | GIsRevoked string string time
  | GIsIssuanceRevoked string time
  | GGC time

datatype grv_reply =
    GErr "store_err option"
  | GBool "bool \<times> store_err option"
  | GCount "nat \<times> store_err option"

fun grantRevocationStore_call :: "grv_call \<Rightarrow> grantRevocationStore \<Rightarrow> grv_reply \<times> grantRevocationStore" where
  "grantRevocationStore_call (GRevokeGrant t) s = apfst GErr (grantRevocationStore_RevokeGrant t s)"
| "grantRevocationStore_call (GRevokeJTI r) s = apfst GErr (grantRevocationStore_RevokeJTI r s)"
| "grantRevocationStore_call (GIsRevoked g j iat) s = (GBool (grantRevocationStore_IsRevoked g j iat s), s)"
| "grantRevocationStore_call (GIsIssuanceRevoked g iat) s = (GBool (grantRevocationStore_IsIssuanceRevoked g iat s), s)"
| "grantRevocationStore_call (GGC cutoff) s = apfst GCount (grantRevocationStore_GC cutoff s)"

fun txGrantRevocations_call ::
  "store_err option \<Rightarrow> grantRevocationStore \<Rightarrow> grv_call \<Rightarrow> grantRevocationStaging \<Rightarrow>
     grv_reply \<times> grantRevocationStaging" where
  "txGrantRevocations_call guard parent (GRevokeGrant t) st = apfst GErr (txGrantRevocations_RevokeGrant guard parent t st)"
| "txGrantRevocations_call guard parent (GRevokeJTI r) st = apfst GErr (txGrantRevocations_RevokeJTI guard parent r st)"
| "txGrantRevocations_call guard parent (GIsRevoked g j iat) st = (GBool (txGrantRevocations_IsRevoked guard parent g j iat st), st)"
| "txGrantRevocations_call guard parent (GIsIssuanceRevoked g iat) st = (GBool (txGrantRevocations_IsIssuanceRevoked guard parent g iat st), st)"
| "txGrantRevocations_call guard parent (GGC cutoff) st = apfst GCount (txGrantRevocations_GC guard parent cutoff st)"

definition spec_grv_IsRevoked :: "string \<Rightarrow> string \<Rightarrow> time \<Rightarrow> grv_map \<Rightarrow> bool" where
  "spec_grv_IsRevoked g j iat M \<longleftrightarrow>
     (j \<noteq> [] \<and> snd M j \<noteq> None) \<or> (g \<noteq> [] \<and> (\<exists>r. fst M g = Some r \<and> tombstoneRow_revokes r iat))"

definition spec_grv_IsIssuanceRevoked :: "string \<Rightarrow> time \<Rightarrow> grv_map \<Rightarrow> bool" where
  "spec_grv_IsIssuanceRevoked g iat M \<longleftrightarrow> g \<noteq> [] \<and> (\<exists>r. fst M g = Some r \<and> tombstoneRow_refusesIssuance r iat)"

fun spec_grv_call :: "grv_call \<Rightarrow> grv_map \<Rightarrow> grv_reply \<times> grv_map" where
  "spec_grv_call (GRevokeGrant t) M =
     (GErr None,
      if gt_GrantID t = [] then M
      else ((fst M)(gt_GrantID t \<mapsto> (case fst M (gt_GrantID t) of
                                       None \<Rightarrow> newTombstoneRow t | Some r \<Rightarrow> tombstoneRow_merge t r)), snd M))"
| "spec_grv_call (GRevokeJTI r) M =
     (GErr None,
      if rj_JTI r = [] \<or> snd M (rj_JTI r) \<noteq> None then M else (fst M, (snd M)(rj_JTI r \<mapsto> r)))"
| "spec_grv_call (GIsRevoked g j iat) M = (GBool (spec_grv_IsRevoked g j iat M, None), M)"
| "spec_grv_call (GIsIssuanceRevoked g iat) M = (GBool (spec_grv_IsIssuanceRevoked g iat M, None), M)"
| "spec_grv_call (GGC cutoff) M =
     (GCount (card {k. expired_row tr_expiresAt cutoff (fst M) k} +
              card {k. expired_row rj_ExpiresAt cutoff (snd M) k}, None),
      (rows_expire tr_expiresAt cutoff (fst M), rows_expire rj_ExpiresAt cutoff (snd M)))"

abbreviation grv_of :: "grantRevocationStore \<Rightarrow> grv_map" where
  "grv_of s \<equiv> (fmlookup (grv_tombstones s), fmlookup (grv_denylist s))"

abbreviation grv_view :: "grantRevocationStore \<Rightarrow> grantRevocationStaging \<Rightarrow> grv_map" where
  "grv_view parent st \<equiv>
     (overlay_lookup (grv_tombstones parent) (gst_tombstones st),
      overlay_lookup (grv_denylist parent) (gst_denylist st))"

lemma gm_sweep_count_loop:
  assumes "distinct ks"
  shows "fold (\<lambda>key (n, m). case fmlookup m key of None \<Rightarrow> (n, m)
           | Some rec \<Rightarrow> if dead rec then (n + 1, fmdrop key m) else (n, m)) ks (n, m)
     = (n + length (filter (\<lambda>k. \<exists>r. fmlookup m k = Some r \<and> dead r) ks),
        fmfilter (\<lambda>k. \<not> (k \<in> set ks \<and> (\<exists>r. fmlookup m k = Some r \<and> dead r))) m)"
  using assms
proof (induction ks arbitrary: n m)
  case (Cons k ks)
  show ?case
  proof (cases "\<exists>r. fmlookup m k = Some r \<and> dead r")
    case False
    have "fmfilter (\<lambda>j. \<not> (j \<in> set (k # ks) \<and> (\<exists>r. fmlookup m j = Some r \<and> dead r))) m =
        fmfilter (\<lambda>j. \<not> (j \<in> set ks \<and> (\<exists>r. fmlookup m j = Some r \<and> dead r))) m"
      using False by (intro fmap_ext) auto
    with False Cons show ?thesis
      by (cases "fmlookup m k") simp_all
  next
    case True
    then obtain r where r: "fmlookup m k = Some r" "dead r" by blast
    have filt: "filter (\<lambda>j. \<exists>r. fmlookup (fmdrop k m) j = Some r \<and> dead r) ks =
        filter (\<lambda>j. \<exists>r. fmlookup m j = Some r \<and> dead r) ks"
      using Cons.prems by (intro filter_cong) auto
    have "fmfilter (\<lambda>j. \<not> (j \<in> set ks \<and> (\<exists>r. fmlookup (fmdrop k m) j = Some r \<and> dead r))) (fmdrop k m) =
        fmfilter (\<lambda>j. \<not> (j \<in> set (k # ks) \<and> (\<exists>r. fmlookup m j = Some r \<and> dead r))) m"
      using r by (intro fmap_ext) auto
    moreover have "distinct ks"
      using Cons.prems by simp
    ultimately show ?thesis
      using r Cons.IH [of "n + 1" "fmdrop k m", unfolded filt] True by simp
  qed
qed simp

lemma gm_sweep_count_facts:
  "fst (gm_sweep_count (\<lambda>r. IsExpiredStrict (ex r) c) m) = card {k. expired_row ex c (fmlookup m) k}"
  "fmlookup (snd (gm_sweep_count (\<lambda>r. IsExpiredStrict (ex r) c) m)) = rows_expire ex c (fmlookup m)"
proof -
  have "{k. k |\<in>| fmdom m \<and> (\<exists>r. fmlookup m k = Some r \<and> IsExpiredStrict (ex r) c)} =
      {k. expired_row ex c (fmlookup m) k}"
    by (auto simp: expired_row_def fmlookup_dom_iff)
  then show "fst (gm_sweep_count (\<lambda>r. IsExpiredStrict (ex r) c) m) = card {k. expired_row ex c (fmlookup m) k}"
    by (simp add: gm_sweep_count_def gm_sweep_count_loop length_filter_sorted)
  show "fmlookup (snd (gm_sweep_count (\<lambda>r. IsExpiredStrict (ex r) c) m)) = rows_expire ex c (fmlookup m)"
    by (rule ext) (auto simp: gm_sweep_count_def gm_sweep_count_loop rows_expire_def expired_row_def fmlookup_dom_iff)
qed


section \<open>Direct calls and transactions implement it\<close>

lemma grv_call_refines:
  "spec_grv_call c (grv_of s) = (fst (grantRevocationStore_call c s), grv_of (snd (grantRevocationStore_call c s)))"
proof (cases c)
  case (GRevokeGrant t)
  then show ?thesis
    by (cases "fmlookup (grv_tombstones s) (gt_GrantID t)")
       (auto simp: grantRevocationStore_RevokeGrant_def fun_eq_iff)
next
  case (GRevokeJTI r)
  then show ?thesis by (auto simp: grantRevocationStore_RevokeJTI_def fun_eq_iff)
next
  case (GIsRevoked g j iat)
  then show ?thesis
    by (auto simp: grantRevocationStore_IsRevoked_def spec_grv_IsRevoked_def split: option.split)
next
  case (GIsIssuanceRevoked g iat)
  then show ?thesis
    by (auto simp: grantRevocationStore_IsIssuanceRevoked_def spec_grv_IsIssuanceRevoked_def split: option.split)
next
  case (GGC cutoff)
  then show ?thesis
    by (simp add: grantRevocationStore_GC_def case_prod_beta gm_sweep_count_facts)
qed

lemma tx_grv_call_refines:
  "spec_grv_call c (grv_view parent st) =
     (fst (txGrantRevocations_call None parent c st), grv_view parent (snd (txGrantRevocations_call None parent c st)))"
proof (cases c)
  case (GRevokeGrant t)
  then show ?thesis by (simp add: txGrantRevocations_RevokeGrant_def Let_def)
next
  case (GRevokeJTI r)
  then show ?thesis by (simp add: txGrantRevocations_RevokeJTI_def)
next
  case (GIsRevoked g j iat)
  then show ?thesis
    by (auto simp: txGrantRevocations_IsRevoked_def spec_grv_IsRevoked_def split: option.split)
next
  case (GIsIssuanceRevoked g iat)
  then show ?thesis
    by (auto simp: txGrantRevocations_IsIssuanceRevoked_def spec_grv_IsIssuanceRevoked_def split: option.split)
next
  case (GGC cutoff)
  then show ?thesis
    by (simp add: txGrantRevocations_GC_def case_prod_beta overlay_gc_view overlay_gc_count rows_expire_def fun_eq_iff)
qed

interpretation grv_direct: simulation "\<lambda>s. True" grv_of grantRevocationStore_call spec_grv_call
  by unfold_locales (simp_all add: grv_call_refines)

interpretation grv_tx: simulation "\<lambda>st. True" "grv_view parent" "txGrantRevocations_call None parent" spec_grv_call
  for parent
  by unfold_locales (simp_all add: tx_grv_call_refines)

lemma grv_flush_view: "grv_of (grantRevocationStaging_flushLocked st parent) = grv_view parent st"
  by (simp add: grantRevocationStaging_flushLocked_def overlay_flush_view)

lemma grv_view_new [simp]: "grv_view parent newGrantRevocationStaging = grv_of parent"
  by (simp add: newGrantRevocationStaging_def)


section \<open>Reading the history\<close>

lemma tombstoneRow_merge_sel:
  "tr_revokedAt (tombstoneRow_merge t r) =
     (if gt_AccessTokensOnly t then tr_revokedAt r else max (tr_revokedAt r) (gt_RevokedAt t))"
  "tr_accessRevokedAt (tombstoneRow_merge t r) =
     (if gt_AccessTokensOnly t then max (tr_accessRevokedAt r) (gt_RevokedAt t) else tr_accessRevokedAt r)"
  "tr_expiresAt (tombstoneRow_merge t r) = max (tr_expiresAt r) (gt_ExpiresAt t)"
  by (simp_all add: tombstoneRow_merge_def Let_def)

lemma newTombstoneRow_sel:
  "tr_revokedAt (newTombstoneRow t) = (if gt_AccessTokensOnly t then 0 else max 0 (gt_RevokedAt t))"
  "tr_accessRevokedAt (newTombstoneRow t) = (if gt_AccessTokensOnly t then max 0 (gt_RevokedAt t) else 0)"
  "tr_expiresAt (newTombstoneRow t) = max 0 (gt_ExpiresAt t)"
  by (simp_all add: newTombstoneRow_def tombstoneRow_merge_sel)

definition cutoffs_ok :: "grv_map \<Rightarrow> bool" where
  "cutoffs_ok M \<longleftrightarrow> (\<forall>g r. fst M g = Some r \<longrightarrow> 0 \<le> tr_revokedAt r \<and> 0 \<le> tr_accessRevokedAt r)"

text \<open>A tombstone refuses what was issued up to its instant; a zero or earlier instant refuses nothing.\<close>

definition tombstone_hits :: "GrantTombstone \<Rightarrow> string \<Rightarrow> time \<Rightarrow> bool" where
  "tombstone_hits t g iat \<longleftrightarrow> gt_GrantID t = g \<and> 0 < gt_RevokedAt t \<and> iat \<le> gt_RevokedAt t"

definition history_revokes :: "grv_call list \<Rightarrow> string \<Rightarrow> string \<Rightarrow> time \<Rightarrow> bool" where
  "history_revokes cs g j iat \<longleftrightarrow>
     (j \<noteq> [] \<and> (\<exists>r. GRevokeJTI r \<in> set cs \<and> rj_JTI r = j)) \<or>
     (g \<noteq> [] \<and> (\<exists>t. GRevokeGrant t \<in> set cs \<and> tombstone_hits t g iat))"

definition history_refuses :: "grv_call list \<Rightarrow> string \<Rightarrow> time \<Rightarrow> bool" where
  "history_refuses cs g iat \<longleftrightarrow>
     g \<noteq> [] \<and> (\<exists>t. GRevokeGrant t \<in> set cs \<and> \<not> gt_AccessTokensOnly t \<and> tombstone_hits t g iat)"

lemma covers_max: "0 \<le> c \<Longrightarrow> covers (max c d) iat \<longleftrightarrow> covers c iat \<or> (0 < d \<and> iat \<le> d)"
  by (auto simp: covers_def max_def)

lemma covers_zero [simp]: "\<not> covers 0 iat"
  by (simp add: covers_def)

lemma merge_revokes:
  assumes "0 \<le> tr_revokedAt r" and "0 \<le> tr_accessRevokedAt r"
  shows "tombstoneRow_revokes (tombstoneRow_merge t r) iat \<longleftrightarrow>
           tombstoneRow_revokes r iat \<or> tombstone_hits t (gt_GrantID t) iat"
    and "tombstoneRow_refusesIssuance (tombstoneRow_merge t r) iat \<longleftrightarrow>
           tombstoneRow_refusesIssuance r iat \<or> (\<not> gt_AccessTokensOnly t \<and> tombstone_hits t (gt_GrantID t) iat)"
  using assms
  by (auto simp: tombstoneRow_revokes_def tombstoneRow_refusesIssuance_def tombstoneRow_merge_sel
      covers_max tombstone_hits_def)

lemma new_revokes:
  "tombstoneRow_revokes (newTombstoneRow t) iat \<longleftrightarrow> tombstone_hits t (gt_GrantID t) iat"
  "tombstoneRow_refusesIssuance (newTombstoneRow t) iat \<longleftrightarrow>
     \<not> gt_AccessTokensOnly t \<and> tombstone_hits t (gt_GrantID t) iat"
  using covers_max [of 0 "gt_RevokedAt t" iat]
  by (auto simp: tombstoneRow_revokes_def tombstoneRow_refusesIssuance_def newTombstoneRow_sel tombstone_hits_def)

lemma cutoffs_ok_call: "cutoffs_ok M \<Longrightarrow> cutoffs_ok (snd (spec_grv_call c M))"
  by (cases c)
     (auto simp: cutoffs_ok_def rows_expire_def tombstoneRow_merge_sel newTombstoneRow_sel
        le_max_iff_disj split: option.splits)

lemma history_call:
  assumes "cutoffs_ok M" and "\<forall>k. c \<noteq> GGC k"
  shows "spec_grv_IsRevoked g j iat (snd (spec_grv_call c M)) \<longleftrightarrow>
           spec_grv_IsRevoked g j iat M \<or> history_revokes [c] g j iat" (is ?A)
    and "spec_grv_IsIssuanceRevoked g iat (snd (spec_grv_call c M)) \<longleftrightarrow>
           spec_grv_IsIssuanceRevoked g iat M \<or> history_refuses [c] g iat" (is ?B)
proof -
  have "?A \<and> ?B"
  proof (cases c)
    case (GRevokeGrant t)
    show ?thesis
    proof (cases "fst M (gt_GrantID t)")
      case None
      with GRevokeGrant show ?thesis
        by (auto simp: spec_grv_IsRevoked_def spec_grv_IsIssuanceRevoked_def history_revokes_def
            history_refuses_def new_revokes tombstone_hits_def)
    next
      case (Some r)
      with assms(1) have "0 \<le> tr_revokedAt r" and "0 \<le> tr_accessRevokedAt r"
        by (auto simp: cutoffs_ok_def)
      with GRevokeGrant Some show ?thesis
        by (auto simp: spec_grv_IsRevoked_def spec_grv_IsIssuanceRevoked_def history_revokes_def
            history_refuses_def merge_revokes tombstone_hits_def)
    qed
  qed (use assms(2) in \<open>auto simp: spec_grv_IsRevoked_def spec_grv_IsIssuanceRevoked_def
        history_revokes_def history_refuses_def\<close>)
  then show ?A and ?B by blast+
qed

lemma history_append:
  "history_revokes (c # cs) g j iat \<longleftrightarrow> history_revokes [c] g j iat \<or> history_revokes cs g j iat"
  "history_refuses (c # cs) g iat \<longleftrightarrow> history_refuses [c] g iat \<or> history_refuses cs g iat"
  by (auto simp: history_revokes_def history_refuses_def)

lemma history_run:
  assumes "cutoffs_ok M" and "\<forall>k. GGC k \<notin> set cs"
  shows "(spec_grv_IsRevoked g j iat (snd (run_calls spec_grv_call cs M)) \<longleftrightarrow>
           spec_grv_IsRevoked g j iat M \<or> history_revokes cs g j iat)
       \<and> (spec_grv_IsIssuanceRevoked g iat (snd (run_calls spec_grv_call cs M)) \<longleftrightarrow>
           spec_grv_IsIssuanceRevoked g iat M \<or> history_refuses cs g iat)"
  using assms
proof (induction cs arbitrary: M)
  case Nil
  then show ?case by (simp add: history_revokes_def history_refuses_def)
next
  case (Cons c cs)
  then have ngc: "\<forall>k. c \<noteq> GGC k" by auto
  from Cons.IH [OF cutoffs_ok_call [OF Cons.prems(1), of c]] Cons.prems(2)
  show ?case
    by (simp add: case_prod_beta history_call [OF Cons.prems(1) ngc] history_append [of c cs] disj_assoc)
qed


section \<open>Revocations last\<close>

text \<open>
  A use of the store whose reclamations stay at or before an instant \<open>E\<close>: direct calls and committed
  transactions.
\<close>

definition gc_within :: "time \<Rightarrow> grv_call \<Rightarrow> bool" where
  "gc_within E c \<longleftrightarrow> (\<forall>k. c = GGC k \<longrightarrow> k \<le> E)"

inductive grv_step :: "time \<Rightarrow> grantRevocationStore \<Rightarrow> grantRevocationStore \<Rightarrow> bool" for E where
  gstep_direct: "gc_within E c \<Longrightarrow> grv_step E s (snd (grantRevocationStore_call c s))"
| gstep_commit: "list_all (gc_within E) cs \<Longrightarrow>
    grv_step E s (grantRevocationStaging_flushLocked
      (snd (run_calls (txGrantRevocations_call None s) cs newGrantRevocationStaging)) s)"

definition tombstone_holds :: "GrantTombstone \<Rightarrow> grv_map \<Rightarrow> bool" where
  "tombstone_holds t M \<longleftrightarrow>
     (\<exists>r. fst M (gt_GrantID t) = Some r \<and> gt_ExpiresAt t \<le> tr_expiresAt r \<and>
        gt_RevokedAt t \<le> (if gt_AccessTokensOnly t then tr_accessRevokedAt r else tr_revokedAt r))"

lemma tombstone_holds_call:
  assumes "tombstone_holds t M" and "gc_within (gt_ExpiresAt t) c" and "0 < gt_ExpiresAt t"
  shows "tombstone_holds t (snd (spec_grv_call c M))"
proof -
  from assms(1) obtain r where r: "fst M (gt_GrantID t) = Some r" "gt_ExpiresAt t \<le> tr_expiresAt r"
    "gt_RevokedAt t \<le> (if gt_AccessTokensOnly t then tr_accessRevokedAt r else tr_revokedAt r)"
    by (auto simp: tombstone_holds_def)
  show ?thesis
  proof (cases c)
    case (GRevokeGrant u)
    with r show ?thesis
      by (cases "gt_GrantID u = gt_GrantID t")
         (auto simp: tombstone_holds_def tombstoneRow_merge_sel le_max_iff_disj)
  next
    case (GGC k)
    with assms(2,3) r have "\<not> expired_row tr_expiresAt k (fst M) (gt_GrantID t)"
      by (auto simp: expired_row_def IsExpiredStrict_def gc_within_def)
    with GGC r show ?thesis
      by (auto simp: tombstone_holds_def rows_expire_def)
  qed (use assms(1) in \<open>auto simp: tombstone_holds_def\<close>)
qed

lemma tombstone_holds_run:
  assumes "tombstone_holds t M" and "list_all (gc_within (gt_ExpiresAt t)) cs" and "0 < gt_ExpiresAt t"
  shows "tombstone_holds t (snd (run_calls spec_grv_call cs M))"
  by (rule run_calls_invariant [where P = "tombstone_holds t"])
     (use assms in \<open>auto simp: list_all_iff intro: tombstone_holds_call\<close>)

lemma tombstone_holds_step:
  assumes "grv_step (gt_ExpiresAt t) s s'" and "tombstone_holds t (grv_of s)" and "0 < gt_ExpiresAt t"
  shows "tombstone_holds t (grv_of s')"
  using assms
proof (induction rule: grv_step.induct)
  case (gstep_direct c s)
  then show ?case
    using tombstone_holds_call [of t "grv_of s" c] grv_call_refines [of c s] by simp
next
  case (gstep_commit cs s)
  then show ?case
    using tombstone_holds_run [of t "grv_of s" cs] grv_tx.run_sim [where parent = s and s = newGrantRevocationStaging and cs = cs]
    unfolding grv_flush_view by simp
qed

lemma tombstone_holds_revokes:
  assumes "tombstone_holds t M" and "gt_GrantID t \<noteq> []" and "tombstone_hits t (gt_GrantID t) iat"
  shows "spec_grv_IsRevoked (gt_GrantID t) j iat M"
    and "\<not> gt_AccessTokensOnly t \<Longrightarrow> spec_grv_IsIssuanceRevoked (gt_GrantID t) iat M"
  using assms
  by (auto simp: tombstone_holds_def tombstone_hits_def spec_grv_IsRevoked_def
      spec_grv_IsIssuanceRevoked_def tombstoneRow_revokes_def tombstoneRow_refusesIssuance_def
      covers_def split: if_splits)

lemma RevokeGrant_holds:
  "gt_GrantID t \<noteq> [] \<Longrightarrow> tombstone_holds t (grv_of (snd (grantRevocationStore_RevokeGrant t s)))"
  by (auto simp: grantRevocationStore_RevokeGrant_def tombstone_holds_def tombstoneRow_merge_sel
      newTombstoneRow_sel split: option.splits)

lemma IsRevoked_spec:
  "fst (grantRevocationStore_IsRevoked g j iat s) = spec_grv_IsRevoked g j iat (grv_of s)"
  "fst (grantRevocationStore_IsIssuanceRevoked g iat s) = spec_grv_IsIssuanceRevoked g iat (grv_of s)"
  using grv_call_refines [of "GIsRevoked g j iat" s] grv_call_refines [of "GIsIssuanceRevoked g iat" s]
  by (simp_all add: prod_eq_iff)


section \<open>The properties of the store\<close>

text \<open>
  C19. As long as nothing is reclaimed, the answers depend on the set of revocations and not on their
  order or number: an access token is revoked exactly when its JTI was denylisted or some tombstone
  of its grant, of either scope, carries an instant at or after its issuance, and issuance is refused
  exactly when a whole-grant tombstone does.
\<close>

theorem revocation_history:
  assumes "\<forall>k. GGC k \<notin> set cs"
  shows "let s = snd (run_calls grantRevocationStore_call cs newGrantRevocationStore)
         in fst (grantRevocationStore_IsRevoked g j iat s) = history_revokes cs g j iat \<and>
            fst (grantRevocationStore_IsIssuanceRevoked g iat s) = history_refuses cs g iat"
proof -
  have "grv_of newGrantRevocationStore = (\<lambda>_. None, \<lambda>_. None)"
    by (simp add: newGrantRevocationStore_def fmempty_lookup [abs_def])
  moreover have "cutoffs_ok (\<lambda>_. None, \<lambda>_. None)"
    by (simp add: cutoffs_ok_def)
  ultimately show ?thesis
    using history_run [OF _ assms, of "grv_of newGrantRevocationStore" g j iat]
      grv_direct.run_sim [where s = newGrantRevocationStore and cs = cs]
    by (simp add: IsRevoked_spec Let_def spec_grv_IsRevoked_def spec_grv_IsIssuanceRevoked_def)
qed

definition sample_tombstone :: "time \<Rightarrow> time \<Rightarrow> GrantTombstone" where
  "sample_tombstone at expires =
     \<lparr>gt_GrantID = ''g1'', gt_RevokedAt = at, gt_ExpiresAt = expires, gt_Reason = ''logout'',
      gt_AccessTokensOnly = False\<rparr>"

theorem revocation_history_witness:
  "fst (grantRevocationStore_IsRevoked ''g1'' ''j'' 50
     (snd (run_calls grantRevocationStore_call
        [GRevokeGrant (sample_tombstone 60 100), GRevokeGrant (sample_tombstone 40 100)] newGrantRevocationStore)))"
proof -
  let ?cs = "[GRevokeGrant (sample_tombstone 60 100), GRevokeGrant (sample_tombstone 40 100)]"
  have ngc: "\<forall>k. GGC k \<notin> set ?cs" by simp
  have "history_revokes ?cs ''g1'' ''j'' 50"
    unfolding history_revokes_def
    by (intro disjI2 conjI exI [of _ "sample_tombstone 60 100"])
       (simp_all add: tombstone_hits_def sample_tombstone_def)
  with revocation_history [OF ngc, of "''g1''" "''j''" 50] show ?thesis
    unfolding Let_def by blast
qed

text \<open>
  A revocation lasts: once a tombstone with an expiry is written, every access token of the grant
  issued up to its instant is refused (and issuance too, for a whole-grant tombstone) through any
  later direct calls and committed transactions, reclamations at cutoffs up to the expiry included.
\<close>

theorem revocation_persists:
  assumes "gt_GrantID t \<noteq> []" and "0 < gt_RevokedAt t" and "iat \<le> gt_RevokedAt t" and "0 < gt_ExpiresAt t"
    and "(grv_step (gt_ExpiresAt t))\<^sup>*\<^sup>* (snd (grantRevocationStore_RevokeGrant t s0)) s"
  shows "fst (grantRevocationStore_IsRevoked (gt_GrantID t) j iat s) \<and>
         (\<not> gt_AccessTokensOnly t \<longrightarrow> fst (grantRevocationStore_IsIssuanceRevoked (gt_GrantID t) iat s))"
proof -
  from assms(5) RevokeGrant_holds [OF assms(1), of s0] have "tombstone_holds t (grv_of s)"
    by (induction rule: rtranclp_induct) (auto intro: tombstone_holds_step assms(4))
  moreover have "tombstone_hits t (gt_GrantID t) iat"
    using assms by (simp add: tombstone_hits_def)
  ultimately show ?thesis
    using tombstone_holds_revokes assms(1) by (simp add: IsRevoked_spec)
qed

theorem revocation_persists_witness:
  "let s1 = snd (grantRevocationStore_RevokeGrant (sample_tombstone 60 100) newGrantRevocationStore);
       s2 = snd (grantRevocationStore_GC 90 s1)
   in (grv_step 100)\<^sup>*\<^sup>* s1 s2 \<and> fst (grantRevocationStore_IsRevoked ''g1'' ''j'' 50 s2)"
proof -
  let ?t = "sample_tombstone 60 100"
  let ?s1 = "snd (grantRevocationStore_RevokeGrant ?t newGrantRevocationStore)"
  have step: "(grv_step 100)\<^sup>*\<^sup>* ?s1 (snd (grantRevocationStore_GC 90 ?s1))"
    using gstep_direct [of 100 "GGC 90" ?s1] by (simp add: gc_within_def r_into_rtranclp)
  with revocation_persists [of ?t 50 newGrantRevocationStore _ "''j''"] show ?thesis
    by (simp add: Let_def sample_tombstone_def)
qed

text \<open>
  A tombstone without expiry is never reclaimed, until a later one with an expiry is merged into it:
  the zero instant loses the comparison, and the reclamation then forgets both.
\<close>

lemma unlimited_tombstone_collected:
  "let s = snd (run_calls grantRevocationStore_call
         [GRevokeGrant (sample_tombstone 60 0), GRevokeGrant (sample_tombstone 50 100), GGC 200]
         newGrantRevocationStore)
   in \<not> fst (grantRevocationStore_IsRevoked ''g1'' ''j'' 10 s)"
proof -
  let ?r = "tombstoneRow_merge (sample_tombstone 50 100) (newTombstoneRow (sample_tombstone 60 0))"
  have "tr_expiresAt ?r = 100"
    by (simp add: tombstoneRow_merge_sel newTombstoneRow_sel sample_tombstone_def)
  moreover have "gt_GrantID (sample_tombstone at e) = ''g1''" for at e
    by (simp add: sample_tombstone_def)
  moreover have "grv_of newGrantRevocationStore = (\<lambda>_. None, \<lambda>_. None)"
    by (simp add: newGrantRevocationStore_def fmempty_lookup [abs_def])
  ultimately have row: "snd (run_calls spec_grv_call
      [GRevokeGrant (sample_tombstone 60 0), GRevokeGrant (sample_tombstone 50 100), GGC 200]
      (grv_of newGrantRevocationStore)) = (\<lambda>_. None, \<lambda>_. None)"
    by (simp add: rows_expire_def expired_row_def IsExpiredStrict_def fun_eq_iff)
  have view: "grv_of (snd (run_calls grantRevocationStore_call cs newGrantRevocationStore)) =
      snd (run_calls spec_grv_call cs (grv_of newGrantRevocationStore))" for cs
    by (simp only: grv_direct.run_sim snd_conv)
  show ?thesis
    unfolding Let_def IsRevoked_spec view row by (simp add: spec_grv_IsRevoked_def)
qed

end
