(* ===== verification/ParStore.thy ===== *)
theory ParStore
  imports Store_Common
begin

text \<open>
  The substore of pushed authorization requests: the record of \<^verbatim>\<open>op/store/par.go\<close>, the direct
  operations of \<^verbatim>\<open>op/storeadapter/inmem/parstore.go\<close> and the transactional ones of \<^verbatim>\<open>inmem/tx.go\<close>.
  \<^verbatim>\<open>Find\<close> is the expiry gate and \<^verbatim>\<open>Consume\<close> the single-use gate; a row outlives its own expiry by
  the retention window, so that a login that takes longer than the request lives still completes.
  The lemmas show that the window holds whatever else the store is asked to do meanwhile, and that a
  request is redeemed once.
\<close>

record PushedAuthRequest =
  par_URI :: string
  par_ClientID :: string
  par_RawParams :: "8 word list"
  par_ExpiresAt :: time
  par_ConsumedAt :: "time option"
  par_CreatedAt :: time

record parStore =
  ps_m :: "PushedAuthRequest gomap"
  ps_savesSinceGC :: "32 word"

definition parRetention :: duration where
  "parRetention = 24 * hour"

definition parReclaimable :: "PushedAuthRequest \<Rightarrow> time \<Rightarrow> bool" where
  "parReclaimable rec now =
     (if par_ExpiresAt rec = zero_time then False
      else IsExpiredStrict (par_ExpiresAt rec + parRetention) now)"

definition newPARStore :: parStore where
  "newPARStore = \<lparr>ps_m = fmempty, ps_savesSinceGC = 0\<rparr>"

definition parStore_gcLocked :: "time \<Rightarrow> parStore \<Rightarrow> parStore" where
  "parStore_gcLocked now s = s\<lparr>ps_m := gm_sweep (\<lambda>rec. parReclaimable rec now) (ps_m s)\<rparr>"

definition parStore_maybeGCLocked :: "time \<Rightarrow> parStore \<Rightarrow> parStore" where
  "parStore_maybeGCLocked now s =
     (case sweeper_due (ps_savesSinceGC s) (gm_len (ps_m s)) of
        (due, w) \<Rightarrow>
          let s = s\<lparr>ps_savesSinceGC := w\<rparr>
          in if due then parStore_gcLocked now s else s)"

definition parStore_deleteReclaimableKeyLocked :: "key \<Rightarrow> time \<Rightarrow> parStore \<Rightarrow> parStore" where
  "parStore_deleteReclaimableKeyLocked key now s =
     s\<lparr>ps_m := snd (evictIf (ps_m s) key (\<lambda>rec. parReclaimable rec now))\<rparr>"

definition parStore_Save ::
  "time \<Rightarrow> PushedAuthRequest option \<Rightarrow> parStore \<Rightarrow> store_err option \<times> parStore" where
  "parStore_Save now par s =
     (case par of
        None \<Rightarrow> (Some (ErrOther ''inmem: nil pushed authorization request''), s)
      | Some p \<Rightarrow>
          let key = hashKey (par_URI p);
              s = parStore_deleteReclaimableKeyLocked key now s;
              s = parStore_maybeGCLocked now s
          in if fmlookup (ps_m s) key \<noteq> None then (Some ErrAlreadyExists, s)
             else (None, s\<lparr>ps_m := fmupd key (p\<lparr>par_URI := key\<rparr>) (ps_m s)\<rparr>))"

definition parStore_Find ::
  "time \<Rightarrow> string \<Rightarrow> parStore \<Rightarrow> PushedAuthRequest option \<times> store_err option" where
  "parStore_Find now uri s =
     (let key = hashKey uri
      in case fmlookup (ps_m s) key of
           None \<Rightarrow> (None, Some ErrNotFound)
         | Some rec \<Rightarrow>
             if \<not> constantTimeKeyMatch (par_URI rec) key then (None, Some ErrNotFound)
             else if isExpired (par_ExpiresAt rec) now then (None, Some ErrNotFound)
             else (Some (rec\<lparr>par_URI := uri\<rparr>), None))"

definition parStore_Consume ::
  "time \<Rightarrow> string \<Rightarrow> parStore \<Rightarrow> (PushedAuthRequest option \<times> store_err option) \<times> parStore" where
  "parStore_Consume now uri s =
     (let key = hashKey uri
      in case fmlookup (ps_m s) key of
           None \<Rightarrow> ((None, Some ErrNotFound), s)
         | Some rec \<Rightarrow>
             if \<not> constantTimeKeyMatch (par_URI rec) key then ((None, Some ErrNotFound), s)
             else if par_ConsumedAt rec \<noteq> None then ((None, Some ErrAlreadyConsumed), s)
             else
               let rec = rec\<lparr>par_ConsumedAt := Some now\<rparr>
               in ((Some (rec\<lparr>par_URI := uri\<rparr>), None), s\<lparr>ps_m := fmupd key rec (ps_m s)\<rparr>))"


section \<open>Staging inside a transaction\<close>

record parStaging =
  pst_added :: "PushedAuthRequest gomap"
  pst_updated :: "PushedAuthRequest gomap"

definition newParStaging :: parStaging where
  "newParStaging = \<lparr>pst_added = fmempty, pst_updated = fmempty\<rparr>"

definition parStaging_flushLocked :: "parStaging \<Rightarrow> parStore \<Rightarrow> parStore" where
  "parStaging_flushLocked st parent =
     parent\<lparr>ps_m := gm_copy (gm_copy (ps_m parent) (pst_added st)) (pst_updated st)\<rparr>"

definition parStaging_lookup :: "key \<Rightarrow> parStaging \<Rightarrow> parStore \<Rightarrow> PushedAuthRequest option" where
  "parStaging_lookup key st parent = stagedLookup key (pst_updated st) (pst_added st) (ps_m parent)"

definition txPARs_Save ::
  "store_err option \<Rightarrow> time \<Rightarrow> PushedAuthRequest option \<Rightarrow> parStore \<Rightarrow> parStaging \<Rightarrow>
     store_err option \<times> parStaging" where
  "txPARs_Save guard now par parent st =
     (case guard of
        Some e \<Rightarrow> (Some e, st)
      | None \<Rightarrow>
          (case par of
             None \<Rightarrow> (Some (ErrOther ''inmem: nil pushed authorization request''), st)
           | Some p \<Rightarrow>
               let key = hashKey (par_URI p)
               in if fmlookup (pst_added st) key \<noteq> None then (Some ErrAlreadyExists, st)
                  else
                    let parentExists =
                          (case fmlookup (ps_m parent) key of
                             None \<Rightarrow> False
                           | Some rec \<Rightarrow> \<not> parReclaimable rec now)
                    in if parentExists then (Some ErrAlreadyExists, st)
                       else (None, st\<lparr>pst_added := fmupd key (p\<lparr>par_URI := key\<rparr>) (pst_added st)\<rparr>)))"

definition txPARs_Find ::
  "store_err option \<Rightarrow> time \<Rightarrow> string \<Rightarrow> parStore \<Rightarrow> parStaging \<Rightarrow>
     PushedAuthRequest option \<times> store_err option" where
  "txPARs_Find guard now uri parent st =
     (case guard of
        Some e \<Rightarrow> (None, Some e)
      | None \<Rightarrow>
          (case parStaging_lookup (hashKey uri) st parent of
             None \<Rightarrow> (None, Some ErrNotFound)
           | Some rec \<Rightarrow>
               if isExpired (par_ExpiresAt rec) now then (None, Some ErrNotFound)
               else (Some (rec\<lparr>par_URI := uri\<rparr>), None)))"

definition txPARs_Consume ::
  "store_err option \<Rightarrow> time \<Rightarrow> string \<Rightarrow> parStore \<Rightarrow> parStaging \<Rightarrow>
     (PushedAuthRequest option \<times> store_err option) \<times> parStaging" where
  "txPARs_Consume guard now uri parent st =
     (case guard of
        Some e \<Rightarrow> ((None, Some e), st)
      | None \<Rightarrow>
          let key = hashKey uri
          in case parStaging_lookup key st parent of
               None \<Rightarrow> ((None, Some ErrNotFound), st)
             | Some rec \<Rightarrow>
                 if par_ConsumedAt rec \<noteq> None then ((None, Some ErrAlreadyConsumed), st)
                 else
                   let upd = rec\<lparr>par_ConsumedAt := Some now, par_URI := key\<rparr>
                   in ((Some (upd\<lparr>par_URI := uri\<rparr>), None),
                       st\<lparr>pst_updated := fmupd key upd (pst_updated st)\<rparr>))"


section \<open>Operations of the store\<close>

text \<open>A call on a transaction, and an operation of the store: a direct call or a whole committed session.\<close>

datatype par_call =
    PCSave time "PushedAuthRequest option"
  | PCFind time string
  | PCConsume time string

datatype par_reply =
    PRErr "store_err option"
  | PRRec "PushedAuthRequest option \<times> store_err option"

fun txPARs_call :: "parStore \<Rightarrow> par_call \<Rightarrow> parStaging \<Rightarrow> par_reply \<times> parStaging" where
  "txPARs_call parent (PCSave now p) st = map_prod PRErr id (txPARs_Save None now p parent st)"
| "txPARs_call parent (PCFind now uri) st = (PRRec (txPARs_Find None now uri parent st), st)"
| "txPARs_call parent (PCConsume now uri) st = map_prod PRRec id (txPARs_Consume None now uri parent st)"

datatype par_op =
    ParSave time "PushedAuthRequest option"
  | ParConsume time string
  | ParCommit "par_call list"

fun par_exec :: "par_op \<Rightarrow> parStore \<Rightarrow> parStore" where
  "par_exec (ParSave now p) s = snd (parStore_Save now p s)"
| "par_exec (ParConsume now uri) s = snd (parStore_Consume now uri s)"
| "par_exec (ParCommit cs) s =
     parStaging_flushLocked (snd (run_calls (txPARs_call s) cs newParStaging)) s"

text \<open>
  What an operation does that matters to one request: the instants at which it may reclaim rows, the
  keys it saves under and the keys it redeems.
\<close>

fun call_times :: "par_call \<Rightarrow> time set" where
  "call_times (PCSave now p) = {now}"
| "call_times _ = {}"

fun call_saves :: "par_call \<Rightarrow> key set" where
  "call_saves (PCSave now (Some p)) = {hashKey (par_URI p)}"
| "call_saves _ = {}"

fun call_redeems :: "par_call \<Rightarrow> key set" where
  "call_redeems (PCConsume now uri) = {hashKey uri}"
| "call_redeems _ = {}"

fun op_times :: "par_op \<Rightarrow> time set" where
  "op_times (ParSave now p) = {now}"
| "op_times (ParConsume now uri) = {}"
| "op_times (ParCommit cs) = (\<Union>c\<in>set cs. call_times c)"

fun op_saves :: "par_op \<Rightarrow> key set" where
  "op_saves (ParSave now (Some p)) = {hashKey (par_URI p)}"
| "op_saves (ParCommit cs) = (\<Union>c\<in>set cs. call_saves c)"
| "op_saves _ = {}"

fun op_redeems :: "par_op \<Rightarrow> key set" where
  "op_redeems (ParConsume now uri) = {hashKey uri}"
| "op_redeems (ParCommit cs) = (\<Union>c\<in>set cs. call_redeems c)"
| "op_redeems _ = {}"


section \<open>Rows through the operations\<close>

abbreviation pars_of :: "parStore \<Rightarrow> key \<Rightarrow> PushedAuthRequest option" where
  "pars_of s \<equiv> fmlookup (ps_m s)"

lemma parReclaimable_mono: "parReclaimable r now \<Longrightarrow> now \<le> later \<Longrightarrow> parReclaimable r later"
  by (auto simp: parReclaimable_def IsExpiredStrict_def split: if_splits)

lemma maybeGC_keeps:
  assumes "pars_of s k = Some r" and "\<not> parReclaimable r now"
  shows "pars_of (parStore_maybeGCLocked now s) k = Some r"
  using assms by (simp add: parStore_maybeGCLocked_def parStore_gcLocked_def Let_def split: prod.split)

lemma maybeGC_only_drops:
  "pars_of (parStore_maybeGCLocked now s) k = Some r \<Longrightarrow> pars_of s k = Some r"
  by (simp add: parStore_maybeGCLocked_def parStore_gcLocked_def Let_def
      split: prod.splits if_splits option.splits)

lemma evict_keeps:
  assumes "pars_of s k = Some r" and "\<not> parReclaimable r now"
  shows "pars_of (parStore_deleteReclaimableKeyLocked j now s) k = Some r"
  using assms by (auto simp: parStore_deleteReclaimableKeyLocked_def)

lemma evict_only_drops:
  "pars_of (parStore_deleteReclaimableKeyLocked j now s) k = Some r \<Longrightarrow> pars_of s k = Some r"
  by (simp add: parStore_deleteReclaimableKeyLocked_def split: if_splits option.splits)

lemma save_keeps:
  assumes "pars_of s k = Some r" and "\<not> parReclaimable r now"
  shows "pars_of (snd (parStore_Save now p s)) k = Some r"
proof (cases p)
  case (Some q)
  let ?s = "parStore_maybeGCLocked now (parStore_deleteReclaimableKeyLocked (hashKey (par_URI q)) now s)"
  have "pars_of ?s k = Some r"
    by (intro maybeGC_keeps evict_keeps assms)
  with Some show ?thesis
    by (auto simp: parStore_Save_def Let_def)
qed (simp add: parStore_Save_def assms)

lemma save_other_Some:
  assumes "pars_of (snd (parStore_Save now p s)) k = Some r" and "k \<notin> op_saves (ParSave now p)"
  shows "pars_of s k = Some r"
proof (cases p)
  case (Some q)
  let ?s = "parStore_maybeGCLocked now (parStore_deleteReclaimableKeyLocked (hashKey (par_URI q)) now s)"
  have "pars_of (snd (parStore_Save now p s)) k = pars_of ?s k"
    using assms(2) Some by (simp add: parStore_Save_def Let_def)
  with assms(1) have "pars_of ?s k = Some r" by simp
  then show ?thesis
    by (rule evict_only_drops [OF maybeGC_only_drops])
qed (use assms in \<open>simp add: parStore_Save_def\<close>)

lemma save_stores:
  assumes "fst (parStore_Save now (Some p) s) = None"
  shows "pars_of (snd (parStore_Save now (Some p) s)) (hashKey (par_URI p)) =
    Some (p\<lparr>par_URI := hashKey (par_URI p)\<rparr>)"
  using assms by (auto simp: parStore_Save_def Let_def split: if_splits)

lemma consume_other:
  "k \<noteq> hashKey uri \<Longrightarrow> pars_of (snd (parStore_Consume now uri s)) k = pars_of s k"
  by (simp add: parStore_Consume_def Let_def split: option.split)

lemma flush_row: "pars_of (parStaging_flushLocked st s) k = parStaging_lookup k st s"
  by (simp add: parStaging_flushLocked_def parStaging_lookup_def stagedLookup_def split: option.split)

lemma session_keeps:
  assumes "pars_of s k = Some r"
    and "\<forall>c\<in>set cs. k \<notin> call_redeems c \<and> (\<forall>t\<in>call_times c. \<not> parReclaimable r t)"
  shows "fmlookup (pst_added (snd (run_calls (txPARs_call s) cs newParStaging))) k = None \<and>
         fmlookup (pst_updated (snd (run_calls (txPARs_call s) cs newParStaging))) k = None"
proof (rule run_calls_invariant [where
      P = "\<lambda>st. fmlookup (pst_added st) k = None \<and> fmlookup (pst_updated st) k = None"])
  fix c and st :: parStaging
  assume "c \<in> set cs" and st: "fmlookup (pst_added st) k = None \<and> fmlookup (pst_updated st) k = None"
  then have c: "k \<notin> call_redeems c" "\<forall>t\<in>call_times c. \<not> parReclaimable r t"
    using assms(2) by auto
  show "fmlookup (pst_added (snd (txPARs_call s c st))) k = None \<and>
      fmlookup (pst_updated (snd (txPARs_call s c st))) k = None"
    using c st assms(1) by (cases c)
      (auto simp: txPARs_Save_def txPARs_Consume_def Let_def split: option.splits)
qed (simp add: newParStaging_def)

lemma exec_keeps:
  assumes "pars_of s k = Some r" and "k \<notin> op_redeems op"
    and "\<forall>t\<in>op_times op. \<not> parReclaimable r t"
  shows "pars_of (par_exec op s) k = Some r"
proof (cases op)
  case (ParCommit cs)
  with session_keeps [OF assms(1), of cs] assms show ?thesis
    by (simp add: flush_row parStaging_lookup_def stagedLookup_def)
qed (use assms in \<open>simp_all add: save_keeps consume_other\<close>)

lemma fold_exec_keeps:
  "pars_of s k = Some r \<Longrightarrow> \<forall>op\<in>set ops. k \<notin> op_redeems op \<and> (\<forall>t\<in>op_times op. \<not> parReclaimable r t) \<Longrightarrow>
     pars_of (fold par_exec ops s) k = Some r"
  by (induction ops arbitrary: s) (simp_all add: exec_keeps)


section \<open>Single use\<close>

definition par_spent :: "string \<Rightarrow> parStore \<Rightarrow> bool" where
  "par_spent uri s \<longleftrightarrow>
     (\<forall>r. pars_of s (hashKey uri) = Some r \<longrightarrow> par_ConsumedAt r \<noteq> None)"

lemma session_spent:
  assumes "par_spent uri s" and "\<forall>c\<in>set cs. hashKey uri \<notin> call_saves c"
  shows "fmlookup (pst_added (snd (run_calls (txPARs_call s) cs newParStaging))) (hashKey uri) = None \<and>
    (\<forall>r. fmlookup (pst_updated (snd (run_calls (txPARs_call s) cs newParStaging))) (hashKey uri) = Some r \<longrightarrow>
       par_ConsumedAt r \<noteq> None)"
proof (rule run_calls_invariant [where
      P = "\<lambda>st. fmlookup (pst_added st) (hashKey uri) = None \<and>
        (\<forall>r. fmlookup (pst_updated st) (hashKey uri) = Some r \<longrightarrow> par_ConsumedAt r \<noteq> None)"])
  fix c and st :: parStaging
  assume c: "c \<in> set cs" and st: "fmlookup (pst_added st) (hashKey uri) = None \<and>
        (\<forall>r. fmlookup (pst_updated st) (hashKey uri) = Some r \<longrightarrow> par_ConsumedAt r \<noteq> None)"
  show "fmlookup (pst_added (snd (txPARs_call s c st))) (hashKey uri) = None \<and>
      (\<forall>r. fmlookup (pst_updated (snd (txPARs_call s c st))) (hashKey uri) = Some r \<longrightarrow> par_ConsumedAt r \<noteq> None)"
  proof (cases c)
    case (PCSave now p)
    with c assms(2) st show ?thesis
      by (cases p) (auto simp: txPARs_Save_def Let_def)
  qed (use st in \<open>auto simp: txPARs_Consume_def Let_def split: option.splits\<close>)
qed (simp add: newParStaging_def)

definition par_step :: "string \<Rightarrow> parStore \<Rightarrow> parStore \<Rightarrow> bool" where
  "par_step uri s s' \<longleftrightarrow> (\<exists>op. hashKey uri \<notin> op_saves op \<and> s' = par_exec op s)"

lemma exec_spent:
  assumes "par_spent uri s" and "hashKey uri \<notin> op_saves op"
  shows "par_spent uri (par_exec op s)"
proof (cases op)
  case (ParSave now p)
  with assms show ?thesis
    by (auto simp: par_spent_def dest: save_other_Some)
next
  case (ParConsume now u)
  with assms(1) show ?thesis
    by (auto simp: par_spent_def parStore_Consume_def Let_def split: option.splits)
next
  case (ParCommit cs)
  with session_spent [OF assms(1), of cs] assms show ?thesis
    by (auto simp: par_spent_def flush_row parStaging_lookup_def stagedLookup_def split: option.splits)
qed

interpretation par_once: one_time_store parStore_Consume par_spent par_step
proof unfold_locales
  fix now i s r s'
  assume "parStore_Consume now i s = ((r, None), s')"
  then show "par_spent i s'"
    by (auto simp: parStore_Consume_def par_spent_def Let_def split: option.splits if_splits)
next
  fix i s now
  assume "par_spent i s"
  then show "snd (fst (parStore_Consume now i s)) \<noteq> None"
    by (auto simp: parStore_Consume_def par_spent_def Let_def split: option.splits)
next
  fix i s s'
  assume "par_step i s s'" and "par_spent i s"
  then show "par_spent i s'"
    by (auto simp: par_step_def exec_spent)
qed

lemma fold_exec_steps:
  "\<forall>op\<in>set ops. hashKey uri \<notin> op_saves op \<Longrightarrow> (par_step uri)\<^sup>*\<^sup>* s (fold par_exec ops s)"
proof (induction ops arbitrary: s)
  case (Cons op ops)
  from Cons.prems have "par_step uri s (par_exec op s)"
    by (auto simp: par_step_def)
  with Cons show ?case by (simp add: converse_rtranclp_into_rtranclp)
qed simp


section \<open>The properties of pushed requests\<close>

definition sample_par :: PushedAuthRequest where
  "sample_par = \<lparr>par_URI = ''urn:x'', par_ClientID = ''rp'', par_RawParams = [1, 2], par_ExpiresAt = 60 * second,
     par_ConsumedAt = None, par_CreatedAt = 1\<rparr>"

text \<open>
  A pushed request stays redeemable through its whole retention window, whatever the load: once
  saved, no push, no redemption of another request and no committed transaction that runs up to a day
  after its expiry can take it away, and redeeming it then returns it as it was pushed, even when its
  own lifetime is over.
\<close>

theorem par_redeemable_in_window:
  assumes "fst (parStore_Save now (Some p) s) = None" and "par_ConsumedAt p = None"
    and "\<forall>op\<in>set ops. hashKey (par_URI p) \<notin> op_redeems op \<and>
           (\<forall>t\<in>op_times op. par_ExpiresAt p = zero_time \<or> t \<le> par_ExpiresAt p + parRetention)"
  shows "fst (parStore_Consume later (par_URI p) (fold par_exec ops (snd (parStore_Save now (Some p) s)))) =
    (Some (p\<lparr>par_ConsumedAt := Some later\<rparr>), None)"
proof -
  let ?k = "hashKey (par_URI p)" let ?r = "p\<lparr>par_URI := hashKey (par_URI p)\<rparr>"
  have "pars_of (fold par_exec ops (snd (parStore_Save now (Some p) s))) ?k = Some ?r"
  proof (rule fold_exec_keeps [OF save_stores [OF assms(1)]], intro ballI conjI)
    fix op t assume op: "op \<in> set ops"
    with assms(3) show "?k \<notin> op_redeems op" by blast
    assume "t \<in> op_times op"
    with op assms(3) have "par_ExpiresAt p = zero_time \<or> t \<le> par_ExpiresAt p + parRetention" by blast
    then show "\<not> parReclaimable ?r t"
      by (auto simp: parReclaimable_def IsExpiredStrict_def)
  qed
  with assms(2) show ?thesis
    by (simp add: parStore_Consume_def Let_def)
qed

lemma sample_par_simps [simp]:
  "par_URI sample_par = ''urn:x''" "par_ConsumedAt sample_par = None" "par_ExpiresAt sample_par = 60 * second"
  by (simp_all add: sample_par_def)

lemma sample_par_saved: "fst (parStore_Save 1 (Some sample_par) newPARStore) = None"
  by (simp add: parStore_Save_def newPARStore_def parStore_maybeGCLocked_def parStore_gcLocked_def
      parStore_deleteReclaimableKeyLocked_def evictIf_def Let_def split: prod.split)

theorem par_redeemable_in_window_witness:
  "fst (parStore_Consume (90000 * second) ''urn:x''
     (fold par_exec [ParSave (80000 * second) (Some sample_par), ParSave 7 None]
       (snd (parStore_Save 1 (Some sample_par) newPARStore)))) =
     (Some (sample_par\<lparr>par_ConsumedAt := Some (90000 * second)\<rparr>), None)"
proof -
  have "\<forall>op\<in>set [ParSave (80000 * second) (Some sample_par), ParSave 7 None].
      hashKey (par_URI sample_par) \<notin> op_redeems op \<and>
      (\<forall>t\<in>op_times op. par_ExpiresAt sample_par = zero_time \<or> t \<le> par_ExpiresAt sample_par + parRetention)"
    by (simp add: parRetention_def duration_defs)
  from par_redeemable_in_window [OF sample_par_saved sample_par_simps(2) this] show ?thesis
    unfolding sample_par_simps(1) .
qed

text \<open>
  A pushed request is redeemed once: after a successful redemption every later one fails, through
  any direct calls and committed transactions that do not push the same request again.
\<close>

theorem par_single_use:
  assumes "parStore_Consume now uri s = ((r, None), s')"
    and "\<forall>op\<in>set ops. hashKey uri \<notin> op_saves op"
  shows "snd (fst (parStore_Consume later uri (fold par_exec ops s'))) \<noteq> None"
  by (rule par_once.consumed_once [OF assms(1) fold_exec_steps [OF assms(2)]])

theorem par_single_use_witness:
  "snd (fst (parStore_Consume 9 ''urn:x'' (fold par_exec [ParCommit [PCConsume 8 ''urn:x'']]
     (snd (parStore_Consume 7 ''urn:x'' (snd (parStore_Save 1 (Some sample_par) newPARStore))))))) \<noteq> None"
proof -
  let ?s = "snd (parStore_Save 1 (Some sample_par) newPARStore)"
  have "parStore_Consume 7 ''urn:x'' ?s =
      ((Some (sample_par\<lparr>par_ConsumedAt := Some 7, par_URI := ''urn:x''\<rparr>), None), snd (parStore_Consume 7 ''urn:x'' ?s))"
    using save_stores [OF sample_par_saved] by (simp add: parStore_Consume_def Let_def)
  moreover have "\<forall>op\<in>set [ParCommit [PCConsume 8 ''urn:x'']]. hashKey ''urn:x'' \<notin> op_saves op"
    by simp
  ultimately show ?thesis
    by (rule par_single_use)
qed

text \<open>
  Inside one transaction a request pushed under the URI of a redeemed row past its retention is
  accepted and then shadowed by the redeemed row, which the commit publishes.
\<close>

lemma par_tx_push_shadowed:
  assumes "pars_of s (hashKey (par_URI p)) = Some r" and "par_ConsumedAt r = None" and "parReclaimable r now"
  shows "let st = snd (txPARs_Consume None now (par_URI p) s newParStaging);
             (e, st) = txPARs_Save None now (Some p) s st
         in e = None \<and>
            pars_of (parStaging_flushLocked st s) (hashKey (par_URI p)) =
              Some (r\<lparr>par_ConsumedAt := Some now, par_URI := hashKey (par_URI p)\<rparr>)"
  using assms
  by (simp add: txPARs_Consume_def txPARs_Save_def flush_row parStaging_lookup_def stagedLookup_def
      newParStaging_def Let_def)

end
