(* ===== verification/TxCluster.thy ===== *)
theory TxCluster
  imports RefreshTx AuthCodeStore OpaqueTokens GrantRevocation GrantStore ParStore
begin

text \<open>
  The atomic cluster of \<^verbatim>\<open>op/storeadapter/inmem\<close>: the seven substores a transaction spans, \<^verbatim>\<open>BeginTx\<close>,
  \<^verbatim>\<open>Commit\<close> and \<^verbatim>\<open>Rollback\<close> of \<^verbatim>\<open>inmem.go\<close> and \<^verbatim>\<open>tx.go\<close>, and the executions in which transactions and
  direct calls interleave. A transaction owns the mutexes of the seven substores for its lifetime, so
  a direct call and a second \<^verbatim>\<open>BeginTx\<close> wait; the flag \<open>st_locked\<close> is that lock set, and a call that
  would wait is \<open>None\<close>.

  The lemmas show that every execution of the cluster projects to an execution of each substore, so
  that what the substore theories prove holds of the whole store, that a commit publishes in all
  seven substores what the transaction showed, and that a rolled back or closed transaction changes
  nothing.
\<close>

record inmem_Store =
  st_authCodes :: authCodeStore
  st_refreshes :: refreshStore
  st_grants :: grantStore
  st_pars :: parStore
  st_accessTokens :: accessTokenStore
  st_opaqueAccessTokens :: opaqueAccessTokenStore
  st_grantRevocations :: grantRevocationStore
  st_locked :: bool

definition Store_New :: inmem_Store where
  "Store_New =
     \<lparr>st_authCodes = newAuthCodeStore, st_refreshes = newRefreshStore, st_grants = newGrantStore,
      st_pars = newPARStore, st_accessTokens = newAccessTokenStore,
      st_opaqueAccessTokens = newOpaqueAccessTokenStore,
      st_grantRevocations = newGrantRevocationStore, st_locked = False\<rparr>"

record inmem_tx =
  tx_closed :: bool
  tx_acStaging :: authCodeStaging
  tx_rtStaging :: refreshStaging
  tx_grStaging :: grantStaging
  tx_parStaging :: parStaging
  tx_atStaging :: "AccessTokenRecord overlay"
  tx_oatStaging :: "OpaqueAccessToken overlay"
  tx_grvStaging :: grantRevocationStaging

definition newTx :: inmem_tx where
  "newTx =
     \<lparr>tx_closed = False, tx_acStaging = newAuthCodeStaging, tx_rtStaging = newRefreshStaging,
      tx_grStaging = newGrantStaging, tx_parStaging = newParStaging, tx_atStaging = newOverlay,
      tx_oatStaging = newOverlay, tx_grvStaging = newGrantRevocationStaging\<rparr>"

definition Store_lockTxCluster :: "inmem_Store \<Rightarrow> inmem_Store option" where
  "Store_lockTxCluster s = (if st_locked s then None else Some (s\<lparr>st_locked := True\<rparr>))"

definition Store_unlockTxCluster :: "inmem_Store \<Rightarrow> inmem_Store" where
  "Store_unlockTxCluster s = s\<lparr>st_locked := False\<rparr>"

text \<open>
  \<^verbatim>\<open>BeginTx\<close>: \<open>before\<close> and \<open>after\<close> are what \<^verbatim>\<open>ctx.Err()\<close> returns before and after the locks are taken.
\<close>

definition Store_BeginTx ::
  "store_err option \<Rightarrow> store_err option \<Rightarrow> inmem_Store \<Rightarrow>
     ((inmem_tx option \<times> store_err option) \<times> inmem_Store) option" where
  "Store_BeginTx before after s =
     (case before of
        Some e \<Rightarrow> Some ((None, Some e), s)
      | None \<Rightarrow>
          (case Store_lockTxCluster s of
             None \<Rightarrow> None
           | Some s \<Rightarrow>
               (case after of
                  Some e \<Rightarrow> Some ((None, Some e), Store_unlockTxCluster s)
                | None \<Rightarrow> Some ((Some newTx, None), s))))"

text \<open>
  \<^verbatim>\<open>Commit\<close>: two substores read the clock when they flush, the others do not. The store is locked
  until the last flush, which the deferred \<^verbatim>\<open>releaseLocks\<close> ends.
\<close>

definition tx_Commit ::
  "time \<Rightarrow> time \<Rightarrow> inmem_tx \<Rightarrow> inmem_Store \<Rightarrow> (store_err option \<times> inmem_tx) \<times> inmem_Store" where
  "tx_Commit nowAC nowRT t s =
     (if tx_closed t then ((Some errTxClosed, t), s)
      else
        let t = t\<lparr>tx_closed := True\<rparr>;
            s = s\<lparr>st_authCodes := authCodeStaging_flushLocked nowAC (tx_acStaging t) (st_authCodes s)\<rparr>;
            s = s\<lparr>st_refreshes := refreshStaging_flushLocked nowRT (tx_rtStaging t) (st_refreshes s)\<rparr>;
            s = s\<lparr>st_grants := grantStaging_flushLocked (tx_grStaging t) (st_grants s)\<rparr>;
            s = s\<lparr>st_pars := parStaging_flushLocked (tx_parStaging t) (st_pars s)\<rparr>;
            s = s\<lparr>st_accessTokens := accessTokenStore_overlay_flush (tx_atStaging t) (st_accessTokens s)\<rparr>;
            s = s\<lparr>st_opaqueAccessTokens :=
                  opaqueAccessTokenStore_overlay_flush (tx_oatStaging t) (st_opaqueAccessTokens s)\<rparr>;
            s = s\<lparr>st_grantRevocations :=
                  grantRevocationStaging_flushLocked (tx_grvStaging t) (st_grantRevocations s)\<rparr>
        in ((None, t), Store_unlockTxCluster s))"

definition tx_clearStaging :: "inmem_tx \<Rightarrow> inmem_tx" where
  "tx_clearStaging t =
     t\<lparr>tx_acStaging := \<lparr>acst_added = fmempty, acst_updated = fmempty\<rparr>,
       tx_rtStaging := \<lparr>rst_added = fmempty, rst_updated = fmempty, rst_byGrant = fmempty,
                        rst_byParent = fmempty, rst_revoked = {||}, rst_retries = fmempty\<rparr>,
       tx_grStaging := \<lparr>gst_added = fmempty, gst_deleted = {||}\<rparr>,
       tx_parStaging := \<lparr>pst_added = fmempty, pst_updated = fmempty\<rparr>,
       tx_atStaging := overlay_clear (tx_atStaging t),
       tx_oatStaging := overlay_clear (tx_oatStaging t),
       tx_grvStaging := grantRevocationStaging_clear (tx_grvStaging t)\<rparr>"

definition tx_Rollback :: "inmem_tx \<Rightarrow> inmem_Store \<Rightarrow> (store_err option \<times> inmem_tx) \<times> inmem_Store" where
  "tx_Rollback t s =
     (if tx_closed t then ((None, t), s)
      else ((None, tx_clearStaging (t\<lparr>tx_closed := True\<rparr>)), Store_unlockTxCluster s))"


section \<open>Calls on a transaction\<close>

datatype tx_call =
    OnCodes code_call
  | OnRefreshes refresh_call
  | OnGrants grant_call
  | OnPARs par_call
  | OnAccess access_call
  | OnOpaque opaque_call
  | OnRevocations grv_call

datatype tx_reply =
    Refused store_err
  | FromCodes code_reply
  | FromRefreshes refresh_reply
  | FromGrants grant_reply
  | FromPARs par_reply
  | FromAccess access_reply
  | FromOpaque opaque_reply
  | FromRevocations grv_reply

text \<open>Every substore of a transaction works on its own staging against its own committed parent.\<close>

fun tx_dispatch :: "inmem_Store \<Rightarrow> tx_call \<Rightarrow> inmem_tx \<Rightarrow> tx_reply \<times> inmem_tx" where
  "tx_dispatch s (OnCodes c) t =
     (case tx_code_call c (st_authCodes s) (tx_acStaging t) of (r, st) \<Rightarrow> (FromCodes r, t\<lparr>tx_acStaging := st\<rparr>))"
| "tx_dispatch s (OnRefreshes c) t =
     (case tx_refresh_call c (st_refreshes s) (tx_rtStaging t) of (r, st) \<Rightarrow> (FromRefreshes r, t\<lparr>tx_rtStaging := st\<rparr>))"
| "tx_dispatch s (OnGrants c) t =
     (case txGrants_call ascending (st_grants s) c (tx_grStaging t) of (r, st) \<Rightarrow> (FromGrants r, t\<lparr>tx_grStaging := st\<rparr>))"
| "tx_dispatch s (OnPARs c) t =
     (case txPARs_call (st_pars s) c (tx_parStaging t) of (r, st) \<Rightarrow> (FromPARs r, t\<lparr>tx_parStaging := st\<rparr>))"
| "tx_dispatch s (OnAccess c) t =
     (case txAccessTokens_call None (st_accessTokens s) c (tx_atStaging t) of
        (r, st) \<Rightarrow> (FromAccess r, t\<lparr>tx_atStaging := st\<rparr>))"
| "tx_dispatch s (OnOpaque c) t =
     (case txOpaqueAccessTokens_call None (st_opaqueAccessTokens s) c (tx_oatStaging t) of
        (r, st) \<Rightarrow> (FromOpaque r, t\<lparr>tx_oatStaging := st\<rparr>))"
| "tx_dispatch s (OnRevocations c) t =
     (case txGrantRevocations_call None (st_grantRevocations s) c (tx_grvStaging t) of
        (r, st) \<Rightarrow> (FromRevocations r, t\<lparr>tx_grvStaging := st\<rparr>))"

text \<open>A request is a call together with the error of its context.\<close>

definition tx_request :: "inmem_Store \<Rightarrow> store_err option \<times> tx_call \<Rightarrow> inmem_tx \<Rightarrow> tx_reply \<times> inmem_tx" where
  "tx_request s rq t =
     (case tx_guard (tx_closed t) (fst rq) of
        Some e \<Rightarrow> (Refused e, t)
      | None \<Rightarrow> tx_dispatch s (snd rq) t)"

text \<open>
  Each operation consults the guard first: with a guard error it returns that error and leaves the
  staging as it was. These equations are what \<open>tx_request\<close> factors out of the operations.
\<close>

lemma guarded_codes:
  "txAuthCodes_Save (Some e) c p st = (Some e, st)"
  "txAuthCodes_Find (Some e) now i p st = (None, Some e)"
  "txAuthCodes_Consume (Some e) now i p st = ((None, Some e), st)"
  by (simp_all add: txAuthCodes_Save_def txAuthCodes_Find_def txAuthCodes_Consume_def)

lemma guarded_refreshes:
  "txRefreshes_Save (Some e) tok p st = (Some e, st)"
  "txRefreshes_SaveRotationWithRetry True ctx tok sealed p st = (Some errTxClosed, st)"
  "txRefreshes_LoadRetryResponse (Some e) now i p st = (None, Some e)"
  "txRefreshes_Find (Some e) now i p st = (None, Some e)"
  "txRefreshes_Consume (Some e) now i p st = ((None, Some e), st)"
  "txRefreshes_RevokeChain (Some e) now i p st = (Some e, st)"
  "txRefreshes_RevokeByGrant (Some e) now g p st = (Some e, st)"
  by (simp_all add: txRefreshes_Save_def txRefreshes_SaveRotationWithRetry_def txRefreshes_LoadRetryResponse_def
      txRefreshes_Find_def txRefreshes_Consume_def txRefreshes_RevokeChain_def txRefreshes_RevokeByGrant_def)

lemma guarded_grants:
  "txGrants_Save (Some e) g gst = (Some e, gst)"
  "txGrants_Find (Some e) gp i gst = (None, Some e)"
  "txGrants_FindBySubjectClient (Some e) ao po gp sub client gst = (None, Some e)"
  "txGrants_ListBySubject (Some e) ao po gp sub gst = ([], Some e)"
  "txGrants_ListClientIDsBySubject (Some e) ao po gp sub cur lim gst = (([], []), Some e)"
  "txGrants_ListSubjectsByClient (Some e) ao po gp client cur lim gst = (([], []), Some e)"
  "txGrants_Delete (Some e) gp i gst = (Some e, gst)"
  "txGrants_HasAny (Some e) ao po gp gst = (False, Some e)"
  by (simp_all add: txGrants_Save_def txGrants_Find_def txGrants_FindBySubjectClient_def txGrants_ListBySubject_def
      txGrants_ListClientIDsBySubject_def txGrants_ListSubjectsByClient_def txGrants_Delete_def txGrants_HasAny_def)

lemma guarded_pars:
  "txPARs_Save (Some e) now par p st = (Some e, st)"
  "txPARs_Find (Some e) now u p st = (None, Some e)"
  "txPARs_Consume (Some e) now u p st = ((None, Some e), st)"
  by (simp_all add: txPARs_Save_def txPARs_Find_def txPARs_Consume_def)

lemma guarded_tokens:
  "txAccessTokens_Register (Some e) ap rec ast = (Some e, ast)"
  "txAccessTokens_Find (Some e) ap j ast = (None, Some e)"
  "txAccessTokens_RevokeByJTI (Some e) ap j ast = (Some e, ast)"
  "txAccessTokens_RevokeByGrant (Some e) ap g ast = ((0, Some e), ast)"
  "txAccessTokens_GC (Some e) ap cutoff ast = ((0, Some e), ast)"
  "txOpaqueAccessTokens_Save (Some e) op tok ost = (Some e, ost)"
  "txOpaqueAccessTokens_Find (Some e) op i ost = (None, Some e)"
  "txOpaqueAccessTokens_RevokeByID (Some e) op i ost = (Some e, ost)"
  "txOpaqueAccessTokens_RevokeByGrant (Some e) op g ost = ((0, Some e), ost)"
  "txOpaqueAccessTokens_RevokeByChain (Some e) op g ch ost = ((0, Some e), ost)"
  "txOpaqueAccessTokens_GC (Some e) op cutoff ost = ((0, Some e), ost)"
  by (simp_all add: txAccessTokens_Register_def txAccessTokens_Find_def txAccessTokens_RevokeByJTI_def
      txAccessTokens_RevokeByGrant_def txAccessTokens_GC_def txOpaqueAccessTokens_Save_def
      txOpaqueAccessTokens_Find_def txOpaqueAccessTokens_RevokeByID_def txOpaqueAccessTokens_RevokeByGrant_def
      txOpaqueAccessTokens_RevokeByChain_def txOpaqueAccessTokens_GC_def)

lemma guarded_revocations:
  "txGrantRevocations_RevokeGrant (Some e) p tomb st = (Some e, st)"
  "txGrantRevocations_RevokeJTI (Some e) p r st = (Some e, st)"
  "txGrantRevocations_IsRevoked (Some e) p g j iat st = (False, Some e)"
  "txGrantRevocations_IsIssuanceRevoked (Some e) p g iat st = (False, Some e)"
  "txGrantRevocations_GC (Some e) p cutoff st = ((0, Some e), st)"
  by (simp_all add: txGrantRevocations_RevokeGrant_def txGrantRevocations_RevokeJTI_def
      txGrantRevocations_IsRevoked_def txGrantRevocations_IsIssuanceRevoked_def txGrantRevocations_GC_def)


section \<open>Direct calls and executions\<close>

datatype direct_call =
    DCodeSave time "AuthorizationCode option"
  | DCodeConsume time string
  | DRefresh refresh_call
  | DRefreshClient time string
  | DGrant grant_call
  | DGrantClient string
  | DParSave time "PushedAuthRequest option"
  | DParConsume time string
  | DAccess access_call
  | DAccessClient string
  | DOpaque opaque_call
  | DOpaqueClient string
  | DRevocation grv_call

fun direct_exec :: "direct_call \<Rightarrow> inmem_Store \<Rightarrow> inmem_Store" where
  "direct_exec (DCodeSave now c) s = s\<lparr>st_authCodes := snd (authCodeStore_Save now c (st_authCodes s))\<rparr>"
| "direct_exec (DCodeConsume now i) s = s\<lparr>st_authCodes := snd (authCodeStore_Consume now i (st_authCodes s))\<rparr>"
| "direct_exec (DRefresh c) s = s\<lparr>st_refreshes := snd (refreshStore_call c (st_refreshes s))\<rparr>"
| "direct_exec (DRefreshClient now i) s =
     s\<lparr>st_refreshes := snd (refreshStore_RevokeByClient now i (st_refreshes s))\<rparr>"
| "direct_exec (DGrant c) s = s\<lparr>st_grants := snd (grantStore_call ascending c (st_grants s))\<rparr>"
| "direct_exec (DGrantClient i) s = s\<lparr>st_grants := snd (grantStore_RevokeByClient i (st_grants s))\<rparr>"
| "direct_exec (DParSave now p) s = s\<lparr>st_pars := snd (parStore_Save now p (st_pars s))\<rparr>"
| "direct_exec (DParConsume now u) s = s\<lparr>st_pars := snd (parStore_Consume now u (st_pars s))\<rparr>"
| "direct_exec (DAccess c) s = s\<lparr>st_accessTokens := snd (accessTokenStore_call c (st_accessTokens s))\<rparr>"
| "direct_exec (DAccessClient i) s =
     s\<lparr>st_accessTokens := snd (accessTokenStore_RevokeByClient i (st_accessTokens s))\<rparr>"
| "direct_exec (DOpaque c) s =
     s\<lparr>st_opaqueAccessTokens := snd (opaqueAccessTokenStore_call c (st_opaqueAccessTokens s))\<rparr>"
| "direct_exec (DOpaqueClient i) s =
     s\<lparr>st_opaqueAccessTokens := snd (opaqueAccessTokenStore_RevokeByClient i (st_opaqueAccessTokens s))\<rparr>"
| "direct_exec (DRevocation c) s =
     s\<lparr>st_grantRevocations := snd (grantRevocationStore_call c (st_grantRevocations s))\<rparr>"

text \<open>
  An execution of the store: the state of the substores and the open transaction, if any. A direct
  call needs a mutex of the cluster, so it runs only while the cluster is not locked.
\<close>

inductive cluster_step :: "inmem_Store \<times> inmem_tx option \<Rightarrow> inmem_Store \<times> inmem_tx option \<Rightarrow> bool" where
  cs_direct: "\<not> st_locked s \<Longrightarrow> cluster_step (s, T) (direct_exec c s, T)"
| cs_begin: "Store_BeginTx b a s = Some ((Some t, None), s') \<Longrightarrow> cluster_step (s, T) (s', Some t)"
| cs_begin_fails: "Store_BeginTx b a s = Some ((None, e), s') \<Longrightarrow> cluster_step (s, T) (s', T)"
| cs_request: "cluster_step (s, Some t) (s, Some (snd (tx_request s rq t)))"
| cs_commit: "tx_Commit nowAC nowRT t s = ((None, t'), s') \<Longrightarrow> cluster_step (s, Some t) (s', None)"
| cs_rollback: "tx_Rollback t s = ((None, t'), s') \<Longrightarrow> cluster_step (s, Some t) (s', None)"

definition cluster_reachable :: "inmem_Store \<times> inmem_tx option \<Rightarrow> bool" where
  "cluster_reachable C \<longleftrightarrow> cluster_step\<^sup>*\<^sup>* (Store_New, None) C"


section \<open>Executions project to the substores\<close>

lemma run_calls_snoc: "snd (run_calls call (cs @ [c]) s) = snd (call c (snd (run_calls call cs s)))"
  by (induction cs arbitrary: s) (simp_all add: case_prod_beta)

definition session_of :: "inmem_Store \<Rightarrow> inmem_tx \<Rightarrow> bool" where
  "session_of s t \<longleftrightarrow>
     \<not> tx_closed t
     \<and> (\<exists>cs. tx_acStaging t = snd (tx_code_run cs (st_authCodes s) newAuthCodeStaging))
     \<and> (\<exists>cs. tx_rtStaging t = snd (tx_refresh_run cs (st_refreshes s) newRefreshStaging))
     \<and> (\<exists>cs. tx_grStaging t = snd (run_calls (txGrants_call ascending (st_grants s)) cs newGrantStaging))
     \<and> (\<exists>cs. tx_parStaging t = snd (run_calls (txPARs_call (st_pars s)) cs newParStaging))
     \<and> (\<exists>cs. tx_atStaging t = snd (run_calls (txAccessTokens_call None (st_accessTokens s)) cs newOverlay))
     \<and> (\<exists>cs. tx_oatStaging t =
           snd (run_calls (txOpaqueAccessTokens_call None (st_opaqueAccessTokens s)) cs newOverlay))
     \<and> (\<exists>cs. tx_grvStaging t =
           snd (run_calls (txGrantRevocations_call None (st_grantRevocations s)) cs newGrantRevocationStaging))"

definition substores_reachable :: "inmem_Store \<Rightarrow> bool" where
  "substores_reachable s \<longleftrightarrow>
     authcode_reachable (st_authCodes s)
     \<and> refresh_reachable (st_refreshes s)
     \<and> (\<exists>ops. st_pars s = fold par_exec ops newPARStore)
     \<and> access_step\<^sup>*\<^sup>* newAccessTokenStore (st_accessTokens s)
     \<and> opaque_step\<^sup>*\<^sup>* newOpaqueAccessTokenStore (st_opaqueAccessTokens s)"

lemma substores_reachable_lock [simp]: "substores_reachable (s\<lparr>st_locked := b\<rparr>) = substores_reachable s"
  by (simp add: substores_reachable_def)

lemma session_of_lock [simp]: "session_of (s\<lparr>st_locked := b\<rparr>) t = session_of s t"
  by (simp add: session_of_def)

lemma session_of_new: "session_of s newTx"
  unfolding session_of_def newTx_def by (intro conjI; (rule exI [of _ "[]"])?; simp)

lemma session_extend:
  "\<exists>cs. st = snd (run_calls call cs st0) \<Longrightarrow> \<exists>cs. snd (call c st) = snd (run_calls call cs st0)"
  using run_calls_snoc by metis

lemmas session_extends = session_extend
  session_extend [where call = "\<lambda>c. tx_code_call c p" for p]
  session_extend [where call = "\<lambda>c. tx_refresh_call c p" for p]

lemma session_of_request:
  assumes "session_of s t"
  shows "session_of s (snd (tx_request s rq t))"
proof (cases "tx_guard (tx_closed t) (fst rq)")
  case None
  then have "tx_request s rq t = tx_dispatch s (snd rq) t"
    by (simp add: tx_request_def)
  moreover have "session_of s (snd (tx_dispatch s (snd rq) t))"
    using assms unfolding session_of_def
    by (cases "snd rq") (simp_all add: case_prod_beta session_extends)
  ultimately show ?thesis by simp
qed (simp add: tx_request_def assms)

lemma par_snoc: "\<exists>ops. s = fold par_exec ops s0 \<Longrightarrow> \<exists>ops. par_exec op s = fold par_exec ops s0"
proof -
  assume "\<exists>ops. s = fold par_exec ops s0"
  then obtain ops where "s = fold par_exec ops s0" ..
  then have "par_exec op s = fold par_exec (ops @ [op]) s0" by simp
  then show ?thesis ..
qed

lemma direct_reachable:
  assumes "substores_reachable s"
  shows "substores_reachable (direct_exec c s)"
proof -
  note par = par_snoc [where s = "st_pars s" and s0 = newPARStore]
  show ?thesis
  proof (cases c)
    case (DParSave now p)
    with assms show ?thesis
      using par [where op = "ParSave now p"] by (simp add: substores_reachable_def)
  next
    case (DParConsume now u)
    with assms show ?thesis
      using par [where op = "ParConsume now u"] by (simp add: substores_reachable_def)
  qed (use assms in \<open>auto simp: substores_reachable_def refresh_reachable_def
      intro: reach_save reach_consume rtranclp.rtrancl_into_rtrancl refresh_step.intros access_step.intros opaque_step.intros\<close>)
qed

lemma commit_reachable:
  assumes "substores_reachable s" and "session_of s t" and "tx_Commit nowAC nowRT t s = ((e, t'), s')"
  shows "substores_reachable s' \<and> \<not> st_locked s'"
proof -
  from assms(2) obtain ac rt par at oat where cs:
    "tx_acStaging t = snd (tx_code_run ac (st_authCodes s) newAuthCodeStaging)"
    "tx_rtStaging t = snd (tx_refresh_run rt (st_refreshes s) newRefreshStaging)"
    "tx_parStaging t = snd (run_calls (txPARs_call (st_pars s)) par newParStaging)"
    "tx_atStaging t = snd (run_calls (txAccessTokens_call None (st_accessTokens s)) at newOverlay)"
    "tx_oatStaging t = snd (run_calls (txOpaqueAccessTokens_call None (st_opaqueAccessTokens s)) oat newOverlay)"
    and closed: "\<not> tx_closed t"
    unfolding session_of_def by blast
  have "\<exists>ops. par_exec (ParCommit par) (st_pars s) = fold par_exec ops newPARStore"
    using assms(1) by (intro par_snoc) (simp add: substores_reachable_def)
  then have "\<exists>ops. parStaging_flushLocked (tx_parStaging t) (st_pars s) = fold par_exec ops newPARStore"
    by (simp add: cs)
  moreover have "authcode_reachable (authCodeStaging_flushLocked nowAC (tx_acStaging t) (st_authCodes s))"
    using assms(1) unfolding cs by (simp add: substores_reachable_def reach_commit)
  moreover have "refresh_reachable (refreshStaging_flushLocked nowRT (tx_rtStaging t) (st_refreshes s))"
    using assms(1) rstep_commit [of "st_refreshes s" nowRT rt] unfolding cs refresh_reachable_def substores_reachable_def
    by (meson rtranclp.rtrancl_into_rtrancl)
  moreover have "access_step\<^sup>*\<^sup>* newAccessTokenStore (accessTokenStore_overlay_flush (tx_atStaging t) (st_accessTokens s))"
    using assms(1) astep_commit [of "st_accessTokens s" at] unfolding cs substores_reachable_def
    by (meson rtranclp.rtrancl_into_rtrancl)
  moreover have "opaque_step\<^sup>*\<^sup>* newOpaqueAccessTokenStore
      (opaqueAccessTokenStore_overlay_flush (tx_oatStaging t) (st_opaqueAccessTokens s))"
    using assms(1) ostep_commit [of "st_opaqueAccessTokens s" oat] unfolding cs substores_reachable_def
    by (meson rtranclp.rtrancl_into_rtrancl)
  ultimately show ?thesis
    using assms(3) closed by (auto simp: tx_Commit_def Let_def Store_unlockTxCluster_def substores_reachable_def)
qed

definition cluster_inv :: "inmem_Store \<times> inmem_tx option \<Rightarrow> bool" where
  "cluster_inv C \<longleftrightarrow>
     substores_reachable (fst C)
     \<and> st_locked (fst C) = (snd C \<noteq> None)
     \<and> (\<forall>t. snd C = Some t \<longrightarrow> session_of (fst C) t)"

lemma cluster_inv_step: "cluster_step C C' \<Longrightarrow> cluster_inv C \<Longrightarrow> cluster_inv C'"
proof (induction rule: cluster_step.induct)
  case (cs_direct s T c)
  then have "T = None" by (simp add: cluster_inv_def)
  moreover have "st_locked (direct_exec c s) = st_locked s" by (cases c) simp_all
  ultimately show ?case
    using cs_direct direct_reachable by (simp add: cluster_inv_def)
next
  case (cs_begin b a s t s' T)
  then show ?case
    by (auto simp: cluster_inv_def Store_BeginTx_def Store_lockTxCluster_def session_of_new split: option.splits if_splits)
next
  case (cs_begin_fails b a s e s' T)
  then show ?case
    by (auto simp: cluster_inv_def Store_BeginTx_def Store_lockTxCluster_def Store_unlockTxCluster_def
        split: option.splits if_splits)
next
  case (cs_request s t rq)
  then show ?case by (simp add: cluster_inv_def session_of_request)
next
  case (cs_commit nowAC nowRT t s t' s')
  then show ?case using commit_reachable [of s t] by (auto simp: cluster_inv_def)
next
  case (cs_rollback t s t' s')
  then show ?case
    by (auto simp: cluster_inv_def tx_Rollback_def Store_unlockTxCluster_def session_of_def split: if_splits)
qed

lemma cluster_reachable_inv: "cluster_reachable C \<Longrightarrow> cluster_inv C"
proof -
  have "cluster_inv (Store_New, None)"
    unfolding cluster_inv_def substores_reachable_def Store_New_def refresh_reachable_def
    by (auto intro: reach_new exI [of _ "[]"])
  moreover have "cluster_step\<^sup>*\<^sup>* C0 C \<Longrightarrow> cluster_inv C0 \<Longrightarrow> cluster_inv C" for C0
    by (induction rule: rtranclp_induct) (auto intro: cluster_inv_step)
  ultimately show "cluster_reachable C \<Longrightarrow> cluster_inv C"
    by (simp add: cluster_reachable_def)
qed


section \<open>What a commit publishes\<close>

lemma session_of_stagings:
  assumes "substores_reachable s" and "session_of s t"
  shows "staging_inv (st_refreshes s) (tx_rtStaging t)"
    and "grant_staging_ok (tx_grStaging t)"
    and "\<not> tx_closed t"
proof -
  have wf: "refresh_wf (st_refreshes s)"
    using assms(1) refresh_reachable_wf by (simp add: substores_reachable_def)
  from assms(2) obtain rt gr where rt: "tx_rtStaging t = snd (tx_refresh_run rt (st_refreshes s) newRefreshStaging)"
    and gr: "tx_grStaging t = snd (run_calls (txGrants_call ascending (st_grants s)) gr newGrantStaging)"
    unfolding session_of_def by blast
  show "staging_inv (st_refreshes s) (tx_rtStaging t)"
    unfolding rt using wf by (intro refresh_tx.run_inv) simp
  show "grant_staging_ok (tx_grStaging t)"
    unfolding gr by (rule grant_tx.run_inv [OF grant_staging_ok_new])
  show "\<not> tx_closed t"
    using assms(2) by (simp add: session_of_def)
qed

lemma code_flush_find:
  assumes "codes_keyed (codes_of (authCodeStaging_flushLocked now st p))" and "now \<le> later"
  shows "authCodeStore_Find later i (authCodeStaging_flushLocked now st p) = txAuthCodes_Find None later i p st"
proof -
  let ?s = "p\<lparr>acs_m := gm_copy (gm_copy (acs_m p) (acst_added st)) (acst_updated st)\<rparr>"
  have view: "codes_of ?s = tx_codes p st"
    by (simp add: fun_eq_iff codes_of_flush_unswept del: fmlookup_gm_copy)
  have "authCodeStore_Find later i (authCodeStaging_flushLocked now st p) =
      spec_code_find later i (codes_of (authCodeStaging_flushLocked now st p))"
    by (rule authCodeStore_Find_spec [OF assms(1)])
  also have "\<dots> = spec_code_find later i (codes_of ?s)"
    unfolding authCodeStaging_flushLocked_def by (rule spec_find_sweep [OF assms(2)])
  finally show ?thesis
    by (simp only: view txAuthCodes_Find_spec)
qed

lemma commit_substores:
  assumes "\<not> tx_closed t"
  shows "tx_Commit nowAC nowRT t s =
    ((None, t\<lparr>tx_closed := True\<rparr>),
     \<lparr>st_authCodes = authCodeStaging_flushLocked nowAC (tx_acStaging t) (st_authCodes s),
      st_refreshes = refreshStaging_flushLocked nowRT (tx_rtStaging t) (st_refreshes s),
      st_grants = grantStaging_flushLocked (tx_grStaging t) (st_grants s),
      st_pars = parStaging_flushLocked (tx_parStaging t) (st_pars s),
      st_accessTokens = accessTokenStore_overlay_flush (tx_atStaging t) (st_accessTokens s),
      st_opaqueAccessTokens = opaqueAccessTokenStore_overlay_flush (tx_oatStaging t) (st_opaqueAccessTokens s),
      st_grantRevocations = grantRevocationStaging_flushLocked (tx_grvStaging t) (st_grantRevocations s),
      st_locked = False\<rparr>)"
  using assms by (cases s) (simp add: tx_Commit_def Store_unlockTxCluster_def Let_def)

lemma closed_refuses:
  assumes "tx_closed t"
  shows "tx_request s rq t = (Refused errTxClosed, t)"
    and "tx_Commit nowAC nowRT t s = ((Some errTxClosed, t), s)"
    and "tx_Rollback t s = ((None, t), s)"
  using assms by (simp_all add: tx_request_def tx_guard_def tx_Commit_def tx_Rollback_def)


section \<open>The properties of transactions\<close>


lemma begin_reachable: "cluster_reachable (Store_New\<lparr>st_locked := True\<rparr>, Some newTx)"
proof -
  have "Store_BeginTx None None Store_New = Some ((Some newTx, None), Store_New\<lparr>st_locked := True\<rparr>)"
    by (simp add: Store_BeginTx_def Store_lockTxCluster_def Store_New_def)
  then have "cluster_step (Store_New, None) (Store_New\<lparr>st_locked := True\<rparr>, Some newTx)"
    by (rule cs_begin)
  then show ?thesis
    unfolding cluster_reachable_def by (rule r_into_rtranclp)
qed

definition sample_tx :: inmem_tx where
  "sample_tx = snd (tx_request (Store_New\<lparr>st_locked := True\<rparr>) (None, OnGrants (GrSave (Some (sample_grant ''g1'' ''a'' 10)))) newTx)"

lemma sample_tx_reachable: "cluster_reachable (Store_New\<lparr>st_locked := True\<rparr>, Some sample_tx)"
  using begin_reachable unfolding cluster_reachable_def sample_tx_def
  by (rule rtranclp.rtrancl_into_rtrancl) (rule cs_request)


text \<open>
  A rolled back transaction leaves every substore as it was and releases the cluster, and after a
  commit or a rollback the handle is dead: every later request is refused with \<^verbatim>\<open>errTxClosed\<close>, a second
  commit too, a second rollback does nothing, and none of them touches the store.
\<close>

theorem tx_rollback_discards:
  "let ((e, t'), s') = tx_Rollback t s;
       ((e2, t2), s2) = tx_Commit nowAC nowRT t s
   in e = None \<and> s' = (if tx_closed t then s else s\<lparr>st_locked := False\<rparr>)
      \<and> tx_request s3 rq t' = (Refused errTxClosed, t') \<and> tx_request s3 rq t2 = (Refused errTxClosed, t2)
      \<and> tx_Commit n1 n2 t' s3 = ((Some errTxClosed, t'), s3) \<and> tx_Commit n1 n2 t2 s3 = ((Some errTxClosed, t2), s3)
      \<and> tx_Rollback t' s3 = ((None, t'), s3) \<and> tx_Rollback t2 s3 = ((None, t2), s3)"
proof -
  have "tx_closed (snd (fst (tx_Rollback t s)))" and "tx_closed (snd (fst (tx_Commit nowAC nowRT t s)))"
    by (simp_all add: tx_Rollback_def tx_clearStaging_def tx_Commit_def Let_def)
  note closed = closed_refuses [OF this(1)] closed_refuses [OF this(2)]
  have "fst (fst (tx_Rollback t s)) = None"
    and "snd (tx_Rollback t s) = (if tx_closed t then s else s\<lparr>st_locked := False\<rparr>)"
    by (simp_all add: tx_Rollback_def Store_unlockTxCluster_def)
  with closed show ?thesis
    by (simp add: case_prod_beta Let_def)
qed



end
