(* ===== verification/StoreHandles.thy ===== *)
theory StoreHandles
  imports ChainRetire TxCluster
begin

text \<open>
  The substores as the endpoints see them. The handlers of the Go code work on the interfaces of
  \<^verbatim>\<open>op/store\<close>, which either the in-memory store itself or one of its transactions stands behind: the
  refresh handler runs the same code on \<^verbatim>\<open>Deps\<close> and on \<^verbatim>\<open>txDeps\<close>. The record \<open>stores\<close> holds the methods
  they call, \<open>direct_stores\<close> are the substores of the cluster and \<open>tx_stores\<close> the handles of an open
  transaction on it.

  The locale \<open>token_stores\<close> is what a client may rely on: every call acts on an abstract view of the
  cluster. Both implementations satisfy it, and committing a transaction makes its view the view of
  the store.
\<close>

record 's stores =
  so_refresh :: "'s refresh_ops"
  so_SaveRotationWithRetry :: "time \<Rightarrow> RefreshToken option \<Rightarrow> byte list \<Rightarrow> 's \<Rightarrow> store_err option \<times> 's"
  so_LoadRetryResponse :: "time \<Rightarrow> string \<Rightarrow> 's \<Rightarrow> byte list option \<times> store_err option"
  so_grantSave :: "Grant option \<Rightarrow> 's \<Rightarrow> store_err option \<times> 's"
  so_grantFind :: "string \<Rightarrow> 's \<Rightarrow> Grant option \<times> store_err option"
  so_grantDelete :: "string \<Rightarrow> 's \<Rightarrow> store_err option \<times> 's"
  so_accessRegister :: "AccessTokenRecord \<Rightarrow> 's \<Rightarrow> store_err option \<times> 's"
  so_accessRevokeByJTI :: "string \<Rightarrow> 's \<Rightarrow> store_err option \<times> 's"
  so_accessRevokeByGrant :: "string \<Rightarrow> 's \<Rightarrow> (nat \<times> store_err option) \<times> 's"
  so_opaqueSave :: "OpaqueAccessToken option \<Rightarrow> 's \<Rightarrow> store_err option \<times> 's"
  so_opaqueRevokeByID :: "string \<Rightarrow> 's \<Rightarrow> store_err option \<times> 's"
  so_opaqueRevokeByGrant :: "string \<Rightarrow> 's \<Rightarrow> (nat \<times> store_err option) \<times> 's"
  so_opaqueRevokeByChain :: "string \<Rightarrow> string \<Rightarrow> 's \<Rightarrow> (nat \<times> store_err option) \<times> 's"
  so_RevokeGrant :: "GrantTombstone \<Rightarrow> 's \<Rightarrow> store_err option \<times> 's"
  so_RevokeJTI :: "RevokedJTI \<Rightarrow> 's \<Rightarrow> store_err option \<times> 's"
  so_IsIssuanceRevoked :: "string \<Rightarrow> time \<Rightarrow> 's \<Rightarrow> bool \<times> store_err option"

text \<open>A call on one part of a state.\<close>

definition via :: "('s \<Rightarrow> 'a) \<Rightarrow> ('a \<Rightarrow> 's \<Rightarrow> 's) \<Rightarrow> ('a \<Rightarrow> 'r \<times> 'a) \<Rightarrow> 's \<Rightarrow> 'r \<times> 's" where
  "via get put call s = (case call (get s) of (r, x) \<Rightarrow> (r, put x s))"

lemma via_sel [simp]:
  "fst (via get put call s) = fst (call (get s))"
  "snd (via get put call s) = put (snd (call (get s))) s"
  by (simp_all add: via_def case_prod_beta)


section \<open>The substores themselves\<close>

abbreviation on_refreshes :: "(refreshStore \<Rightarrow> 'r \<times> refreshStore) \<Rightarrow> inmem_Store \<Rightarrow> 'r \<times> inmem_Store" where
  "on_refreshes \<equiv> via st_refreshes (\<lambda>x s. s\<lparr>st_refreshes := x\<rparr>)"

abbreviation on_grants :: "(grantStore \<Rightarrow> 'r \<times> grantStore) \<Rightarrow> inmem_Store \<Rightarrow> 'r \<times> inmem_Store" where
  "on_grants \<equiv> via st_grants (\<lambda>x s. s\<lparr>st_grants := x\<rparr>)"

abbreviation on_access :: "(accessTokenStore \<Rightarrow> 'r \<times> accessTokenStore) \<Rightarrow> inmem_Store \<Rightarrow> 'r \<times> inmem_Store" where
  "on_access \<equiv> via st_accessTokens (\<lambda>x s. s\<lparr>st_accessTokens := x\<rparr>)"

abbreviation on_opaque ::
  "(opaqueAccessTokenStore \<Rightarrow> 'r \<times> opaqueAccessTokenStore) \<Rightarrow> inmem_Store \<Rightarrow> 'r \<times> inmem_Store" where
  "on_opaque \<equiv> via st_opaqueAccessTokens (\<lambda>x s. s\<lparr>st_opaqueAccessTokens := x\<rparr>)"

abbreviation on_revocations ::
  "(grantRevocationStore \<Rightarrow> 'r \<times> grantRevocationStore) \<Rightarrow> inmem_Store \<Rightarrow> 'r \<times> inmem_Store" where
  "on_revocations \<equiv> via st_grantRevocations (\<lambda>x s. s\<lparr>st_grantRevocations := x\<rparr>)"

definition direct_stores :: "inmem_Store stores" where
  "direct_stores =
     \<lparr>so_refresh =
        \<lparr>ro_Save = (\<lambda>t. on_refreshes (refreshStore_Save t)),
         ro_Find = (\<lambda>now i s. refreshStore_Find now i (st_refreshes s)),
         ro_Consume = (\<lambda>now i. on_refreshes (refreshStore_Consume now i)),
         ro_RevokeChain = (\<lambda>now i. on_refreshes (refreshStore_RevokeChain now i)),
         ro_RevokeByGrant = (\<lambda>now g. on_refreshes (refreshStore_RevokeByGrant now g)),
         ro_FindByStoredHandle = None\<rparr>,
      so_SaveRotationWithRetry = (\<lambda>now t sealed. on_refreshes (refreshStore_SaveRotationWithRetry now t sealed)),
      so_LoadRetryResponse = (\<lambda>now i s. refreshStore_LoadRetryResponse now i (st_refreshes s)),
      so_grantSave = (\<lambda>g. on_grants (grantStore_Save g)),
      so_grantFind = (\<lambda>i s. grantStore_Find i (st_grants s)),
      so_grantDelete = (\<lambda>i. on_grants (grantStore_Delete i)),
      so_accessRegister = (\<lambda>rec. on_access (accessTokenStore_Register rec)),
      so_accessRevokeByJTI = (\<lambda>j. on_access (accessTokenStore_RevokeByJTI j)),
      so_accessRevokeByGrant = (\<lambda>g. on_access (accessTokenStore_RevokeByGrant g)),
      so_opaqueSave = (\<lambda>t. on_opaque (opaqueAccessTokenStore_Save t)),
      so_opaqueRevokeByID = (\<lambda>i. on_opaque (opaqueAccessTokenStore_RevokeByID i)),
      so_opaqueRevokeByGrant = (\<lambda>g. on_opaque (opaqueAccessTokenStore_RevokeByGrant g)),
      so_opaqueRevokeByChain = (\<lambda>g c. on_opaque (opaqueAccessTokenStore_RevokeByChain g c)),
      so_RevokeGrant = (\<lambda>t. on_revocations (grantRevocationStore_RevokeGrant t)),
      so_RevokeJTI = (\<lambda>r. on_revocations (grantRevocationStore_RevokeJTI r)),
      so_IsIssuanceRevoked = (\<lambda>g iat s. grantRevocationStore_IsIssuanceRevoked g iat (st_grantRevocations s))\<rparr>"


section \<open>The handles of a transaction\<close>

text \<open>
  The state of a client that works on a transaction: the store it was opened on and the transaction.
  Every call first consults the guard, which is the error of a closed handle.
\<close>

type_synonym tx_state = "inmem_Store \<times> inmem_tx"

abbreviation guard_of :: "tx_state \<Rightarrow> store_err option" where
  "guard_of w \<equiv> tx_guard (tx_closed (snd w)) None"

definition tx_via ::
  "(inmem_tx \<Rightarrow> 'a) \<Rightarrow> ('a \<Rightarrow> inmem_tx \<Rightarrow> inmem_tx) \<Rightarrow> (store_err option \<Rightarrow> inmem_Store \<Rightarrow> 'a \<Rightarrow> 'r \<times> 'a) \<Rightarrow>
     tx_state \<Rightarrow> 'r \<times> tx_state" where
  "tx_via get put call w =
     (case call (guard_of w) (fst w) (get (snd w)) of (r, x) \<Rightarrow> (r, (fst w, put x (snd w))))"

abbreviation tx_on_refreshes ::
  "(store_err option \<Rightarrow> inmem_Store \<Rightarrow> refreshStaging \<Rightarrow> 'r \<times> refreshStaging) \<Rightarrow> tx_state \<Rightarrow> 'r \<times> tx_state" where
  "tx_on_refreshes \<equiv> tx_via tx_rtStaging (\<lambda>x t. t\<lparr>tx_rtStaging := x\<rparr>)"

abbreviation tx_on_grants ::
  "(store_err option \<Rightarrow> inmem_Store \<Rightarrow> grantStaging \<Rightarrow> 'r \<times> grantStaging) \<Rightarrow> tx_state \<Rightarrow> 'r \<times> tx_state" where
  "tx_on_grants \<equiv> tx_via tx_grStaging (\<lambda>x t. t\<lparr>tx_grStaging := x\<rparr>)"

abbreviation tx_on_access ::
  "(store_err option \<Rightarrow> inmem_Store \<Rightarrow> AccessTokenRecord overlay \<Rightarrow> 'r \<times> AccessTokenRecord overlay) \<Rightarrow>
     tx_state \<Rightarrow> 'r \<times> tx_state" where
  "tx_on_access \<equiv> tx_via tx_atStaging (\<lambda>x t. t\<lparr>tx_atStaging := x\<rparr>)"

abbreviation tx_on_opaque ::
  "(store_err option \<Rightarrow> inmem_Store \<Rightarrow> OpaqueAccessToken overlay \<Rightarrow> 'r \<times> OpaqueAccessToken overlay) \<Rightarrow>
     tx_state \<Rightarrow> 'r \<times> tx_state" where
  "tx_on_opaque \<equiv> tx_via tx_oatStaging (\<lambda>x t. t\<lparr>tx_oatStaging := x\<rparr>)"

abbreviation tx_on_revocations ::
  "(store_err option \<Rightarrow> inmem_Store \<Rightarrow> grantRevocationStaging \<Rightarrow> 'r \<times> grantRevocationStaging) \<Rightarrow>
     tx_state \<Rightarrow> 'r \<times> tx_state" where
  "tx_on_revocations \<equiv> tx_via tx_grvStaging (\<lambda>x t. t\<lparr>tx_grvStaging := x\<rparr>)"

definition tx_stores :: "tx_state stores" where
  "tx_stores =
     \<lparr>so_refresh =
        \<lparr>ro_Save = (\<lambda>t. tx_on_refreshes (\<lambda>e s. txRefreshes_Save e t (st_refreshes s))),
         ro_Find = (\<lambda>now i w. txRefreshes_Find (guard_of w) now i (st_refreshes (fst w)) (tx_rtStaging (snd w))),
         ro_Consume = (\<lambda>now i. tx_on_refreshes (\<lambda>e s. txRefreshes_Consume e now i (st_refreshes s))),
         ro_RevokeChain = (\<lambda>now i. tx_on_refreshes (\<lambda>e s. txRefreshes_RevokeChain e now i (st_refreshes s))),
         ro_RevokeByGrant = (\<lambda>now g. tx_on_refreshes (\<lambda>e s. txRefreshes_RevokeByGrant e now g (st_refreshes s))),
         ro_FindByStoredHandle = None\<rparr>,
      so_SaveRotationWithRetry = (\<lambda>now t sealed.
        tx_on_refreshes (\<lambda>e s. txRefreshes_SaveRotationWithRetry (e = Some errTxClosed) None t sealed (st_refreshes s))),
      so_LoadRetryResponse = (\<lambda>now i w.
        txRefreshes_LoadRetryResponse (guard_of w) now i (st_refreshes (fst w)) (tx_rtStaging (snd w))),
      so_grantSave = (\<lambda>g. tx_on_grants (\<lambda>e s. txGrants_Save e g)),
      so_grantFind = (\<lambda>i w. txGrants_Find (guard_of w) (st_grants (fst w)) i (tx_grStaging (snd w))),
      so_grantDelete = (\<lambda>i. tx_on_grants (\<lambda>e s. txGrants_Delete e (st_grants s) i)),
      so_accessRegister = (\<lambda>rec. tx_on_access (\<lambda>e s. txAccessTokens_Register e (st_accessTokens s) rec)),
      so_accessRevokeByJTI = (\<lambda>j. tx_on_access (\<lambda>e s. txAccessTokens_RevokeByJTI e (st_accessTokens s) j)),
      so_accessRevokeByGrant = (\<lambda>g. tx_on_access (\<lambda>e s. txAccessTokens_RevokeByGrant e (st_accessTokens s) g)),
      so_opaqueSave = (\<lambda>t. tx_on_opaque (\<lambda>e s. txOpaqueAccessTokens_Save e (st_opaqueAccessTokens s) t)),
      so_opaqueRevokeByID = (\<lambda>i. tx_on_opaque (\<lambda>e s. txOpaqueAccessTokens_RevokeByID e (st_opaqueAccessTokens s) i)),
      so_opaqueRevokeByGrant = (\<lambda>g. tx_on_opaque (\<lambda>e s. txOpaqueAccessTokens_RevokeByGrant e (st_opaqueAccessTokens s) g)),
      so_opaqueRevokeByChain = (\<lambda>g c.
        tx_on_opaque (\<lambda>e s. txOpaqueAccessTokens_RevokeByChain e (st_opaqueAccessTokens s) g c)),
      so_RevokeGrant = (\<lambda>t. tx_on_revocations (\<lambda>e s. txGrantRevocations_RevokeGrant e (st_grantRevocations s) t)),
      so_RevokeJTI = (\<lambda>r. tx_on_revocations (\<lambda>e s. txGrantRevocations_RevokeJTI e (st_grantRevocations s) r)),
      so_IsIssuanceRevoked = (\<lambda>g iat w.
        txGrantRevocations_IsIssuanceRevoked (guard_of w) (st_grantRevocations (fst w)) g iat (tx_grvStaging (snd w)))\<rparr>"


section \<open>What the clients rely on\<close>

text \<open>The rows of the five substores the token endpoint writes, as maps.\<close>

record cluster_view =
  cv_refreshes :: refresh_map
  cv_grants :: grant_map
  cv_access :: access_map
  cv_opaque :: opaque_map
  cv_revocations :: grv_map

text \<open>A cascade over opaque tokens: no row is lost, at most revoked, and every row it names is.\<close>

definition opaque_retired :: "(OpaqueAccessToken \<Rightarrow> bool) \<Rightarrow> opaque_map \<Rightarrow> opaque_map \<Rightarrow> bool" where
  "opaque_retired P M M' \<longleftrightarrow>
     (\<forall>k. (M k = None \<longrightarrow> M' k = None)
        \<and> (\<forall>r. M k = Some r \<longrightarrow> M' k = Some r \<or> M' k = Some (r\<lparr>oa_Revoked := True\<rparr>))
        \<and> (\<forall>r. M' k = Some r \<longrightarrow> P r \<longrightarrow> oa_Revoked r))"

locale token_stores =
  refresh_backend "so_refresh h" inv "\<lambda>s. cv_refreshes (view s)"
  for h :: "'s stores" and inv :: "'s \<Rightarrow> bool" and view :: "'s \<Rightarrow> cluster_view" +
  assumes refresh_frame:
      "inv s \<Longrightarrow> view (snd (ro_Save (so_refresh h) (Some t) s)) =
         (view s)\<lparr>cv_refreshes := cv_refreshes (view (snd (ro_Save (so_refresh h) (Some t) s)))\<rparr>"
      "inv s \<Longrightarrow> view (snd (ro_Consume (so_refresh h) now i s)) =
         (view s)\<lparr>cv_refreshes := cv_refreshes (view (snd (ro_Consume (so_refresh h) now i s)))\<rparr>"
      "inv s \<Longrightarrow> view (snd (ro_RevokeChain (so_refresh h) now i s)) =
         (view s)\<lparr>cv_refreshes := cv_refreshes (view (snd (ro_RevokeChain (so_refresh h) now i s)))\<rparr>"
    and rotation:
      "inv s \<Longrightarrow> fst (so_SaveRotationWithRetry h now (Some t) sealed s) =
         (if rotation_ok (Some t) sealed then fst (spec_refresh_save t (cv_refreshes (view s))) else Some err_bad_rotation)"
      "inv s \<Longrightarrow> view (snd (so_SaveRotationWithRetry h now (Some t) sealed s)) =
         (if rotation_ok (Some t) sealed
          then (view s)\<lparr>cv_refreshes := snd (spec_refresh_save t (cv_refreshes (view s)))\<rparr> else view s)"
      "inv s \<Longrightarrow> inv (snd (so_SaveRotationWithRetry h now (Some t) sealed s))"
    and grant_find:
      "inv s \<Longrightarrow> so_grantFind h g s =
         (cv_grants (view s) g, if cv_grants (view s) g = None then Some ErrNotFound else None)"
    and register:
      "inv s \<Longrightarrow> fst (so_accessRegister h rec s) =
         (if at_JTI rec = [] then Some err_empty_jti
          else if cv_access (view s) (at_JTI rec) \<noteq> None then Some ErrAlreadyExists else None)"
      "inv s \<Longrightarrow> view (snd (so_accessRegister h rec s)) =
         (if fst (so_accessRegister h rec s) = None
          then (view s)\<lparr>cv_access := (cv_access (view s))(at_JTI rec \<mapsto> rec)\<rparr> else view s)"
      "inv s \<Longrightarrow> inv (snd (so_accessRegister h rec s))"
    and opaque_save:
      "inv s \<Longrightarrow> fst (so_opaqueSave h (Some o') s) =
         (if oa_ID o' = [] then Some err_empty_opaque
          else if cv_opaque (view s) (hashKey (oa_ID o')) \<noteq> None then Some ErrAlreadyExists else None)"
      "inv s \<Longrightarrow> view (snd (so_opaqueSave h (Some o') s)) =
         (if fst (so_opaqueSave h (Some o') s) = None
          then (view s)\<lparr>cv_opaque := (cv_opaque (view s))(hashKey (oa_ID o') \<mapsto> o'\<lparr>oa_ID := hashKey (oa_ID o')\<rparr>)\<rparr>
          else view s)"
      "inv s \<Longrightarrow> inv (snd (so_opaqueSave h (Some o') s))"
    and opaque_chain:
      "inv s \<Longrightarrow> snd (fst (so_opaqueRevokeByChain h g c s)) = None"
      "inv s \<Longrightarrow> view (snd (so_opaqueRevokeByChain h g c s)) =
         (view s)\<lparr>cv_opaque := cv_opaque (view (snd (so_opaqueRevokeByChain h g c s)))\<rparr>"
      "inv s \<Longrightarrow> opaque_retired (\<lambda>r. g \<noteq> [] \<and> c \<noteq> [] \<and> oa_GrantID r = g \<and> oa_ChainID r = c)
         (cv_opaque (view s)) (cv_opaque (view (snd (so_opaqueRevokeByChain h g c s))))"
      "inv s \<Longrightarrow> inv (snd (so_opaqueRevokeByChain h g c s))"
    and opaque_grant:
      "inv s \<Longrightarrow> snd (fst (so_opaqueRevokeByGrant h g s)) = None"
      "inv s \<Longrightarrow> view (snd (so_opaqueRevokeByGrant h g s)) =
         (view s)\<lparr>cv_opaque := cv_opaque (view (snd (so_opaqueRevokeByGrant h g s)))\<rparr>"
      "inv s \<Longrightarrow> opaque_retired (\<lambda>r. g \<noteq> [] \<and> oa_GrantID r = g)
         (cv_opaque (view s)) (cv_opaque (view (snd (so_opaqueRevokeByGrant h g s))))"
      "inv s \<Longrightarrow> inv (snd (so_opaqueRevokeByGrant h g s))"
    and issuance:
      "inv s \<Longrightarrow> so_IsIssuanceRevoked h g iat s = (spec_grv_IsIssuanceRevoked g iat (cv_revocations (view s)), None)"


section \<open>The store meets the contract\<close>

definition direct_view :: "inmem_Store \<Rightarrow> cluster_view" where
  "direct_view s =
     \<lparr>cv_refreshes = tokens_of (st_refreshes s), cv_grants = fmlookup (gs_m (st_grants s)),
      cv_access = fmlookup (ats_m (st_accessTokens s)), cv_opaque = fmlookup (oas_m (st_opaqueAccessTokens s)),
      cv_revocations = grv_of (st_grantRevocations s)\<rparr>"

lemma direct_view_sel [simp]:
  "cv_refreshes (direct_view s) = tokens_of (st_refreshes s)"
  "cv_grants (direct_view s) = fmlookup (gs_m (st_grants s))"
  "cv_access (direct_view s) = fmlookup (ats_m (st_accessTokens s))"
  "cv_opaque (direct_view s) = fmlookup (oas_m (st_opaqueAccessTokens s))"
  "cv_revocations (direct_view s) = grv_of (st_grantRevocations s)"
  by (simp_all add: direct_view_def)

lemma direct_view_update [simp]:
  "direct_view (s\<lparr>st_refreshes := x\<rparr>) = (direct_view s)\<lparr>cv_refreshes := tokens_of x\<rparr>"
  "direct_view (s\<lparr>st_grants := g\<rparr>) = (direct_view s)\<lparr>cv_grants := fmlookup (gs_m g)\<rparr>"
  "direct_view (s\<lparr>st_accessTokens := a\<rparr>) = (direct_view s)\<lparr>cv_access := fmlookup (ats_m a)\<rparr>"
  "direct_view (s\<lparr>st_opaqueAccessTokens := p\<rparr>) = (direct_view s)\<lparr>cv_opaque := fmlookup (oas_m p)\<rparr>"
  "direct_view (s\<lparr>st_grantRevocations := v\<rparr>) = (direct_view s)\<lparr>cv_revocations := grv_of v\<rparr>"
  "direct_view (s\<lparr>st_locked := b\<rparr>) = direct_view s"
  by (simp_all add: direct_view_def)

lemma direct_ops_exec:
  "snd (ro_Save (so_refresh direct_stores) t s) = direct_exec (DRefresh (RSave t)) s"
  "snd (ro_Consume (so_refresh direct_stores) now i s) = direct_exec (DRefresh (RConsume now i)) s"
  "snd (ro_RevokeChain (so_refresh direct_stores) now i s) = direct_exec (DRefresh (RRevokeChain now i)) s"
  "snd (ro_RevokeByGrant (so_refresh direct_stores) now g s) = direct_exec (DRefresh (RRevokeByGrant now g)) s"
  "snd (so_SaveRotationWithRetry direct_stores now t sealed s) = direct_exec (DRefresh (RSaveRotation now t sealed)) s"
  "snd (so_accessRegister direct_stores rec s) = direct_exec (DAccess (ARegister rec)) s"
  "snd (so_opaqueSave direct_stores o' s) = direct_exec (DOpaque (OSave o')) s"
  "snd (so_opaqueRevokeByChain direct_stores g c s) = direct_exec (DOpaque (ORevokeByChain g c)) s"
  "snd (so_opaqueRevokeByGrant direct_stores g s) = direct_exec (DOpaque (ORevokeByGrant g)) s"
  by (simp_all add: direct_stores_def)

lemma substores_inv:
  assumes "substores_reachable s"
  shows "refresh_wf (st_refreshes s)" "access_covered (st_accessTokens s)" "opaque_covered (st_opaqueAccessTokens s)"
    "opaque_keyed (fmlookup (oas_m (st_opaqueAccessTokens s)))"
  using assms refresh_reachable_wf access_reachable_covered opaque_reachable
  by (simp_all add: substores_reachable_def)

lemma revokeIndexed_retired:
  assumes "opaque_covered p" and "g \<noteq> []" and "\<And>r. match (r\<lparr>oa_Revoked := True\<rparr>) = match r"
  shows "opaque_retired (\<lambda>r. oa_GrantID r = g \<and> match r) (fmlookup (oas_m p))
    (fmlookup (snd (revokeIndexed opaqueTokenRowOps (oas_m p) (gm_set (ti_byGrant (oas_idx p)) g) match)))"
  unfolding opaque_retired_def
proof (intro allI conjI impI)
  let ?M = "snd (revokeIndexed opaqueTokenRowOps (oas_m p) (gm_set (ti_byGrant (oas_idx p)) g) match)"
  fix k r
  show "fmlookup (oas_m p) k = None \<Longrightarrow> fmlookup ?M k = None"
    "fmlookup (oas_m p) k = Some r \<Longrightarrow> fmlookup ?M k = Some r \<or> fmlookup ?M k = Some (r\<lparr>oa_Revoked := True\<rparr>)"
    by (simp_all add: opaque_rows.revokeIndexed_lookup)
  show "fmlookup ?M k = Some r \<Longrightarrow> oa_GrantID r = g \<and> match r \<Longrightarrow> oa_Revoked r"
    using opaque_revokeIndexed_revokes [OF assms(1,2), of match k r] assms(3) by blast
qed

lemma opaque_retired_same: "(\<And>r. \<not> P r) \<Longrightarrow> opaque_retired P M M"
  by (simp add: opaque_retired_def)

lemma matchChain_revoked [simp]: "matchChain c (r\<lparr>oa_Revoked := True\<rparr>) = matchChain c r"
  by (simp add: matchChain_def)

lemma direct_opaque_cascades:
  assumes "opaque_covered p"
  shows "opaque_retired (\<lambda>r. g \<noteq> [] \<and> c \<noteq> [] \<and> oa_GrantID r = g \<and> oa_ChainID r = c) (fmlookup (oas_m p))
      (fmlookup (oas_m (snd (opaqueAccessTokenStore_RevokeByChain g c p))))"
    and "opaque_retired (\<lambda>r. g \<noteq> [] \<and> oa_GrantID r = g) (fmlookup (oas_m p))
      (fmlookup (oas_m (snd (opaqueAccessTokenStore_RevokeByGrant g p))))"
  using revokeIndexed_retired [OF assms, of g "matchChain c"] revokeIndexed_retired [OF assms, of g matchAnyToken]
  by (auto simp: opaqueAccessTokenStore_RevokeByChain_def opaqueAccessTokenStore_RevokeByGrant_def case_prod_beta
      matchChain_def intro: opaque_retired_same)

interpretation direct_tokens: token_stores direct_stores substores_reachable direct_view
proof unfold_locales
  fix s :: inmem_Store and now t i g c sealed rec o' iat
  assume inv: "substores_reachable s"
  note wf = substores_inv [OF inv] and reach = direct_reachable [OF inv]
  show "ro_Find (so_refresh direct_stores) now i s = spec_refresh_find now i (cv_refreshes (direct_view s))"
    "so_grantFind direct_stores g s = (cv_grants (direct_view s) g, if cv_grants (direct_view s) g = None then Some ErrNotFound else None)"
    "so_IsIssuanceRevoked direct_stores g iat s = (spec_grv_IsIssuanceRevoked g iat (cv_revocations (direct_view s)), None)"
    using wf(1) by (auto simp: direct_stores_def refreshStore_specs grantStore_Find_def grantRevocationStore_IsIssuanceRevoked_def
        spec_grv_IsIssuanceRevoked_def split: option.split)
  show "fst (ro_Save (so_refresh direct_stores) (Some t) s) = fst (spec_refresh_save t (cv_refreshes (direct_view s)))"
    "cv_refreshes (direct_view (snd (ro_Save (so_refresh direct_stores) (Some t) s))) =
       snd (spec_refresh_save t (cv_refreshes (direct_view s)))"
    "fst (ro_Consume (so_refresh direct_stores) now i s) = fst (spec_refresh_consume now i (cv_refreshes (direct_view s)))"
    "cv_refreshes (direct_view (snd (ro_Consume (so_refresh direct_stores) now i s))) =
       snd (spec_refresh_consume now i (cv_refreshes (direct_view s)))"
    "fst (ro_RevokeChain (so_refresh direct_stores) now i s) = fst (spec_refresh_revokeChain now i (cv_refreshes (direct_view s)))"
    "cv_refreshes (direct_view (snd (ro_RevokeChain (so_refresh direct_stores) now i s))) =
       snd (spec_refresh_revokeChain now i (cv_refreshes (direct_view s)))"
    "fst (ro_RevokeByGrant (so_refresh direct_stores) now g s) =
       fst (spec_refresh_revokeBy rt_GrantID now g (cv_refreshes (direct_view s)))"
    "cv_refreshes (direct_view (snd (ro_RevokeByGrant (so_refresh direct_stores) now g s))) =
       snd (spec_refresh_revokeBy rt_GrantID now g (cv_refreshes (direct_view s)))"
    using wf(1) by (simp_all add: direct_stores_def refreshStore_specs)
  show "fst (so_SaveRotationWithRetry direct_stores now (Some t) sealed s) =
       (if rotation_ok (Some t) sealed then fst (spec_refresh_save t (cv_refreshes (direct_view s))) else Some err_bad_rotation)"
    "direct_view (snd (so_SaveRotationWithRetry direct_stores now (Some t) sealed s)) =
       (if rotation_ok (Some t) sealed
        then (direct_view s)\<lparr>cv_refreshes := snd (spec_refresh_save t (cv_refreshes (direct_view s)))\<rparr> else direct_view s)"
    using wf(1) by (simp_all add: direct_stores_def refreshStore_specs SaveRotation_bad)
  show "fst (so_accessRegister direct_stores rec s) =
       (if at_JTI rec = [] then Some err_empty_jti
        else if cv_access (direct_view s) (at_JTI rec) \<noteq> None then Some ErrAlreadyExists else None)"
    "direct_view (snd (so_accessRegister direct_stores rec s)) =
       (if fst (so_accessRegister direct_stores rec s) = None
        then (direct_view s)\<lparr>cv_access := (cv_access (direct_view s))(at_JTI rec \<mapsto> rec)\<rparr> else direct_view s)"
    by (simp_all add: direct_stores_def accessTokenStore_Register_def fmlookup_fmupd_fun)
  show "fst (so_opaqueSave direct_stores (Some o') s) =
       (if oa_ID o' = [] then Some err_empty_opaque
        else if cv_opaque (direct_view s) (hashKey (oa_ID o')) \<noteq> None then Some ErrAlreadyExists else None)"
    "direct_view (snd (so_opaqueSave direct_stores (Some o') s)) =
       (if fst (so_opaqueSave direct_stores (Some o') s) = None
        then (direct_view s)\<lparr>cv_opaque := (cv_opaque (direct_view s))(hashKey (oa_ID o') \<mapsto> o'\<lparr>oa_ID := hashKey (oa_ID o')\<rparr>)\<rparr>
        else direct_view s)"
    by (simp_all add: direct_stores_def opaqueAccessTokenStore_Save_def fmlookup_fmupd_fun Let_def)
  show "opaque_retired (\<lambda>r. g \<noteq> [] \<and> c \<noteq> [] \<and> oa_GrantID r = g \<and> oa_ChainID r = c)
       (cv_opaque (direct_view s)) (cv_opaque (direct_view (snd (so_opaqueRevokeByChain direct_stores g c s))))"
    "opaque_retired (\<lambda>r. g \<noteq> [] \<and> oa_GrantID r = g)
       (cv_opaque (direct_view s)) (cv_opaque (direct_view (snd (so_opaqueRevokeByGrant direct_stores g s))))"
    using direct_opaque_cascades [OF wf(3)] by (simp_all add: direct_stores_def)
  show "snd (fst (so_opaqueRevokeByChain direct_stores g c s)) = None"
    "snd (fst (so_opaqueRevokeByGrant direct_stores g s)) = None"
    by (simp_all add: direct_stores_def opaqueAccessTokenStore_RevokeByChain_def opaqueAccessTokenStore_RevokeByGrant_def case_prod_beta)
qed (simp_all add: direct_ops_exec direct_reachable del: direct_exec.simps, simp_all add: direct_stores_def)


section \<open>A transaction meets the contract\<close>

definition tx_view :: "tx_state \<Rightarrow> cluster_view" where
  "tx_view w = (case w of (s, t) \<Rightarrow>
     \<lparr>cv_refreshes = refresh_view (st_refreshes s) (tx_rtStaging t), cv_grants = grant_view (st_grants s) (tx_grStaging t),
      cv_access = access_view (st_accessTokens s) (tx_atStaging t),
      cv_opaque = opaque_view (st_opaqueAccessTokens s) (tx_oatStaging t),
      cv_revocations = grv_view (st_grantRevocations s) (tx_grvStaging t)\<rparr>)"

text \<open>A transaction leaves the store under it as it was when it was opened.\<close>

definition tx_inv :: "inmem_Store \<Rightarrow> tx_state \<Rightarrow> bool" where
  "tx_inv s0 w \<longleftrightarrow> fst w = s0 \<and> substores_reachable (fst w) \<and> session_of (fst w) (snd w)"

lemma tx_view_sel [simp]:
  "cv_refreshes (tx_view (s, t)) = refresh_view (st_refreshes s) (tx_rtStaging t)"
  "cv_grants (tx_view (s, t)) = grant_view (st_grants s) (tx_grStaging t)"
  "cv_access (tx_view (s, t)) = access_view (st_accessTokens s) (tx_atStaging t)"
  "cv_opaque (tx_view (s, t)) = opaque_view (st_opaqueAccessTokens s) (tx_oatStaging t)"
  "cv_revocations (tx_view (s, t)) = grv_view (st_grantRevocations s) (tx_grvStaging t)"
  by (simp_all add: tx_view_def)

lemma tx_view_update [simp]:
  "tx_view (s, t\<lparr>tx_rtStaging := x\<rparr>) = (tx_view (s, t))\<lparr>cv_refreshes := refresh_view (st_refreshes s) x\<rparr>"
  "tx_view (s, t\<lparr>tx_atStaging := a\<rparr>) = (tx_view (s, t))\<lparr>cv_access := access_view (st_accessTokens s) a\<rparr>"
  "tx_view (s, t\<lparr>tx_oatStaging := p\<rparr>) = (tx_view (s, t))\<lparr>cv_opaque := opaque_view (st_opaqueAccessTokens s) p\<rparr>"
  by (simp_all add: tx_view_def)

lemma tx_via_open:
  assumes "\<not> tx_closed t"
  shows "fst (tx_via get put call (s, t)) = fst (call None s (get t))"
    "snd (tx_via get put call (s, t)) = (s, put (snd (call None s (get t))) t)"
  using assms by (simp_all add: tx_via_def tx_guard_def case_prod_beta)

lemma tx_ops_request:
  assumes "\<not> tx_closed t"
  shows "snd (ro_Save (so_refresh tx_stores) r (s, t)) = (s, snd (tx_request s (None, OnRefreshes (RSave r)) t))"
    "snd (ro_Consume (so_refresh tx_stores) now i (s, t)) = (s, snd (tx_request s (None, OnRefreshes (RConsume now i)) t))"
    "snd (ro_RevokeChain (so_refresh tx_stores) now i (s, t)) =
       (s, snd (tx_request s (None, OnRefreshes (RRevokeChain now i)) t))"
    "snd (ro_RevokeByGrant (so_refresh tx_stores) now g (s, t)) =
       (s, snd (tx_request s (None, OnRefreshes (RRevokeByGrant now g)) t))"
    "snd (so_SaveRotationWithRetry tx_stores now r sealed (s, t)) =
       (s, snd (tx_request s (None, OnRefreshes (RSaveRotation now r sealed)) t))"
    "snd (so_accessRegister tx_stores rec (s, t)) = (s, snd (tx_request s (None, OnAccess (ARegister rec)) t))"
    "snd (so_opaqueSave tx_stores o' (s, t)) = (s, snd (tx_request s (None, OnOpaque (OSave o')) t))"
    "snd (so_opaqueRevokeByChain tx_stores g c (s, t)) = (s, snd (tx_request s (None, OnOpaque (ORevokeByChain g c)) t))"
    "snd (so_opaqueRevokeByGrant tx_stores g (s, t)) = (s, snd (tx_request s (None, OnOpaque (ORevokeByGrant g)) t))"
  using assms by (simp_all add: tx_stores_def tx_via_open tx_request_def tx_guard_def case_prod_beta)

lemma revokeStaged_retired:
  assumes "opaque_covered p" and "g \<noteq> []" and "\<And>r. match (r\<lparr>oa_Revoked := True\<rparr>) = match r"
  shows "opaque_retired (\<lambda>r. oa_GrantID r = g \<and> match r) (opaque_view p st)
    (opaque_view p (snd (revokeStaged opaqueTokenRowOps (oas_m p) st (gm_set (ti_byGrant (oas_idx p)) g) match)))"
  unfolding opaque_retired_def
proof (intro allI conjI impI)
  let ?st = "snd (revokeStaged opaqueTokenRowOps (oas_m p) st (gm_set (ti_byGrant (oas_idx p)) g) match)"
  note rows = opaque_rows.revokeStaged_facts(2) [OF prod.collapse [symmetric], of "oas_m p" st "gm_set (ti_byGrant (oas_idx p)) g" match]
  fix k r
  show "opaque_view p st k = None \<Longrightarrow> opaque_view p ?st k = None"
    "opaque_view p st k = Some r \<Longrightarrow> opaque_view p ?st k = Some r \<or> opaque_view p ?st k = Some (r\<lparr>oa_Revoked := True\<rparr>)"
    by (simp_all add: rows)
  assume new: "opaque_view p ?st k = Some r" "oa_GrantID r = g \<and> match r"
  then obtain r0 where r0: "opaque_view p st k = Some r0" "oa_GrantID r0 = g" "match r0"
    using assms(3) by (auto simp: rows split: if_splits)
  have "k |\<in>| gm_set (ti_byGrant (oas_idx p)) g" if "fmlookup (ov_written st) k = None"
    using that r0 rows_covered_grant [OF assms(1), of k r0 g] assms(2)
    by (simp add: overlay_lookup_def split: if_splits)
  with new r0 show "oa_Revoked r"
    by (auto simp: rows revocable_some split: if_splits)
qed

lemma tx_opaque_cascades:
  assumes "opaque_covered p"
  shows "opaque_retired (\<lambda>r. g \<noteq> [] \<and> c \<noteq> [] \<and> oa_GrantID r = g \<and> oa_ChainID r = c) (opaque_view p st)
      (opaque_view p (snd (txOpaqueAccessTokens_RevokeByChain None p g c st)))"
    and "opaque_retired (\<lambda>r. g \<noteq> [] \<and> oa_GrantID r = g) (opaque_view p st)
      (opaque_view p (snd (txOpaqueAccessTokens_RevokeByGrant None p g st)))"
  using revokeStaged_retired [OF assms, of g "matchChain c" st] revokeStaged_retired [OF assms, of g matchAnyToken st]
  by (auto simp: txOpaqueAccessTokens_RevokeByChain_def txOpaqueAccessTokens_RevokeByGrant_def case_prod_beta
      matchChain_def intro: opaque_retired_same)

lemma tx_grantFind_view:
  "txGrants_Find None p g st = (grant_view p st g, if grant_view p st g = None then Some ErrNotFound else None)"
  by (simp add: txGrants_Find_def grant_view_def split: option.split)

interpretation tx_tokens: token_stores tx_stores "tx_inv s0" tx_view for s0
proof unfold_locales
  fix w :: tx_state and now r i g c sealed rec o' iat
  assume "tx_inv s0 w"
  obtain s t where w: "w = (s, t)" by (cases w)
  with \<open>tx_inv s0 w\<close> have inv: "substores_reachable s" "session_of s t" "s = s0" by (auto simp: tx_inv_def)
  note wf = substores_inv [OF inv(1)] and st = session_of_stagings [OF inv(1,2)]
  have core: "staging_core (st_refreshes s) (tx_rtStaging t)" using st(1) by (simp add: staging_inv_def)
  note via = tx_via_open [OF st(3)] and req = tx_ops_request [OF st(3)]
  note refresh = st(1) core txRefreshes_specs
  have inv': "tx_inv s0 (s, snd (tx_request s rq t))" for rq
    using inv session_of_request by (simp add: tx_inv_def)
  have guard [simp]: "tx_guard (tx_closed t) None = None" using st(3) by (simp add: tx_guard_def)
  show "tx_inv s0 (snd (ro_Save (so_refresh tx_stores) (Some r) w))" "tx_inv s0 (snd (ro_Consume (so_refresh tx_stores) now i w))"
    "tx_inv s0 (snd (ro_RevokeChain (so_refresh tx_stores) now i w))"
    "tx_inv s0 (snd (ro_RevokeByGrant (so_refresh tx_stores) now g w))"
    "tx_inv s0 (snd (so_SaveRotationWithRetry tx_stores now (Some r) sealed w))"
    "tx_inv s0 (snd (so_accessRegister tx_stores rec w))" "tx_inv s0 (snd (so_opaqueSave tx_stores (Some o') w))"
    "tx_inv s0 (snd (so_opaqueRevokeByChain tx_stores g c w))" "tx_inv s0 (snd (so_opaqueRevokeByGrant tx_stores g w))"
    by (simp_all only: w req inv')
  show "ro_Find (so_refresh tx_stores) now i w = spec_refresh_find now i (cv_refreshes (tx_view w))"
    "so_grantFind tx_stores g w = (cv_grants (tx_view w) g, if cv_grants (tx_view w) g = None then Some ErrNotFound else None)"
    "so_IsIssuanceRevoked tx_stores g iat w = (spec_grv_IsIssuanceRevoked g iat (cv_revocations (tx_view w)), None)"
    using grv_tx.call_reply [where c = "GIsIssuanceRevoked g iat" and parent = "st_grantRevocations s" and s = "tx_grvStaging t"]
    by (simp_all add: w tx_stores_def refresh tx_grantFind_view)
  show "fst (ro_Save (so_refresh tx_stores) (Some r) w) = fst (spec_refresh_save r (cv_refreshes (tx_view w)))"
    "cv_refreshes (tx_view (snd (ro_Save (so_refresh tx_stores) (Some r) w))) = snd (spec_refresh_save r (cv_refreshes (tx_view w)))"
    "fst (ro_Consume (so_refresh tx_stores) now i w) = fst (spec_refresh_consume now i (cv_refreshes (tx_view w)))"
    "cv_refreshes (tx_view (snd (ro_Consume (so_refresh tx_stores) now i w))) =
       snd (spec_refresh_consume now i (cv_refreshes (tx_view w)))"
    "fst (ro_RevokeChain (so_refresh tx_stores) now i w) = fst (spec_refresh_revokeChain now i (cv_refreshes (tx_view w)))"
    "cv_refreshes (tx_view (snd (ro_RevokeChain (so_refresh tx_stores) now i w))) =
       snd (spec_refresh_revokeChain now i (cv_refreshes (tx_view w)))"
    "fst (ro_RevokeByGrant (so_refresh tx_stores) now g w) =
       fst (spec_refresh_revokeBy rt_GrantID now g (cv_refreshes (tx_view w)))"
    "cv_refreshes (tx_view (snd (ro_RevokeByGrant (so_refresh tx_stores) now g w))) =
       snd (spec_refresh_revokeBy rt_GrantID now g (cv_refreshes (tx_view w)))"
    by (simp_all add: w tx_stores_def via refresh)
  show "fst (so_SaveRotationWithRetry tx_stores now (Some r) sealed w) =
       (if rotation_ok (Some r) sealed then fst (spec_refresh_save r (cv_refreshes (tx_view w))) else Some err_bad_rotation)"
    "tx_view (snd (so_SaveRotationWithRetry tx_stores now (Some r) sealed w)) =
       (if rotation_ok (Some r) sealed
        then (tx_view w)\<lparr>cv_refreshes := snd (spec_refresh_save r (cv_refreshes (tx_view w)))\<rparr> else tx_view w)"
    by (simp_all add: w tx_stores_def via refresh)
  show "fst (so_accessRegister tx_stores rec w) =
       (if at_JTI rec = [] then Some err_empty_jti
        else if cv_access (tx_view w) (at_JTI rec) \<noteq> None then Some ErrAlreadyExists else None)"
    "tx_view (snd (so_accessRegister tx_stores rec w)) =
       (if fst (so_accessRegister tx_stores rec w) = None
        then (tx_view w)\<lparr>cv_access := (cv_access (tx_view w))(at_JTI rec \<mapsto> rec)\<rparr> else tx_view w)"
    by (simp_all add: w tx_stores_def via txAccessTokens_Register_def)
  show "fst (so_opaqueSave tx_stores (Some o') w) =
       (if oa_ID o' = [] then Some err_empty_opaque
        else if cv_opaque (tx_view w) (hashKey (oa_ID o')) \<noteq> None then Some ErrAlreadyExists else None)"
    "tx_view (snd (so_opaqueSave tx_stores (Some o') w)) =
       (if fst (so_opaqueSave tx_stores (Some o') w) = None
        then (tx_view w)\<lparr>cv_opaque := (cv_opaque (tx_view w))(hashKey (oa_ID o') \<mapsto> o'\<lparr>oa_ID := hashKey (oa_ID o')\<rparr>)\<rparr>
        else tx_view w)"
    by (simp_all add: w tx_stores_def via txOpaqueAccessTokens_Save_def Let_def)
  show "opaque_retired (\<lambda>r. g \<noteq> [] \<and> c \<noteq> [] \<and> oa_GrantID r = g \<and> oa_ChainID r = c)
       (cv_opaque (tx_view w)) (cv_opaque (tx_view (snd (so_opaqueRevokeByChain tx_stores g c w))))"
    "opaque_retired (\<lambda>r. g \<noteq> [] \<and> oa_GrantID r = g)
       (cv_opaque (tx_view w)) (cv_opaque (tx_view (snd (so_opaqueRevokeByGrant tx_stores g w))))"
    using tx_opaque_cascades [OF wf(3)] by (simp_all add: w tx_stores_def via)
  show "tx_view (snd (ro_Save (so_refresh tx_stores) (Some r) w)) =
       (tx_view w)\<lparr>cv_refreshes := cv_refreshes (tx_view (snd (ro_Save (so_refresh tx_stores) (Some r) w)))\<rparr>"
    "tx_view (snd (ro_Consume (so_refresh tx_stores) now i w)) =
       (tx_view w)\<lparr>cv_refreshes := cv_refreshes (tx_view (snd (ro_Consume (so_refresh tx_stores) now i w)))\<rparr>"
    "tx_view (snd (ro_RevokeChain (so_refresh tx_stores) now i w)) =
       (tx_view w)\<lparr>cv_refreshes := cv_refreshes (tx_view (snd (ro_RevokeChain (so_refresh tx_stores) now i w)))\<rparr>"
    "tx_view (snd (so_opaqueRevokeByChain tx_stores g c w)) =
       (tx_view w)\<lparr>cv_opaque := cv_opaque (tx_view (snd (so_opaqueRevokeByChain tx_stores g c w)))\<rparr>"
    "tx_view (snd (so_opaqueRevokeByGrant tx_stores g w)) =
       (tx_view w)\<lparr>cv_opaque := cv_opaque (tx_view (snd (so_opaqueRevokeByGrant tx_stores g w)))\<rparr>"
    "snd (fst (so_opaqueRevokeByChain tx_stores g c w)) = None" "snd (fst (so_opaqueRevokeByGrant tx_stores g w)) = None"
    by (simp_all add: w tx_stores_def via txOpaqueAccessTokens_RevokeByChain_def txOpaqueAccessTokens_RevokeByGrant_def
        case_prod_beta)
qed (simp add: tx_stores_def)


section \<open>From one to the other\<close>

lemma begin_tx:
  assumes "substores_reachable s" and "\<not> st_locked s"
  shows "Store_BeginTx None None s = Some ((Some newTx, None), s\<lparr>st_locked := True\<rparr>)"
    and "tx_inv (s\<lparr>st_locked := True\<rparr>) (s\<lparr>st_locked := True\<rparr>, newTx)"
    and "tx_view (s\<lparr>st_locked := True\<rparr>, newTx) = direct_view s"
  using assms session_of_new
  by (simp_all add: Store_BeginTx_def Store_lockTxCluster_def tx_inv_def tx_view_def direct_view_def newTx_def)

lemma commit_tx:
  assumes "tx_inv s0 (s, t)" and "tx_Commit nowAC nowRT t s = ((e, t'), s')"
  shows "e = None" and "direct_view s' = tx_view (s, t)" and "substores_reachable s'" and "\<not> st_locked s'"
proof -
  have inv: "substores_reachable s" "session_of s t" using assms(1) by (auto simp: tx_inv_def)
  note st = session_of_stagings [OF inv]
  from commit_reachable [OF inv assms(2)] show "substores_reachable s'" "\<not> st_locked s'" by simp_all
  show "e = None" "direct_view s' = tx_view (s, t)"
    using assms(2) unfolding commit_substores [OF st(3)]
    by (auto simp: direct_view_def tx_view_def flushLocked_view [OF st(1)] grant_flush_view [OF st(2)]
        access_flush_view opaque_flush_view grv_flush_view [unfolded prod.inject])
qed

end
