(* ===== verification/PollInterval.thy ===== *)
theory PollInterval
  imports Store_Common
begin

text \<open>
  The polling discipline of \<^verbatim>\<open>internal/pollinterval\<close>, shared by the device-code and CIBA grants: the
  fixed order of gates in \<^verbatim>\<open>Decide\<close>, the slow-down ladder and its tolerance. Durations are signed
  64-bit counts of nanoseconds; the additions of the ladder wrap, and the lemmas give the range on
  which they do not.
\<close>

definition dur_wrap :: "int \<Rightarrow> duration" where
  "dur_wrap x = (x + 2 ^ 63) mod 2 ^ 64 - 2 ^ 63"

definition DefaultInterval :: duration where
  "DefaultInterval = 5 * second"

definition SlowDownIncrement :: duration where
  "SlowDownIncrement = 5 * second"

definition IntervalTolerance :: duration where
  "IntervalTolerance = 1 * second"

definition DefaultExpiresIn :: duration where
  "DefaultExpiresIn = 600 * second"

definition FastPollFloor :: duration where
  "FastPollFloor = 500 * millisecond"

definition MaxPollViolations :: "8 word" where
  "MaxPollViolations = 5"

lemmas poll_constants = DefaultInterval_def SlowDownIncrement_def IntervalTolerance_def
  DefaultExpiresIn_def FastPollFloor_def

datatype Outcome =
    OutcomeInvalid
  | OutcomeEmit
  | OutcomePending
  | OutcomeSlowDown
  | OutcomeDenied
  | OutcomeExpired
  | OutcomeConsumed

fun Outcome_String :: "Outcome \<Rightarrow> string" where
  "Outcome_String OutcomeEmit = ''emit''"
| "Outcome_String OutcomePending = ''authorization_pending''"
| "Outcome_String OutcomeSlowDown = ''slow_down''"
| "Outcome_String OutcomeDenied = ''access_denied''"
| "Outcome_String OutcomeExpired = ''expired_token''"
| "Outcome_String OutcomeConsumed = ''invalid_grant''"
| "Outcome_String OutcomeInvalid = ''invalid''"

record poll_Input =
  pi_Now :: time
  pi_LastPolledAt :: time
  pi_EffectiveInterval :: duration
  pi_ExpiresAt :: time
  pi_Approved :: bool
  pi_Denied :: bool
  pi_Consumed :: bool
  pi_PollViolations :: "8 word"
  pi_MaxPollViolations :: "8 word"

record poll_Result =
  pr_Outcome :: Outcome
  pr_NextInterval :: duration
  pr_CountThisAsViolation :: bool

definition NextInterval :: "duration \<Rightarrow> duration" where
  "NextInterval current =
     (if current \<le> 0 then DefaultInterval else dur_wrap (current + SlowDownIncrement))"

definition IntervalBar :: "duration \<Rightarrow> duration" where
  "IntervalBar effective = max (dur_wrap (effective - IntervalTolerance)) 0"

definition only_outcome :: "Outcome \<Rightarrow> poll_Result" where
  "only_outcome c = \<lparr>pr_Outcome = c, pr_NextInterval = 0, pr_CountThisAsViolation = False\<rparr>"

definition Decide :: "poll_Input \<Rightarrow> poll_Result" where
  "Decide inp =
     (if pi_Consumed inp then only_outcome OutcomeConsumed
      else if pi_ExpiresAt inp \<noteq> zero_time \<and> \<not> pi_Now inp < pi_ExpiresAt inp then only_outcome OutcomeExpired
      else if pi_Denied inp then only_outcome OutcomeDenied
      else
        let threshold = (if pi_MaxPollViolations inp = 0 then MaxPollViolations else pi_MaxPollViolations inp)
        in if pi_PollViolations inp \<ge> threshold then only_outcome OutcomeDenied
           else
             let gap = time_sub (pi_Now inp) (pi_LastPolledAt inp)
             in if pi_LastPolledAt inp \<noteq> zero_time \<and>
                   (gap < FastPollFloor \<or> gap < IntervalBar (pi_EffectiveInterval inp))
                then \<lparr>pr_Outcome = OutcomeSlowDown, pr_NextInterval = NextInterval (pi_EffectiveInterval inp),
                      pr_CountThisAsViolation = True\<rparr>
                else if pi_Approved inp then only_outcome OutcomeEmit
                else only_outcome OutcomePending)"

text \<open>\<^verbatim>\<open>DecideAs\<close>: the \<^verbatim>\<open>Output\<close> record renames the fields of \<^verbatim>\<open>Result\<close>.\<close>

record poll_Output =
  po_Decision :: Outcome
  po_NextInterval :: duration
  po_CountThisAsViolation :: bool

definition DecideAs :: "poll_Input \<Rightarrow> Outcome \<Rightarrow> poll_Output" where
  "DecideAs inp consumedAs =
     (let res = Decide inp;
          out = \<lparr>po_Decision = pr_Outcome res, po_NextInterval = pr_NextInterval res,
                 po_CountThisAsViolation = pr_CountThisAsViolation res\<rparr>
      in if pr_Outcome res = OutcomeConsumed then out\<lparr>po_Decision := consumedAs\<rparr> else out)"


section \<open>Where the ladder does not wrap\<close>

lemma dur_wrap_range: "- (2 ^ 63) \<le> dur_wrap x \<and> dur_wrap x < 2 ^ 63"
  by (simp add: dur_wrap_def)

lemma dur_wrap_id: "- (2 ^ 63) \<le> x \<Longrightarrow> x < 2 ^ 63 \<Longrightarrow> dur_wrap x = x"
  by (simp add: dur_wrap_def)

lemma IntervalBar_id:
  assumes "0 \<le> effective" and "effective \<le> max_duration"
  shows "IntervalBar effective = max (effective - IntervalTolerance) 0"
  using assms by (simp add: IntervalBar_def dur_wrap_id max_duration_def poll_constants duration_defs)

lemma NextInterval_id:
  assumes "current \<le> max_duration - SlowDownIncrement"
  shows "NextInterval current = (if current \<le> 0 then DefaultInterval else current + SlowDownIncrement)"
proof (cases "current \<le> 0")
  case False
  with assms have "dur_wrap (current + SlowDownIncrement) = current + SlowDownIncrement"
    by (intro dur_wrap_id) (simp_all add: max_duration_def poll_constants duration_defs)
  with False show ?thesis by (simp add: NextInterval_def)
qed (simp add: NextInterval_def)

lemma gap_less_iff:
  assumes "0 \<le> b" and "b \<le> max_duration"
  shows "time_sub now prev < b \<longleftrightarrow> now - prev < b"
  using assms by (intro time_sub_less_iff) (simp_all add: min_duration_def)

text \<open>
  The shortest gap that does not earn a slow-down for an effective interval in range.
\<close>

definition poll_bar :: "duration \<Rightarrow> duration" where
  "poll_bar effective = max FastPollFloor (effective - IntervalTolerance)"

lemma too_fast_iff:
  assumes "0 \<le> effective" and "effective \<le> max_duration"
  shows "(time_sub now prev < FastPollFloor \<or> time_sub now prev < IntervalBar effective) \<longleftrightarrow>
         now - prev < poll_bar effective"
proof -
  have "time_sub now prev < FastPollFloor \<longleftrightarrow> now - prev < FastPollFloor"
    by (intro gap_less_iff) (simp_all add: poll_constants duration_defs max_duration_def)
  moreover have "time_sub now prev < IntervalBar effective \<longleftrightarrow> now - prev < max (effective - IntervalTolerance) 0"
    unfolding IntervalBar_id [OF assms] using assms
    by (intro gap_less_iff) (simp_all add: poll_constants duration_defs max_duration_def)
  ultimately show ?thesis
    by (auto simp: poll_bar_def less_max_iff_disj poll_constants duration_defs)
qed

lemma Decide_emit_iff:
  "pr_Outcome (Decide inp) = OutcomeEmit \<longleftrightarrow>
     \<not> pi_Consumed inp
     \<and> (pi_ExpiresAt inp = zero_time \<or> pi_Now inp < pi_ExpiresAt inp)
     \<and> \<not> pi_Denied inp
     \<and> pi_PollViolations inp < (if pi_MaxPollViolations inp = 0 then MaxPollViolations else pi_MaxPollViolations inp)
     \<and> (pi_LastPolledAt inp = zero_time \<or>
        \<not> (time_sub (pi_Now inp) (pi_LastPolledAt inp) < FastPollFloor \<or>
           time_sub (pi_Now inp) (pi_LastPolledAt inp) < IntervalBar (pi_EffectiveInterval inp)))
     \<and> pi_Approved inp"
  unfolding Decide_def Let_def only_outcome_def by (auto simp: not_le)

lemma Decide_slow_down:
  "pr_Outcome (Decide inp) = OutcomeSlowDown \<longleftrightarrow> pr_CountThisAsViolation (Decide inp)"
  "pr_Outcome (Decide inp) = OutcomeSlowDown \<Longrightarrow>
     pr_NextInterval (Decide inp) = NextInterval (pi_EffectiveInterval inp)"
  by (auto simp: Decide_def Let_def only_outcome_def split: if_splits)

lemma Decide_slow_down_iff:
  "pr_Outcome (Decide inp) = OutcomeSlowDown \<longleftrightarrow>
     \<not> pi_Consumed inp
     \<and> (pi_ExpiresAt inp = zero_time \<or> pi_Now inp < pi_ExpiresAt inp)
     \<and> \<not> pi_Denied inp
     \<and> pi_PollViolations inp < (if pi_MaxPollViolations inp = 0 then MaxPollViolations else pi_MaxPollViolations inp)
     \<and> pi_LastPolledAt inp \<noteq> zero_time
     \<and> (time_sub (pi_Now inp) (pi_LastPolledAt inp) < FastPollFloor \<or>
        time_sub (pi_Now inp) (pi_LastPolledAt inp) < IntervalBar (pi_EffectiveInterval inp))"
  unfolding Decide_def Let_def only_outcome_def by (auto simp: not_le)

end
