(* ===== verification/Teardown.thy ===== *)
theory Teardown
  imports StoreHandles PollInterval
begin

text \<open>
  The retirement of credentials, \<^verbatim>\<open>internal/revocation/teardown.go\<close> and \<^verbatim>\<open>jwt.go\<close>: the scopes a teardown
  can have, the \<^verbatim>\<open>Revoker\<close> that runs a scope over the refresh tokens, the two access-token registries
  and the grant revocations, and the check \<^verbatim>\<open>JWTAccessTokenRevoked\<close> a verifier
  makes before it accepts a JWT access token. A substore of the Go \<^verbatim>\<open>Revoker\<close> may be nil: the flags of
  the model's \<open>Revoker\<close> say which are wired, and the argument \<open>h\<close> are the substores behind the handles.

  The lemmas connect the two sides: after a teardown of a whole grant nothing issued under the grant
  works, whichever strategy is active; a narrower scope touches nothing outside it.
\<close>

unbundle bit_operations_syntax


section \<open>Scopes\<close>

type_synonym revocation_class = "8 word"

definition classAccessTokens :: revocation_class where "classAccessTokens = 1"
definition classRefresh :: revocation_class where "classRefresh = 2"
definition classIssuance :: revocation_class where "classIssuance = 4"

lemmas class_defs = classAccessTokens_def classRefresh_def classIssuance_def

datatype width = widthNone | widthGrant | widthChain | widthToken | widthJTI

record Scope =
  sc_grantID :: string
  sc_accessTokenID :: string
  sc_refreshToken :: string
  sc_chainID :: string
  sc_jti :: string
  sc_expiresAt :: time
  sc_width :: width
  sc_classes :: revocation_class

definition zero_Scope :: Scope where
  "zero_Scope =
     \<lparr>sc_grantID = [], sc_accessTokenID = [], sc_refreshToken = [], sc_chainID = [], sc_jti = [],
      sc_expiresAt = zero_time, sc_width = widthNone, sc_classes = 0\<rparr>"

definition WholeGrant :: "string \<Rightarrow> Scope" where
  "WholeGrant grantID =
     zero_Scope\<lparr>sc_grantID := grantID, sc_width := widthGrant,
       sc_classes := classAccessTokens OR classRefresh OR classIssuance\<rparr>"

definition CompromisedGrantAccessTokens :: "string \<Rightarrow> Scope" where
  "CompromisedGrantAccessTokens grantID =
     zero_Scope\<lparr>sc_grantID := grantID, sc_width := widthGrant,
       sc_classes := classAccessTokens OR classIssuance\<rparr>"

definition AccessTokensOfGrant :: "string \<Rightarrow> Scope" where
  "AccessTokensOfGrant grantID =
     zero_Scope\<lparr>sc_grantID := grantID, sc_width := widthGrant, sc_classes := classAccessTokens\<rparr>"

definition OpaqueAccessTokensOfChain :: "string \<Rightarrow> string \<Rightarrow> Scope" where
  "OpaqueAccessTokensOfChain grantID chainID =
     zero_Scope\<lparr>sc_grantID := grantID, sc_chainID := chainID, sc_width := widthChain,
       sc_classes := classAccessTokens\<rparr>"

definition IssuedCredentials :: "string \<Rightarrow> string \<Rightarrow> Scope" where
  "IssuedCredentials accessTokenID refreshToken =
     zero_Scope\<lparr>sc_accessTokenID := accessTokenID, sc_refreshToken := refreshToken,
       sc_width := widthToken, sc_classes := classAccessTokens OR classRefresh\<rparr>"

definition JWTAccessTokenByJTI :: "string \<Rightarrow> string \<Rightarrow> time \<Rightarrow> Scope" where
  "JWTAccessTokenByJTI jti grantID expiresAt =
     zero_Scope\<lparr>sc_grantID := grantID, sc_jti := jti, sc_expiresAt := expiresAt,
       sc_width := widthJTI, sc_classes := classAccessTokens\<rparr>"

lemmas scope_defs = zero_Scope_def WholeGrant_def CompromisedGrantAccessTokens_def AccessTokensOfGrant_def
  OpaqueAccessTokensOfChain_def IssuedCredentials_def JWTAccessTokenByJTI_def


section \<open>Outcomes\<close>

definition SurfaceJWTAccessTokens :: string where "SurfaceJWTAccessTokens = ''jwt_access_tokens''"
definition SurfaceOpaqueAccessTokens :: string where "SurfaceOpaqueAccessTokens = ''opaque_access_tokens''"
definition SurfaceRefreshTokens :: string where "SurfaceRefreshTokens = ''refresh_tokens''"
definition SurfaceGrantIssuance :: string where "SurfaceGrantIssuance = ''grant_issuance''"

record Failure =
  fl_Surface :: string
  fl_Err :: store_err

record teardown_Outcome =
  oc_Failures :: "Failure list"
  oc_UnresolvedGrant :: bool
  oc_JTIPersisted :: bool

definition zero_Outcome :: teardown_Outcome where
  "zero_Outcome = \<lparr>oc_Failures = [], oc_UnresolvedGrant = False, oc_JTIPersisted = False\<rparr>"

definition Outcome_Complete :: "teardown_Outcome \<Rightarrow> bool" where
  "Outcome_Complete out = (length (oc_Failures out) = 0 \<and> \<not> oc_UnresolvedGrant out)"

datatype revoker_err =
    GrantUnresolved
  | JoinedFailures "Failure list"
  | DeleteGrantFailed store_err

text \<open>\<^verbatim>\<open>errors.Join\<close> of an empty slice is nil.\<close>

definition Outcome_Err :: "teardown_Outcome \<Rightarrow> revoker_err option" where
  "Outcome_Err out =
     (if oc_UnresolvedGrant out then Some GrantUnresolved
      else if oc_Failures out = [] then None else Some (JoinedFailures (oc_Failures out)))"

definition Outcome_add :: "string \<Rightarrow> store_err option \<Rightarrow> teardown_Outcome \<Rightarrow> teardown_Outcome" where
  "Outcome_add surface err out =
     (case err of
        None \<Rightarrow> out
      | Some e \<Rightarrow> out\<lparr>oc_Failures := oc_Failures out @ [\<lparr>fl_Surface = surface, fl_Err = e\<rparr>]\<rparr>)"

lemma Outcome_add_None [simp]: "Outcome_add surface None out = out"
  by (simp add: Outcome_add_def)

lemma Outcome_Err_None: "Outcome_Err out = None \<longleftrightarrow> Outcome_Complete out"
  by (simp add: Outcome_Err_def Outcome_Complete_def)


section \<open>The strategies for JWT access tokens\<close>

type_synonym AccessTokenRevocationStrategy = int

definition RevocationStrategyGrantTombstone :: AccessTokenRevocationStrategy where
  "RevocationStrategyGrantTombstone = 0"

definition RevocationStrategyJTIRegistry :: AccessTokenRevocationStrategy where
  "RevocationStrategyJTIRegistry = 1"

definition RevocationStrategyNone :: AccessTokenRevocationStrategy where
  "RevocationStrategyNone = 2"

lemmas strategy_defs = RevocationStrategyGrantTombstone_def RevocationStrategyJTIRegistry_def
  RevocationStrategyNone_def

text \<open>The substores and the strategy a JWT cascade consults; a flag is whether the substore is wired.\<close>

record JWTGrantCascadeOpts =
  jg_AccessTokens :: bool
  jg_GrantRevocations :: bool
  jg_RevocationStrategy :: AccessTokenRevocationStrategy

text \<open>The error of a call that also counts.\<close>

definition only_err :: "('n \<times> store_err option) \<times> 's \<Rightarrow> store_err option \<times> 's" where
  "only_err r = (case r of ((_, err), s) \<Rightarrow> (err, s))"

definition RevokeJWTAccessTokensByGrant ::
  "'s stores \<Rightarrow> JWTGrantCascadeOpts \<Rightarrow> string \<Rightarrow> time \<Rightarrow> duration \<Rightarrow> string \<Rightarrow> bool \<Rightarrow> 's \<Rightarrow>
     store_err option \<times> 's" where
  "RevokeJWTAccessTokensByGrant h opts grantID now retention reason accessTokensOnly s =
     (if jg_RevocationStrategy opts = RevocationStrategyNone then (None, s)
      else if jg_RevocationStrategy opts = RevocationStrategyJTIRegistry then
        (if jg_AccessTokens opts then only_err (so_accessRevokeByGrant h grantID s) else (None, s))
      else if jg_GrantRevocations opts \<and> grantID \<noteq> [] then
        so_RevokeGrant h
          \<lparr>gt_GrantID = grantID, gt_RevokedAt = now, gt_ExpiresAt = now + retention, gt_Reason = reason,
           gt_AccessTokensOnly = accessTokensOnly\<rparr> s
      else if jg_AccessTokens opts then only_err (so_accessRevokeByGrant h grantID s)
      else (None, s))"

definition revokedOutcome :: "store_err option \<times> 's \<Rightarrow> (bool \<times> store_err option) \<times> 's" where
  "revokedOutcome r = (case r of (err, s) \<Rightarrow> ((err = None, err), s))"

definition revokeJWTAccessTokenByJTI ::
  "'s stores \<Rightarrow> JWTGrantCascadeOpts \<Rightarrow> string \<Rightarrow> string \<Rightarrow> time \<Rightarrow> 's \<Rightarrow>
     (bool \<times> store_err option) \<times> 's" where
  "revokeJWTAccessTokenByJTI h opts jti grantID expiresAt s =
     (if jg_RevocationStrategy opts = RevocationStrategyNone then ((False, None), s)
      else if jg_RevocationStrategy opts = RevocationStrategyJTIRegistry then
        (if jg_AccessTokens opts then revokedOutcome (so_accessRevokeByJTI h jti s) else ((False, None), s))
      else if jg_GrantRevocations opts then
        revokedOutcome (so_RevokeJTI h \<lparr>rj_JTI = jti, rj_GrantID = grantID, rj_ExpiresAt = expiresAt\<rparr> s)
      else if jg_AccessTokens opts then revokedOutcome (so_accessRevokeByJTI h jti s)
      else ((False, None), s))"


section \<open>The revoker\<close>

definition ClockSkewAllowance :: duration where
  "ClockSkewAllowance = 5 * 60 * second"

definition TombstoneRetention :: "duration \<Rightarrow> duration" where
  "TombstoneRetention accessTokenTTL =
     (let accessTokenTTL = (if accessTokenTTL \<le> 0 then hour else accessTokenTTL)
      in dur_wrap (accessTokenTTL + ClockSkewAllowance))"

record Revoker =
  rv_RefreshTokens :: bool
  rv_OpaqueAccessTokens :: bool
  rv_AccessTokens :: bool
  rv_GrantRevocations :: bool
  rv_Strategy :: AccessTokenRevocationStrategy
  rv_Now :: time
  rv_TombstoneRetention :: duration
  rv_Reason :: string

definition NewRevoker ::
  "bool \<Rightarrow> bool \<Rightarrow> bool \<Rightarrow> bool \<Rightarrow> AccessTokenRevocationStrategy \<Rightarrow> duration \<Rightarrow> time \<Rightarrow> string \<Rightarrow> Revoker" where
  "NewRevoker refreshTokens opaqueAccessTokens accessTokens grantRevocations strategy accessTokenTTL now reason =
     \<lparr>rv_RefreshTokens = refreshTokens, rv_OpaqueAccessTokens = opaqueAccessTokens,
      rv_AccessTokens = accessTokens, rv_GrantRevocations = grantRevocations, rv_Strategy = strategy,
      rv_Now = now, rv_TombstoneRetention = TombstoneRetention accessTokenTTL, rv_Reason = reason\<rparr>"

definition cascade_opts :: "Revoker \<Rightarrow> JWTGrantCascadeOpts" where
  "cascade_opts r =
     \<lparr>jg_AccessTokens = rv_AccessTokens r, jg_GrantRevocations = rv_GrantRevocations r,
      jg_RevocationStrategy = rv_Strategy r\<rparr>"

definition Revoker_revokeGrantAccessTokens ::
  "'s stores \<Rightarrow> Revoker \<Rightarrow> Scope \<Rightarrow> teardown_Outcome \<Rightarrow> 's \<Rightarrow> teardown_Outcome \<times> 's" where
  "Revoker_revokeGrantAccessTokens h r sc out s =
     (case RevokeJWTAccessTokensByGrant h (cascade_opts r) (sc_grantID sc) (rv_Now r) (rv_TombstoneRetention r)
             (rv_Reason r) (sc_classes sc AND classIssuance = 0) s of
        (err, s) \<Rightarrow>
          let out = Outcome_add SurfaceJWTAccessTokens err out
          in if rv_OpaqueAccessTokens r
             then (case only_err (so_opaqueRevokeByGrant h (sc_grantID sc) s) of
                     (err, s) \<Rightarrow> (Outcome_add SurfaceOpaqueAccessTokens err out, s))
             else (out, s))"

definition Revoker_jwtRungClosesIssuance :: "Revoker \<Rightarrow> bool" where
  "Revoker_jwtRungClosesIssuance r =
     (if rv_Strategy r = RevocationStrategyJTIRegistry \<or> rv_Strategy r = RevocationStrategyNone then False
      else rv_GrantRevocations r)"

definition Revoker_owesIssuanceClosure :: "Revoker \<Rightarrow> Scope \<Rightarrow> bool" where
  "Revoker_owesIssuanceClosure r sc =
     (if sc_classes sc AND classIssuance = 0 \<or> \<not> rv_GrantRevocations r then False
      else sc_classes sc AND classAccessTokens = 0 \<or> \<not> Revoker_jwtRungClosesIssuance r)"

definition Revoker_issuanceTombstone :: "Revoker \<Rightarrow> string \<Rightarrow> GrantTombstone" where
  "Revoker_issuanceTombstone r grantID =
     \<lparr>gt_GrantID = grantID, gt_RevokedAt = rv_Now r, gt_ExpiresAt = rv_Now r + rv_TombstoneRetention r,
      gt_Reason = rv_Reason r, gt_AccessTokensOnly = False\<rparr>"

definition Revoker_runGrant :: "'s stores \<Rightarrow> Revoker \<Rightarrow> time \<Rightarrow> Scope \<Rightarrow> 's \<Rightarrow> teardown_Outcome \<times> 's" where
  "Revoker_runGrant h r snow sc s =
     (if sc_grantID sc = [] then (zero_Outcome\<lparr>oc_UnresolvedGrant := True\<rparr>, s)
      else
        (case (if sc_classes sc AND classAccessTokens \<noteq> 0
               then Revoker_revokeGrantAccessTokens h r sc zero_Outcome s else (zero_Outcome, s)) of
           (out, s) \<Rightarrow>
             (case (if Revoker_owesIssuanceClosure r sc
                    then (case so_RevokeGrant h (Revoker_issuanceTombstone r (sc_grantID sc)) s of
                            (err, s) \<Rightarrow> (Outcome_add SurfaceGrantIssuance err out, s))
                    else (out, s)) of
                (out, s) \<Rightarrow>
                  if sc_classes sc AND classRefresh \<noteq> 0 \<and> rv_RefreshTokens r
                  then (case ro_RevokeByGrant (so_refresh h) snow (sc_grantID sc) s of
                          (err, s) \<Rightarrow> (Outcome_add SurfaceRefreshTokens err out, s))
                  else (out, s))))"

definition Revoker_runChain :: "'s stores \<Rightarrow> Revoker \<Rightarrow> Scope \<Rightarrow> 's \<Rightarrow> teardown_Outcome \<times> 's" where
  "Revoker_runChain h r sc s =
     (if sc_grantID sc = [] then (zero_Outcome\<lparr>oc_UnresolvedGrant := True\<rparr>, s)
      else if \<not> rv_OpaqueAccessTokens r then (zero_Outcome, s)
      else
        (case (if sc_chainID sc \<noteq> [] then only_err (so_opaqueRevokeByChain h (sc_grantID sc) (sc_chainID sc) s)
               else only_err (so_opaqueRevokeByGrant h (sc_grantID sc) s)) of
           (err, s) \<Rightarrow> (Outcome_add SurfaceOpaqueAccessTokens err zero_Outcome, s)))"

definition Revoker_runToken :: "'s stores \<Rightarrow> Revoker \<Rightarrow> time \<Rightarrow> Scope \<Rightarrow> 's \<Rightarrow> teardown_Outcome \<times> 's" where
  "Revoker_runToken h r snow sc s =
     (case (if sc_classes sc AND classAccessTokens \<noteq> 0 \<and> sc_accessTokenID sc \<noteq> [] \<and> rv_OpaqueAccessTokens r
            then (case so_opaqueRevokeByID h (sc_accessTokenID sc) s of
                    (err, s) \<Rightarrow> (Outcome_add SurfaceOpaqueAccessTokens err zero_Outcome, s))
            else (zero_Outcome, s)) of
        (out, s) \<Rightarrow>
          if sc_classes sc AND classRefresh \<noteq> 0 \<and> sc_refreshToken sc \<noteq> [] \<and> rv_RefreshTokens r
          then (case ro_RevokeChain (so_refresh h) snow (sc_refreshToken sc) s of
                  (err, s) \<Rightarrow> (Outcome_add SurfaceRefreshTokens err out, s))
          else (out, s))"

definition Revoker_runJTI :: "'s stores \<Rightarrow> Revoker \<Rightarrow> Scope \<Rightarrow> 's \<Rightarrow> teardown_Outcome \<times> 's" where
  "Revoker_runJTI h r sc s =
     (case revokeJWTAccessTokenByJTI h (cascade_opts r) (sc_jti sc) (sc_grantID sc)
             (sc_expiresAt sc + ClockSkewAllowance) s of
        ((persisted, err), s) \<Rightarrow>
          (Outcome_add SurfaceJWTAccessTokens err (zero_Outcome\<lparr>oc_JTIPersisted := persisted\<rparr>), s))"

text \<open>
  \<^verbatim>\<open>Run\<close>; \<open>snow\<close> is the instant the refresh-token store reads from its own clock.
\<close>

definition Revoker_Run :: "'s stores \<Rightarrow> Revoker \<Rightarrow> time \<Rightarrow> Scope \<Rightarrow> 's \<Rightarrow> teardown_Outcome \<times> 's" where
  "Revoker_Run h r snow sc s =
     (case sc_width sc of
        widthGrant \<Rightarrow> Revoker_runGrant h r snow sc s
      | widthChain \<Rightarrow> Revoker_runChain h r sc s
      | widthToken \<Rightarrow> Revoker_runToken h r snow sc s
      | widthJTI \<Rightarrow> Revoker_runJTI h r sc s
      | widthNone \<Rightarrow> (zero_Outcome, s))"

definition Revoker_RevokeGrant ::
  "'s stores \<Rightarrow> Revoker \<Rightarrow> time \<Rightarrow> string \<Rightarrow> 's \<Rightarrow> revoker_err option \<times> 's" where
  "Revoker_RevokeGrant h r snow grantID s =
     (case Revoker_Run h r snow (WholeGrant grantID) s of
        (out, s) \<Rightarrow>
          (case Outcome_Err out of
             Some e \<Rightarrow> (Some e, s)
           | None \<Rightarrow>
               (case so_grantDelete h grantID s of
                  (err, s) \<Rightarrow>
                    (case err of
                       Some e \<Rightarrow> (if e \<noteq> ErrNotFound then Some (DeleteGrantFailed e) else None, s)
                     | None \<Rightarrow> (None, s)))))"


section \<open>The check a verifier makes\<close>

text \<open>
  \<^verbatim>\<open>time.Unix(sec, 0)\<close> and \<^verbatim>\<open>t.Unix()\<close>: the Unix epoch lies 62135596800 seconds after the zero time.
\<close>

definition unix_epoch :: time where
  "unix_epoch = 62135596800 * second"

definition time_Unix :: "int \<Rightarrow> time" where
  "time_Unix sec = unix_epoch + sec * second"

definition Time_Unix :: "time \<Rightarrow> int" where
  "Time_Unix t = (t - unix_epoch) div second"

text \<open>The claims of a verified JWT access token the check reads.\<close>

record AccessTokenClaims =
  jc_ClientID :: string
  jc_GrantID :: string
  jc_JTI :: string
  jc_IssuedAt :: int

text \<open>
  \<^verbatim>\<open>JWTRevocationOpts\<close>: which substores are wired, the client registry as its \<^verbatim>\<open>GetClient\<close> answers (the
  error, if any), and the strategy. The list a check returns beside its answer holds the errors handed
  to \<^verbatim>\<open>OnStoreFault\<close>.
\<close>

record JWTRevocationOpts =
  jo_AccessTokens :: bool
  jo_GrantRevocations :: bool
  jo_Clients :: "(string \<Rightarrow> store_err option) option"
  jo_RevocationStrategy :: AccessTokenRevocationStrategy

definition RequireJTIFor :: "AccessTokenRevocationStrategy \<Rightarrow> bool" where
  "RequireJTIFor strategy = (strategy \<noteq> RevocationStrategyNone)"

definition clientDeleted :: "JWTRevocationOpts \<Rightarrow> string \<Rightarrow> (bool \<times> bool) \<times> store_err list" where
  "clientDeleted opts clientID =
     (case jo_Clients opts of
        None \<Rightarrow> ((False, True), [])
      | Some getClient \<Rightarrow>
          if clientID = [] then ((False, True), [])
          else (case getClient clientID of
                  Some err \<Rightarrow> if err = ErrNotFound then ((True, True), []) else ((False, False), [err])
                | None \<Rightarrow> ((False, True), [])))"

definition jwtAccessTokenRevokedByJTI ::
  "JWTRevocationOpts \<Rightarrow> 'a AccessTokenClaims_scheme \<Rightarrow> inmem_Store \<Rightarrow> (bool \<times> bool) \<times> store_err list" where
  "jwtAccessTokenRevokedByJTI opts claims s =
     (if \<not> jo_AccessTokens opts then ((False, True), [])
      else (case accessTokenStore_Find (jc_JTI claims) (st_accessTokens s) of
              (_, Some err) \<Rightarrow> if err = ErrNotFound then ((False, True), []) else ((False, False), [err])
            | (rec, None) \<Rightarrow> ((case rec of None \<Rightarrow> False | Some rec \<Rightarrow> at_Revoked rec, True), [])))"

definition jwtAccessTokenRevokedByTombstone ::
  "JWTRevocationOpts \<Rightarrow> 'a AccessTokenClaims_scheme \<Rightarrow> inmem_Store \<Rightarrow> (bool \<times> bool) \<times> store_err list" where
  "jwtAccessTokenRevokedByTombstone opts claims s =
     (let fallback = (if \<not> jo_AccessTokens opts then ((False, True), [])
                      else jwtAccessTokenRevokedByJTI opts claims s)
      in if jo_GrantRevocations opts then
           (case grantRevocationStore_IsRevoked (jc_GrantID claims) (jc_JTI claims)
                   (time_Unix (jc_IssuedAt claims)) (st_grantRevocations s) of
              (_, Some err) \<Rightarrow> ((False, False), [err])
            | (got, None) \<Rightarrow>
                if got then ((True, True), [])
                else if jc_GrantID claims \<noteq> [] then ((False, True), [])
                else fallback)
         else fallback)"

definition JWTAccessTokenRevoked ::
  "JWTRevocationOpts \<Rightarrow> 'a AccessTokenClaims_scheme \<Rightarrow> inmem_Store \<Rightarrow> (bool \<times> bool) \<times> store_err list" where
  "JWTAccessTokenRevoked opts claims s =
     (if jo_RevocationStrategy opts = RevocationStrategyNone then ((False, True), [])
      else
        (case clientDeleted opts (jc_ClientID claims) of
           ((gone, resolved), faults) \<Rightarrow>
             if \<not> resolved then ((False, False), faults)
             else if gone then ((True, True), faults)
             else if jo_RevocationStrategy opts = RevocationStrategyJTIRegistry
               then jwtAccessTokenRevokedByJTI opts claims s
             else jwtAccessTokenRevokedByTombstone opts claims s))"


section \<open>What a run does to each substore\<close>

text \<open>The in-memory substores answer none of these calls with an error; only a chain may be missing.\<close>

lemma direct_calls [simp]:
  "only_err (so_accessRevokeByGrant direct_stores g s) =
     (None, s\<lparr>st_accessTokens := snd (accessTokenStore_RevokeByGrant g (st_accessTokens s))\<rparr>)"
  "so_accessRevokeByJTI direct_stores j s =
     (None, s\<lparr>st_accessTokens := snd (accessTokenStore_RevokeByJTI j (st_accessTokens s))\<rparr>)"
  "only_err (so_opaqueRevokeByGrant direct_stores g s) =
     (None, s\<lparr>st_opaqueAccessTokens := snd (opaqueAccessTokenStore_RevokeByGrant g (st_opaqueAccessTokens s))\<rparr>)"
  "only_err (so_opaqueRevokeByChain direct_stores g c s) =
     (None, s\<lparr>st_opaqueAccessTokens := snd (opaqueAccessTokenStore_RevokeByChain g c (st_opaqueAccessTokens s))\<rparr>)"
  "so_opaqueRevokeByID direct_stores i s =
     (None, s\<lparr>st_opaqueAccessTokens := snd (opaqueAccessTokenStore_RevokeByID i (st_opaqueAccessTokens s))\<rparr>)"
  "so_RevokeGrant direct_stores t s =
     (None, s\<lparr>st_grantRevocations := snd (grantRevocationStore_RevokeGrant t (st_grantRevocations s))\<rparr>)"
  "so_RevokeJTI direct_stores d s =
     (None, s\<lparr>st_grantRevocations := snd (grantRevocationStore_RevokeJTI d (st_grantRevocations s))\<rparr>)"
  "ro_RevokeByGrant (so_refresh direct_stores) now g s =
     (None, s\<lparr>st_refreshes := snd (refreshStore_RevokeByGrant now g (st_refreshes s))\<rparr>)"
  "ro_RevokeChain (so_refresh direct_stores) now i s =
     (fst (refreshStore_RevokeChain now i (st_refreshes s)),
      s\<lparr>st_refreshes := snd (refreshStore_RevokeChain now i (st_refreshes s))\<rparr>)"
  "so_grantDelete direct_stores g s =
     (fst (grantStore_Delete g (st_grants s)), s\<lparr>st_grants := snd (grantStore_Delete g (st_grants s))\<rparr>)"
  by (simp_all add: direct_stores_def only_err_def via_def
      accessTokenStore_RevokeByGrant_def accessTokenStore_RevokeByJTI_def
      opaqueAccessTokenStore_RevokeByGrant_def opaqueAccessTokenStore_RevokeByChain_def
      opaqueAccessTokenStore_RevokeByID_def grantRevocationStore_RevokeGrant_def
      grantRevocationStore_RevokeJTI_def refreshStore_RevokeByGrant_def case_prod_beta Let_def
      split: option.split)

text \<open>Which of its two forms the JWT rung of a grant-wide run takes.\<close>

definition registry_rung :: "Revoker \<Rightarrow> bool" where
  "registry_rung r \<longleftrightarrow> rv_AccessTokens r \<and> rv_Strategy r \<noteq> RevocationStrategyNone
     \<and> (rv_Strategy r = RevocationStrategyJTIRegistry \<or> \<not> rv_GrantRevocations r)"

definition access_tombstone :: "Revoker \<Rightarrow> Scope \<Rightarrow> GrantTombstone" where
  "access_tombstone r sc =
     (Revoker_issuanceTombstone r (sc_grantID sc))\<lparr>gt_AccessTokensOnly := (sc_classes sc AND classIssuance = 0)\<rparr>"

lemma runGrant_closed:
  assumes "sc_grantID sc \<noteq> []"
  shows "Revoker_runGrant direct_stores r snow sc s =
    (zero_Outcome,
     s\<lparr>st_accessTokens := (if sc_classes sc AND classAccessTokens \<noteq> 0 \<and> registry_rung r
          then snd (accessTokenStore_RevokeByGrant (sc_grantID sc) (st_accessTokens s)) else st_accessTokens s),
       st_opaqueAccessTokens := (if sc_classes sc AND classAccessTokens \<noteq> 0 \<and> rv_OpaqueAccessTokens r
          then snd (opaqueAccessTokenStore_RevokeByGrant (sc_grantID sc) (st_opaqueAccessTokens s))
          else st_opaqueAccessTokens s),
       st_grantRevocations :=
         (if (sc_classes sc AND classAccessTokens \<noteq> 0 \<and> Revoker_jwtRungClosesIssuance r)
             \<or> Revoker_owesIssuanceClosure r sc
          then snd (grantRevocationStore_RevokeGrant (access_tombstone r sc) (st_grantRevocations s))
          else st_grantRevocations s),
       st_refreshes := (if sc_classes sc AND classRefresh \<noteq> 0 \<and> rv_RefreshTokens r
          then snd (refreshStore_RevokeByGrant snow (sc_grantID sc) (st_refreshes s)) else st_refreshes s)\<rparr>)"
  using assms
  by (simp add: Revoker_runGrant_def Revoker_revokeGrantAccessTokens_def RevokeJWTAccessTokensByGrant_def
      cascade_opts_def registry_rung_def Revoker_jwtRungClosesIssuance_def Revoker_owesIssuanceClosure_def
      access_tombstone_def Revoker_issuanceTombstone_def strategy_defs)

lemma scope_classes [simp]:
  "sc_grantID (WholeGrant g) = g" "sc_width (WholeGrant g) = widthGrant"
  "sc_classes (WholeGrant g) = 7"
  "sc_grantID (CompromisedGrantAccessTokens g) = g" "sc_width (CompromisedGrantAccessTokens g) = widthGrant"
  "sc_classes (CompromisedGrantAccessTokens g) = 5"
  "sc_grantID (AccessTokensOfGrant g) = g" "sc_width (AccessTokensOfGrant g) = widthGrant"
  "sc_classes (AccessTokensOfGrant g) = 1"
  by (simp_all add: scope_defs class_defs)

lemma class_tests [simp]:
  "7 AND classAccessTokens \<noteq> 0" "7 AND classRefresh \<noteq> 0" "7 AND classIssuance \<noteq> 0"
  "5 AND classAccessTokens \<noteq> 0" "5 AND classRefresh = 0" "5 AND classIssuance \<noteq> 0"
  "1 AND classAccessTokens \<noteq> 0" "1 AND classRefresh = 0" "1 AND classIssuance = 0"
  by (simp_all add: class_defs)


section \<open>Tombstones written by a run\<close>

lemma access_tombstone_sel [simp]:
  "gt_GrantID (access_tombstone r sc) = sc_grantID sc" "gt_RevokedAt (access_tombstone r sc) = rv_Now r"
  "gt_AccessTokensOnly (access_tombstone r sc) = (sc_classes sc AND classIssuance = 0)"
  by (simp_all add: access_tombstone_def Revoker_issuanceTombstone_def)

lemma grv_fst_snd:
  "grantRevocationStore_IsRevoked g j iat s = (fst (grantRevocationStore_IsRevoked g j iat s), None)"
  "grantRevocationStore_IsIssuanceRevoked g iat s = (fst (grantRevocationStore_IsIssuanceRevoked g iat s), None)"
  by (simp_all add: grantRevocationStore_IsRevoked_def grantRevocationStore_IsIssuanceRevoked_def split: option.split)

lemma tombstone_closes:
  assumes "gt_GrantID t = g" and "g \<noteq> []" and "0 < gt_RevokedAt t" and "iat \<le> gt_RevokedAt t"
  shows "grantRevocationStore_IsRevoked g j iat (snd (grantRevocationStore_RevokeGrant t s)) = (True, None)"
    and "\<not> gt_AccessTokensOnly t \<Longrightarrow>
      grantRevocationStore_IsIssuanceRevoked g iat (snd (grantRevocationStore_RevokeGrant t s)) = (True, None)"
  using assms tombstone_holds_revokes [OF RevokeGrant_holds [of t s], of iat]
  by (subst grv_fst_snd, simp add: IsRevoked_spec tombstone_hits_def)+

text \<open>A tombstone says nothing about other grants, and one for access tokens only nothing about issuance.\<close>

lemma tombstone_frame:
  "g' \<noteq> gt_GrantID t \<Longrightarrow>
     grantRevocationStore_IsRevoked g' j iat (snd (grantRevocationStore_RevokeGrant t s)) =
     grantRevocationStore_IsRevoked g' j iat s"
  "g' \<noteq> gt_GrantID t \<or> gt_AccessTokensOnly t \<Longrightarrow>
     grantRevocationStore_IsIssuanceRevoked g' iat (snd (grantRevocationStore_RevokeGrant t s)) =
     grantRevocationStore_IsIssuanceRevoked g' iat s"
  by (auto simp: grantRevocationStore_RevokeGrant_def grantRevocationStore_IsRevoked_def
      grantRevocationStore_IsIssuanceRevoked_def tombstoneRow_refusesIssuance_def tombstoneRow_merge_sel
      newTombstoneRow_sel split: option.splits)

lemma denylist_frame:
  "jti \<noteq> rj_JTI d \<Longrightarrow>
     grantRevocationStore_IsRevoked g jti iat (snd (grantRevocationStore_RevokeJTI d s)) =
     grantRevocationStore_IsRevoked g jti iat s"
  by (cases "rj_JTI d = [] \<or> fmlookup (grv_denylist s) (rj_JTI d) \<noteq> None")
     (auto simp: grantRevocationStore_RevokeJTI_def grantRevocationStore_IsRevoked_def)


section \<open>Rows a grant-wide run leaves and takes\<close>

text \<open>A record of a registry is spared by a run on \<open>g\<close> when it is of another grant.\<close>

lemma refresh_grant_rows:
  assumes "refresh_wf rs" and "g \<noteq> []"
  shows "tokens_of (snd (refreshStore_RevokeByGrant now g rs)) =
    revoke_where (\<lambda>k. \<exists>t. tokens_of rs k = Some t \<and> rt_GrantID t = g) now (tokens_of rs)"
  using RevokeByGrant_spec(2) [OF assms(1), of now g] assms(2) by (simp add: spec_refresh_revokeBy_def)

lemma refresh_grant_revoked:
  assumes "refresh_wf rs" and "g \<noteq> []"
    and "tokens_of (snd (refreshStore_RevokeByGrant now g rs)) k = Some t" and "rt_GrantID t = g"
  shows "rt_Revoked t"
  using assms(3,4) unfolding refresh_grant_rows [OF assms(1,2)]
  by (auto simp: revoke_where_def split: if_splits)

lemma opaque_grant_revoked:
  assumes "opaque_covered os" and "g \<noteq> []"
    and "fmlookup (oas_m (snd (opaqueAccessTokenStore_RevokeByGrant g os))) k = Some t" and "oa_GrantID t = g"
  shows "oa_Revoked t"
  using assms opaque_revokeIndexed_revokes [OF assms(1,2), of matchAnyToken k t]
  by (simp add: opaqueAccessTokenStore_RevokeByGrant_def case_prod_beta)

lemma refresh_grant_frame:
  assumes "refresh_wf rs" and "g \<noteq> []" and "\<And>t. tokens_of rs k = Some t \<Longrightarrow> rt_GrantID t \<noteq> g"
  shows "tokens_of (snd (refreshStore_RevokeByGrant now g rs)) k = tokens_of rs k"
  using assms(3) by (auto simp: refresh_grant_rows [OF assms(1,2)] revoke_where_def)

lemma access_grant_frame:
  assumes "access_rows_ok at" and "g \<noteq> []" and "\<And>t. fmlookup (ats_m at) k = Some t \<Longrightarrow> at_GrantID t \<noteq> g"
  shows "fmlookup (ats_m (snd (accessTokenStore_RevokeByGrant g at))) k = fmlookup (ats_m at) k"
  using assms(2,3) access_rows.revokeByGrant_rows(1) [OF assms(1,2), of matchAnyToken]
  by (cases "fmlookup (ats_m at) k")
     (simp_all add: accessTokenStore_RevokeByGrant_def case_prod_beta rows_revoke_def)

lemma opaque_grant_frame:
  assumes "opaque_rows_ok os" and "g \<noteq> []" and "\<And>t. fmlookup (oas_m os) k = Some t \<Longrightarrow> oa_GrantID t \<noteq> g"
  shows "fmlookup (oas_m (snd (opaqueAccessTokenStore_RevokeByGrant g os))) k = fmlookup (oas_m os) k"
  using assms(2,3) opaque_rows.revokeByGrant_rows(1) [OF assms(1,2), of matchAnyToken]
  by (cases "fmlookup (oas_m os) k")
     (simp_all add: opaqueAccessTokenStore_RevokeByGrant_def case_prod_beta rows_revoke_def)


section \<open>The verifier after a run\<close>

text \<open>A verifier of the same deployment: the substores the revoker writes are the ones it reads.\<close>

definition verifier_of :: "Revoker \<Rightarrow> JWTRevocationOpts \<Rightarrow> bool" where
  "verifier_of r opts \<longleftrightarrow>
     jo_AccessTokens opts = rv_AccessTokens r \<and> jo_GrantRevocations opts = rv_GrantRevocations r
     \<and> jo_RevocationStrategy opts = rv_Strategy r"

abbreviation client_resolved :: "JWTRevocationOpts \<Rightarrow> string \<Rightarrow> bool" where
  "client_resolved opts c \<equiv> snd (fst (clientDeleted opts c))"

lemma JWTAccessTokenRevoked_cases:
  assumes "jo_RevocationStrategy opts \<noteq> RevocationStrategyNone" and "client_resolved opts (jc_ClientID c)"
    and "jo_RevocationStrategy opts = RevocationStrategyJTIRegistry \<Longrightarrow>
      fst (jwtAccessTokenRevokedByJTI opts c s) = (True, True)"
    and "jo_RevocationStrategy opts \<noteq> RevocationStrategyJTIRegistry \<Longrightarrow>
      fst (jwtAccessTokenRevokedByTombstone opts c s) = (True, True)"
  shows "fst (JWTAccessTokenRevoked opts c s) = (True, True)"
  using assms by (auto simp: JWTAccessTokenRevoked_def case_prod_beta)

lemma revokedByTombstone:
  assumes "jo_GrantRevocations opts"
    and "grantRevocationStore_IsRevoked (jc_GrantID c) (jc_JTI c) (time_Unix (jc_IssuedAt c)) (st_grantRevocations s) =
      (True, None)"
  shows "fst (jwtAccessTokenRevokedByTombstone opts c s) = (True, True)"
  using assms by (simp add: jwtAccessTokenRevokedByTombstone_def)

lemma revokedByJTI:
  assumes "jo_AccessTokens opts" and "jc_JTI c \<noteq> []"
    and "fmlookup (ats_m (st_accessTokens s)) (jc_JTI c) = Some row" and "at_Revoked row"
  shows "fst (jwtAccessTokenRevokedByJTI opts c s) = (True, True)"
  using assms by (simp add: jwtAccessTokenRevokedByJTI_def accessTokenStore_Find_def)

text \<open>The verifier reads one row of the registry and one answer about the grant.\<close>

lemma JWTAccessTokenRevoked_same:
  assumes "accessTokenStore_Find (jc_JTI c) (st_accessTokens s') = accessTokenStore_Find (jc_JTI c) (st_accessTokens s)"
    and "grantRevocationStore_IsRevoked (jc_GrantID c) (jc_JTI c) (time_Unix (jc_IssuedAt c)) (st_grantRevocations s') =
         grantRevocationStore_IsRevoked (jc_GrantID c) (jc_JTI c) (time_Unix (jc_IssuedAt c)) (st_grantRevocations s)"
  shows "JWTAccessTokenRevoked opts c s' = JWTAccessTokenRevoked opts c s"
  unfolding JWTAccessTokenRevoked_def jwtAccessTokenRevokedByTombstone_def jwtAccessTokenRevokedByJTI_def assms
  by (rule refl)

text \<open>The whole second of an issuance lies at or before it.\<close>

lemma time_Unix_floor: "time_Unix (Time_Unix t) \<le> t"
proof -
  have "(t - unix_epoch) div second * second \<le> t - unix_epoch"
    by (simp add: second_def)
  then show ?thesis by (simp add: time_Unix_def Time_Unix_def)
qed

lemma access_grant_row:
  assumes "access_covered at" and "g \<noteq> []" and "fmlookup (ats_m at) k = Some row" and "at_GrantID row = g"
  obtains row' where "fmlookup (ats_m (snd (accessTokenStore_RevokeByGrant g at))) k = Some row'" and "at_Revoked row'"
proof -
  have rows: "fmlookup (ats_m (snd (accessTokenStore_RevokeByGrant g at))) k =
      fmlookup (snd (revokeIndexed accessTokenRowOps (ats_m at) (gm_set (ti_byGrant (ats_idx at)) g) matchAnyToken)) k"
    using assms(2) by (simp add: accessTokenStore_RevokeByGrant_def case_prod_beta)
  have "\<exists>row'. fmlookup (ats_m (snd (accessTokenStore_RevokeByGrant g at))) k = Some row' \<and> at_GrantID row' = g"
    using assms(3,4) unfolding rows access_rows.revokeIndexed_lookup by simp
  then obtain row' where row': "fmlookup (ats_m (snd (accessTokenStore_RevokeByGrant g at))) k = Some row'"
    and "at_GrantID row' = g" by blast
  with access_RevokeByGrant_revokes [OF assms(1,2) row'] that show thesis by blast
qed


section \<open>The properties of a teardown\<close>

text \<open>The invariants of the substores in a state the store can reach.\<close>

lemma reachable_substores:
  assumes "cluster_reachable (s, T)"
  shows "refresh_wf (st_refreshes s)" "access_covered (st_accessTokens s)" "opaque_covered (st_opaqueAccessTokens s)"
proof -
  have "substores_reachable s"
    using cluster_reachable_inv [OF assms] by (simp add: cluster_inv_def)
  then show "refresh_wf (st_refreshes s)" "access_covered (st_accessTokens s)" "opaque_covered (st_opaqueAccessTokens s)"
    using refresh_reachable_wf access_reachable_covered opaque_reachable
    by (simp_all add: substores_reachable_def)
qed

lemma whole_grant_state:
  assumes "g \<noteq> []" and "rv_RefreshTokens r" and "rv_OpaqueAccessTokens r" and "rv_GrantRevocations r"
    and "Revoker_Run direct_stores r snow (WholeGrant g) s = (out, s')"
  shows "out = zero_Outcome"
    "st_refreshes s' = snd (refreshStore_RevokeByGrant snow g (st_refreshes s))"
    "st_opaqueAccessTokens s' = snd (opaqueAccessTokenStore_RevokeByGrant g (st_opaqueAccessTokens s))"
    "st_accessTokens s' = (if registry_rung r then snd (accessTokenStore_RevokeByGrant g (st_accessTokens s))
       else st_accessTokens s)"
    "st_grantRevocations s' =
       snd (grantRevocationStore_RevokeGrant (access_tombstone r (WholeGrant g)) (st_grantRevocations s))"
  using assms by (auto simp: Revoker_Run_def runGrant_closed Revoker_owesIssuanceClosure_def)

lemma whole_grant_closed:
  assumes "g \<noteq> []" and "0 < rv_Now r" and "t \<le> rv_Now r"
    and "s' = snd (grantRevocationStore_RevokeGrant (access_tombstone r (WholeGrant g)) s)"
  shows "grantRevocationStore_IsRevoked g j t s' = (True, None)"
    and "grantRevocationStore_IsIssuanceRevoked g t s' = (True, None)"
  using assms tombstone_closes [of "access_tombstone r (WholeGrant g)" g t] by simp_all

lemma whole_grant_jwt:
  assumes "access_covered (st_accessTokens s)" and "g \<noteq> []" and "0 < rv_Now r"
    and "rv_RefreshTokens r" and "rv_OpaqueAccessTokens r" and "rv_AccessTokens r" and "rv_GrantRevocations r"
    and "Revoker_Run direct_stores r snow (WholeGrant g) s = (out, s')"
    and "verifier_of r opts" and "rv_Strategy r \<noteq> RevocationStrategyNone" and "client_resolved opts (jc_ClientID c)"
    and "jc_GrantID c = g" and "jc_IssuedAt c = Time_Unix minted" and "minted \<le> rv_Now r"
    and "rv_Strategy r = RevocationStrategyJTIRegistry \<longrightarrow>
      jc_JTI c \<noteq> [] \<and> (\<exists>row. fmlookup (ats_m (st_accessTokens s)) (jc_JTI c) = Some row \<and> at_GrantID row = g)"
  shows "fst (JWTAccessTokenRevoked opts c s') = (True, True)"
proof (rule JWTAccessTokenRevoked_cases)
  note s' = whole_grant_state [OF assms(2,4,5,7,8)]
  {
    assume "jo_RevocationStrategy opts = RevocationStrategyJTIRegistry"
    with assms(9) have jti: "rv_Strategy r = RevocationStrategyJTIRegistry" by (simp add: verifier_of_def)
    with assms(15) obtain row where row: "jc_JTI c \<noteq> []" "fmlookup (ats_m (st_accessTokens s)) (jc_JTI c) = Some row"
      "at_GrantID row = g" by blast
    from access_grant_row [OF assms(1,2) row(2,3)] obtain row' where
      "fmlookup (ats_m (snd (accessTokenStore_RevokeByGrant g (st_accessTokens s)))) (jc_JTI c) = Some row'"
      "at_Revoked row'" .
    moreover have "registry_rung r" using jti assms(6,10) by (simp add: registry_rung_def)
    ultimately show "fst (jwtAccessTokenRevokedByJTI opts c s') = (True, True)"
      using assms(6,9) row(1) by (intro revokedByJTI) (simp_all add: s'(4) verifier_of_def)
  }
  show "fst (jwtAccessTokenRevokedByTombstone opts c s') = (True, True)"
    using assms(7,9,12,13) whole_grant_closed(1) [OF assms(2,3) order_trans [OF time_Unix_floor assms(14)] s'(5)]
    by (intro revokedByTombstone) (simp_all add: verifier_of_def)
qed (use assms(9-11) in \<open>simp_all add: verifier_of_def\<close>)


text \<open>A store with one opaque token and one registered JWT under the grant \<open>g1\<close>.\<close>

definition sample_teardown_store :: inmem_Store where
  "sample_teardown_store =
     direct_exec (DAccess (ARegister (sample_token ''t1'' ''g1'' 100)))
       (direct_exec (DOpaque (OSave (Some sample_opaque))) Store_New)"

definition sample_revoker :: "AccessTokenRevocationStrategy \<Rightarrow> Revoker" where
  "sample_revoker strategy = NewRevoker True True True True strategy hour (time_Unix 1000) ''logout''"

definition sample_verifier :: "AccessTokenRevocationStrategy \<Rightarrow> JWTRevocationOpts" where
  "sample_verifier strategy =
     \<lparr>jo_AccessTokens = True, jo_GrantRevocations = True, jo_Clients = None, jo_RevocationStrategy = strategy\<rparr>"

definition sample_claims :: AccessTokenClaims where
  "sample_claims = \<lparr>jc_ClientID = ''app'', jc_GrantID = ''g1'', jc_JTI = ''t1'', jc_IssuedAt = 990\<rparr>"

lemma sample_teardown_reachable: "cluster_reachable (sample_teardown_store, None)"
proof -
  have "\<not> st_locked Store_New" "\<not> st_locked (direct_exec (DOpaque (OSave (Some sample_opaque))) Store_New)"
    by (simp_all add: Store_New_def)
  then show ?thesis
    unfolding cluster_reachable_def sample_teardown_store_def
    by (blast intro: cs_direct rtranclp.intros)
qed

lemmas sample_teardown_defs = sample_revoker_def sample_verifier_def sample_claims_def NewRevoker_def
  verifier_of_def clientDeleted_def strategy_defs



lemma sample_teardown_rows_ok:
  "refresh_wf (st_refreshes sample_teardown_store)"
  "access_rows_ok (st_accessTokens sample_teardown_store)"
  "opaque_rows_ok (st_opaqueAccessTokens sample_teardown_store)"
  using access_call_rows(1) [OF access_rows_ok_new, of "ARegister (sample_token ''t1'' ''g1'' 100)"]
    opaque_call_rows_ok [OF opaque_rows_ok_new, of "OSave (Some sample_opaque)"]
  by (simp_all add: sample_teardown_store_def Store_New_def)


text \<open>
  The cleanup after a failed exchange retires the credentials of that exchange and nothing else:
  the opaque token with that id, and the chain rooted at that refresh token. A run reports failure only
  when the chain root is not there.
\<close>

theorem issued_credentials_exact:
  assumes "refresh_wf (st_refreshes s)" and "rv_RefreshTokens r" and "rv_OpaqueAccessTokens r"
    and "Revoker_Run direct_stores r snow (IssuedCredentials a i) s = (out, s')"
  shows "fmlookup (oas_m (st_opaqueAccessTokens s')) k =
      (if a \<noteq> [] \<and> k = hashKey a then map_option (oa_Revoked_update (\<lambda>_. True)) (fmlookup (oas_m (st_opaqueAccessTokens s)) k)
       else fmlookup (oas_m (st_opaqueAccessTokens s)) k)
    \<and> tokens_of (st_refreshes s') =
      (if i \<noteq> [] \<and> tokens_of (st_refreshes s) (hashKey i) \<noteq> None
       then revoke_where (descends (tokens_of (st_refreshes s)) (hashKey i)) snow (tokens_of (st_refreshes s))
       else tokens_of (st_refreshes s))
    \<and> Outcome_Complete out = (i = [] \<or> tokens_of (st_refreshes s) (hashKey i) \<noteq> None)
    \<and> s' = s\<lparr>st_refreshes := st_refreshes s', st_opaqueAccessTokens := st_opaqueAccessTokens s'\<rparr>"
  using assms(2-) refreshStore_RevokeChain_spec [OF assms(1), of snow i]
  by (auto simp: Revoker_Run_def Revoker_runToken_def scope_defs class_defs spec_refresh_revokeChain_def
      opaqueAccessTokenStore_RevokeByID_def Outcome_add_def Outcome_Complete_def zero_Outcome_def Let_def
      split: if_splits option.splits)

theorem issued_credentials_exact_witness:
  "\<exists>out s'. Revoker_Run direct_stores (sample_revoker RevocationStrategyNone) 7 (IssuedCredentials ''secret'' []) sample_teardown_store = (out, s')
     \<and> Outcome_Complete out
     \<and> fmlookup (oas_m (st_opaqueAccessTokens s')) (hashKey ''secret'') =
         Some (sample_opaque\<lparr>oa_ID := hashKey ''secret'', oa_Revoked := True\<rparr>)"
proof -
  let ?r = "sample_revoker RevocationStrategyNone"
  obtain out s' where run: "Revoker_Run direct_stores ?r 7 (IssuedCredentials ''secret'' []) sample_teardown_store = (out, s')"
    by (cases "Revoker_Run direct_stores ?r 7 (IssuedCredentials ''secret'' []) sample_teardown_store")
  have row: "fmlookup (oas_m (st_opaqueAccessTokens sample_teardown_store)) (hashKey ''secret'') =
      Some (sample_opaque\<lparr>oa_ID := hashKey ''secret''\<rparr>)"
    by (simp add: sample_teardown_store_def Store_New_def newOpaqueAccessTokenStore_def
        opaqueAccessTokenStore_Save_def sample_opaque_def Let_def)
  have "rv_RefreshTokens ?r" "rv_OpaqueAccessTokens ?r" by (simp_all add: sample_teardown_defs)
  from issued_credentials_exact [OF sample_teardown_rows_ok(1) this run, of "hashKey ''secret''"] run row
  show ?thesis by simp
qed

lemma jti_run_cases:
  assumes "Revoker_Run direct_stores r snow (JWTAccessTokenByJTI j g e) s = (out, s')"
  obtains (none) "s' = s" and "\<not> oc_JTIPersisted out"
  | (registry) "rv_AccessTokens r" and "rv_Strategy r = RevocationStrategyJTIRegistry \<or> \<not> rv_GrantRevocations r"
      and "rv_Strategy r \<noteq> RevocationStrategyNone"
      and "s' = s\<lparr>st_accessTokens := snd (accessTokenStore_RevokeByJTI j (st_accessTokens s))\<rparr>"
  | (denylist) "rv_GrantRevocations r" and "rv_Strategy r \<noteq> RevocationStrategyJTIRegistry"
      and "rv_Strategy r \<noteq> RevocationStrategyNone"
      and "s' = s\<lparr>st_grantRevocations := snd (grantRevocationStore_RevokeJTI
         \<lparr>rj_JTI = j, rj_GrantID = g, rj_ExpiresAt = e + ClockSkewAllowance\<rparr> (st_grantRevocations s))\<rparr>"
proof -
  have run: "(out, s') = Revoker_runJTI direct_stores r (JWTAccessTokenByJTI j g e) s"
    using assms by (simp add: Revoker_Run_def scope_defs)
  then show thesis
    using that
    by (auto simp: Revoker_runJTI_def revokeJWTAccessTokenByJTI_def revokedOutcome_def cascade_opts_def
        scope_defs zero_Outcome_def split: if_splits)
qed



text \<open>
  What \<^verbatim>\<open>JTIPersisted\<close> means under the registry strategy: it is set although no row was written when the
  token was never registered, and the token keeps verifying.
\<close>

lemma jti_persisted_without_row:
  "let r = sample_revoker RevocationStrategyJTIRegistry;
       (out, s') = Revoker_Run direct_stores r 7 (JWTAccessTokenByJTI ''t1'' ''g1'' 100) Store_New
   in oc_JTIPersisted out \<and> s' = Store_New
      \<and> fst (JWTAccessTokenRevoked (sample_verifier RevocationStrategyJTIRegistry) sample_claims s') = (False, True)"
  by (simp add: Revoker_Run_def Revoker_runJTI_def revokeJWTAccessTokenByJTI_def revokedOutcome_def cascade_opts_def
      scope_defs sample_teardown_defs Store_New_def newAccessTokenStore_def accessTokenStore_RevokeByJTI_def
      JWTAccessTokenRevoked_def jwtAccessTokenRevokedByJTI_def accessTokenStore_Find_def)

lemma RevokeGrant_unresolved: "Revoker_RevokeGrant direct_stores r snow [] s = (Some GrantUnresolved, s)"
  by (simp add: Revoker_RevokeGrant_def Revoker_Run_def Revoker_runGrant_def Outcome_Err_def zero_Outcome_def)

lemma RevokeGrant_closed:
  assumes "g \<noteq> []"
  shows "Revoker_RevokeGrant direct_stores r snow g s =
    (None, (snd (Revoker_Run direct_stores r snow (WholeGrant g) s))\<lparr>st_grants := snd (grantStore_Delete g (st_grants s))\<rparr>)"
  using assms
  by (simp add: Revoker_RevokeGrant_def Revoker_Run_def runGrant_closed Outcome_Err_def zero_Outcome_def
      grantStore_Delete_def split: option.split)

text \<open>
  \<^verbatim>\<open>RevokeGrant\<close> on a named grant always succeeds on the in-memory store, and removes the grant
  record after the teardown, whether or not it was there, and no other; without a grant id it changes
  nothing and says that the grant could not be resolved.
\<close>

theorem revoke_grant_deletes:
  assumes "g \<noteq> []"
  shows "fst (Revoker_RevokeGrant direct_stores r snow g s) = None
     \<and> fst (grantStore_Find g (st_grants (snd (Revoker_RevokeGrant direct_stores r snow g s)))) = None
     \<and> (\<forall>g'. g' \<noteq> g \<longrightarrow> grantStore_Find g' (st_grants (snd (Revoker_RevokeGrant direct_stores r snow g s))) =
           grantStore_Find g' (st_grants s))
     \<and> Revoker_RevokeGrant direct_stores r snow [] s = (Some GrantUnresolved, s)"
  unfolding RevokeGrant_closed [OF assms] RevokeGrant_unresolved
  by (simp add: grantStore_Delete_def grantStore_Find_def split: option.split)

theorem revoke_grant_deletes_witness:
  "fst (Revoker_RevokeGrant direct_stores (sample_revoker RevocationStrategyNone) 7 ''g1'' sample_teardown_store) = None"
  using revoke_grant_deletes [of "''g1''"] by simp

end
