(* ===== verification/RefreshGrant.thy ===== *)
theory RefreshGrant
  imports ChainRetire
begin

text \<open>
  The refresh_token grant, \<^verbatim>\<open>internal/grants/refresh/refresh.go\<close>: issuing a refresh token, exchanging
  one under rotation (with the grace window for a lost response) or without it, and the replay
  defence. The exchanger is written against the store interface; \<open>snow\<close> is the instant of the store's
  clock and \<open>now\<close> that of the exchanger's clock during a call. Audit events are appended to a log.
  Random bytes are an argument, None when the source of randomness fails.
\<close>

datatype refresh_err =
    ErrTokenMissing
  | ErrTokenExpired
  | ErrTokenReplayed
  | ErrClientMismatch
  | ErrScopeWidening
  | ErrRefreshMsg string
  | ErrRefreshStore string store_err

datatype audit_event =
    AuditRefreshReplayDetected string
  | AuditRefreshChainRevokeFailed string string

definition IDLength :: nat where "IDLength = 32"
definition chainIDLength :: nat where "chainIDLength = 16"

definition GraceTTLDefault :: duration where
  "GraceTTLDefault = 60 * second"

definition RefreshTokenTTLDefault :: duration where
  "RefreshTokenTTLDefault = 30 * 24 * hour"


section \<open>Issuing\<close>

record 's Issuer =
  is_store :: "'s refresh_ops"
  is_ttl :: duration

definition NewIssuer :: "'s refresh_ops option \<Rightarrow> duration \<Rightarrow> refresh_err + 's Issuer" where
  "NewIssuer st ttl =
     (case st of
        None \<Rightarrow> Inl (ErrRefreshMsg ''refresh: NewIssuer requires Store'')
      | Some ops \<Rightarrow>
          Inr \<lparr>is_store = ops, is_ttl = (if ttl \<le> 0 then RefreshTokenTTLDefault else ttl)\<rparr>)"

record IssueInput =
  ii_ClientID :: string
  ii_Subject :: string
  ii_GrantID :: string
  ii_Scope :: "string list"
  ii_Resource :: string
  ii_ParentID :: "string option"
  ii_Origin :: RefreshTokenOrigin
  ii_SubjectPublic :: bool
  ii_AuthTime :: time
  ii_ACR :: string
  ii_AMR :: "string list"
  ii_AuthorizationDetails :: "jobject list"
  ii_AccessTokenExtra :: jobject
  ii_Claims :: jobject
  ii_AuthorizationRecorded :: bool
  ii_DPoPJKT :: string
  ii_MTLSCertThumbprint :: string
  ii_Nonce :: string
  ii_ChainID :: string

definition validateIssue :: "IssueInput \<Rightarrow> refresh_err option" where
  "validateIssue inp =
     (if ii_ClientID inp = [] then Some (ErrRefreshMsg ''refresh: Issue requires ClientID'')
      else if ii_Subject inp = [] then Some (ErrRefreshMsg ''refresh: Issue requires Subject'')
      else if ii_Scope inp = [] then Some (ErrRefreshMsg ''refresh: Issue requires Scope'')
      else None)"

definition refresh_newID :: "byte list option \<Rightarrow> refresh_err + string" where
  "refresh_newID buf =
     (case RandomBase64URL buf of Inl e \<Rightarrow> Inl (ErrRefreshMsg (''refresh: '' @ e)) | Inr i \<Rightarrow> Inr i)"

definition NewChainID :: "byte list option \<Rightarrow> refresh_err + string" where
  "NewChainID buf =
     (case RandomBase64URL buf of Inl e \<Rightarrow> Inl (ErrRefreshMsg (''refresh: '' @ e)) | Inr i \<Rightarrow> Inr i)"

definition Issuer_Prepare ::
  "'s Issuer \<Rightarrow> time \<Rightarrow> byte list option \<Rightarrow> byte list option \<Rightarrow> IssueInput \<Rightarrow>
     refresh_err + string \<times> RefreshToken" where
  "Issuer_Prepare iss now rnd rnd_chain inp =
     (case validateIssue inp of
        Some e \<Rightarrow> Inl e
      | None \<Rightarrow>
          (case refresh_newID rnd of
             Inl e \<Rightarrow> Inl e
           | Inr i \<Rightarrow>
               (case if ii_ChainID inp = [] then NewChainID rnd_chain else Inr (ii_ChainID inp) of
                  Inl e \<Rightarrow> Inl e
                | Inr chainID \<Rightarrow>
                    Inr (i,
                      \<lparr>rt_ID = i, rt_ClientID = ii_ClientID inp, rt_Subject = ii_Subject inp,
                       rt_SubjectPublic = ii_SubjectPublic inp, rt_GrantID = ii_GrantID inp,
                       rt_Scope = ii_Scope inp, rt_Resource = ii_Resource inp,
                       rt_Origin = ii_Origin inp, rt_AuthTime = ii_AuthTime inp,
                       rt_ACR = ii_ACR inp, rt_AMR = ii_AMR inp,
                       rt_AuthorizationDetails = ii_AuthorizationDetails inp,
                       rt_Claims = ii_Claims inp,
                       rt_AuthorizationRecorded = ii_AuthorizationRecorded inp,
                       rt_AccessTokenExtra = ii_AccessTokenExtra inp,
                       rt_ParentID = ii_ParentID inp, rt_ConsumedAt = None,
                       rt_ExpiresAt = now + is_ttl iss, rt_CreatedAt = now,
                       rt_DPoPJKT = ii_DPoPJKT inp,
                       rt_MTLSCertThumbprint = ii_MTLSCertThumbprint inp, rt_Nonce = ii_Nonce inp,
                       rt_ChainID = chainID, rt_Revoked = False\<rparr>))))"

definition Issuer_Issue ::
  "'s Issuer \<Rightarrow> time \<Rightarrow> byte list option \<Rightarrow> byte list option \<Rightarrow> IssueInput \<Rightarrow> 's \<Rightarrow>
     (refresh_err + string) \<times> 's" where
  "Issuer_Issue iss now rnd rnd_chain inp s =
     (case Issuer_Prepare iss now rnd rnd_chain inp of
        Inl e \<Rightarrow> (Inl e, s)
      | Inr (i, rec) \<Rightarrow>
          (case ro_Save (is_store iss) (Some rec) s of
             (Some e, s) \<Rightarrow> (Inl (ErrRefreshStore ''refresh: save'' e), s)
           | (None, s) \<Rightarrow> (Inr i, s)))"


section \<open>Exchanging\<close>

record 's Exchanger =
  ex_store :: "'s refresh_ops"
  ex_graceTTL :: duration
  ex_deferCascade :: bool
  ex_rotationDisabled :: bool

record 's ExchangerConfig =
  xc_Store :: "'s refresh_ops option"
  xc_GraceTTL :: duration
  xc_DeferReplayCascade :: bool
  xc_RotationDisabled :: bool

definition NewExchanger :: "'s ExchangerConfig \<Rightarrow> refresh_err + 's Exchanger" where
  "NewExchanger cfg =
     (case xc_Store cfg of
        None \<Rightarrow> Inl (ErrRefreshMsg ''refresh: NewExchanger requires Store'')
      | Some ops \<Rightarrow>
          Inr \<lparr>ex_store = ops,
               ex_graceTTL =
                 (if xc_GraceTTL cfg = 0 then GraceTTLDefault
                  else if xc_GraceTTL cfg < 0 then 0 else xc_GraceTTL cfg),
               ex_deferCascade = xc_DeferReplayCascade cfg,
               ex_rotationDisabled = xc_RotationDisabled cfg\<rparr>)"

record ExchangeInput =
  xi_Token :: string
  xi_ClientID :: string
  xi_RequestedScope :: "string list"

record Exchanged =
  xd_ConsumedID :: string
  xd_ClientID :: string
  xd_Subject :: string
  xd_SubjectPublic :: bool
  xd_GrantID :: string
  xd_Scope :: "string list"
  xd_BoundScope :: "string list"
  xd_Resource :: string
  xd_Origin :: RefreshTokenOrigin
  xd_AuthTime :: time
  xd_ACR :: string
  xd_AMR :: "string list"
  xd_AuthorizationDetails :: "jobject list"
  xd_AccessTokenExtra :: jobject
  xd_Claims :: jobject
  xd_AuthorizationRecorded :: bool
  xd_ConsumedAt :: time
  xd_IssuedAt :: time
  xd_DPoPJKT :: string
  xd_MTLSCertThumbprint :: string
  xd_Nonce :: string
  xd_ChainID :: string
  xd_InGrace :: bool

definition exchangedFrom :: "RefreshToken \<Rightarrow> string list \<Rightarrow> Exchanged" where
  "exchangedFrom rec scope =
     \<lparr>xd_ConsumedID = rt_ID rec, xd_ClientID = rt_ClientID rec, xd_Subject = rt_Subject rec,
      xd_SubjectPublic = rt_SubjectPublic rec, xd_GrantID = rt_GrantID rec, xd_Scope = scope,
      xd_BoundScope = rt_Scope rec, xd_Resource = rt_Resource rec, xd_Origin = rt_Origin rec,
      xd_AuthTime = rt_AuthTime rec, xd_ACR = rt_ACR rec, xd_AMR = rt_AMR rec,
      xd_AuthorizationDetails = rt_AuthorizationDetails rec,
      xd_AccessTokenExtra = rt_AccessTokenExtra rec, xd_Claims = rt_Claims rec,
      xd_AuthorizationRecorded = rt_AuthorizationRecorded rec,
      xd_ConsumedAt = (case rt_ConsumedAt rec of None \<Rightarrow> zero_time | Some t \<Rightarrow> t),
      xd_IssuedAt = rt_CreatedAt rec, xd_DPoPJKT = rt_DPoPJKT rec,
      xd_MTLSCertThumbprint = rt_MTLSCertThumbprint rec, xd_Nonce = rt_Nonce rec,
      xd_ChainID = rt_ChainID rec, xd_InGrace = False\<rparr>"

text \<open>\<^verbatim>\<open>resolveScope\<close>: the loop over the requested scope against the set of the bound one.\<close>

fun scope_all_allowed :: "string list \<Rightarrow> string list \<Rightarrow> bool" where
  "scope_all_allowed allowed [] = True"
| "scope_all_allowed allowed (s # ss) = (if s \<notin> set allowed then False else scope_all_allowed allowed ss)"

definition resolveScope :: "string list \<Rightarrow> string list \<Rightarrow> refresh_err + string list" where
  "resolveScope bound requested =
     (if requested = [] then Inr bound
      else if scope_all_allowed bound requested then Inr requested
      else Inl ErrScopeWidening)"

definition store_err_Error :: "store_err \<Rightarrow> string" where
  "store_err_Error e =
     (case e of
        ErrNotFound \<Rightarrow> ''store: record not found''
      | ErrAlreadyExists \<Rightarrow> ''store: record already exists''
      | ErrAlreadyConsumed \<Rightarrow> ''store: record already consumed''
      | ErrConflict \<Rightarrow> ''store: concurrent modification''
      | ErrTxRequired \<Rightarrow> ''store: operation requires a transaction''
      | ErrOther msg \<Rightarrow> msg)"

text \<open>\<^verbatim>\<open>audit.Fingerprint\<close>: the first eight bytes of the digest, in hex.\<close>

definition Fingerprint :: "string \<Rightarrow> string" where
  "Fingerprint secret = hex_EncodeToString (take 8 (sha256_Sum256 (bytes_of secret)))"

definition reportRetirement :: "Retirement \<Rightarrow> audit_event list \<Rightarrow> audit_event list" where
  "reportRetirement r log =
     (let log =
        (if rm_RootUnresolved r then
           log @ [AuditRefreshChainRevokeFailed
             ''refresh chain root lookup failed after replay detection''
             (case rm_RootErr r of None \<Rightarrow> ''chain_root_lookup_failed'' | Some e \<Rightarrow> store_err_Error e)]
         else
           (case rm_ChainErr r of
              None \<Rightarrow> log
            | Some e \<Rightarrow>
                log @ [AuditRefreshChainRevokeFailed
                  ''refresh chain revoke failed after replay detection'' (store_err_Error e)]))
      in if rm_GrantUnresolved r then
           log @ [AuditRefreshChainRevokeFailed
             ''refresh grant lookup failed after replay detection'' ''grant_lookup_failed'']
         else
           (case rm_GrantErr r of
              None \<Rightarrow> log
            | Some e \<Rightarrow>
                log @ [AuditRefreshChainRevokeFailed
                  ''refresh grant revoke failed after replay detection'' (store_err_Error e)]))"

record ReplayedChain =
  rc_GrantID :: string
  rc_ChainID :: string
  rc_JoinedGrant :: bool

definition zero_ReplayedChain :: ReplayedChain where
  "zero_ReplayedChain = \<lparr>rc_GrantID = [], rc_ChainID = [], rc_JoinedGrant = False\<rparr>"

text \<open>
  \<^verbatim>\<open>revokeChainBestEffort\<close>. A store that answered a nil record without an error would make the code
  dereference nil; the branch is kept as the zero result, and no backend of the development takes it.
\<close>

definition Exchanger_revokeChainBestEffort ::
  "'s Exchanger \<Rightarrow> time \<Rightarrow> string \<Rightarrow> 's \<times> audit_event list \<Rightarrow> ReplayedChain \<times> 's \<times> audit_event list" where
  "Exchanger_revokeChainBestEffort e snow presentedID st =
     (case st of (s, log) \<Rightarrow>
       (case ro_Find (ex_store e) snow presentedID s of
          (_, Some err) \<Rightarrow>
            (case Retire (ex_store e) snow presentedID [] s of (r, s) \<Rightarrow>
               let r = (if rm_RootUnresolved r \<and> rm_RootErr r = None \<and> err \<noteq> ErrNotFound
                        then r\<lparr>rm_RootErr := Some err\<rparr> else r)
               in (zero_ReplayedChain, s, reportRetirement r log))
        | (None, None) \<Rightarrow> (zero_ReplayedChain, s, log)
        | (Some rec, None) \<Rightarrow>
            (case RetireRecord (ex_store e) snow presentedID rec s of (r, s) \<Rightarrow>
               (\<lparr>rc_GrantID = rt_GrantID rec, rc_ChainID = rt_ChainID rec,
                 rc_JoinedGrant = JoinsForeignGrant rec\<rparr>, s, reportRetirement r log))))"

definition Exchanger_RevokeReplayedChain ::
  "'s Exchanger \<Rightarrow> time \<Rightarrow> string \<Rightarrow> 's \<times> audit_event list \<Rightarrow> ReplayedChain \<times> 's \<times> audit_event list" where
  "Exchanger_RevokeReplayedChain e snow presentedToken st =
     (if presentedToken = [] then (zero_ReplayedChain, st)
      else Exchanger_revokeChainBestEffort e snow presentedToken st)"

definition Exchanger_onReplayDetected ::
  "'s Exchanger \<Rightarrow> time \<Rightarrow> string \<Rightarrow> 's \<times> audit_event list \<Rightarrow> 's \<times> audit_event list" where
  "Exchanger_onReplayDetected e snow presentedID st =
     (case st of (s, log) \<Rightarrow>
        let log = log @ [AuditRefreshReplayDetected (Fingerprint presentedID)]
        in if ex_deferCascade e then (s, log)
           else snd (Exchanger_revokeChainBestEffort e snow presentedID (s, log)))"

definition Exchanger_mapConsumeError ::
  "'s Exchanger \<Rightarrow> time \<Rightarrow> string \<Rightarrow> store_err \<Rightarrow> 's \<times> audit_event list \<Rightarrow>
     refresh_err \<times> 's \<times> audit_event list" where
  "Exchanger_mapConsumeError e snow presentedID err st =
     (if err = ErrNotFound then (ErrTokenMissing, st)
      else if err = ErrAlreadyConsumed
        then (ErrTokenReplayed, Exchanger_onReplayDetected e snow presentedID st)
      else (ErrRefreshStore ''refresh: consume'' err, st))"

definition Exchanger_withinGraceWindow :: "'s Exchanger \<Rightarrow> time \<Rightarrow> RefreshToken \<Rightarrow> bool" where
  "Exchanger_withinGraceWindow e now rec =
     (if ex_graceTTL e \<le> 0 \<or> rt_ConsumedAt rec = None \<or> rt_Revoked rec then False
      else
        let elapsed = time_sub now (the (rt_ConsumedAt rec))
        in elapsed \<ge> 0 \<and> elapsed \<le> ex_graceTTL e)"

text \<open>The checks the three exchange paths share: expiry, client and scope, in this order.\<close>

definition check_bindings ::
  "time \<Rightarrow> RefreshToken \<Rightarrow> ExchangeInput \<Rightarrow> refresh_err + string list" where
  "check_bindings now rec inp =
     (if rt_ExpiresAt rec < now then Inl ErrTokenExpired
      else if rt_ClientID rec \<noteq> xi_ClientID inp then Inl ErrClientMismatch
      else resolveScope (rt_Scope rec) (xi_RequestedScope inp))"

definition Exchanger_graceExchange ::
  "'s Exchanger \<Rightarrow> time \<Rightarrow> RefreshToken \<Rightarrow> ExchangeInput \<Rightarrow> refresh_err + Exchanged" where
  "Exchanger_graceExchange e now rec inp =
     (case check_bindings now rec inp of
        Inl err \<Rightarrow> Inl err
      | Inr scope \<Rightarrow> Inr ((exchangedFrom rec scope)\<lparr>xd_InGrace := True\<rparr>))"

text \<open>\<^verbatim>\<open>tryGrace\<close>: None when the grace path did not engage, otherwise the final answer.\<close>

definition Exchanger_tryGrace ::
  "'s Exchanger \<Rightarrow> time \<Rightarrow> time \<Rightarrow> ExchangeInput \<Rightarrow> 's \<times> audit_event list \<Rightarrow>
     (refresh_err + Exchanged) option \<times> 's \<times> audit_event list" where
  "Exchanger_tryGrace e snow now inp st =
     (if ex_graceTTL e \<le> 0 then (None, st)
      else
        (case ro_Find (ex_store e) snow (xi_Token inp) (fst st) of
           (_, Some err) \<Rightarrow>
             if err = ErrNotFound then (None, st)
             else (Some (Inl (ErrRefreshStore ''refresh: grace lookup'' err)), st)
         | (None, None) \<Rightarrow> (None, st)
         | (Some rec, None) \<Rightarrow>
             if \<not> Exchanger_withinGraceWindow e now rec then (None, st)
             else
               (case Exchanger_graceExchange e now rec inp of
                  Inl gerr \<Rightarrow>
                    if gerr = ErrTokenExpired then (Some (Inl gerr), st)
                    else (Some (Inl ErrTokenReplayed), Exchanger_onReplayDetected e snow (xi_Token inp) st)
                | Inr x \<Rightarrow> (Some (Inr x), st))))"

definition Exchanger_exchangeWithoutRotation ::
  "'s Exchanger \<Rightarrow> time \<Rightarrow> time \<Rightarrow> ExchangeInput \<Rightarrow> 's \<times> audit_event list \<Rightarrow>
     (refresh_err + Exchanged) \<times> 's \<times> audit_event list" where
  "Exchanger_exchangeWithoutRotation e snow now inp st =
     (let (rec, err) = ro_Find (ex_store e) snow (xi_Token inp) (fst st);
          err = (if err = None \<and> rec = None then Some ErrNotFound else err)
      in case (rec, err) of
           (_, Some err) \<Rightarrow>
             if err = ErrNotFound then (Inl ErrTokenMissing, st)
             else (Inl (ErrRefreshStore ''refresh: find'' err), st)
         | (None, None) \<Rightarrow> (Inl ErrTokenMissing, st)
         | (Some rec, None) \<Rightarrow>
             if rt_ConsumedAt rec \<noteq> None \<or> rt_Revoked rec then
               (case Exchanger_mapConsumeError e snow (xi_Token inp) ErrAlreadyConsumed st of
                  (err, st) \<Rightarrow> (Inl err, st))
             else
               (case check_bindings now rec inp of
                  Inl err \<Rightarrow> (Inl err, st)
                | Inr scope \<Rightarrow> (Inr (exchangedFrom rec scope), st)))"

definition Exchanger_Exchange ::
  "'s Exchanger \<Rightarrow> time \<Rightarrow> time \<Rightarrow> ExchangeInput \<Rightarrow> 's \<times> audit_event list \<Rightarrow>
     (refresh_err + Exchanged) \<times> 's \<times> audit_event list" where
  "Exchanger_Exchange e snow now inp st =
     (if xi_Token inp = [] then (Inl ErrTokenMissing, st)
      else if ex_rotationDisabled e then Exchanger_exchangeWithoutRotation e snow now inp st
      else
        let ((rec, err), s) = ro_Consume (ex_store e) snow (xi_Token inp) (fst st);
            st = (s, snd st);
            err = (if err = None \<and> rec = None then Some ErrNotFound else err)
        in case (rec, err) of
             (_, Some err) \<Rightarrow>
               (case if err = ErrAlreadyConsumed then Exchanger_tryGrace e snow now inp st
                     else (None, st) of
                  (Some answer, st) \<Rightarrow> (answer, st)
                | (None, st) \<Rightarrow>
                    (case Exchanger_mapConsumeError e snow (xi_Token inp) err st of
                       (err, st) \<Rightarrow> (Inl err, st)))
           | (None, None) \<Rightarrow> (Inl ErrTokenMissing, st)
           | (Some rec, None) \<Rightarrow>
               if rt_ConsumedAt rec = None
                 then (Inl (ErrRefreshMsg ''refresh: store returned record without ConsumedAt''), st)
               else
                 (case check_bindings now rec inp of
                    Inl err \<Rightarrow> (Inl err, st)
                  | Inr scope \<Rightarrow> (Inr (exchangedFrom rec scope), st)))"


section \<open>Generic lemmas\<close>

lemma scope_all_allowed_iff: "scope_all_allowed allowed ss \<longleftrightarrow> set ss \<subseteq> set allowed"
  by (induction ss) auto

lemma resolveScope_Inr:
  "resolveScope bound requested = Inr scope \<longleftrightarrow>
     scope = (if requested = [] then bound else requested) \<and> set requested \<subseteq> set bound"
  by (auto simp: resolveScope_def scope_all_allowed_iff)

lemma check_bindings_Inr:
  "check_bindings now rec inp = Inr scope \<longleftrightarrow>
     now \<le> rt_ExpiresAt rec \<and> rt_ClientID rec = xi_ClientID inp
     \<and> scope = (if xi_RequestedScope inp = [] then rt_Scope rec else xi_RequestedScope inp)
     \<and> set (xi_RequestedScope inp) \<subseteq> set (rt_Scope rec)"
  by (auto simp: check_bindings_def resolveScope_Inr)

lemma check_bindings_rename [simp]:
  "check_bindings now (rec\<lparr>rt_ID := i\<rparr>) inp = check_bindings now rec inp"
  "check_bindings now (rec\<lparr>rt_ConsumedAt := c\<rparr>) inp = check_bindings now rec inp"
  by (simp_all add: check_bindings_def)

lemma check_bindings_not_replayed: "check_bindings now rec inp \<noteq> Inl ErrTokenReplayed"
  by (simp add: check_bindings_def resolveScope_def)

lemma withinGraceWindow_iff:
  assumes "ex_graceTTL e \<le> max_duration"
  shows "Exchanger_withinGraceWindow e now rec \<longleftrightarrow>
    (\<exists>t. rt_ConsumedAt rec = Some t \<and> \<not> rt_Revoked rec \<and> 0 < ex_graceTTL e \<and> t \<le> now
       \<and> (now - t \<le> ex_graceTTL e \<or> ex_graceTTL e = max_duration))"
proof (cases "rt_ConsumedAt rec")
  case (Some t)
  have "time_sub now t \<le> ex_graceTTL e \<longleftrightarrow> now - t \<le> ex_graceTTL e \<or> ex_graceTTL e = max_duration"
    if "t \<le> now" and "0 < ex_graceTTL e"
    using assms that by (auto simp: time_sub_def min_duration_def max_duration_def)
  with Some show ?thesis
    by (auto simp: Exchanger_withinGraceWindow_def Let_def time_sub_nonneg_iff)
qed (simp add: Exchanger_withinGraceWindow_def)

lemma withinGraceWindow_rename [simp]:
  "Exchanger_withinGraceWindow e now (rec\<lparr>rt_ID := i\<rparr>) = Exchanger_withinGraceWindow e now rec"
  by (simp add: Exchanger_withinGraceWindow_def)

lemma mapConsumeError_Inl:
  "fst (Exchanger_mapConsumeError e snow i err st) = ErrTokenReplayed \<longleftrightarrow> err = ErrAlreadyConsumed"
  by (simp add: Exchanger_mapConsumeError_def)


section \<open>Exchanges against a backend\<close>

context refresh_backend
begin

lemma FindRoot_view:
  assumes "inv s" and "inv s'" and "view s' = view s"
  shows "FindRoot (Some ops) now i limit s' = FindRoot (Some ops) now i limit s"
proof -
  have "FindRoot_loop ops now s' n first i c d = FindRoot_loop ops now s n first i c d" for n first i c d
    by (induction n arbitrary: first i c d)
      (simp_all add: lookup_view [OF assms(1)] lookup_view [OF assms(2)] assms(3) Let_def
        split: option.split)
  then show ?thesis by (simp add: FindRoot_def)
qed

text \<open>The answer of a rotating exchange, by the state of the row under the presented token.\<close>

lemma Exchange_rotating:
  fixes snow :: time
  assumes e: "ex_store e = ops" "\<not> ex_rotationDisabled e" and inv: "inv s" and tok: "xi_Token inp \<noteq> []"
  defines "k \<equiv> hashKey (xi_Token inp)"
  defines "s1 \<equiv> snd (ro_Consume ops snow (xi_Token inp) s)"
  shows "Exchanger_Exchange e snow now inp (s, log) =
    (case view s k of
       None \<Rightarrow> (Inl ErrTokenMissing, s1, log)
     | Some r \<Rightarrow>
         if isExpired (rt_ExpiresAt r) snow then (Inl ErrTokenMissing, s1, log)
         else if rt_ConsumedAt r = None then
           (case check_bindings now r inp of
              Inl err \<Rightarrow> (Inl err, s1, log)
            | Inr scope \<Rightarrow>
                (Inr (exchangedFrom (r\<lparr>rt_ConsumedAt := Some snow, rt_ID := xi_Token inp\<rparr>) scope), s1, log))
         else if Exchanger_withinGraceWindow e now r then
           (case check_bindings now r inp of
              Inl err \<Rightarrow>
                if err = ErrTokenExpired then (Inl ErrTokenExpired, s1, log)
                else (Inl ErrTokenReplayed, Exchanger_onReplayDetected e snow (xi_Token inp) (s1, log))
            | Inr scope \<Rightarrow>
                (Inr ((exchangedFrom (r\<lparr>rt_ID := xi_Token inp\<rparr>) scope)\<lparr>xd_InGrace := True\<rparr>), s1, log))
         else (Inl ErrTokenReplayed, Exchanger_onReplayDetected e snow (xi_Token inp) (s1, log)))"
proof -
  note con = consume [OF inv, of snow "xi_Token inp"]
  have inv1: "inv s1"
    using con by (simp add: s1_def)
  have run: "ro_Consume ops snow (xi_Token inp) s = (fst (spec_refresh_consume snow (xi_Token inp) (view s)), s1)"
    using con by (simp add: prod_eq_iff s1_def)
  have grace: "Exchanger_tryGrace e snow now inp (s1, log) =
      (if Exchanger_withinGraceWindow e now r then
         (case check_bindings now r inp of
            Inl err \<Rightarrow>
              if err = ErrTokenExpired then (Some (Inl ErrTokenExpired), s1, log)
              else (Some (Inl ErrTokenReplayed), Exchanger_onReplayDetected e snow (xi_Token inp) (s1, log))
          | Inr scope \<Rightarrow>
              (Some (Inr ((exchangedFrom (r\<lparr>rt_ID := xi_Token inp\<rparr>) scope)\<lparr>xd_InGrace := True\<rparr>)), s1, log))
       else (None, s1, log))"
    if row: "view s k = Some r" and live: "\<not> isExpired (rt_ExpiresAt r) snow" and "rt_ConsumedAt r \<noteq> None" for r
  proof -
    have "view s1 = view s"
      using con that by (auto simp: s1_def spec_refresh_consume_def k_def)
    then have "ro_Find ops snow (xi_Token inp) s1 = (Some (r\<lparr>rt_ID := xi_Token inp\<rparr>), None)"
      using row live by (simp add: find [OF inv1] spec_refresh_find_def k_def)
    moreover have "Exchanger_withinGraceWindow e now r \<Longrightarrow> \<not> ex_graceTTL e \<le> 0"
      by (auto simp: Exchanger_withinGraceWindow_def split: if_splits)
    ultimately show ?thesis
      by (auto simp: Exchanger_tryGrace_def Exchanger_graceExchange_def e split: sum.split)
  qed
  show ?thesis
  proof (cases "view s k")
    case None
    then show ?thesis
      by (simp add: Exchanger_Exchange_def e tok run spec_refresh_consume_def k_def [symmetric]
          Exchanger_mapConsumeError_def Let_def)
  next
    case (Some r)
    show ?thesis
    proof (cases "isExpired (rt_ExpiresAt r) snow \<or> rt_ConsumedAt r = None")
      case True
      with Some show ?thesis
        by (auto simp: Exchanger_Exchange_def e tok run spec_refresh_consume_def k_def [symmetric]
            Exchanger_mapConsumeError_def Let_def split: sum.split)
    next
      case False
      with Some grace [OF Some] show ?thesis
        by (auto simp: Exchanger_Exchange_def e tok run spec_refresh_consume_def k_def [symmetric]
            Exchanger_mapConsumeError_def Let_def split: sum.split prod.split)
    qed
  qed
qed

end


section \<open>Properties of the refresh grant\<close>

text \<open>
  A rotating exchange succeeds only for a live token of the authenticated client, never widens
  the scope, and either consumes the token (and changes nothing else in the store) or is a
  re-delivery inside the grace window: then the token was consumed, at most the window's length ago,
  was not revoked, and the store is left as it was.
\<close>

theorem refresh_exchange_sound:
  assumes "refresh_reachable s" and e: "ex_store e = inmem_refresh_ops" "\<not> ex_rotationDisabled e"
    and "ex_graceTTL e \<le> max_duration"
    and run: "Exchanger_Exchange e snow now inp (s, log) = (Inr x, s', log')"
  shows "\<exists>r. tokens_of s (hashKey (xi_Token inp)) = Some r
    \<and> \<not> isExpired (rt_ExpiresAt r) snow \<and> now \<le> rt_ExpiresAt r
    \<and> rt_ClientID r = xi_ClientID inp \<and> xd_ConsumedID x = xi_Token inp
    \<and> xd_BoundScope x = rt_Scope r \<and> set (xd_Scope x) \<subseteq> set (rt_Scope r)
    \<and> xd_GrantID x = rt_GrantID r \<and> xd_Subject x = rt_Subject r \<and> log' = log
    \<and> (if xd_InGrace x
        then (\<exists>t. rt_ConsumedAt r = Some t \<and> t \<le> now
               \<and> (now - t \<le> ex_graceTTL e \<or> ex_graceTTL e = max_duration))
          \<and> \<not> rt_Revoked r \<and> tokens_of s' = tokens_of s
        else rt_ConsumedAt r = None
          \<and> tokens_of s' = (tokens_of s)(hashKey (xi_Token inp) \<mapsto> r\<lparr>rt_ConsumedAt := Some snow\<rparr>))"
proof -
  note wf = refresh_reachable_wf [OF assms(1)]
  have tok: "xi_Token inp \<noteq> []"
    using run by (auto simp: Exchanger_Exchange_def)
  note answer = inmem_backend.Exchange_rotating [OF e wf tok, of snow now log, unfolded run]
  note view = inmem_backend.consume(2) [OF wf, of snow "xi_Token inp"]
  obtain r where row: "tokens_of s (hashKey (xi_Token inp)) = Some r"
    and live: "\<not> isExpired (rt_ExpiresAt r) snow"
    using answer by (auto split: option.splits if_splits)
  show ?thesis
  proof (cases "rt_ConsumedAt r")
    case None
    with answer row live view show ?thesis
      by (intro exI [of _ r])
        (auto simp: check_bindings_Inr exchangedFrom_def spec_refresh_consume_def split: sum.splits)
  next
    case (Some t)
    then have grace: "Exchanger_withinGraceWindow e now r"
      using answer row live by (auto split: if_splits)
    with answer row live view Some show ?thesis
      unfolding withinGraceWindow_iff [OF assms(4)]
      by (intro exI [of _ r])
        (auto simp: withinGraceWindow_iff [OF assms(4)] check_bindings_Inr exchangedFrom_def
          spec_refresh_consume_def split: sum.splits if_splits)
  qed
qed

definition sample_exchanger :: "refreshStore Exchanger" where
  "sample_exchanger =
     \<lparr>ex_store = inmem_refresh_ops, ex_graceTTL = GraceTTLDefault, ex_deferCascade = False,
      ex_rotationDisabled = False\<rparr>"

definition sample_exchange_input :: "string \<Rightarrow> ExchangeInput" where
  "sample_exchange_input tok =
     \<lparr>xi_Token = tok, xi_ClientID = ''client'', xi_RequestedScope = [''openid'']\<rparr>"

lemma sample_exchanger_sel [simp]:
  "ex_store sample_exchanger = inmem_refresh_ops" "\<not> ex_rotationDisabled sample_exchanger"
  "ex_graceTTL sample_exchanger = 60000000000" "\<not> ex_deferCascade sample_exchanger"
  by (simp_all add: sample_exchanger_def GraceTTLDefault_def second_def)

lemma sample_exchange:
  "Exchanger_Exchange sample_exchanger 40 40 (sample_exchange_input sample_child_id) (sample_chain, []) =
     (Inr (exchangedFrom ((sample_refresh sample_child_id (Some ''abc''))\<lparr>rt_ConsumedAt := Some 40\<rparr>) [''openid'']),
      snd (refreshStore_Consume 40 sample_child_id sample_chain), [])"
proof -
  have row: "tokens_of sample_chain (hashKey sample_child_id) =
      Some (sample_refresh (hashKey sample_child_id) (Some ''abc''))"
    by (simp add: sample_chain_tokens) (simp add: sample_map_def)
  have tok: "xi_Token (sample_exchange_input sample_child_id) \<noteq> []"
    by (simp add: sample_exchange_input_def sample_verifier_def)
  have bind: "check_bindings 40 (sample_refresh (hashKey sample_child_id) (Some ''abc''))
      (sample_exchange_input sample_child_id) = Inr [''openid'']"
    by (simp add: check_bindings_Inr sample_exchange_input_def sample_refresh_def)
  have "(sample_refresh (hashKey sample_child_id) (Some ''abc''))\<lparr>rt_ConsumedAt := Some 40, rt_ID := sample_child_id\<rparr>
      = (sample_refresh sample_child_id (Some ''abc''))\<lparr>rt_ConsumedAt := Some 40\<rparr>"
    by (simp add: sample_refresh_def)
  then show ?thesis
    using inmem_backend.Exchange_rotating [OF sample_exchanger_sel(1,2) sample_chain_wf tok, of 40 40 "[]"] row bind
    by (simp add: sample_exchange_input_def isExpired_def IsExpiredStrict_def inmem_refresh_ops_def)
qed

theorem refresh_exchange_sound_witness:
  "(\<exists>x s'. Exchanger_Exchange sample_exchanger 40 40 (sample_exchange_input sample_child_id) (sample_chain, []) =
       (Inr x, s', []) \<and> xd_Scope x = [''openid''] \<and> \<not> xd_InGrace x)
   \<and> (\<exists>r. tokens_of sample_chain (hashKey sample_child_id) = Some r \<and> rt_ClientID r = ''client'')"
proof
  show "\<exists>x s'. Exchanger_Exchange sample_exchanger 40 40 (sample_exchange_input sample_child_id) (sample_chain, []) =
       (Inr x, s', []) \<and> xd_Scope x = [''openid''] \<and> \<not> xd_InGrace x"
    by (simp add: sample_exchange) (simp add: exchangedFrom_def)
  have "ex_graceTTL sample_exchanger \<le> max_duration"
    by (simp add: max_duration_def)
  from refresh_exchange_sound [OF sample_chain_reachable sample_exchanger_sel(1,2) this sample_exchange]
  show "\<exists>r. tokens_of sample_chain (hashKey sample_child_id) = Some r \<and> rt_ClientID r = ''client''"
    by (auto simp: sample_exchange_input_def)
qed


text \<open>What a confirmed replay does to the store, when the exchanger runs the cascade itself.\<close>

lemma onReplayDetected_inline:
  assumes "\<not> ex_deferCascade e" and "ex_store e = inmem_refresh_ops" and "refresh_wf s"
    and "tokens_of s (hashKey i) = Some r" and "\<not> isExpired (rt_ExpiresAt r) snow"
  shows "fst (Exchanger_onReplayDetected e snow i (s, log)) =
           snd (Retire inmem_refresh_ops snow i (if JoinsForeignGrant r then [] else rt_GrantID r) s)"
    and "\<exists>rest. snd (Exchanger_onReplayDetected e snow i (s, log)) =
           log @ AuditRefreshReplayDetected (Fingerprint i) # rest"
proof -
  have find: "ro_Find inmem_refresh_ops snow i s = (Some (r\<lparr>rt_ID := i\<rparr>), None)"
    using assms by (simp add: inmem_backend.find spec_refresh_find_def)
  have joins: "JoinsForeignGrant (r\<lparr>rt_ID := i\<rparr>) = JoinsForeignGrant r"
    by (simp add: JoinsForeignGrant_def)
  show "fst (Exchanger_onReplayDetected e snow i (s, log)) =
      snd (Retire inmem_refresh_ops snow i (if JoinsForeignGrant r then [] else rt_GrantID r) s)"
    by (simp add: Exchanger_onReplayDetected_def Exchanger_revokeChainBestEffort_def assms(1,2) find
        RetireRecord_def joins Let_def split: prod.split)
  have "\<exists>more. reportRetirement q l = l @ more" for q l
    by (auto simp: reportRetirement_def Let_def split: option.split)
  then have "\<exists>more. reportRetirement q (log @ [a]) = log @ a # more" for q a
    by (metis append_Cons append_Nil append_assoc)
  then show "\<exists>rest. snd (Exchanger_onReplayDetected e snow i (s, log)) =
      log @ AuditRefreshReplayDetected (Fingerprint i) # rest"
    by (auto simp: Exchanger_onReplayDetected_def Exchanger_revokeChainBestEffort_def assms(1,2) find
        Let_def split: prod.split)
qed

text \<open>
  Replay kills the chain, end to end: when a rotating exchange with the inline cascade answers
  that the presented token was replayed, the replay is in the audit log, and every token below the
  presented one can never be consumed again, after any further steps of the store, provided the
  chain's root resolves within the walk limit, or the token carries the (own, non-empty) grant of the
  presented one.
\<close>

theorem refresh_replay_kills_chain:
  assumes reach: "refresh_reachable s" and e: "ex_store e = inmem_refresh_ops" "\<not> ex_rotationDisabled e"
    and inline: "\<not> ex_deferCascade e"
    and run: "Exchanger_Exchange e snow now inp (s, log) = (Inl ErrTokenReplayed, s1, log1)"
    and presented: "tokens_of s (hashKey (xi_Token inp)) = Some r"
    and below: "descends (tokens_of s) (hashKey (xi_Token inp)) (hashKey j)"
    and row: "tokens_of s (hashKey j) = Some t"
    and covered: "fst (snd (FindRoot (Some inmem_refresh_ops) snow (xi_Token inp) chainWalkLimit s))
      \<or> (rt_GrantID r \<noteq> [] \<and> rt_Origin r \<noteq> RefreshOriginCustomGrant \<and> rt_GrantID t = rt_GrantID r)"
    and steps: "refresh_step\<^sup>*\<^sup>* s1 s2"
  shows "rt_ConsumedAt r \<noteq> None
    \<and> (\<exists>rest. log1 = log @ AuditRefreshReplayDetected (Fingerprint (xi_Token inp)) # rest)
    \<and> snd (fst (refreshStore_Consume later j s2)) \<noteq> None"
proof -
  let ?i = "xi_Token inp" and ?g = "if JoinsForeignGrant r then [] else rt_GrantID r"
  note wf = refresh_reachable_wf [OF reach]
  have tok: "?i \<noteq> []"
    using run by (auto simp: Exchanger_Exchange_def)
  define sc where "sc = snd (refreshStore_Consume snow ?i s)"
  have wfc: "refresh_wf sc"
    by (simp add: sc_def refreshStore_Consume_wf [OF wf])
  note answer = inmem_backend.Exchange_rotating [OF e wf tok, of snow now log, unfolded run]
  have live: "\<not> isExpired (rt_ExpiresAt r) snow" and consumed: "rt_ConsumedAt r \<noteq> None"
    and out: "(s1, log1) = Exchanger_onReplayDetected e snow ?i (sc, log)"
    using answer presented check_bindings_not_replayed [of now r inp]
    by (auto simp: sc_def inmem_refresh_ops_def split: if_splits sum.splits)
  have view: "tokens_of sc = tokens_of s"
    using refreshStore_Consume_spec(2) [OF wf, of snow ?i] presented consumed live
    by (auto simp: sc_def spec_refresh_consume_def)
  note replay = onReplayDetected_inline [OF inline e(1) wfc _ live, of ?i log, unfolded view, OF presented]
  have s1: "s1 = snd (Retire inmem_refresh_ops snow ?i ?g sc)"
    and log1: "\<exists>rest. log1 = log @ AuditRefreshReplayDetected (Fingerprint ?i) # rest"
    using replay out by (metis fst_conv, metis snd_conv)
  obtain root ok err where walk: "FindRoot (Some inmem_refresh_ops) snow ?i chainWalkLimit s = (root, ok, err)"
    by (cases "FindRoot (Some inmem_refresh_ops) snow ?i chainWalkLimit s") auto
  note walkc = inmem_backend.FindRoot_view [OF wf wfc view, of snow ?i chainWalkLimit, unfolded walk]
  have "tokens_of s1 (hashKey j) = Some (markRevoked snow t)"
    unfolding s1
  proof (rule inmem_backend.Retire_retires [OF wfc])
    show "Retirement_Retired (fst (Retire inmem_refresh_ops snow ?i ?g sc))"
      using covered walk inmem_backend.Retire_chain_rung(1) [OF wfc] inmem_backend.Retire_grant_rung(1) [OF wfc] walkc
      by (cases ok) (auto simp: Retirement_Retired_def Retirement_FellBackToGrant_def zero_Retirement_def
          JoinsForeignGrant_def)
    show "rt_GrantID t = ?g" if "Retirement_FellBackToGrant (fst (Retire inmem_refresh_ops snow ?i ?g sc))"
      using that covered walk inmem_backend.Retire_chain_rung(1) [OF wfc] walkc
      by (cases ok) (auto simp: Retirement_FellBackToGrant_def zero_Retirement_def JoinsForeignGrant_def)
  qed (use below row view in simp_all)
  moreover have "refresh_wf s1"
    by (simp add: s1 inmem_backend.Retire_inv [OF wfc])
  ultimately have "snd (fst (refreshStore_Consume later j s2)) \<noteq> None"
    using revoked_row_refused [OF _ _ steps] by blast
  with consumed log1 show ?thesis by simp
qed


definition sample_strict_exchanger :: "refreshStore Exchanger" where
  "sample_strict_exchanger = sample_exchanger\<lparr>ex_graceTTL := 0\<rparr>"

lemma sample_strict_sel [simp]:
  "ex_store sample_strict_exchanger = inmem_refresh_ops" "\<not> ex_rotationDisabled sample_strict_exchanger"
  "\<not> ex_deferCascade sample_strict_exchanger" "ex_graceTTL sample_strict_exchanger = 0"
  by (simp_all add: sample_strict_exchanger_def)

lemma sample_root_row:
  "tokens_of sample_chain (hashKey ''abc'') =
     Some ((sample_refresh (hashKey ''abc'') None)\<lparr>rt_ConsumedAt := Some 20\<rparr>)"
  by (simp add: sample_chain_tokens) (simp add: sample_map_def)

lemma sample_child_row:
  "tokens_of sample_chain (hashKey sample_child_id) =
     Some (sample_refresh (hashKey sample_child_id) (Some ''abc''))"
  by (simp add: sample_chain_tokens) (simp add: sample_map_def)

lemma sample_replay:
  "fst (Exchanger_Exchange sample_strict_exchanger 40 40 (sample_exchange_input ''abc'') (sample_chain, [])) =
     Inl ErrTokenReplayed"
proof -
  have "xi_Token (sample_exchange_input ''abc'') \<noteq> []"
    by (simp add: sample_exchange_input_def)
  from inmem_backend.Exchange_rotating [OF sample_strict_sel(1,2) sample_chain_wf this, of 40 40 "[]"]
  show ?thesis
    by (simp add: sample_exchange_input_def sample_root_row isExpired_def IsExpiredStrict_def
        Exchanger_withinGraceWindow_def)
qed

theorem refresh_replay_kills_chain_witness:
  "snd (fst (refreshStore_Consume 50 sample_child_id (fst (snd
      (Exchanger_Exchange sample_strict_exchanger 40 40 (sample_exchange_input ''abc'') (sample_chain, [])))))) \<noteq> None"
proof -
  obtain s1 log1 where run: "Exchanger_Exchange sample_strict_exchanger 40 40
      (sample_exchange_input ''abc'') (sample_chain, []) = (Inl ErrTokenReplayed, s1, log1)"
    using sample_replay by (metis prod.collapse)
  have tok: "xi_Token (sample_exchange_input ''abc'') = ''abc''"
    by (simp add: sample_exchange_input_def)
  show ?thesis
    using refresh_replay_kills_chain [OF sample_chain_reachable sample_strict_sel(1-3) run, unfolded tok,
        OF sample_root_row _ sample_child_row _ rtranclp.rtrancl_refl, of 50] sample_child_descends
    by (simp add: run sample_chain_tokens RefreshOriginCustomGrant_def) (simp add: sample_refresh_def RefreshOriginAuthCode_def)
qed

text \<open>
  Issue and exchange agree: a refresh token that was just issued can be exchanged by its client,
  and the exchange reports exactly what it was issued with (client, subject, grant, scope, resource,
  sender constraints, nonce, chain), for as long as neither clock has passed its lifetime.
\<close>

theorem refresh_issue_exchange:
  assumes reach: "refresh_reachable s" and iss: "is_store iss = inmem_refresh_ops"
    and issue: "Issuer_Issue iss t0 (Some bs) rnd inp s = (Inr i, s1)" and "length bs = IDLength"
    and e: "ex_store e = inmem_refresh_ops" "\<not> ex_rotationDisabled e"
    and times: "snow \<le> t0 + is_ttl iss" "now \<le> t0 + is_ttl iss"
    and narrow: "set scope \<subseteq> set (ii_Scope inp)"
  shows "\<exists>x s2. Exchanger_Exchange e snow now
        \<lparr>xi_Token = i, xi_ClientID = ii_ClientID inp, xi_RequestedScope = scope\<rparr> (s1, log) = (Inr x, s2, log)
    \<and> xd_ConsumedID x = i \<and> xd_ClientID x = ii_ClientID inp \<and> xd_Subject x = ii_Subject inp
    \<and> xd_GrantID x = ii_GrantID inp \<and> xd_BoundScope x = ii_Scope inp
    \<and> xd_Scope x = (if scope = [] then ii_Scope inp else scope)
    \<and> xd_Resource x = ii_Resource inp \<and> xd_DPoPJKT x = ii_DPoPJKT inp
    \<and> xd_MTLSCertThumbprint x = ii_MTLSCertThumbprint inp \<and> xd_Nonce x = ii_Nonce inp
    \<and> (ii_ChainID inp \<noteq> [] \<longrightarrow> xd_ChainID x = ii_ChainID inp)
    \<and> \<not> xd_InGrace x \<and> xd_ConsumedAt x = snow \<and> xd_IssuedAt x = t0"
proof -
  note wf = refresh_reachable_wf [OF reach]
  have i: "i = base64_RawURL bs" and "i \<noteq> []"
    using issue \<open>length bs = IDLength\<close> length_base64_RawURL [of bs]
    by (auto simp: Issuer_Issue_def Issuer_Prepare_def refresh_newID_def RandomBase64URL_def IDLength_def
        split: option.splits sum.splits prod.splits if_splits)
  obtain rec where prep: "Issuer_Prepare iss t0 (Some bs) rnd inp = Inr (i, rec)"
    and saved: "refreshStore_Save (Some rec) s = (None, s1)"
    using issue by (auto simp: Issuer_Issue_def iss inmem_refresh_ops_def i Issuer_Prepare_def
        refresh_newID_def RandomBase64URL_def split: option.splits sum.splits prod.splits if_splits)
  have rec: "rt_ID rec = i" "rt_ClientID rec = ii_ClientID inp" "rt_ConsumedAt rec = None"
      "rt_Scope rec = ii_Scope inp" "rt_ExpiresAt rec = t0 + is_ttl iss" "rt_Subject rec = ii_Subject inp"
      "rt_GrantID rec = ii_GrantID inp" "rt_Resource rec = ii_Resource inp"
      "rt_DPoPJKT rec = ii_DPoPJKT inp" "rt_MTLSCertThumbprint rec = ii_MTLSCertThumbprint inp"
      "rt_Nonce rec = ii_Nonce inp" "rt_CreatedAt rec = t0"
      "ii_ChainID inp \<noteq> [] \<Longrightarrow> rt_ChainID rec = ii_ChainID inp"
    using prep by (auto simp: Issuer_Prepare_def split: option.splits sum.splits if_splits)
  have wf1: "refresh_wf s1"
    using refreshStore_Save_wf [OF wf, of "Some rec"] saved by simp
  have row: "tokens_of s1 (hashKey i) = Some (rec\<lparr>rt_ID := hashKey i\<rparr>)"
    using refreshStore_Save_spec [of rec s] saved rec(1)
    by (auto simp: spec_refresh_save_def Let_def split: if_splits)
  let ?in = "\<lparr>xi_Token = i, xi_ClientID = ii_ClientID inp, xi_RequestedScope = scope\<rparr>"
  have bind: "check_bindings now rec ?in = Inr (if scope = [] then ii_Scope inp else scope)"
    using times narrow by (simp add: check_bindings_Inr rec)
  have live: "\<not> isExpired (rt_ExpiresAt rec) snow"
    using times by (simp add: rec isExpired_def IsExpiredStrict_def)
  have tok: "xi_Token ?in \<noteq> []"
    using \<open>i \<noteq> []\<close> by simp
  from inmem_backend.Exchange_rotating [OF e wf1 tok, of snow now log] row bind live rec
  show ?thesis
    by (simp add: exchangedFrom_def)
qed


definition sample_issuer :: "refreshStore Issuer" where
  "sample_issuer = \<lparr>is_store = inmem_refresh_ops, is_ttl = RefreshTokenTTLDefault\<rparr>"

definition sample_issue_input :: IssueInput where
  "sample_issue_input =
     \<lparr>ii_ClientID = ''client'', ii_Subject = ''alice'', ii_GrantID = ''g1'',
      ii_Scope = [''openid'', ''offline_access''], ii_Resource = [], ii_ParentID = None,
      ii_Origin = RefreshOriginAuthCode, ii_SubjectPublic = False, ii_AuthTime = 5, ii_ACR = [],
      ii_AMR = [], ii_AuthorizationDetails = [], ii_AccessTokenExtra = [], ii_Claims = [],
      ii_AuthorizationRecorded = True, ii_DPoPJKT = [], ii_MTLSCertThumbprint = [], ii_Nonce = [],
      ii_ChainID = ''chain-1''\<rparr>"

lemma new_refresh_reachable: "refresh_reachable newRefreshStore"
  by (simp add: refresh_reachable_def)

theorem refresh_issue_exchange_witness:
  "\<exists>i s1 x s2. Issuer_Issue sample_issuer 10 (Some (replicate 32 0)) None sample_issue_input newRefreshStore =
       (Inr i, s1)
     \<and> Exchanger_Exchange sample_exchanger 20 20
         \<lparr>xi_Token = i, xi_ClientID = ''client'', xi_RequestedScope = [''openid'']\<rparr> (s1, []) = (Inr x, s2, [])
     \<and> xd_Scope x = [''openid'']"
proof -
  obtain i s1 where issue: "Issuer_Issue sample_issuer 10 (Some (replicate 32 0)) None sample_issue_input
      newRefreshStore = (Inr i, s1)"
    by (simp add: Issuer_Issue_def Issuer_Prepare_def validateIssue_def sample_issue_input_def
        refresh_newID_def RandomBase64URL_def sample_issuer_def inmem_refresh_ops_def refreshStore_Save_def
        newRefreshStore_def refreshStore_assertParentAliveLocked_def Let_def)
  have ttl: "20 \<le> 10 + is_ttl sample_issuer" and store: "is_store sample_issuer = inmem_refresh_ops"
    by (simp_all add: sample_issuer_def RefreshTokenTTLDefault_def hour_def second_def)
  have scope: "set [''openid''] \<subseteq> set (ii_Scope sample_issue_input)"
    and client: "ii_ClientID sample_issue_input = ''client''"
    by (simp_all add: sample_issue_input_def)
  have len: "length (replicate 32 (0 :: byte)) = IDLength"
    by (simp add: IDLength_def)
  from refresh_issue_exchange [OF new_refresh_reachable store issue len sample_exchanger_sel(1,2) ttl ttl scope,
      of "[]"] issue
  show ?thesis unfolding client by fastforce
qed

text \<open>
  With rotation disabled an exchange never writes to the store: a success leaves the store and
  the audit log as they were, and the token it accepted was live, neither consumed nor revoked, of
  the authenticated client, with a scope at least as wide as the requested one.
\<close>

theorem refresh_exchange_without_rotation:
  assumes "refresh_reachable s" and e: "ex_store e = inmem_refresh_ops" "ex_rotationDisabled e"
    and run: "Exchanger_Exchange e snow now inp (s, log) = (Inr x, s', log')"
  shows "s' = s \<and> log' = log
    \<and> (\<exists>r. tokens_of s (hashKey (xi_Token inp)) = Some r \<and> rt_ConsumedAt r = None \<and> \<not> rt_Revoked r
         \<and> \<not> isExpired (rt_ExpiresAt r) snow \<and> now \<le> rt_ExpiresAt r \<and> rt_ClientID r = xi_ClientID inp
         \<and> set (xi_RequestedScope inp) \<subseteq> set (rt_Scope r) \<and> \<not> xd_InGrace x
         \<and> xd_Scope x = (if xi_RequestedScope inp = [] then rt_Scope r else xi_RequestedScope inp))"
proof -
  note wf = refresh_reachable_wf [OF assms(1)]
  have tok: "xi_Token inp \<noteq> []"
    using run by (auto simp: Exchanger_Exchange_def)
  have find: "ro_Find inmem_refresh_ops snow (xi_Token inp) s = spec_refresh_find snow (xi_Token inp) (tokens_of s)"
    by (rule inmem_backend.find [OF wf])
  obtain r where row: "tokens_of s (hashKey (xi_Token inp)) = Some r" and live: "\<not> isExpired (rt_ExpiresAt r) snow"
    using run by (auto simp: Exchanger_Exchange_def tok e Exchanger_exchangeWithoutRotation_def find
        spec_refresh_find_def Let_def split: option.splits if_splits)
  have "rt_ConsumedAt r = None \<and> \<not> rt_Revoked r"
    using run row live by (auto simp: Exchanger_Exchange_def tok e Exchanger_exchangeWithoutRotation_def find
        spec_refresh_find_def Let_def split: if_splits prod.splits)
  with run row live show ?thesis
    by (auto simp: Exchanger_Exchange_def tok e Exchanger_exchangeWithoutRotation_def find
        spec_refresh_find_def check_bindings_Inr exchangedFrom_def Let_def split: sum.splits)
qed

definition sample_static_exchanger :: "refreshStore Exchanger" where
  "sample_static_exchanger = sample_exchanger\<lparr>ex_rotationDisabled := True\<rparr>"

lemma sample_static_sel [simp]:
  "ex_store sample_static_exchanger = inmem_refresh_ops" "ex_rotationDisabled sample_static_exchanger"
  by (simp_all add: sample_static_exchanger_def)

lemma sample_static_exchange:
  "Exchanger_Exchange sample_static_exchanger 40 40 (sample_exchange_input sample_child_id) (sample_chain, []) =
     (Inr (exchangedFrom (sample_refresh sample_child_id (Some ''abc'')) [''openid'']), sample_chain, [])"
proof -
  have bind: "check_bindings 40 (sample_refresh sample_child_id (Some ''abc''))
      (sample_exchange_input sample_child_id) = Inr [''openid'']"
    by (simp add: check_bindings_Inr sample_exchange_input_def sample_refresh_def)
  have tok: "xi_Token (sample_exchange_input sample_child_id) = sample_child_id" "sample_child_id \<noteq> []"
    by (simp_all add: sample_exchange_input_def sample_verifier_def)
  have "ro_Find inmem_refresh_ops 40 sample_child_id sample_chain =
      (Some (sample_refresh sample_child_id (Some ''abc'')), None)"
    by (simp add: inmem_backend.find [OF sample_chain_wf] spec_refresh_find_def sample_child_row isExpired_def
        IsExpiredStrict_def sample_rename)
  then show ?thesis
    by (simp add: Exchanger_Exchange_def Exchanger_exchangeWithoutRotation_def tok bind)
qed

theorem refresh_exchange_without_rotation_witness:
  "\<exists>r. tokens_of sample_chain (hashKey sample_child_id) = Some r \<and> rt_ConsumedAt r = None"
  using refresh_exchange_without_rotation [OF sample_chain_reachable sample_static_sel sample_static_exchange]
  by (auto simp: sample_exchange_input_def)

end
