(* ===== verification/TokenClaims.thy ===== *)
theory TokenClaims
  imports ClaimsRequest Digest512 Teardown RefreshGrant "HOL-Library.Sublist"
begin

text \<open>
  The claims a token is signed with: \<^verbatim>\<open>internal/tokens/tokens.go\<close> and the claim projection of the token
  endpoint (\<^verbatim>\<open>internal/tokenendpoint/authcode.go\<close>), with the scope strings of \<^verbatim>\<open>internal/oidcscope\<close>.
  The typed claims are flattened to one map, which the signer serialises; building a JOSE signer for the
  active key and serialising a map is a function \<open>sk_Signer\<close> of the key.
\<close>


section \<open>Times\<close>

definition TimeFromUnix :: "int \<Rightarrow> time" where
  "TimeFromUnix sec = (if sec = 0 then zero_time else time_Unix sec)"

definition UnixOrZero :: "time \<Rightarrow> int" where
  "UnixOrZero t = (if t = zero_time then 0 else Time_Unix t)"

definition tokens_ExpiresIn :: "time \<Rightarrow> duration \<Rightarrow> int" where
  "tokens_ExpiresIn now ttl = Time_Unix (now + ttl)"


section \<open>Scopes\<close>

definition ScopeOpenID :: string where "ScopeOpenID = ''openid''"
definition ScopeOfflineAccess :: string where "ScopeOfflineAccess = ''offline_access''"

fun ContainsOpenID :: "string list \<Rightarrow> bool" where
  "ContainsOpenID [] = False"
| "ContainsOpenID (s # scopes) = (if s = ScopeOpenID then True else ContainsOpenID scopes)"

fun ContainsOfflineAccess :: "string list \<Rightarrow> bool" where
  "ContainsOfflineAccess [] = False"
| "ContainsOfflineAccess (s # scopes) = (if s = ScopeOfflineAccess then True else ContainsOfflineAccess scopes)"

text \<open>\<^verbatim>\<open>strings.Split(s, " ")\<close>: the pieces between the spaces, at least one.\<close>

fun split_space :: "string \<Rightarrow> string list" where
  "split_space [] = [[]]"
| "split_space (c # s) =
     (if c = CHR '' '' then [] # split_space s
      else case split_space s of [] \<Rightarrow> [[c]] | p # ps \<Rightarrow> (c # p) # ps)"

definition scope_Parse :: "string \<Rightarrow> string list" where
  "scope_Parse s = filter (\<lambda>p. p \<noteq> []) (split_space s)"

fun scope_Join :: "string list \<Rightarrow> string" where
  "scope_Join [] = []"
| "scope_Join [s] = s"
| "scope_Join (s # t # scopes) = s @ '' '' @ scope_Join (t # scopes)"


section \<open>The claims of the two JWTs\<close>

datatype token_err =
    TokenMsg string
  | TokenStore store_err
  | TokenRefresh refresh_err

record IDTokenClaims =
  it_Issuer :: string
  it_Subject :: string
  it_Audience :: "string list"
  it_IssuedAt :: int
  it_ExpiresAt :: int
  it_AuthTime :: int
  it_Nonce :: string
  it_ACR :: string
  it_AMR :: "string list"
  it_AZP :: string
  it_AtHash :: string
  it_CHash :: string
  it_SID :: string
  it_Extra :: jobject

text \<open>The claims of a JWT access token, beyond those the revocation check reads.\<close>

record minted_claims = AccessTokenClaims +
  jc_Issuer :: string
  jc_Subject :: string
  jc_Audience :: "string list"
  jc_ExpiresAt :: int
  jc_Scope :: "string list"
  jc_AuthTime :: int
  jc_Confirmation :: "(string \<times> string) list"
  jc_AuthorizationDetails :: "jobject list"
  jc_UserInfoClaims :: "jobject option"
  jc_Extra :: jobject
  jc_ACR :: string
  jc_AMR :: "string list"

type_synonym payload = "string \<rightharpoonup> json"

record SigningKey =
  sk_Signer :: "(string \<Rightarrow> payload \<Rightarrow> token_err + string) option"
  sk_Alg :: string

definition Confirmation :: "string \<Rightarrow> string \<Rightarrow> (string \<times> string) list" where
  "Confirmation jkt x5tS256 =
     (if jkt \<noteq> [] then [(''jkt'', jkt)] else []) @ (if x5tS256 \<noteq> [] then [(''x5t#S256'', x5tS256)] else [])"

definition encodeConfirmation :: "(string \<times> string) list \<Rightarrow> jobject" where
  "encodeConfirmation inp = map (\<lambda>(k, v). (k, JString v)) (filter (\<lambda>(k, v). v \<noteq> []) inp)"

definition encodeAudience :: "string list \<Rightarrow> json" where
  "encodeAudience aud =
     (case aud of [] \<Rightarrow> JString [] | [a] \<Rightarrow> JString a | _ \<Rightarrow> JArray (map JString aud))"

text \<open>\<^verbatim>\<open>if cond { out[k] = v }\<close>.\<close>

definition put_if :: "bool \<Rightarrow> string \<Rightarrow> json \<Rightarrow> payload \<Rightarrow> payload" where
  "put_if cond k v out = (if cond then out(k \<mapsto> v) else out)"

definition mergeIDTokenClaims :: "IDTokenClaims \<Rightarrow> payload" where
  "mergeIDTokenClaims c =
     (let out = [''iss'' \<mapsto> JString (it_Issuer c), ''sub'' \<mapsto> JString (it_Subject c),
                 ''aud'' \<mapsto> encodeAudience (it_Audience c), ''iat'' \<mapsto> JNumber (it_IssuedAt c),
                 ''exp'' \<mapsto> JNumber (it_ExpiresAt c)];
          out = put_if (it_AuthTime c \<noteq> 0) ''auth_time'' (JNumber (it_AuthTime c)) out;
          out = put_if (it_Nonce c \<noteq> []) ''nonce'' (JString (it_Nonce c)) out;
          out = put_if (it_ACR c \<noteq> []) ''acr'' (JString (it_ACR c)) out;
          out = put_if (it_AMR c \<noteq> []) ''amr'' (JArray (map JString (it_AMR c))) out;
          out = put_if (it_AZP c \<noteq> []) ''azp'' (JString (it_AZP c)) out;
          out = put_if (it_AtHash c \<noteq> []) ''at_hash'' (JString (it_AtHash c)) out;
          out = put_if (it_CHash c \<noteq> []) ''c_hash'' (JString (it_CHash c)) out;
          out = put_if (it_SID c \<noteq> []) ''sid'' (JString (it_SID c)) out
      in out ++ map_of (it_Extra c))"

definition mergeAccessTokenClaims :: "minted_claims \<Rightarrow> payload" where
  "mergeAccessTokenClaims c =
     (let out = [''iss'' \<mapsto> JString (jc_Issuer c), ''sub'' \<mapsto> JString (jc_Subject c),
                 ''aud'' \<mapsto> encodeAudience (jc_Audience c), ''client_id'' \<mapsto> JString (jc_ClientID c),
                 ''iat'' \<mapsto> JNumber (jc_IssuedAt c), ''exp'' \<mapsto> JNumber (jc_ExpiresAt c)];
          out = put_if (jc_JTI c \<noteq> []) ''jti'' (JString (jc_JTI c)) out;
          out = put_if (jc_Scope c \<noteq> []) ''scope'' (JString (scope_Join (jc_Scope c))) out;
          out = put_if (jc_AuthTime c \<noteq> 0) ''auth_time'' (JNumber (jc_AuthTime c)) out;
          out = put_if (jc_ACR c \<noteq> []) ''acr'' (JString (jc_ACR c)) out;
          out = put_if (jc_AMR c \<noteq> []) ''amr'' (JArray (map JString (jc_AMR c))) out;
          out = put_if (encodeConfirmation (jc_Confirmation c) \<noteq> []) ''cnf''
                  (JObject (encodeConfirmation (jc_Confirmation c))) out;
          out = put_if (jc_GrantID c \<noteq> []) ''gid'' (JString (jc_GrantID c)) out;
          out = put_if (jc_AuthorizationDetails c \<noteq> []) ''authorization_details''
                  (JArray (map JObject (jc_AuthorizationDetails c))) out;
          out = (case jc_UserInfoClaims c of None \<Rightarrow> out | Some u \<Rightarrow> out(''userinfo_claims'' \<mapsto> JObject u))
      in out ++ map_of (jc_Extra c))"

definition idTokenStandardKeys :: "string list" where
  "idTokenStandardKeys =
     [''iss'', ''sub'', ''aud'', ''iat'', ''exp'', ''auth_time'', ''nonce'', ''acr'', ''amr'', ''azp'', ''at_hash'',
      ''c_hash'', ''sid'']"

definition accessTokenStandardKeys :: "string list" where
  "accessTokenStandardKeys =
     [''iss'', ''sub'', ''aud'', ''client_id'', ''iat'', ''exp'', ''jti'', ''scope'', ''auth_time'', ''acr'', ''amr'',
      ''cnf'', ''gid'', ''authorization_details'', ''userinfo_claims'']"

definition IsIDTokenReservedClaim :: "string \<Rightarrow> bool" where
  "IsIDTokenReservedClaim name \<longleftrightarrow> name \<in> set idTokenStandardKeys"

definition validateNoStandardCollisions :: "jobject \<Rightarrow> string list \<Rightarrow> token_err option" where
  "validateNoStandardCollisions extra standard =
     (case filter (\<lambda>(k, v). k \<in> set standard) extra of
        [] \<Rightarrow> None
      | (k, v) # _ \<Rightarrow> Some (TokenMsg (''tokens: Extra claim '' @ k @ '' collides with a standard claim'')))"

definition SignIDToken :: "SigningKey \<Rightarrow> IDTokenClaims \<Rightarrow> token_err + string" where
  "SignIDToken key claims =
     (case sk_Signer key of
        None \<Rightarrow> Inl (TokenMsg ''tokens: SigningKey has nil Signer'')
      | Some sign \<Rightarrow>
          if it_Subject claims = [] then Inl (TokenMsg ''tokens: claims carry an empty subject'')
          else (case validateNoStandardCollisions (it_Extra claims) idTokenStandardKeys of
                  Some e \<Rightarrow> Inl e
                | None \<Rightarrow> sign ''JWT'' (mergeIDTokenClaims claims)))"

definition SignAccessToken :: "SigningKey \<Rightarrow> minted_claims \<Rightarrow> token_err + string" where
  "SignAccessToken key claims =
     (case sk_Signer key of
        None \<Rightarrow> Inl (TokenMsg ''tokens: SigningKey has nil Signer'')
      | Some sign \<Rightarrow>
          if jc_Subject claims = [] then Inl (TokenMsg ''tokens: claims carry an empty subject'')
          else (case validateNoStandardCollisions (jc_Extra claims) accessTokenStandardKeys of
                  Some e \<Rightarrow> Inl e
                | None \<Rightarrow> sign ''at+jwt'' (mergeAccessTokenClaims claims)))"

definition HashForAlg :: "string \<Rightarrow> string \<Rightarrow> token_err + string" where
  "HashForAlg inp alg =
     (let half = (\<lambda>sum. Inr (base64_RawURL (take (length sum div 2) sum)))
      in if suffix ''256'' alg then half (sha256_Sum256 (bytes_of inp))
         else if suffix ''384'' alg then half (sha512_Sum384 (bytes_of inp))
         else if suffix ''512'' alg then half (sha512_Sum512 (bytes_of inp))
         else Inl (TokenMsg ''tokens: unsupported hash-claim alg''))"


section \<open>The claims an id_token adds\<close>

definition idTokenACRForClaims :: "string \<Rightarrow> ClaimsRequest option \<Rightarrow> string" where
  "idTokenACRForClaims acr req =
     (case ClaimsRequest_IDTokenSpec ''acr'' req of (spec, ok) \<Rightarrow>
        if \<not> ok \<or> \<not> cs_Essential spec then acr
        else if cs_Values spec = [] \<and> cs_Value spec = JNull then acr
        else if ClaimSpec_Allows spec (JString acr) then acr
        else [])"

definition projectIDTokenClaims :: "jobject \<Rightarrow> ClaimsRequest option \<Rightarrow> jobject" where
  "projectIDTokenClaims source req =
     (case req of
        None \<Rightarrow> []
      | Some r \<Rightarrow>
          List.map_filter (\<lambda>(name, spec).
            if IsIDTokenReservedClaim name then None
            else (case map_of source name of
                    None \<Rightarrow> None
                  | Some v \<Rightarrow> if \<not> ClaimSpec_Allows spec v then None else Some (name, v))) (cr_IDToken r))"

definition idTokenClaimScopes :: "string list \<Rightarrow> string list \<Rightarrow> string list" where
  "idTokenClaimScopes configured responseScope = filter (\<lambda>s. s \<in> set configured) responseScope"

definition claimsRequestNames :: "ClaimsRequest option \<Rightarrow> string \<Rightarrow> bool" where
  "claimsRequestNames req claim = (case req of None \<Rightarrow> False | Some r \<Rightarrow> map_of (cr_IDToken r) claim \<noteq> None)"

text \<open>\<open>configured\<close> is \<^verbatim>\<open>Deps.IDTokenScopeClaims\<close> and \<open>custom\<close> is \<^verbatim>\<open>Deps.CustomScopeClaims\<close>.\<close>

definition idTokenExtraClaims ::
  "string list \<Rightarrow> (string \<times> string list) list \<Rightarrow> User option \<Rightarrow> string list \<Rightarrow> ClaimsRequest option \<Rightarrow> jobject" where
  "idTokenExtraClaims configured custom user responseScope req =
     (case user of
        None \<Rightarrow> []
      | Some _ \<Rightarrow>
          let scopes = idTokenClaimScopes configured responseScope
          in if (case req of None \<Rightarrow> True | Some r \<Rightarrow> cr_IDToken r = []) \<and> scopes = [] then []
             else
               let source = userclaims_Source Time_Unix user;
                   out = projectIDTokenClaims source req
               in if scopes = [] then out
                  else out @ List.map_filter (\<lambda>name.
                         if IsIDTokenReservedClaim name \<or> claimsRequestNames req name then None
                         else (case map_of source name of None \<Rightarrow> None | Some v \<Rightarrow> Some (name, v)))
                       (ScopeClaimNames scopes custom))"


section \<open>Scope strings\<close>

lemma split_space_token: "CHR '' '' \<notin> set t \<Longrightarrow> split_space t = [t]"
  by (induction t) auto

lemma split_space_append: "CHR '' '' \<notin> set t \<Longrightarrow> split_space (t @ CHR '' '' # s) = t # split_space s"
  by (induction t) auto

text \<open>
  A list of scopes survives the wire: a list of non-empty tokens without spaces, joined and parsed
  again, is the same list, in the same order.
\<close>

theorem scope_wire_roundtrip:
  assumes "\<And>s. s \<in> set scopes \<Longrightarrow> s \<noteq> [] \<and> CHR '' '' \<notin> set s"
  shows "scope_Parse (scope_Join scopes) = scopes"
  using assms
proof (induction scopes rule: scope_Join.induct)
  case (3 s t scopes)
  then have "CHR '' '' \<notin> set s" "s \<noteq> []" by auto
  moreover have "scope_Parse (scope_Join (t # scopes)) = t # scopes" using 3 by auto
  ultimately show ?case by (simp add: scope_Parse_def split_space_append)
qed (simp_all add: scope_Parse_def split_space_token)

theorem scope_wire_roundtrip_witness:
  "scope_Parse (scope_Join [''openid'', ''offline_access'']) = [''openid'', ''offline_access'']"
  by (rule scope_wire_roundtrip) auto

lemma ContainsOpenID_iff: "ContainsOpenID scopes \<longleftrightarrow> ScopeOpenID \<in> set scopes"
  by (induction scopes) auto

lemma ContainsOfflineAccess_iff: "ContainsOfflineAccess scopes \<longleftrightarrow> ScopeOfflineAccess \<in> set scopes"
  by (induction scopes) auto


section \<open>What a signed token says\<close>

lemma validate_None: "validateNoStandardCollisions extra standard = None \<longleftrightarrow> (\<forall>(k, v)\<in>set extra. k \<notin> set standard)"
proof -
  have "validateNoStandardCollisions extra standard = None \<longleftrightarrow> filter (\<lambda>(k, v). k \<in> set standard) extra = []"
    by (auto simp: validateNoStandardCollisions_def split: list.split)
  then show ?thesis by (auto simp: filter_empty_conv)
qed

lemma map_of_no_collision:
  assumes "validateNoStandardCollisions extra standard = None" and "k \<in> set standard"
  shows "map_of extra k = None"
  using assms by (force simp: validate_None map_of_eq_None_iff)

lemma put_if_lookup [simp]: "put_if cond k v out x = (if cond \<and> x = k then Some v else out x)"
  by (simp add: put_if_def)

lemma SignIDToken_Inr:
  "SignIDToken key c = Inr t \<longleftrightarrow>
     (\<exists>sign. sk_Signer key = Some sign \<and> it_Subject c \<noteq> []
        \<and> validateNoStandardCollisions (it_Extra c) idTokenStandardKeys = None
        \<and> sign ''JWT'' (mergeIDTokenClaims c) = Inr t)"
  by (auto simp: SignIDToken_def split: option.split)

lemma SignAccessToken_Inr:
  "SignAccessToken key c = Inr t \<longleftrightarrow>
     (\<exists>sign. sk_Signer key = Some sign \<and> jc_Subject c \<noteq> []
        \<and> validateNoStandardCollisions (jc_Extra c) accessTokenStandardKeys = None
        \<and> sign ''at+jwt'' (mergeAccessTokenClaims c) = Inr t)"
  by (auto simp: SignAccessToken_def split: option.split)

text \<open>The payload under the reserved names, whatever the additional claims are.\<close>

lemma merge_standard:
  "map_of (it_Extra c) k = None \<Longrightarrow> mergeIDTokenClaims c k = mergeIDTokenClaims (c\<lparr>it_Extra := []\<rparr>) k"
  "map_of (jc_Extra a) k = None \<Longrightarrow> mergeAccessTokenClaims a k = mergeAccessTokenClaims (a\<lparr>jc_Extra := []\<rparr>) k"
  by (simp_all add: mergeIDTokenClaims_def mergeAccessTokenClaims_def map_add_def Let_def)


definition sample_key :: SigningKey where
  "sample_key = \<lparr>sk_Signer = Some (\<lambda>typ p. case p ''sub'' of Some (JString s) \<Rightarrow> Inr (typ @ '':'' @ s) | _ \<Rightarrow> Inl (TokenMsg [])),
     sk_Alg = ''ES256''\<rparr>"

definition sample_jwt_claims :: minted_claims where
  "sample_jwt_claims =
     \<lparr>jc_ClientID = ''tv'', jc_GrantID = ''g1'', jc_JTI = ''j1'', jc_IssuedAt = 14, jc_Issuer = ''https://op'',
      jc_Subject = ''alice'', jc_Audience = [''https://op''], jc_ExpiresAt = 20, jc_Scope = [''openid''], jc_AuthTime = 0,
      jc_Confirmation = [], jc_AuthorizationDetails = [], jc_UserInfoClaims = None,
      jc_Extra = [(''tenant'', JString ''t1'')], jc_ACR = [], jc_AMR = []\<rparr>"



section \<open>The additional claims of an id_token\<close>

lemma map_filter_set: "set (List.map_filter f xs) = {y. \<exists>x\<in>set xs. f x = Some y}"
  by (force simp: List.map_filter_def)

lemma projectIDTokenClaims_mem:
  "(k, v) \<in> set (projectIDTokenClaims source req) \<longleftrightarrow>
     (\<exists>r spec. req = Some r \<and> (k, spec) \<in> set (cr_IDToken r) \<and> \<not> IsIDTokenReservedClaim k
        \<and> map_of source k = Some v \<and> ClaimSpec_Allows spec v)"
  by (cases req) (force simp: projectIDTokenClaims_def map_filter_set split: option.splits if_splits)+

lemma idTokenExtraClaims_mem:
  assumes "(k, v) \<in> set (idTokenExtraClaims configured custom user scope req)"
  shows "\<not> IsIDTokenReservedClaim k" and "\<exists>u. user = Some u" and "map_of (userclaims_Source Time_Unix user) k = Some v"
    and "(\<exists>r spec. req = Some r \<and> (k, spec) \<in> set (cr_IDToken r) \<and> ClaimSpec_Allows spec v)
       \<or> \<not> claimsRequestNames req k \<and> k \<in> set (ScopeClaimNames (idTokenClaimScopes configured scope) custom)"
proof -
  from assms show "\<exists>u. user = Some u" by (cases user) (simp_all add: idTokenExtraClaims_def)
  from assms have "(k, v) \<in> set (projectIDTokenClaims (userclaims_Source Time_Unix user) req)
      \<or> (k \<in> set (ScopeClaimNames (idTokenClaimScopes configured scope) custom) \<and> \<not> IsIDTokenReservedClaim k
         \<and> \<not> claimsRequestNames req k \<and> map_of (userclaims_Source Time_Unix user) k = Some v)"
    by (auto simp: idTokenExtraClaims_def map_filter_set Let_def split: option.splits if_splits)
  then show "\<not> IsIDTokenReservedClaim k" "map_of (userclaims_Source Time_Unix user) k = Some v"
    "(\<exists>r spec. req = Some r \<and> (k, spec) \<in> set (cr_IDToken r) \<and> ClaimSpec_Allows spec v)
       \<or> \<not> claimsRequestNames req k \<and> k \<in> set (ScopeClaimNames (idTokenClaimScopes configured scope) custom)"
    by (auto simp: projectIDTokenClaims_mem)
qed


definition sample_user :: User where
  "sample_user = \<lparr>us_Subject = ''alice'', us_Claims = [(''email'', JString ''a@x''), (''sub'', JString ''root'')], us_UpdatedAt = 0\<rparr>"


text \<open>The hash claims are half a digest, in base64: 22, 32 or 43 characters.\<close>

lemma HashForAlg_length:
  assumes "HashForAlg inp alg = Inr h"
  shows "length h = (if suffix ''256'' alg then 22 else if suffix ''384'' alg then 32 else 43)"
  using assms by (auto simp: HashForAlg_def Let_def length_base64_RawURL split: if_splits)

end
