(* ===== verification/PolledStore.thy ===== *)
theory PolledStore
  imports PollInterval
begin

text \<open>
  What the two stores of polled records (device codes and CIBA requests) share: the counter helper of
  \<^verbatim>\<open>inmem/counters.go\<close>, the life cycle of a record that \<^verbatim>\<open>op/store/devicecodes.go\<close> and
  \<^verbatim>\<open>op/store/cibarequests.go\<close> document, and the contract of such a store as locales. A store keeps the
  contract \<open>polled_store\<close> when every operation moves a record along the documented edges only, and
  \<open>redeemable\<close> when in addition \<^verbatim>\<open>Consume\<close> succeeds on an approved record only and leaves it consumed;
  the second contract gives the one of a one-time credential.
\<close>

text \<open>
  The state-changing methods pass a mutation to \<^verbatim>\<open>transition\<close>. A mutation here returns the value it
  captures for its caller, the error and the record.
\<close>

type_synonym ('x, 'r) mutation = "'r \<Rightarrow> ('x \<times> store_err option) \<times> 'r"

text \<open>
  \<^verbatim>\<open>incrementCounter\<close>: \<open>counterOf\<close> selects the counter of a record and \<open>setCounter\<close> stores it back, in
  place of the pointer; \<open>transition\<close> takes the initial value of the captured variable.
\<close>

definition incrementCounter ::
  "(8 word \<Rightarrow> (8 word, 'r) mutation \<Rightarrow> 's \<Rightarrow> (8 word \<times> store_err option) \<times> 's) \<Rightarrow>
     ('r \<Rightarrow> 8 word) \<Rightarrow> (8 word \<Rightarrow> 'r \<Rightarrow> 'r) \<Rightarrow> 's \<Rightarrow> (8 word \<times> store_err option) \<times> 's" where
  "incrementCounter transition counterOf setCounter s =
     (case transition 0
             (\<lambda>rec. let n = saturatingIncrement (counterOf rec) in ((n, None), setCounter n rec)) s of
        ((n, Some e), s) \<Rightarrow> ((0, Some e), s)
      | ((n, None), s) \<Rightarrow> ((n, None), s))"


lemma incrementCounter_state:
  "snd (incrementCounter tr counterOf setCounter s) =
     snd (tr 0 (\<lambda>rec. let n = saturatingIncrement (counterOf rec) in ((n, None), setCounter n rec)) s)"
  by (simp add: incrementCounter_def split: prod.split option.split)


section \<open>The life cycle of a polled record\<close>

datatype poll_phase = PhaseUnset | PhasePending | PhaseApproved | PhaseDenied | PhaseConsumed

inductive poll_edge :: "poll_phase \<Rightarrow> poll_phase \<Rightarrow> bool" where
  approve: "poll_edge PhasePending PhaseApproved"
| deny: "poll_edge PhasePending PhaseDenied"
| revoke: "poll_edge PhaseApproved PhaseDenied"
| redeem: "poll_edge PhaseApproved PhaseConsumed"

inductive_cases edge_from_deniedE: "poll_edge PhaseDenied p"
inductive_cases edge_from_consumedE: "poll_edge PhaseConsumed p"
inductive_simps poll_edge_simps: "poll_edge p q"

abbreviation phase_terminal :: "poll_phase \<Rightarrow> bool" where
  "phase_terminal p \<equiv> p = PhaseDenied \<or> p = PhaseConsumed"

lemma terminal_edge: "poll_edge\<^sup>*\<^sup>* p q \<Longrightarrow> phase_terminal p \<Longrightarrow> q = p"
  by (induction rule: rtranclp_induct) (auto elim: edge_from_deniedE edge_from_consumedE)

locale polled_store =
  fixes row :: "'s \<Rightarrow> key \<Rightarrow> 'r option"
    and phase :: "'r \<Rightarrow> poll_phase"
    and exec :: "'op \<Rightarrow> 's \<Rightarrow> 's"
    and saves :: "'op \<Rightarrow> key set"
  assumes exec_row: "k \<notin> saves op \<Longrightarrow> row (exec op s) k = Some r' \<Longrightarrow>
    \<exists>r. row s k = Some r \<and> poll_edge\<^sup>=\<^sup>= (phase r) (phase r')"
begin

lemma fold_row:
  "\<forall>op\<in>set ops. k \<notin> saves op \<Longrightarrow> row (fold exec ops s) k = Some r' \<Longrightarrow>
     \<exists>r. row s k = Some r \<and> poll_edge\<^sup>*\<^sup>* (phase r) (phase r')"
proof (induction ops arbitrary: s)
  case (Cons op ops)
  then obtain r1 where r1: "row (exec op s) k = Some r1" "poll_edge\<^sup>*\<^sup>* (phase r1) (phase r')"
    by auto
  from Cons.prems(1) have "k \<notin> saves op" by simp
  from exec_row [OF this r1(1)] obtain r where "row s k = Some r" "poll_edge\<^sup>=\<^sup>= (phase r) (phase r1)"
    by blast
  with r1(2) show ?case by (auto intro: converse_rtranclp_into_rtranclp)
qed auto

lemma terminal_stays:
  assumes "row s k = Some r" and "phase_terminal (phase r)"
    and "\<forall>op\<in>set ops. k \<notin> saves op" and "row (fold exec ops s) k = Some r'"
  shows "phase r' = phase r"
  using fold_row [OF assms(3,4)] assms(1,2) terminal_edge by auto

end

locale redeemable = polled_store row phase exec saves
  for row :: "'s \<Rightarrow> key \<Rightarrow> 'r option"
    and phase :: "'r \<Rightarrow> poll_phase"
    and exec :: "'op \<Rightarrow> 's \<Rightarrow> 's"
    and saves :: "'op \<Rightarrow> key set" +
  fixes consume :: "time \<Rightarrow> string \<Rightarrow> 's \<Rightarrow> ('r option \<times> store_err option) \<times> 's"
  assumes consume_redeems: "consume now i s = ((x, None), s') \<Longrightarrow>
      \<exists>r. row s' (hashKey i) = Some r \<and> phase r = PhaseConsumed"
    and consume_refuses: "(\<forall>r. row s (hashKey i) = Some r \<longrightarrow> phase_terminal (phase r)) \<Longrightarrow>
      snd (fst (consume now i s)) \<noteq> None"

sublocale redeemable \<subseteq> once: one_time_store consume
  "\<lambda>i s. \<forall>r. row s (hashKey i) = Some r \<longrightarrow> phase_terminal (phase r)"
  "\<lambda>i s s'. \<exists>op. hashKey i \<notin> saves op \<and> s' = exec op s"
proof unfold_locales
  fix now i s x s'
  assume "consume now i s = ((x, None), s')"
  from consume_redeems [OF this] show "\<forall>r. row s' (hashKey i) = Some r \<longrightarrow> phase_terminal (phase r)"
    by auto
next
  fix i s now
  assume "\<forall>r. row s (hashKey i) = Some r \<longrightarrow> phase_terminal (phase r)"
  then show "snd (fst (consume now i s)) \<noteq> None" by (rule consume_refuses)
next
  fix i s s'
  assume "\<exists>op. hashKey i \<notin> saves op \<and> s' = exec op s"
    and spent: "\<forall>r. row s (hashKey i) = Some r \<longrightarrow> phase_terminal (phase r)"
  then obtain op where op: "hashKey i \<notin> saves op" and s': "s' = exec op s" by blast
  show "\<forall>r. row s' (hashKey i) = Some r \<longrightarrow> phase_terminal (phase r)"
  proof (intro allI impI)
    fix r'
    assume "row s' (hashKey i) = Some r'"
    with exec_row [OF op, of s r'] s' obtain r where "row s (hashKey i) = Some r" "poll_edge\<^sup>=\<^sup>= (phase r) (phase r')"
      by auto
    with spent show "phase_terminal (phase r')"
      by (auto elim: edge_from_deniedE edge_from_consumedE)
  qed
qed

context redeemable
begin

lemma fold_steps:
  "\<forall>op\<in>set ops. hashKey i \<notin> saves op \<Longrightarrow>
     (\<lambda>s s'. \<exists>op. hashKey i \<notin> saves op \<and> s' = exec op s)\<^sup>*\<^sup>* s (fold exec ops s)"
proof (induction ops arbitrary: s)
  case (Cons op ops)
  then have "\<exists>o1. hashKey i \<notin> saves o1 \<and> exec op s = exec o1 s" by auto
  with Cons show ?case by (simp add: converse_rtranclp_into_rtranclp)
qed simp

lemma redeemed_once:
  assumes "consume now i s = ((x, None), s')" and "\<forall>op\<in>set ops. hashKey i \<notin> saves op"
  shows "snd (fst (consume later i (fold exec ops s'))) \<noteq> None"
  by (rule once.consumed_once [OF assms(1) fold_steps [OF assms(2)]])

lemma terminal_refused:
  assumes "row s (hashKey i) = Some r" and "phase_terminal (phase r)"
    and "\<forall>op\<in>set ops. hashKey i \<notin> saves op"
  shows "snd (fst (consume later i (fold exec ops s))) \<noteq> None"
  using assms terminal_stays [OF assms(1-3)] by (intro consume_refuses) auto

end

end
