(* ===== verification/DeviceCodes.thy ===== *)
theory DeviceCodes
  imports PolledStore
begin

text \<open>
  The store of device-authorization records: the record and its status of \<^verbatim>\<open>op/store/devicecodes.go\<close>
  and every operation of \<^verbatim>\<open>op/storeadapter/inmem/devicecodes.go\<close>. The primary map is keyed by the
  digest of the device code and a second map takes a user code to that digest. The lemmas show that
  the two maps stay in step, that a record moves along the documented transitions only, and that an
  approval is redeemed once.
\<close>

datatype DeviceCodeStatus =
    deviceCodeStatusUnspecified
  | DeviceCodeStatusPending
  | DeviceCodeStatusApproved
  | DeviceCodeStatusDenied
  | DeviceCodeStatusConsumed

fun DeviceCodeStatus_String :: "DeviceCodeStatus \<Rightarrow> string" where
  "DeviceCodeStatus_String DeviceCodeStatusPending = ''pending''"
| "DeviceCodeStatus_String DeviceCodeStatusApproved = ''approved''"
| "DeviceCodeStatus_String DeviceCodeStatusDenied = ''denied''"
| "DeviceCodeStatus_String DeviceCodeStatusConsumed = ''consumed''"
| "DeviceCodeStatus_String deviceCodeStatusUnspecified = ''unspecified''"

record DeviceCode =
  dc_ID :: string
  dc_UserCode :: string
  dc_ClientID :: string
  dc_Scope :: "string list"
  dc_Resource :: "string list"
  dc_DPoPJKT :: string
  dc_MTLSCertS256 :: string
  dc_Interval :: duration
  dc_IssuedAt :: time
  dc_ExpiresAt :: time
  dc_LastPolledAt :: "time option"
  dc_Status :: DeviceCodeStatus
  dc_Subject :: string
  dc_AuthTime :: time
  dc_DenyReason :: string
  dc_UserCodeStrikes :: "8 word"
  dc_PollViolations :: "8 word"

record deviceCodeStore =
  dcs_m :: "DeviceCode gomap"
  dcs_userCodeIndex :: "key gomap"
  dcs_savesSinceGC :: "32 word"

definition newDeviceCodeStore :: deviceCodeStore where
  "newDeviceCodeStore = \<lparr>dcs_m = fmempty, dcs_userCodeIndex = fmempty, dcs_savesSinceGC = 0\<rparr>"

definition deviceCodeStore_dropLocked :: "key \<Rightarrow> DeviceCode \<Rightarrow> deviceCodeStore \<Rightarrow> deviceCodeStore" where
  "deviceCodeStore_dropLocked key rec s =
     (let s = s\<lparr>dcs_m := fmdrop key (dcs_m s)\<rparr>
      in if (case fmlookup (dcs_userCodeIndex s) (dc_UserCode rec) of None \<Rightarrow> [] | Some k \<Rightarrow> k) = key
         then s\<lparr>dcs_userCodeIndex := fmdrop (dc_UserCode rec) (dcs_userCodeIndex s)\<rparr>
         else s)"

text \<open>The body of the sweep's loop, and the sweep.\<close>

definition gc_visit :: "time \<Rightarrow> key \<Rightarrow> deviceCodeStore \<Rightarrow> deviceCodeStore" where
  "gc_visit now key s =
     (case fmlookup (dcs_m s) key of
        None \<Rightarrow> s
      | Some rec \<Rightarrow>
          if \<not> IsExpiredStrict (dc_ExpiresAt rec) now then s
          else deviceCodeStore_dropLocked key rec s)"

definition deviceCodeStore_gcLocked :: "time \<Rightarrow> deviceCodeStore \<Rightarrow> deviceCodeStore" where
  "deviceCodeStore_gcLocked now s = fold (gc_visit now) (sorted_list_of_fset (fmdom (dcs_m s))) s"

definition deviceCodeStore_maybeGCLocked :: "time \<Rightarrow> deviceCodeStore \<Rightarrow> deviceCodeStore" where
  "deviceCodeStore_maybeGCLocked now s =
     (case sweeper_due (dcs_savesSinceGC s) (gm_len (dcs_m s)) of
        (due, w) \<Rightarrow>
          let s = s\<lparr>dcs_savesSinceGC := w\<rparr>
          in if due then deviceCodeStore_gcLocked now s else s)"

definition deviceCodeStore_deleteExpiredKeyLocked :: "key \<Rightarrow> time \<Rightarrow> deviceCodeStore \<Rightarrow> deviceCodeStore" where
  "deviceCodeStore_deleteExpiredKeyLocked key now s =
     (case evictIf (dcs_m s) key (\<lambda>rec. IsExpiredStrict (dc_ExpiresAt rec) now) of
        (None, m) \<Rightarrow> s\<lparr>dcs_m := m\<rparr>
      | (Some rec, m) \<Rightarrow> deviceCodeStore_dropLocked key rec (s\<lparr>dcs_m := m\<rparr>))"

definition deviceCodeStore_deleteExpiredUserCodeLocked ::
  "string \<Rightarrow> time \<Rightarrow> deviceCodeStore \<Rightarrow> deviceCodeStore" where
  "deviceCodeStore_deleteExpiredUserCodeLocked userCode now s =
     (case fmlookup (dcs_userCodeIndex s) userCode of
        None \<Rightarrow> s
      | Some key \<Rightarrow>
          (case fmlookup (dcs_m s) key of
             None \<Rightarrow> s\<lparr>dcs_userCodeIndex := fmdrop userCode (dcs_userCodeIndex s)\<rparr>
           | Some rec \<Rightarrow>
               if IsExpiredStrict (dc_ExpiresAt rec) now then deviceCodeStore_dropLocked key rec s else s))"

definition deviceCodeStore_Save ::
  "time \<Rightarrow> DeviceCode option \<Rightarrow> deviceCodeStore \<Rightarrow> store_err option \<times> deviceCodeStore" where
  "deviceCodeStore_Save now code s =
     (case code of
        None \<Rightarrow> (Some (ErrOther ''inmem: nil device code''), s)
      | Some c \<Rightarrow>
          let key = hashKey (dc_ID c);
              s = deviceCodeStore_deleteExpiredKeyLocked key now s;
              s = deviceCodeStore_deleteExpiredUserCodeLocked (dc_UserCode c) now s;
              s = deviceCodeStore_maybeGCLocked now s
          in if fmlookup (dcs_m s) key \<noteq> None then (Some ErrAlreadyExists, s)
             else if fmlookup (dcs_userCodeIndex s) (dc_UserCode c) \<noteq> None then (Some ErrAlreadyExists, s)
             else
               let stored = (if dc_Status c = deviceCodeStatusUnspecified
                             then c\<lparr>dc_Status := DeviceCodeStatusPending\<rparr> else c);
                   stored = stored\<lparr>dc_ID := key\<rparr>
               in (None, s\<lparr>dcs_m := fmupd key stored (dcs_m s),
                           dcs_userCodeIndex := fmupd (dc_UserCode c) key (dcs_userCodeIndex s)\<rparr>))"

definition deviceCodeStore_FindByDeviceCode ::
  "time \<Rightarrow> string \<Rightarrow> deviceCodeStore \<Rightarrow> DeviceCode option \<times> store_err option" where
  "deviceCodeStore_FindByDeviceCode now deviceCode s =
     (let key = hashKey deviceCode
      in case fmlookup (dcs_m s) key of
           None \<Rightarrow> (None, Some ErrNotFound)
         | Some rec \<Rightarrow>
             if \<not> constantTimeKeyMatch (dc_ID rec) key then (None, Some ErrNotFound)
             else if isExpired (dc_ExpiresAt rec) now then (None, Some ErrNotFound)
             else (Some (rec\<lparr>dc_ID := deviceCode\<rparr>), None))"

definition deviceCodeStore_FindByUserCode ::
  "time \<Rightarrow> string \<Rightarrow> deviceCodeStore \<Rightarrow> DeviceCode option \<times> store_err option" where
  "deviceCodeStore_FindByUserCode now userCode s =
     (case fmlookup (dcs_userCodeIndex s) userCode of
        None \<Rightarrow> (None, Some ErrNotFound)
      | Some key \<Rightarrow>
          (case fmlookup (dcs_m s) key of
             None \<Rightarrow> (None, Some ErrNotFound)
           | Some rec \<Rightarrow>
               if isExpired (dc_ExpiresAt rec) now then (None, Some ErrNotFound)
               else (Some (rec\<lparr>dc_ID := []\<rparr>), None)))"

text \<open>
  \<^verbatim>\<open>transition\<close> applies the mutation to the record in place; \<open>x0\<close> is the initial value of the variable
  the mutation captures.
\<close>

definition deviceCodeStore_transition ::
  "time \<Rightarrow> string \<Rightarrow> 'x \<Rightarrow> ('x, DeviceCode) mutation \<Rightarrow> deviceCodeStore \<Rightarrow>
     ('x \<times> store_err option) \<times> deviceCodeStore" where
  "deviceCodeStore_transition now deviceCode x0 mutate s =
     (let key = hashKey deviceCode
      in case fmlookup (dcs_m s) key of
           None \<Rightarrow> ((x0, Some ErrNotFound), s)
         | Some rec \<Rightarrow>
             if isExpired (dc_ExpiresAt rec) now then ((x0, Some ErrNotFound), s)
             else (case mutate rec of (r, rec) \<Rightarrow> (r, s\<lparr>dcs_m := fmupd key rec (dcs_m s)\<rparr>)))"

definition deviceCodeStore_transitionByUserCode ::
  "time \<Rightarrow> string \<Rightarrow> 'x \<Rightarrow> ('x, DeviceCode) mutation \<Rightarrow> deviceCodeStore \<Rightarrow>
     ('x \<times> store_err option) \<times> deviceCodeStore" where
  "deviceCodeStore_transitionByUserCode now userCode x0 mutate s =
     (case fmlookup (dcs_userCodeIndex s) userCode of
        None \<Rightarrow> ((x0, Some ErrNotFound), s)
      | Some key \<Rightarrow>
          (case fmlookup (dcs_m s) key of
             None \<Rightarrow> ((x0, Some ErrNotFound), s)
           | Some rec \<Rightarrow>
               if isExpired (dc_ExpiresAt rec) now then ((x0, Some ErrNotFound), s)
               else (case mutate rec of (r, rec) \<Rightarrow> (r, s\<lparr>dcs_m := fmupd key rec (dcs_m s)\<rparr>))))"

definition approveMutation :: "string \<Rightarrow> time \<Rightarrow> (unit, DeviceCode) mutation" where
  "approveMutation subject authTime rec =
     (if dc_Status rec \<noteq> DeviceCodeStatusPending then (((), Some ErrConflict), rec)
      else (((), None),
            rec\<lparr>dc_Status := DeviceCodeStatusApproved, dc_Subject := subject, dc_AuthTime := authTime\<rparr>))"

definition denyMutation :: "string \<Rightarrow> (unit, DeviceCode) mutation" where
  "denyMutation reason rec =
     (if dc_Status rec \<noteq> DeviceCodeStatusPending then (((), Some ErrConflict), rec)
      else (((), None), rec\<lparr>dc_Status := DeviceCodeStatusDenied, dc_DenyReason := reason\<rparr>))"

definition revokeMutation :: "string \<Rightarrow> (unit, DeviceCode) mutation" where
  "revokeMutation reason rec =
     (case dc_Status rec of
        DeviceCodeStatusPending \<Rightarrow>
          (((), None), rec\<lparr>dc_Status := DeviceCodeStatusDenied, dc_DenyReason := reason\<rparr>)
      | DeviceCodeStatusApproved \<Rightarrow>
          (((), None), rec\<lparr>dc_Status := DeviceCodeStatusDenied, dc_DenyReason := reason\<rparr>)
      | DeviceCodeStatusDenied \<Rightarrow> (((), None), rec)
      | DeviceCodeStatusConsumed \<Rightarrow> (((), None), rec)
      | deviceCodeStatusUnspecified \<Rightarrow> (((), Some ErrConflict), rec))"

definition recordPollMutation :: "time \<Rightarrow> duration \<Rightarrow> (unit, DeviceCode) mutation" where
  "recordPollMutation t nextInterval rec =
     (let rec = rec\<lparr>dc_LastPolledAt := Some t\<rparr>
      in (((), None),
          if nextInterval > dc_Interval rec then rec\<lparr>dc_Interval := nextInterval\<rparr> else rec))"

definition deviceCodeStore_Approve ::
  "time \<Rightarrow> string \<Rightarrow> string \<Rightarrow> time \<Rightarrow> deviceCodeStore \<Rightarrow> (unit \<times> store_err option) \<times> deviceCodeStore" where
  "deviceCodeStore_Approve now deviceCode subject authTime s =
     deviceCodeStore_transition now deviceCode () (approveMutation subject authTime) s"

definition deviceCodeStore_ApproveByUserCode ::
  "time \<Rightarrow> string \<Rightarrow> string \<Rightarrow> time \<Rightarrow> deviceCodeStore \<Rightarrow> (unit \<times> store_err option) \<times> deviceCodeStore" where
  "deviceCodeStore_ApproveByUserCode now userCode subject authTime s =
     deviceCodeStore_transitionByUserCode now userCode () (approveMutation subject authTime) s"

definition deviceCodeStore_Deny ::
  "time \<Rightarrow> string \<Rightarrow> string \<Rightarrow> deviceCodeStore \<Rightarrow> (unit \<times> store_err option) \<times> deviceCodeStore" where
  "deviceCodeStore_Deny now deviceCode reason s =
     deviceCodeStore_transition now deviceCode () (denyMutation reason) s"

definition deviceCodeStore_DenyByUserCode ::
  "time \<Rightarrow> string \<Rightarrow> string \<Rightarrow> deviceCodeStore \<Rightarrow> (unit \<times> store_err option) \<times> deviceCodeStore" where
  "deviceCodeStore_DenyByUserCode now userCode reason s =
     deviceCodeStore_transitionByUserCode now userCode () (denyMutation reason) s"

definition deviceCodeStore_Revoke ::
  "time \<Rightarrow> string \<Rightarrow> string \<Rightarrow> deviceCodeStore \<Rightarrow> (unit \<times> store_err option) \<times> deviceCodeStore" where
  "deviceCodeStore_Revoke now deviceCode reason s =
     deviceCodeStore_transition now deviceCode () (revokeMutation reason) s"

definition deviceCodeStore_RecordPoll ::
  "time \<Rightarrow> string \<Rightarrow> time \<Rightarrow> duration \<Rightarrow> deviceCodeStore \<Rightarrow> (unit \<times> store_err option) \<times> deviceCodeStore" where
  "deviceCodeStore_RecordPoll now deviceCode t nextInterval s =
     deviceCodeStore_transition now deviceCode () (recordPollMutation t nextInterval) s"

definition deviceCodeStore_IncrementUserCodeStrike ::
  "time \<Rightarrow> string \<Rightarrow> deviceCodeStore \<Rightarrow> (8 word \<times> store_err option) \<times> deviceCodeStore" where
  "deviceCodeStore_IncrementUserCodeStrike now deviceCode s =
     incrementCounter (deviceCodeStore_transition now deviceCode)
       dc_UserCodeStrikes (\<lambda>n rec. rec\<lparr>dc_UserCodeStrikes := n\<rparr>) s"

definition deviceCodeStore_IncrementUserCodeStrikeByUserCode ::
  "time \<Rightarrow> string \<Rightarrow> deviceCodeStore \<Rightarrow> (8 word \<times> store_err option) \<times> deviceCodeStore" where
  "deviceCodeStore_IncrementUserCodeStrikeByUserCode now userCode s =
     incrementCounter (deviceCodeStore_transitionByUserCode now userCode)
       dc_UserCodeStrikes (\<lambda>n rec. rec\<lparr>dc_UserCodeStrikes := n\<rparr>) s"

definition deviceCodeStore_IncrementPollViolation ::
  "time \<Rightarrow> string \<Rightarrow> deviceCodeStore \<Rightarrow> (8 word \<times> store_err option) \<times> deviceCodeStore" where
  "deviceCodeStore_IncrementPollViolation now deviceCode s =
     incrementCounter (deviceCodeStore_transition now deviceCode)
       dc_PollViolations (\<lambda>n rec. rec\<lparr>dc_PollViolations := n\<rparr>) s"

definition deviceCodeStore_Consume ::
  "time \<Rightarrow> string \<Rightarrow> deviceCodeStore \<Rightarrow> (DeviceCode option \<times> store_err option) \<times> deviceCodeStore" where
  "deviceCodeStore_Consume now deviceCode s =
     (let key = hashKey deviceCode
      in case fmlookup (dcs_m s) key of
           None \<Rightarrow> ((None, Some ErrNotFound), s)
         | Some rec \<Rightarrow>
             if isExpired (dc_ExpiresAt rec) now then ((None, Some ErrNotFound), s)
             else
               (case dc_Status rec of
                  DeviceCodeStatusConsumed \<Rightarrow> ((None, Some ErrAlreadyConsumed), s)
                | DeviceCodeStatusApproved \<Rightarrow>
                    let rec = rec\<lparr>dc_Status := DeviceCodeStatusConsumed\<rparr>
                    in ((Some (rec\<lparr>dc_ID := deviceCode\<rparr>), None), s\<lparr>dcs_m := fmupd key rec (dcs_m s)\<rparr>)
                | _ \<Rightarrow> ((None, Some ErrConflict), s)))"


section \<open>Operations and executions\<close>

datatype dc_op =
    DcSave time "DeviceCode option"
  | DcApprove time string string time
  | DcApproveByUserCode time string string time
  | DcDeny time string string
  | DcDenyByUserCode time string string
  | DcRevoke time string string
  | DcRecordPoll time string time duration
  | DcStrike time string
  | DcStrikeByUserCode time string
  | DcViolation time string
  | DcConsume time string

fun dc_exec :: "dc_op \<Rightarrow> deviceCodeStore \<Rightarrow> deviceCodeStore" where
  "dc_exec (DcSave now c) s = snd (deviceCodeStore_Save now c s)"
| "dc_exec (DcApprove now d sub at) s = snd (deviceCodeStore_Approve now d sub at s)"
| "dc_exec (DcApproveByUserCode now u sub at) s = snd (deviceCodeStore_ApproveByUserCode now u sub at s)"
| "dc_exec (DcDeny now d r) s = snd (deviceCodeStore_Deny now d r s)"
| "dc_exec (DcDenyByUserCode now u r) s = snd (deviceCodeStore_DenyByUserCode now u r s)"
| "dc_exec (DcRevoke now d r) s = snd (deviceCodeStore_Revoke now d r s)"
| "dc_exec (DcRecordPoll now d t i) s = snd (deviceCodeStore_RecordPoll now d t i s)"
| "dc_exec (DcStrike now d) s = snd (deviceCodeStore_IncrementUserCodeStrike now d s)"
| "dc_exec (DcStrikeByUserCode now u) s = snd (deviceCodeStore_IncrementUserCodeStrikeByUserCode now u s)"
| "dc_exec (DcViolation now d) s = snd (deviceCodeStore_IncrementPollViolation now d s)"
| "dc_exec (DcConsume now d) s = snd (deviceCodeStore_Consume now d s)"

fun dc_saves :: "dc_op \<Rightarrow> key set" where
  "dc_saves (DcSave now (Some c)) = {hashKey (dc_ID c)}"
| "dc_saves _ = {}"

fun status_phase :: "DeviceCodeStatus \<Rightarrow> poll_phase" where
  "status_phase deviceCodeStatusUnspecified = PhaseUnset"
| "status_phase DeviceCodeStatusPending = PhasePending"
| "status_phase DeviceCodeStatusApproved = PhaseApproved"
| "status_phase DeviceCodeStatusDenied = PhaseDenied"
| "status_phase DeviceCodeStatusConsumed = PhaseConsumed"

abbreviation dc_row :: "deviceCodeStore \<Rightarrow> key \<Rightarrow> DeviceCode option" where
  "dc_row s \<equiv> fmlookup (dcs_m s)"

abbreviation dc_phase :: "DeviceCode \<Rightarrow> poll_phase" where
  "dc_phase r \<equiv> status_phase (dc_Status r)"


section \<open>Operations that rewrite one record\<close>

text \<open>
  Every operation but \<^verbatim>\<open>Save\<close> keeps the index and the keys, keeps the identity of each record, and
  moves its status along the documented edges only.
\<close>

definition dc_rewrite :: "deviceCodeStore \<Rightarrow> deviceCodeStore \<Rightarrow> bool" where
  "dc_rewrite s s' \<longleftrightarrow>
     dcs_userCodeIndex s' = dcs_userCodeIndex s
     \<and> (\<forall>k. (case dc_row s' k of
               None \<Rightarrow> dc_row s k = None
             | Some r' \<Rightarrow> \<exists>r. dc_row s k = Some r \<and> dc_ID r' = dc_ID r \<and> dc_UserCode r' = dc_UserCode r
                 \<and> dc_PollViolations r \<le> dc_PollViolations r' \<and> poll_edge\<^sup>=\<^sup>= (dc_phase r) (dc_phase r')))"

lemma dc_rewrite_None: "dc_rewrite s s' \<Longrightarrow> dc_row s' k = None \<Longrightarrow> dc_row s k = None"
  unfolding dc_rewrite_def by (drule conjunct2, drule spec [of _ k]) simp

lemma dc_rewrite_Some:
  "dc_rewrite s s' \<Longrightarrow> dc_row s' k = Some r' \<Longrightarrow>
     \<exists>r. dc_row s k = Some r \<and> dc_ID r' = dc_ID r \<and> dc_UserCode r' = dc_UserCode r
       \<and> dc_PollViolations r \<le> dc_PollViolations r' \<and> poll_edge\<^sup>=\<^sup>= (dc_phase r) (dc_phase r')"
  unfolding dc_rewrite_def by (drule conjunct2, drule spec [of _ k]) simp

lemma dc_rewrite_refl [simp]: "dc_rewrite s s"
  by (auto simp: dc_rewrite_def split: option.split)

lemma dc_rewrite_upd:
  assumes "dc_row s key = Some rec" and "dc_ID rec' = dc_ID rec" and "dc_UserCode rec' = dc_UserCode rec"
    and "dc_PollViolations rec \<le> dc_PollViolations rec'" and "poll_edge\<^sup>=\<^sup>= (dc_phase rec) (dc_phase rec')"
  shows "dc_rewrite s (s\<lparr>dcs_m := fmupd key rec' (dcs_m s)\<rparr>)"
  using assms by (auto simp: dc_rewrite_def split: option.split)

definition lawful :: "('x, DeviceCode) mutation \<Rightarrow> bool" where
  "lawful mutate \<longleftrightarrow> (\<forall>r. dc_ID (snd (mutate r)) = dc_ID r \<and> dc_UserCode (snd (mutate r)) = dc_UserCode r
     \<and> dc_PollViolations r \<le> dc_PollViolations (snd (mutate r)) \<and> poll_edge\<^sup>=\<^sup>= (dc_phase r) (dc_phase (snd (mutate r))))"

lemma transition_rewrite:
  "lawful mutate \<Longrightarrow> dc_rewrite s (snd (deviceCodeStore_transition now d x0 mutate s))"
  by (auto simp: deviceCodeStore_transition_def lawful_def Let_def case_prod_beta split: option.split
      intro!: dc_rewrite_upd)

lemma transitionByUserCode_rewrite:
  "lawful mutate \<Longrightarrow> dc_rewrite s (snd (deviceCodeStore_transitionByUserCode now u x0 mutate s))"
  by (auto simp: deviceCodeStore_transitionByUserCode_def lawful_def case_prod_beta split: option.split
      intro!: dc_rewrite_upd)

lemma lawful_mutations:
  "lawful (approveMutation sub at)" "lawful (denyMutation reason)" "lawful (revokeMutation reason)"
  "lawful (recordPollMutation t i)"
  by (auto simp: lawful_def approveMutation_def denyMutation_def revokeMutation_def recordPollMutation_def Let_def
      poll_edge_simps split: DeviceCodeStatus.split)

lemma saturatingIncrement_ge: "c \<le> saturatingIncrement c"
proof -
  have "unat c < 256" using unsigned_less [of c, where 'a = nat] by simp
  then show ?thesis by (simp add: word_le_nat_alt unat_saturatingIncrement)
qed

lemma lawful_counters:
  "lawful (\<lambda>rec. let n = saturatingIncrement (dc_UserCodeStrikes rec) in ((n, None), rec\<lparr>dc_UserCodeStrikes := n\<rparr>))"
  "lawful (\<lambda>rec. let n = saturatingIncrement (dc_PollViolations rec) in ((n, None), rec\<lparr>dc_PollViolations := n\<rparr>))"
  by (simp_all add: lawful_def Let_def saturatingIncrement_ge)

lemma consume_rewrite: "dc_rewrite s (snd (deviceCodeStore_Consume now d s))"
  by (auto simp: deviceCodeStore_Consume_def Let_def poll_edge_simps split: option.split DeviceCodeStatus.split
      intro!: dc_rewrite_upd)

lemmas dc_op_defs = deviceCodeStore_Approve_def deviceCodeStore_ApproveByUserCode_def deviceCodeStore_Deny_def
  deviceCodeStore_DenyByUserCode_def deviceCodeStore_Revoke_def deviceCodeStore_RecordPoll_def
  deviceCodeStore_IncrementUserCodeStrike_def deviceCodeStore_IncrementUserCodeStrikeByUserCode_def
  deviceCodeStore_IncrementPollViolation_def

lemma exec_rewrite:
  assumes "\<And>now c. op \<noteq> DcSave now c"
  shows "dc_rewrite s (dc_exec op s)"
proof (cases op)
  case (DcSave now c)
  with assms show ?thesis by blast
qed (simp_all add: dc_op_defs incrementCounter_state transition_rewrite transitionByUserCode_rewrite
    lawful_mutations lawful_counters consume_rewrite)


section \<open>The two maps stay in step\<close>

definition uc_ok :: "deviceCodeStore \<Rightarrow> bool" where
  "uc_ok s \<longleftrightarrow> (\<forall>uc k. fmlookup (dcs_userCodeIndex s) uc = Some k \<longleftrightarrow>
     (\<exists>r. dc_row s k = Some r \<and> dc_UserCode r = uc))"

lemma uc_okD: "uc_ok s \<Longrightarrow> dc_row s k = Some r \<Longrightarrow> fmlookup (dcs_userCodeIndex s) (dc_UserCode r) = Some k"
  by (auto simp: uc_ok_def)

lemma uc_ok_rewrite:
  assumes "uc_ok s" and "dc_rewrite s s'"
  shows "uc_ok s'"
proof -
  have "(\<exists>r'. dc_row s' k = Some r' \<and> dc_UserCode r' = uc) \<longleftrightarrow> (\<exists>r. dc_row s k = Some r \<and> dc_UserCode r = uc)" for k uc
  proof (cases "dc_row s' k")
    case None
    with dc_rewrite_None [OF assms(2)] have "dc_row s k = None" .
    with None show ?thesis by simp
  next
    case (Some r')
    with dc_rewrite_Some [OF assms(2)] obtain r where "dc_row s k = Some r" "dc_UserCode r' = dc_UserCode r"
      by blast
    with Some show ?thesis by auto
  qed
  moreover have "dcs_userCodeIndex s' = dcs_userCodeIndex s"
    using assms(2) by (simp add: dc_rewrite_def)
  ultimately show ?thesis
    using assms(1) by (simp add: uc_ok_def)
qed

text \<open>Dropping a record under its key, in a store where the maps agree, removes it from both.\<close>

lemma drop_known:
  assumes "uc_ok s" and "dc_row s key = Some rec"
  shows "deviceCodeStore_dropLocked key rec s =
    s\<lparr>dcs_m := fmdrop key (dcs_m s), dcs_userCodeIndex := fmdrop (dc_UserCode rec) (dcs_userCodeIndex s)\<rparr>"
  using uc_okD [OF assms] by (simp add: deviceCodeStore_dropLocked_def Let_def)

lemma drop_uc_ok:
  assumes "uc_ok s" and "dc_row s key = Some rec"
  shows "uc_ok (deviceCodeStore_dropLocked key rec s)"
  unfolding drop_known [OF assms] uc_ok_def
proof (intro allI)
  fix uc k
  have idx: "fmlookup (dcs_userCodeIndex s) uc = Some k \<longleftrightarrow> (\<exists>r. dc_row s k = Some r \<and> dc_UserCode r = uc)"
    using assms(1) by (simp add: uc_ok_def)
  have rec: "fmlookup (dcs_userCodeIndex s) (dc_UserCode rec) = Some key"
    by (rule uc_okD [OF assms])
  show "fmlookup (dcs_userCodeIndex (s\<lparr>dcs_m := fmdrop key (dcs_m s),
          dcs_userCodeIndex := fmdrop (dc_UserCode rec) (dcs_userCodeIndex s)\<rparr>)) uc = Some k \<longleftrightarrow>
        (\<exists>r. dc_row (s\<lparr>dcs_m := fmdrop key (dcs_m s),
          dcs_userCodeIndex := fmdrop (dc_UserCode rec) (dcs_userCodeIndex s)\<rparr>) k = Some r \<and> dc_UserCode r = uc)"
  proof (cases "k = key \<or> uc = dc_UserCode rec")
    case True
    then show ?thesis using idx rec assms(2) by auto
  qed (use idx in auto)
qed

lemma drop_only_drops: "dc_row (deviceCodeStore_dropLocked key rec s) k = Some r \<Longrightarrow> dc_row s k = Some r"
  by (simp add: deviceCodeStore_dropLocked_def Let_def split: if_splits)

text \<open>What the reclaiming steps of \<^verbatim>\<open>Save\<close> share: they keep the maps in step and only remove records.\<close>

definition reclaims :: "(deviceCodeStore \<Rightarrow> deviceCodeStore) \<Rightarrow> bool" where
  "reclaims f \<longleftrightarrow> (\<forall>s. uc_ok s \<longrightarrow> uc_ok (f s)) \<and> (\<forall>s k r. dc_row (f s) k = Some r \<longrightarrow> dc_row s k = Some r)"

lemma reclaims_visit: "reclaims (gc_visit now key)"
  by (auto simp: reclaims_def gc_visit_def split: option.splits if_splits intro: drop_uc_ok dest: drop_only_drops)

lemma reclaims_comp: "reclaims f \<Longrightarrow> reclaims g \<Longrightarrow> reclaims (\<lambda>s. g (f s))"
  unfolding reclaims_def by blast

lemma reclaims_fold:
  assumes "\<And>x. reclaims (f x)"
  shows "reclaims (fold f xs)"
proof (induction xs)
  case (Cons x xs)
  have "fold f (x # xs) = (\<lambda>s. fold f xs (f x s))" by (simp add: fun_eq_iff)
  with reclaims_comp [OF assms [of x] Cons.IH] show ?case by simp
qed (simp add: reclaims_def)

lemma reclaims_gc: "reclaims (deviceCodeStore_gcLocked now)"
  using reclaims_fold [where f = "gc_visit now", OF reclaims_visit]
  unfolding reclaims_def deviceCodeStore_gcLocked_def by blast

lemma reclaims_maybeGC: "reclaims (deviceCodeStore_maybeGCLocked now)"
proof -
  have cases: "\<exists>w. deviceCodeStore_maybeGCLocked now s = s\<lparr>dcs_savesSinceGC := w\<rparr>
      \<or> deviceCodeStore_maybeGCLocked now s = deviceCodeStore_gcLocked now (s\<lparr>dcs_savesSinceGC := w\<rparr>)" for s
    by (cases "sweeper_due (dcs_savesSinceGC s) (gm_len (dcs_m s))")
       (auto simp: deviceCodeStore_maybeGCLocked_def Let_def)
  have uc: "uc_ok (s\<lparr>dcs_savesSinceGC := w\<rparr>) = uc_ok s" for s w
    by (simp add: uc_ok_def)
  show ?thesis
    unfolding reclaims_def
  proof (intro conjI allI impI)
    fix s assume "uc_ok s"
    with cases [of s] reclaims_gc [of now] uc show "uc_ok (deviceCodeStore_maybeGCLocked now s)"
      unfolding reclaims_def by metis
  next
    fix s k r assume row: "dc_row (deviceCodeStore_maybeGCLocked now s) k = Some r"
    obtain w where "dc_row (s\<lparr>dcs_savesSinceGC := w\<rparr>) k = Some r"
      using cases [of s] reclaims_gc [of now] row unfolding reclaims_def by metis
    then show "dc_row s k = Some r" by simp
  qed
qed

lemma deleteExpiredKey_eq:
  "deviceCodeStore_deleteExpiredKeyLocked key now s = gc_visit now key s"
  by (auto simp: deviceCodeStore_deleteExpiredKeyLocked_def gc_visit_def evictIf_def deviceCodeStore_dropLocked_def
      Let_def split: option.splits)

lemma reclaims_deleteKey: "reclaims (deviceCodeStore_deleteExpiredKeyLocked key now)"
  using reclaims_visit by (simp add: deleteExpiredKey_eq [abs_def])

lemma deleteExpiredUserCode_eq:
  "uc_ok s \<Longrightarrow> deviceCodeStore_deleteExpiredUserCodeLocked uc now s =
     (case fmlookup (dcs_userCodeIndex s) uc of None \<Rightarrow> s | Some key \<Rightarrow> gc_visit now key s)"
proof (cases "fmlookup (dcs_userCodeIndex s) uc")
  case (Some key)
  moreover assume "uc_ok s"
  ultimately obtain r where "dc_row s key = Some r"
    unfolding uc_ok_def by blast
  with Some show ?thesis
    by (simp add: deviceCodeStore_deleteExpiredUserCodeLocked_def gc_visit_def)
qed (simp add: deviceCodeStore_deleteExpiredUserCodeLocked_def)

lemma reclaims_deleteUserCode: "reclaims (deviceCodeStore_deleteExpiredUserCodeLocked uc now)"
  unfolding reclaims_def
proof (intro conjI allI impI)
  fix s assume ok: "uc_ok s"
  show "uc_ok (deviceCodeStore_deleteExpiredUserCodeLocked uc now s)"
  proof (cases "fmlookup (dcs_userCodeIndex s) uc")
    case (Some key)
    with ok reclaims_visit [of now key] show ?thesis
      by (simp add: deleteExpiredUserCode_eq [OF ok] reclaims_def)
  qed (simp add: deleteExpiredUserCode_eq [OF ok] ok)
next
  fix s k r assume "dc_row (deviceCodeStore_deleteExpiredUserCodeLocked uc now s) k = Some r"
  then show "dc_row s k = Some r"
    by (auto simp: deviceCodeStore_deleteExpiredUserCodeLocked_def split: option.splits if_splits dest: drop_only_drops)
qed

lemmas save_prepares = reclaims_comp [OF reclaims_comp [OF reclaims_deleteKey reclaims_deleteUserCode] reclaims_maybeGC]

definition save_prepared :: "time \<Rightarrow> DeviceCode \<Rightarrow> deviceCodeStore \<Rightarrow> deviceCodeStore" where
  "save_prepared now c s =
     deviceCodeStore_maybeGCLocked now (deviceCodeStore_deleteExpiredUserCodeLocked (dc_UserCode c) now
       (deviceCodeStore_deleteExpiredKeyLocked (hashKey (dc_ID c)) now s))"

lemma reclaims_save_prepared: "reclaims (save_prepared now c)"
  using save_prepares by (simp add: save_prepared_def [abs_def])

definition stored_form :: "DeviceCode \<Rightarrow> DeviceCode" where
  "stored_form c = (if dc_Status c = deviceCodeStatusUnspecified
     then c\<lparr>dc_Status := DeviceCodeStatusPending\<rparr> else c)\<lparr>dc_ID := hashKey (dc_ID c)\<rparr>"

lemma Save_cases:
  "deviceCodeStore_Save now (Some c) s =
     (if dc_row (save_prepared now c s) (hashKey (dc_ID c)) \<noteq> None
         \<or> fmlookup (dcs_userCodeIndex (save_prepared now c s)) (dc_UserCode c) \<noteq> None
      then (Some ErrAlreadyExists, save_prepared now c s)
      else (None, (save_prepared now c s)
        \<lparr>dcs_m := fmupd (hashKey (dc_ID c)) (stored_form c) (dcs_m (save_prepared now c s)),
         dcs_userCodeIndex := fmupd (dc_UserCode c) (hashKey (dc_ID c)) (dcs_userCodeIndex (save_prepared now c s))\<rparr>))"
  by (simp add: deviceCodeStore_Save_def save_prepared_def stored_form_def Let_def)

lemma stored_form_UserCode [simp]: "dc_UserCode (stored_form c) = dc_UserCode c"
  by (simp add: stored_form_def)

lemma insert_uc_ok:
  assumes "uc_ok s" and "dc_row s key = None" and "fmlookup (dcs_userCodeIndex s) uc = None" and "dc_UserCode r = uc"
  shows "uc_ok (s\<lparr>dcs_m := fmupd key r (dcs_m s), dcs_userCodeIndex := fmupd uc key (dcs_userCodeIndex s)\<rparr>)"
  unfolding uc_ok_def
proof (intro allI)
  fix uc' k
  have "fmlookup (dcs_userCodeIndex s) uc' = Some k \<longleftrightarrow> (\<exists>r. dc_row s k = Some r \<and> dc_UserCode r = uc')"
    using assms(1) by (simp add: uc_ok_def)
  then show "fmlookup (dcs_userCodeIndex (s\<lparr>dcs_m := fmupd key r (dcs_m s),
      dcs_userCodeIndex := fmupd uc key (dcs_userCodeIndex s)\<rparr>)) uc' = Some k \<longleftrightarrow>
      (\<exists>ra. dc_row (s\<lparr>dcs_m := fmupd key r (dcs_m s), dcs_userCodeIndex := fmupd uc key (dcs_userCodeIndex s)\<rparr>) k = Some ra \<and>
        dc_UserCode ra = uc')"
    using assms(2-4) by auto
qed

lemma exec_uc_ok:
  assumes "uc_ok s"
  shows "uc_ok (dc_exec op s)"
proof (cases "\<exists>now c. op = DcSave now c")
  case True
  then obtain now c where op: "op = DcSave now c" by blast
  show ?thesis
  proof (cases c)
    case (Some d)
    have "uc_ok (save_prepared now d s)"
      using reclaims_save_prepared assms by (simp add: reclaims_def)
    with op Some show ?thesis by (auto simp: Save_cases intro: insert_uc_ok)
  qed (simp add: op deviceCodeStore_Save_def assms)
next
  case False
  then show ?thesis by (intro uc_ok_rewrite [OF assms exec_rewrite]) blast
qed

lemma uc_ok_new [simp]: "uc_ok newDeviceCodeStore"
  by (simp add: uc_ok_def newDeviceCodeStore_def)

lemma fold_uc_ok: "uc_ok s \<Longrightarrow> uc_ok (fold dc_exec ops s)"
  by (induction ops arbitrary: s) (simp_all add: exec_uc_ok)


section \<open>The contract of a polled store\<close>

lemma dc_save_row:
  assumes "dc_row (snd (deviceCodeStore_Save now c s)) k = Some r'" and "k \<notin> dc_saves (DcSave now c)"
  shows "dc_row s k = Some r'"
proof (cases c)
  case None
  with assms show ?thesis by (simp add: deviceCodeStore_Save_def)
next
  case (Some d)
  with assms have "dc_row (save_prepared now d s) k = Some r'"
    by (auto simp: Save_cases split: if_splits)
  with reclaims_save_prepared show ?thesis
    unfolding reclaims_def by blast
qed

lemma dc_exec_row:
  assumes "k \<notin> dc_saves op" and "dc_row (dc_exec op s) k = Some r'"
  shows "\<exists>r. dc_row s k = Some r \<and> poll_edge\<^sup>=\<^sup>= (dc_phase r) (dc_phase r')"
proof (cases "\<exists>now c. op = DcSave now c")
  case True
  then obtain now c where "op = DcSave now c" by blast
  with assms dc_save_row [of now c s k r'] show ?thesis by auto
next
  case False
  then have "dc_rewrite s (dc_exec op s)" by (intro exec_rewrite) blast
  from dc_rewrite_Some [OF this assms(2)] show ?thesis by blast
qed

text \<open>The strikes of a record never decrease.\<close>

lemma dc_exec_violations:
  assumes "k \<notin> dc_saves op" and "dc_row (dc_exec op s) k = Some r'"
  shows "\<exists>r. dc_row s k = Some r \<and> dc_PollViolations r \<le> dc_PollViolations r'"
proof (cases "\<exists>now c. op = DcSave now c")
  case True
  then obtain now c where "op = DcSave now c" by blast
  with assms dc_save_row [of now c s k r'] show ?thesis by auto
next
  case False
  then have "dc_rewrite s (dc_exec op s)" by (intro exec_rewrite) blast
  from dc_rewrite_Some [OF this assms(2)] show ?thesis by blast
qed

interpretation dc_store: redeemable dc_row dc_phase dc_exec dc_saves deviceCodeStore_Consume
proof unfold_locales
  fix k op s r'
  assume "k \<notin> dc_saves op" and "dc_row (dc_exec op s) k = Some r'"
  then show "\<exists>r. dc_row s k = Some r \<and> poll_edge\<^sup>=\<^sup>= (dc_phase r) (dc_phase r')"
    by (rule dc_exec_row)
next
  fix now i s x s'
  assume "deviceCodeStore_Consume now i s = ((x, None), s')"
  then show "\<exists>r. dc_row s' (hashKey i) = Some r \<and> dc_phase r = PhaseConsumed"
    by (auto simp: deviceCodeStore_Consume_def Let_def split: option.splits if_splits DeviceCodeStatus.splits)
next
  fix s i now
  assume "\<forall>r. dc_row s (hashKey i) = Some r \<longrightarrow> phase_terminal (dc_phase r)"
  then show "snd (fst (deviceCodeStore_Consume now i s)) \<noteq> None"
    by (auto simp: deviceCodeStore_Consume_def Let_def split: option.splits DeviceCodeStatus.splits)
qed

end
