(* ===== verification/CibaRequests.thy ===== *)
theory CibaRequests
  imports PolledStore
begin

text \<open>
  The store of backchannel-authentication (CIBA) requests: the record and its status of
  \<^verbatim>\<open>op/store/cibarequests.go\<close> and every operation of \<^verbatim>\<open>op/storeadapter/inmem/cibarequests.go\<close>. The store
  keeps the contract of a redeemable polled store, and the subject a request was addressed to can only
  be confirmed, never replaced.
\<close>

datatype CIBARequestStatus =
    cibaRequestStatusUnspecified
  | CIBARequestStatusPending
  | CIBARequestStatusApproved
  | CIBARequestStatusDenied
  | CIBARequestStatusConsumed

fun CIBARequestStatus_String :: "CIBARequestStatus \<Rightarrow> string" where
  "CIBARequestStatus_String CIBARequestStatusPending = ''pending''"
| "CIBARequestStatus_String CIBARequestStatusApproved = ''approved''"
| "CIBARequestStatus_String CIBARequestStatusDenied = ''denied''"
| "CIBARequestStatus_String CIBARequestStatusConsumed = ''consumed''"
| "CIBARequestStatus_String cibaRequestStatusUnspecified = ''unspecified''"

record CIBARequest =
  cr_ID :: string
  cr_ClientID :: string
  cr_Subject :: string
  cr_Scope :: "string list"
  cr_Resource :: "string list"
  cr_ACRValues :: "string list"
  cr_ACR :: string
  cr_BindingMessage :: string
  cr_UserCode :: string
  cr_DPoPJKT :: string
  cr_MTLSCertS256 :: string
  cr_Interval :: duration
  cr_IssuedAt :: time
  cr_ExpiresAt :: time
  cr_LastPolledAt :: "time option"
  cr_AuthTime :: time
  cr_PollViolations :: "8 word"
  cr_Status :: CIBARequestStatus
  cr_DenyReason :: string

record cibaRequestStore =
  crs_m :: "CIBARequest gomap"
  crs_savesSinceGC :: "32 word"

definition newCIBARequestStore :: cibaRequestStore where
  "newCIBARequestStore = \<lparr>crs_m = fmempty, crs_savesSinceGC = 0\<rparr>"

definition cibaRequestStore_gcLocked :: "time \<Rightarrow> cibaRequestStore \<Rightarrow> cibaRequestStore" where
  "cibaRequestStore_gcLocked now s =
     s\<lparr>crs_m := gm_sweep (\<lambda>rec. IsExpiredStrict (cr_ExpiresAt rec) now) (crs_m s)\<rparr>"

definition cibaRequestStore_maybeGCLocked :: "time \<Rightarrow> cibaRequestStore \<Rightarrow> cibaRequestStore" where
  "cibaRequestStore_maybeGCLocked now s =
     (case sweeper_due (crs_savesSinceGC s) (gm_len (crs_m s)) of
        (due, w) \<Rightarrow>
          let s = s\<lparr>crs_savesSinceGC := w\<rparr>
          in if due then cibaRequestStore_gcLocked now s else s)"

definition cibaRequestStore_deleteExpiredKeyLocked :: "key \<Rightarrow> time \<Rightarrow> cibaRequestStore \<Rightarrow> cibaRequestStore" where
  "cibaRequestStore_deleteExpiredKeyLocked key now s =
     s\<lparr>crs_m := snd (evictIf (crs_m s) key (\<lambda>rec. IsExpiredStrict (cr_ExpiresAt rec) now))\<rparr>"

definition cibaRequestStore_Save ::
  "time \<Rightarrow> CIBARequest option \<Rightarrow> cibaRequestStore \<Rightarrow> store_err option \<times> cibaRequestStore" where
  "cibaRequestStore_Save now req s =
     (case req of
        None \<Rightarrow> (Some (ErrOther ''inmem: nil ciba request''), s)
      | Some c \<Rightarrow>
          let key = hashKey (cr_ID c);
              s = cibaRequestStore_deleteExpiredKeyLocked key now s;
              s = cibaRequestStore_maybeGCLocked now s
          in if fmlookup (crs_m s) key \<noteq> None then (Some ErrAlreadyExists, s)
             else
               let stored = (if cr_Status c = cibaRequestStatusUnspecified
                             then c\<lparr>cr_Status := CIBARequestStatusPending\<rparr> else c);
                   stored = stored\<lparr>cr_ID := key\<rparr>
               in (None, s\<lparr>crs_m := fmupd key stored (crs_m s)\<rparr>))"

definition cibaRequestStore_FindByAuthReqID ::
  "time \<Rightarrow> string \<Rightarrow> cibaRequestStore \<Rightarrow> CIBARequest option \<times> store_err option" where
  "cibaRequestStore_FindByAuthReqID now authReqID s =
     (let key = hashKey authReqID
      in case fmlookup (crs_m s) key of
           None \<Rightarrow> (None, Some ErrNotFound)
         | Some rec \<Rightarrow>
             if \<not> constantTimeKeyMatch (cr_ID rec) key then (None, Some ErrNotFound)
             else if isExpired (cr_ExpiresAt rec) now then (None, Some ErrNotFound)
             else (Some (rec\<lparr>cr_ID := authReqID\<rparr>), None))"

definition cibaRequestStore_transition ::
  "time \<Rightarrow> string \<Rightarrow> 'x \<Rightarrow> ('x, CIBARequest) mutation \<Rightarrow> cibaRequestStore \<Rightarrow>
     ('x \<times> store_err option) \<times> cibaRequestStore" where
  "cibaRequestStore_transition now authReqID x0 mutate s =
     (let key = hashKey authReqID
      in case fmlookup (crs_m s) key of
           None \<Rightarrow> ((x0, Some ErrNotFound), s)
         | Some rec \<Rightarrow>
             if isExpired (cr_ExpiresAt rec) now then ((x0, Some ErrNotFound), s)
             else (case mutate rec of (r, rec) \<Rightarrow> (r, s\<lparr>crs_m := fmupd key rec (crs_m s)\<rparr>)))"

definition cibaRequestStore_Approve ::
  "time \<Rightarrow> string \<Rightarrow> string \<Rightarrow> string \<Rightarrow> time \<Rightarrow> cibaRequestStore \<Rightarrow>
     (unit \<times> store_err option) \<times> cibaRequestStore" where
  "cibaRequestStore_Approve now authReqID subject acr authTime s =
     cibaRequestStore_transition now authReqID ()
       (\<lambda>rec. if cr_Subject rec \<noteq> [] \<and> cr_Subject rec \<noteq> subject then (((), Some ErrConflict), rec)
              else if cr_Status rec \<noteq> CIBARequestStatusPending then (((), Some ErrConflict), rec)
              else (((), None), rec\<lparr>cr_Status := CIBARequestStatusApproved, cr_Subject := subject,
                                    cr_ACR := acr, cr_AuthTime := authTime\<rparr>)) s"

definition cibaRequestStore_Deny ::
  "time \<Rightarrow> string \<Rightarrow> string \<Rightarrow> cibaRequestStore \<Rightarrow> (unit \<times> store_err option) \<times> cibaRequestStore" where
  "cibaRequestStore_Deny now authReqID reason s =
     cibaRequestStore_transition now authReqID ()
       (\<lambda>rec. if cr_Status rec \<noteq> CIBARequestStatusPending then (((), Some ErrConflict), rec)
              else (((), None), rec\<lparr>cr_Status := CIBARequestStatusDenied, cr_DenyReason := reason\<rparr>)) s"

definition cibaRequestStore_RecordPoll ::
  "time \<Rightarrow> string \<Rightarrow> time \<Rightarrow> duration \<Rightarrow> cibaRequestStore \<Rightarrow> (unit \<times> store_err option) \<times> cibaRequestStore" where
  "cibaRequestStore_RecordPoll now authReqID t nextInterval s =
     cibaRequestStore_transition now authReqID ()
       (\<lambda>rec. let rec = rec\<lparr>cr_LastPolledAt := Some t\<rparr>
              in (((), None),
                  if nextInterval > cr_Interval rec then rec\<lparr>cr_Interval := nextInterval\<rparr> else rec)) s"

definition cibaRequestStore_IncrementPollViolation ::
  "time \<Rightarrow> string \<Rightarrow> cibaRequestStore \<Rightarrow> (8 word \<times> store_err option) \<times> cibaRequestStore" where
  "cibaRequestStore_IncrementPollViolation now authReqID s =
     incrementCounter (cibaRequestStore_transition now authReqID)
       cr_PollViolations (\<lambda>n rec. rec\<lparr>cr_PollViolations := n\<rparr>) s"

definition cibaRequestStore_Consume ::
  "time \<Rightarrow> string \<Rightarrow> cibaRequestStore \<Rightarrow> (CIBARequest option \<times> store_err option) \<times> cibaRequestStore" where
  "cibaRequestStore_Consume now authReqID s =
     (let key = hashKey authReqID
      in case fmlookup (crs_m s) key of
           None \<Rightarrow> ((None, Some ErrNotFound), s)
         | Some rec \<Rightarrow>
             if isExpired (cr_ExpiresAt rec) now then ((None, Some ErrNotFound), s)
             else
               (case cr_Status rec of
                  CIBARequestStatusConsumed \<Rightarrow> ((None, Some ErrAlreadyConsumed), s)
                | CIBARequestStatusApproved \<Rightarrow>
                    let rec = rec\<lparr>cr_Status := CIBARequestStatusConsumed\<rparr>
                    in ((Some (rec\<lparr>cr_ID := authReqID\<rparr>), None), s\<lparr>crs_m := fmupd key rec (crs_m s)\<rparr>)
                | _ \<Rightarrow> ((None, Some ErrConflict), s)))"


section \<open>Operations and executions\<close>

datatype ciba_op =
    CrSave time "CIBARequest option"
  | CrApprove time string string string time
  | CrDeny time string string
  | CrRecordPoll time string time duration
  | CrViolation time string
  | CrConsume time string

fun ciba_exec :: "ciba_op \<Rightarrow> cibaRequestStore \<Rightarrow> cibaRequestStore" where
  "ciba_exec (CrSave now c) s = snd (cibaRequestStore_Save now c s)"
| "ciba_exec (CrApprove now i sub acr at) s = snd (cibaRequestStore_Approve now i sub acr at s)"
| "ciba_exec (CrDeny now i r) s = snd (cibaRequestStore_Deny now i r s)"
| "ciba_exec (CrRecordPoll now i t d) s = snd (cibaRequestStore_RecordPoll now i t d s)"
| "ciba_exec (CrViolation now i) s = snd (cibaRequestStore_IncrementPollViolation now i s)"
| "ciba_exec (CrConsume now i) s = snd (cibaRequestStore_Consume now i s)"

fun ciba_saves :: "ciba_op \<Rightarrow> key set" where
  "ciba_saves (CrSave now (Some c)) = {hashKey (cr_ID c)}"
| "ciba_saves _ = {}"

fun ciba_status_phase :: "CIBARequestStatus \<Rightarrow> poll_phase" where
  "ciba_status_phase cibaRequestStatusUnspecified = PhaseUnset"
| "ciba_status_phase CIBARequestStatusPending = PhasePending"
| "ciba_status_phase CIBARequestStatusApproved = PhaseApproved"
| "ciba_status_phase CIBARequestStatusDenied = PhaseDenied"
| "ciba_status_phase CIBARequestStatusConsumed = PhaseConsumed"

abbreviation ciba_row :: "cibaRequestStore \<Rightarrow> key \<Rightarrow> CIBARequest option" where
  "ciba_row s \<equiv> fmlookup (crs_m s)"

abbreviation ciba_phase :: "CIBARequest \<Rightarrow> poll_phase" where
  "ciba_phase r \<equiv> ciba_status_phase (cr_Status r)"


section \<open>What an operation does to a record\<close>

text \<open>
  A record after an operation comes from one before: it moved along a documented edge or not at all,
  and a subject it already named is still the one it names.
\<close>

definition ciba_follows :: "CIBARequest \<Rightarrow> CIBARequest \<Rightarrow> bool" where
  "ciba_follows r r' \<longleftrightarrow> poll_edge\<^sup>=\<^sup>= (ciba_phase r) (ciba_phase r')
     \<and> (cr_Subject r \<noteq> [] \<longrightarrow> cr_Subject r' = cr_Subject r)
     \<and> cr_ClientID r' = cr_ClientID r \<and> cr_Scope r' = cr_Scope r"

lemma ciba_follows_refl [simp]: "ciba_follows r r"
  by (simp add: ciba_follows_def)

lemma ciba_transition_row:
  assumes "\<And>r. ciba_follows r (snd (mutate r))"
    and "ciba_row (snd (cibaRequestStore_transition now i x0 mutate s)) k = Some r'"
  shows "\<exists>r. ciba_row s k = Some r \<and> ciba_follows r r'"
  using assms
  by (cases "ciba_row s (hashKey i)")
     (auto simp: cibaRequestStore_transition_def Let_def case_prod_beta split: if_splits)

lemma ciba_maybeGC_row:
  "ciba_row (cibaRequestStore_maybeGCLocked now s) k = Some r \<Longrightarrow> ciba_row s k = Some r"
  by (simp add: cibaRequestStore_maybeGCLocked_def cibaRequestStore_gcLocked_def Let_def
      split: prod.splits if_splits option.splits)

lemma ciba_evict_row:
  "ciba_row (cibaRequestStore_deleteExpiredKeyLocked j now s) k = Some r \<Longrightarrow> ciba_row s k = Some r"
  by (simp add: cibaRequestStore_deleteExpiredKeyLocked_def split: if_splits option.splits)

lemma ciba_save_row:
  assumes "ciba_row (snd (cibaRequestStore_Save now c s)) k = Some r'" and "k \<notin> ciba_saves (CrSave now c)"
  shows "ciba_row s k = Some r'"
proof (cases c)
  case (Some d)
  let ?s = "cibaRequestStore_maybeGCLocked now (cibaRequestStore_deleteExpiredKeyLocked (hashKey (cr_ID d)) now s)"
  have "ciba_row (snd (cibaRequestStore_Save now c s)) k = ciba_row ?s k"
    using assms(2) Some by (simp add: cibaRequestStore_Save_def Let_def)
  with assms(1) have "ciba_row ?s k = Some r'" by simp
  then show ?thesis by (rule ciba_evict_row [OF ciba_maybeGC_row])
qed (use assms in \<open>simp add: cibaRequestStore_Save_def\<close>)

lemma ciba_consume_row:
  assumes "ciba_row (snd (cibaRequestStore_Consume now i s)) k = Some r'"
  shows "\<exists>r. ciba_row s k = Some r \<and> ciba_follows r r'"
proof (cases "ciba_row s (hashKey i)")
  case (Some rec)
  then have "snd (cibaRequestStore_Consume now i s) =
      (if \<not> isExpired (cr_ExpiresAt rec) now \<and> cr_Status rec = CIBARequestStatusApproved
       then s\<lparr>crs_m := fmupd (hashKey i) (rec\<lparr>cr_Status := CIBARequestStatusConsumed\<rparr>) (crs_m s)\<rparr> else s)"
    by (auto simp: cibaRequestStore_Consume_def Let_def split: CIBARequestStatus.split)
  with assms Some show ?thesis
    by (auto simp: ciba_follows_def poll_edge_simps split: if_splits)
qed (use assms in \<open>auto simp: cibaRequestStore_Consume_def Let_def\<close>)

lemma ciba_exec_follows:
  assumes "k \<notin> ciba_saves op" and row: "ciba_row (ciba_exec op s) k = Some r'"
  shows "\<exists>r. ciba_row s k = Some r \<and> ciba_follows r r'"
proof (cases op)
  case (CrSave now c)
  with assms have "ciba_row s k = Some r'" by (auto dest: ciba_save_row)
  then show ?thesis by auto
next
  case (CrApprove now i sub acr at)
  show ?thesis
    by (rule ciba_transition_row [OF _ row [unfolded CrApprove ciba_exec.simps cibaRequestStore_Approve_def]])
       (auto simp: ciba_follows_def poll_edge_simps)
next
  case (CrDeny now i reason)
  show ?thesis
    by (rule ciba_transition_row [OF _ row [unfolded CrDeny ciba_exec.simps cibaRequestStore_Deny_def]])
       (auto simp: ciba_follows_def poll_edge_simps)
next
  case (CrRecordPoll now i t d)
  show ?thesis
    by (rule ciba_transition_row [OF _ row [unfolded CrRecordPoll ciba_exec.simps cibaRequestStore_RecordPoll_def]])
       (simp add: ciba_follows_def Let_def)
next
  case (CrViolation now i)
  note row' = row [unfolded CrViolation ciba_exec.simps cibaRequestStore_IncrementPollViolation_def incrementCounter_state]
  show ?thesis
    by (rule ciba_transition_row [OF _ row']) (simp add: ciba_follows_def Let_def)
next
  case (CrConsume now i)
  with row show ?thesis by (auto dest: ciba_consume_row)
qed

interpretation ciba_store: redeemable ciba_row ciba_phase ciba_exec ciba_saves cibaRequestStore_Consume
proof unfold_locales
  fix k op s r'
  assume "k \<notin> ciba_saves op" and "ciba_row (ciba_exec op s) k = Some r'"
  from ciba_exec_follows [OF this] show "\<exists>r. ciba_row s k = Some r \<and> poll_edge\<^sup>=\<^sup>= (ciba_phase r) (ciba_phase r')"
    by (auto simp: ciba_follows_def)
next
  fix now i s x s'
  assume "cibaRequestStore_Consume now i s = ((x, None), s')"
  then show "\<exists>r. ciba_row s' (hashKey i) = Some r \<and> ciba_phase r = PhaseConsumed"
    by (auto simp: cibaRequestStore_Consume_def Let_def split: option.splits if_splits CIBARequestStatus.splits)
next
  fix s i now
  assume "\<forall>r. ciba_row s (hashKey i) = Some r \<longrightarrow> phase_terminal (ciba_phase r)"
  then show "snd (fst (cibaRequestStore_Consume now i s)) \<noteq> None"
    by (auto simp: cibaRequestStore_Consume_def Let_def split: option.splits CIBARequestStatus.splits)
qed

lemma ciba_subject_fixed:
  assumes "ciba_row s k = Some r" and "cr_Subject r \<noteq> []" and "\<forall>op\<in>set ops. k \<notin> ciba_saves op"
    and "ciba_row (fold ciba_exec ops s) k = Some r'"
  shows "cr_Subject r' = cr_Subject r"
proof -
  have "\<exists>r. ciba_row s k = Some r \<and> (cr_Subject r \<noteq> [] \<longrightarrow> cr_Subject r' = cr_Subject r)"
    using assms(3,4)
  proof (induction ops arbitrary: s)
    case (Cons op ops)
    then obtain r1 where "ciba_row (ciba_exec op s) k = Some r1" "cr_Subject r1 \<noteq> [] \<longrightarrow> cr_Subject r' = cr_Subject r1"
      by auto
    moreover from Cons.prems(1) have "k \<notin> ciba_saves op" by simp
    ultimately show ?case
      using ciba_exec_follows [of k op s r1] by (auto simp: ciba_follows_def)
  qed simp
  with assms(1,2) show ?thesis by auto
qed

end
