(* ===== verification/PollGrant.thy ===== *)
theory PollGrant
  imports DeviceCodes CibaRequests
begin

text \<open>
  The two polling grants: the authorization gates of \<^verbatim>\<open>internal/grants/pollgrant\<close>, their device-code and
  CIBA instances (\<^verbatim>\<open>internal/grants/devicecode\<close>, \<^verbatim>\<open>internal/grants/ciba\<close>), the scope registry of
  \<^verbatim>\<open>internal/scoperegistry\<close>, and the token-endpoint handlers of \<^verbatim>\<open>internal/tokenendpoint\<close> that run a poll
  against the stores of polled records.

  A handler changes two things: the store of polled records, which is modelled, and the stores of
  tokens and grants the credential assembly writes, which the handlers only reach through a few calls.
  That second state is the parameter \<open>'w\<close>, and the calls are the fields of \<open>poll_deps\<close>: the subject
  lookup, the assembly of the credentials, their clean-up and the check for a closed grant. Client
  authentication and the sender-constraint check run before a handler touches either state, and their
  outcomes are arguments. Audit events are output only and are left out. Each call on a store reads
  the clock at an instant of its own, a field of \<open>poll_clock\<close>.
\<close>

section \<open>Scopes\<close>

text \<open>\<^verbatim>\<open>oidcscope.Subset\<close>.\<close>

definition Subset :: "string list \<Rightarrow> string list \<Rightarrow> bool" where
  "Subset granted allowed =
     (if granted = [] then True else list_all (\<lambda>s. slices_Contains allowed s) granted)"

lemma Subset_iff: "Subset granted allowed \<longleftrightarrow> set granted \<subseteq> set allowed"
  by (auto simp: Subset_def slices_Contains_def list_all_iff)

record scope_Entry =
  se_Name :: string
  se_Public :: bool
  se_AllowedClients :: "string list"

text \<open>A nil registry is \<open>None\<close>.\<close>

record Registry =
  reg_byName :: "scope_Entry gomap"

definition Registry_IsRegistered :: "string \<Rightarrow> Registry option \<Rightarrow> bool" where
  "Registry_IsRegistered name r =
     (case r of None \<Rightarrow> False | Some r \<Rightarrow> fmlookup (reg_byName r) name \<noteq> None)"

definition Registry_Allows :: "string \<Rightarrow> string \<Rightarrow> Registry option \<Rightarrow> bool" where
  "Registry_Allows scope clientID r =
     (case r of
        None \<Rightarrow> True
      | Some r \<Rightarrow>
          (case fmlookup (reg_byName r) scope of
             None \<Rightarrow> True
           | Some e \<Rightarrow>
               if se_AllowedClients e = [] then True
               else slices_Contains (se_AllowedClients e) clientID))"

definition Registry_AllowsAll :: "string list \<Rightarrow> string \<Rightarrow> Registry option \<Rightarrow> bool" where
  "Registry_AllowsAll scopes clientID r = list_all (\<lambda>s. Registry_Allows s clientID r) scopes"


section \<open>The gates of a polling grant\<close>

text \<open>The fields of \<^verbatim>\<open>store.Client\<close> the polling grants read.\<close>

record Client =
  cl_ID :: string
  cl_GrantTypes :: "string list"
  cl_Scopes :: "string list"
  cl_PublicClient :: bool
  cl_TokenEndpointAuthMethod :: string
  cl_RequireAuthTime :: bool

record poll_Record =
  pr_Subject :: string
  pr_Scope :: "string list"
  pr_Resource :: "string list"
  pr_AuthTime :: time
  pr_DPoPJKT :: string
  pr_MTLSCertS256 :: string

record Presented =
  ps_DPoPJKT :: string
  ps_MTLSCertS256 :: string

record 'e poll_Errors =
  pe_NotPermitted :: 'e
  pe_SubjectMissing :: 'e
  pe_CnfMissing :: 'e
  pe_CnfMismatch :: 'e
  pe_ScopeForbidden :: 'e

record Approval =
  ap_Scope :: "string list"
  ap_Audience :: "string list"
  ap_Subject :: string
  ap_AuthTime :: time
  ap_SenderConstraint :: string

definition matchCnfBinding :: "poll_Record \<Rightarrow> Presented \<Rightarrow> 'e poll_Errors \<Rightarrow> 'e + string" where
  "matchCnfBinding rec presented errs =
     (let methods = [];
          dpop =
            (if pr_DPoPJKT rec \<noteq> [] then
               (if ps_DPoPJKT presented = [] then Inl (pe_CnfMissing errs)
                else if ps_DPoPJKT presented \<noteq> pr_DPoPJKT rec then Inl (pe_CnfMismatch errs)
                else Inr (methods @ [''dpop'']))
             else Inr methods)
      in case dpop of
           Inl e \<Rightarrow> Inl e
         | Inr methods \<Rightarrow>
             (let mtls =
                    (if pr_MTLSCertS256 rec \<noteq> [] then
                       (if ps_MTLSCertS256 presented = [] then Inl (pe_CnfMissing errs)
                        else if ps_MTLSCertS256 presented \<noteq> pr_MTLSCertS256 rec then Inl (pe_CnfMismatch errs)
                        else Inr (methods @ [''mtls'']))
                     else Inr methods)
              in case mtls of
                   Inl e \<Rightarrow> Inl e
                 | Inr methods \<Rightarrow>
                     if methods = [] then Inr ''bearer'' else Inr (strings_Join methods ''+'')))"

definition pollgrant_Authorize ::
  "Client \<Rightarrow> string \<Rightarrow> poll_Record \<Rightarrow> Presented \<Rightarrow> 'e option \<Rightarrow> 'e poll_Errors \<Rightarrow> 'e + Approval" where
  "pollgrant_Authorize client grantType rec presented statusErr errs =
     (if \<not> slices_Contains (cl_GrantTypes client) grantType then Inl (pe_NotPermitted errs)
      else
        (case statusErr of
           Some e \<Rightarrow> Inl e
         | None \<Rightarrow>
             if pr_Subject rec = [] then Inl (pe_SubjectMissing errs)
             else
               (case matchCnfBinding rec presented errs of
                  Inl e \<Rightarrow> Inl e
                | Inr binding \<Rightarrow>
                    if \<not> Subset (pr_Scope rec) (cl_Scopes client) then Inl (pe_ScopeForbidden errs)
                    else
                      Inr \<lparr>ap_Scope = pr_Scope rec, ap_Audience = pr_Resource rec, ap_Subject = pr_Subject rec,
                           ap_AuthTime = pr_AuthTime rec, ap_SenderConstraint = binding\<rparr>)))"

text \<open>
  Every confirmation method a record commits to has to be proved: the binding is accepted exactly when
  each thumbprint the record carries is the one presented.
\<close>

definition cnf_proved :: "poll_Record \<Rightarrow> Presented \<Rightarrow> bool" where
  "cnf_proved rec presented \<longleftrightarrow>
     (pr_DPoPJKT rec = [] \<or> ps_DPoPJKT presented = pr_DPoPJKT rec)
     \<and> (pr_MTLSCertS256 rec = [] \<or> ps_MTLSCertS256 presented = pr_MTLSCertS256 rec)"

definition cnf_label :: "poll_Record \<Rightarrow> string" where
  "cnf_label rec =
     (if pr_DPoPJKT rec \<noteq> [] \<and> pr_MTLSCertS256 rec \<noteq> [] then ''dpop+mtls''
      else if pr_DPoPJKT rec \<noteq> [] then ''dpop''
      else if pr_MTLSCertS256 rec \<noteq> [] then ''mtls'' else ''bearer'')"

lemma matchCnfBinding_iff:
  "matchCnfBinding rec presented errs = Inr b \<longleftrightarrow> cnf_proved rec presented \<and> b = cnf_label rec"
  by (auto simp: matchCnfBinding_def cnf_proved_def cnf_label_def Let_def)

lemma pollgrant_Authorize_iff:
  "pollgrant_Authorize client grantType rec presented statusErr errs = Inr a \<longleftrightarrow>
     grantType \<in> set (cl_GrantTypes client) \<and> statusErr = None \<and> pr_Subject rec \<noteq> []
     \<and> cnf_proved rec presented \<and> set (pr_Scope rec) \<subseteq> set (cl_Scopes client)
     \<and> a = \<lparr>ap_Scope = pr_Scope rec, ap_Audience = pr_Resource rec, ap_Subject = pr_Subject rec,
            ap_AuthTime = pr_AuthTime rec, ap_SenderConstraint = cnf_label rec\<rparr>"
proof (cases "matchCnfBinding rec presented errs")
  case (Inl e)
  then have "\<not> cnf_proved rec presented"
    using matchCnfBinding_iff [of rec presented errs "cnf_label rec"] by simp
  with Inl show ?thesis
    by (simp add: pollgrant_Authorize_def split: option.split)
next
  case (Inr b)
  with matchCnfBinding_iff [of rec presented errs b] show ?thesis
    by (auto simp: pollgrant_Authorize_def Subset_iff slices_Contains_def split: option.split)
qed


section \<open>The device-code grant\<close>

datatype dcgrant_err =
    dc_ErrGrantNotPermitted
  | dc_ErrScopeForbidden
  | dc_ErrCnfBindingMismatch
  | dc_ErrCnfBindingMissing
  | dc_ErrPendingApproval
  | dc_ErrDenied
  | dc_ErrExpiredOrConsumed
  | dc_ErrSubjectMissing
  | dc_NilClient
  | dc_NilRecord

definition dc_grantTypeWire :: string where
  "dc_grantTypeWire = ''urn:ietf:params:oauth:grant-type:device_code''"

fun dc_mapStatusToError :: "DeviceCodeStatus \<Rightarrow> dcgrant_err option" where
  "dc_mapStatusToError DeviceCodeStatusApproved = None"
| "dc_mapStatusToError DeviceCodeStatusPending = Some dc_ErrPendingApproval"
| "dc_mapStatusToError DeviceCodeStatusDenied = Some dc_ErrDenied"
| "dc_mapStatusToError DeviceCodeStatusConsumed = Some dc_ErrExpiredOrConsumed"
| "dc_mapStatusToError deviceCodeStatusUnspecified = Some dc_ErrExpiredOrConsumed"

definition dc_errors :: "dcgrant_err poll_Errors" where
  "dc_errors =
     \<lparr>pe_NotPermitted = dc_ErrGrantNotPermitted, pe_SubjectMissing = dc_ErrSubjectMissing,
      pe_CnfMissing = dc_ErrCnfBindingMissing, pe_CnfMismatch = dc_ErrCnfBindingMismatch,
      pe_ScopeForbidden = dc_ErrScopeForbidden\<rparr>"

definition dc_project :: "DeviceCode \<Rightarrow> poll_Record" where
  "dc_project r =
     \<lparr>pr_Subject = dc_Subject r, pr_Scope = dc_Scope r, pr_Resource = dc_Resource r,
      pr_AuthTime = dc_AuthTime r, pr_DPoPJKT = dc_DPoPJKT r, pr_MTLSCertS256 = dc_MTLSCertS256 r\<rparr>"

definition dc_Authorize ::
  "Client option \<Rightarrow> DeviceCode option \<Rightarrow> Presented \<Rightarrow> dcgrant_err + Approval" where
  "dc_Authorize client rec presented =
     (case client of
        None \<Rightarrow> Inl dc_NilClient
      | Some c \<Rightarrow>
          (case rec of
             None \<Rightarrow> Inl dc_NilRecord
           | Some r \<Rightarrow>
               pollgrant_Authorize c dc_grantTypeWire (dc_project r) presented
                 (dc_mapStatusToError (dc_Status r)) dc_errors))"

definition dc_DecidePoll :: "poll_Input \<Rightarrow> poll_Output" where
  "dc_DecidePoll inp = DecideAs inp OutcomeExpired"


section \<open>The CIBA grant\<close>

datatype cgrant_err =
    ci_ErrGrantNotPermitted
  | ci_ErrScopeForbidden
  | ci_ErrCnfBindingMismatch
  | ci_ErrCnfBindingMissing
  | ci_ErrPendingApproval
  | ci_ErrDenied
  | ci_ErrExpired
  | ci_ErrAlreadyRedeemed
  | ci_ErrSubjectMissing
  | ci_NilClient
  | ci_NilRecord

definition ci_grantTypeWire :: string where
  "ci_grantTypeWire = ''urn:openid:params:grant-type:ciba''"

fun ci_mapStatusToError :: "CIBARequestStatus \<Rightarrow> cgrant_err option" where
  "ci_mapStatusToError CIBARequestStatusApproved = None"
| "ci_mapStatusToError CIBARequestStatusPending = Some ci_ErrPendingApproval"
| "ci_mapStatusToError CIBARequestStatusDenied = Some ci_ErrDenied"
| "ci_mapStatusToError CIBARequestStatusConsumed = Some ci_ErrAlreadyRedeemed"
| "ci_mapStatusToError cibaRequestStatusUnspecified = Some ci_ErrAlreadyRedeemed"

definition ci_errors :: "cgrant_err poll_Errors" where
  "ci_errors =
     \<lparr>pe_NotPermitted = ci_ErrGrantNotPermitted, pe_SubjectMissing = ci_ErrSubjectMissing,
      pe_CnfMissing = ci_ErrCnfBindingMissing, pe_CnfMismatch = ci_ErrCnfBindingMismatch,
      pe_ScopeForbidden = ci_ErrScopeForbidden\<rparr>"

definition ci_project :: "CIBARequest \<Rightarrow> poll_Record" where
  "ci_project r =
     \<lparr>pr_Subject = cr_Subject r, pr_Scope = cr_Scope r, pr_Resource = cr_Resource r,
      pr_AuthTime = cr_AuthTime r, pr_DPoPJKT = cr_DPoPJKT r, pr_MTLSCertS256 = cr_MTLSCertS256 r\<rparr>"

text \<open>The CIBA \<^verbatim>\<open>Authorized\<close> record adds the ACR of the record to the approval.\<close>

record ci_Authorized = Approval +
  ap_ACR :: string

definition ci_Authorize ::
  "Client option \<Rightarrow> CIBARequest option \<Rightarrow> Presented \<Rightarrow> cgrant_err + ci_Authorized" where
  "ci_Authorize client rec presented =
     (case client of
        None \<Rightarrow> Inl ci_NilClient
      | Some c \<Rightarrow>
          (case rec of
             None \<Rightarrow> Inl ci_NilRecord
           | Some r \<Rightarrow>
               (case pollgrant_Authorize c ci_grantTypeWire (ci_project r) presented
                       (ci_mapStatusToError (cr_Status r)) ci_errors of
                  Inl e \<Rightarrow> Inl e
                | Inr a \<Rightarrow>
                    Inr \<lparr>ap_Scope = ap_Scope a, ap_Audience = ap_Audience a, ap_Subject = ap_Subject a,
                         ap_AuthTime = ap_AuthTime a, ap_SenderConstraint = ap_SenderConstraint a,
                         ap_ACR = cr_ACR r\<rparr>)))"

definition ci_DecidePoll :: "poll_Input \<Rightarrow> poll_Output" where
  "ci_DecidePoll inp = DecideAs inp OutcomeConsumed"


section \<open>Wire responses\<close>

datatype wire_error = OAuthError nat string string

datatype 'c response =
    Refuse wire_error
  | TokenResponse 'c

abbreviation StatusBadRequest :: nat where "StatusBadRequest \<equiv> 400"
abbreviation StatusInternalServerError :: nat where "StatusInternalServerError \<equiv> 500"

definition ServerError :: wire_error where
  "ServerError = OAuthError StatusInternalServerError ''server_error'' []"

record 'e pollAuthMap =
  pm_Errors :: "'e poll_Errors"
  pm_Pending :: 'e
  pm_Denied :: 'e
  pm_Grant :: string
  pm_CnfRecord :: string
  pm_NoSubject :: string

definition pollAuthError :: "'e \<Rightarrow> 'e pollAuthMap \<Rightarrow> string \<times> nat \<times> string" where
  "pollAuthError err m =
     (if err = pe_NotPermitted (pm_Errors m) then
        (''unauthorized_client'', StatusBadRequest,
         ''client is not authorized for the '' @ pm_Grant m @ '' grant'')
      else if err = pe_ScopeForbidden (pm_Errors m) then
        (''invalid_scope'', StatusBadRequest, ''granted scope exceeds the client's registered set'')
      else if err = pe_CnfMismatch (pm_Errors m) \<or> err = pe_CnfMissing (pm_Errors m) then
        (''invalid_grant'', StatusBadRequest,
         ''sender-constraint binding does not match the '' @ pm_CnfRecord m @ '' record'')
      else if err = pe_SubjectMissing (pm_Errors m) then (''invalid_grant'', StatusBadRequest, pm_NoSubject m)
      else if err = pm_Pending m then
        (''authorization_pending'', StatusBadRequest, ''authorization request is still pending'')
      else if err = pm_Denied m then
        (''access_denied'', StatusBadRequest, ''authorization request was denied'')
      else (''server_error'', StatusInternalServerError, []))"

definition deviceCodeAuthError :: "dcgrant_err \<Rightarrow> string \<times> nat \<times> string" where
  "deviceCodeAuthError err =
     (if err = dc_ErrExpiredOrConsumed then
        (''expired_token'', StatusBadRequest, ''device_code expired or already consumed'')
      else
        pollAuthError err
          \<lparr>pm_Errors = dc_errors, pm_Pending = dc_ErrPendingApproval, pm_Denied = dc_ErrDenied,
           pm_Grant = ''device_code'', pm_CnfRecord = ''device-authorization'',
           pm_NoSubject = ''device authorization is not associated with an end user''\<rparr>)"

definition cibaAuthError :: "cgrant_err \<Rightarrow> string \<times> nat \<times> string" where
  "cibaAuthError err =
     (if err = ci_ErrExpired then (''expired_token'', StatusBadRequest, ''auth_req_id expired'')
      else if err = ci_ErrAlreadyRedeemed then
        (''invalid_grant'', StatusBadRequest, ''auth_req_id was already redeemed'')
      else
        pollAuthError err
          \<lparr>pm_Errors = ci_errors, pm_Pending = ci_ErrPendingApproval, pm_Denied = ci_ErrDenied,
           pm_Grant = ''ciba'', pm_CnfRecord = ''bc-authorize'',
           pm_NoSubject = ''authorization request is not associated with an end user''\<rparr>)"


section \<open>Applying the poll decision\<close>

text \<open>
  \<^verbatim>\<open>pollSpec\<close>: the operations of one grant on the store of its records. The audit fields are left out.
\<close>

record 's pollSpec =
  sp_recordPoll :: "time \<Rightarrow> duration \<Rightarrow> 's \<Rightarrow> (unit \<times> store_err option) \<times> 's"
  sp_slowDown :: "poll_Output \<Rightarrow> 's \<Rightarrow> 's"
  sp_expiredDescription :: string
  sp_redeemedDescription :: string

text \<open>\<open>None\<close> is the outcome that lets the caller proceed. A fault of \<^verbatim>\<open>recordPoll\<close> is not fatal.\<close>

definition applyPollOutcome ::
  "'s pollSpec \<Rightarrow> poll_Output \<Rightarrow> time \<Rightarrow> duration \<Rightarrow> 's \<Rightarrow> wire_error option \<times> 's" where
  "applyPollOutcome spec decision now currentInterval s =
     (let nextInterval =
            (if po_Decision decision = OutcomeSlowDown then po_NextInterval decision else currentInterval);
          s = snd (sp_recordPoll spec now nextInterval s)
      in case po_Decision decision of
           OutcomePending \<Rightarrow>
             (Some (OAuthError StatusBadRequest ''authorization_pending'' ''authorization request is still pending''), s)
         | OutcomeSlowDown \<Rightarrow>
             (Some (OAuthError StatusBadRequest ''slow_down'' ''polling interval has been increased; back off and retry''),
              sp_slowDown spec decision s)
         | OutcomeDenied \<Rightarrow>
             (Some (OAuthError StatusBadRequest ''access_denied'' ''authorization request was denied''), s)
         | OutcomeExpired \<Rightarrow>
             (Some (OAuthError StatusBadRequest ''expired_token'' (sp_expiredDescription spec)), s)
         | OutcomeConsumed \<Rightarrow>
             (Some (OAuthError StatusBadRequest ''invalid_grant'' (sp_redeemedDescription spec)), s)
         | OutcomeEmit \<Rightarrow> (None, s)
         | OutcomeInvalid \<Rightarrow> (Some ServerError, s))"

lemma applyPollOutcome_emit:
  "applyPollOutcome spec d now i s = (None, s') \<longleftrightarrow>
     po_Decision d = OutcomeEmit \<and> s' = snd (sp_recordPoll spec now i s)"
  by (cases "po_Decision d") (auto simp: applyPollOutcome_def Let_def)

definition derefTime :: "time option \<Rightarrow> time" where
  "derefTime t = (case t of None \<Rightarrow> zero_time | Some t \<Rightarrow> t)"


section \<open>The handlers\<close>

record poll_clock =
  pc_find :: time
  pc_poll :: time
  pc_record :: time
  pc_increment :: time
  pc_deny :: time
  pc_consume :: time

record tokenBinding =
  tb_DPoPJKT :: string
  tb_MTLSThumbprint :: string

record polledRedemption =
  red_Subject :: string
  red_Scope :: "string list"
  red_Audience :: "string list"
  red_AuthTime :: time
  red_ACR :: string

record polledIssuance =
  pis_GrantID :: string
  pis_Origin :: string
  pis_DiscardGrantOnFailure :: bool

datatype subject_lookup = SubjectLive | SubjectDeprovisioned | SubjectFault

record ('w, 'c) poll_deps =
  pd_wired :: bool
  pd_Scopes :: "Registry option"
  pd_CIBAMaxPollViolations :: "8 word"
  pd_lookupLiveSubject :: "string \<Rightarrow> 'w \<Rightarrow> subject_lookup"
  pd_prepare :: "Client \<Rightarrow> polledRedemption \<Rightarrow> tokenBinding \<Rightarrow> polledIssuance \<Rightarrow> 'w \<Rightarrow> 'c option \<times> 'w"
  pd_cleanup :: "'c \<Rightarrow> 'w \<Rightarrow> 'w"
  pd_refuseClosed :: "'c \<Rightarrow> time \<Rightarrow> string \<Rightarrow> 'w \<Rightarrow> wire_error option \<times> 'w"

definition checkTokenScopeAllowlist :: "Registry option \<Rightarrow> string \<Rightarrow> string list \<Rightarrow> wire_error option" where
  "checkTokenScopeAllowlist scopes clientID granted =
     (if \<not> Registry_AllowsAll granted clientID scopes
      then Some (OAuthError StatusBadRequest ''invalid_scope'' ''scope is restricted to a different client'')
      else None)"

definition writeSubjectLookupError :: "subject_lookup \<Rightarrow> wire_error" where
  "writeSubjectLookupError l =
     (if l = SubjectDeprovisioned
      then OAuthError StatusBadRequest ''invalid_grant'' ''grant subject no longer exists''
      else ServerError)"

text \<open>\<^verbatim>\<open>devicecode.GrantID\<close>.\<close>

definition dc_GrantID :: "string \<Rightarrow> string" where
  "dc_GrantID deviceCode = base64_RawURL (sha256_Sum256 (bytes_of (''device_code:'' @ deviceCode)))"

definition lookupDeviceCode ::
  "time \<Rightarrow> string \<Rightarrow> string \<Rightarrow> deviceCodeStore \<Rightarrow> wire_error + DeviceCode" where
  "lookupDeviceCode now deviceCode clientID s =
     (case deviceCodeStore_FindByDeviceCode now deviceCode s of (rec, err) \<Rightarrow>
        let err = (if err = None \<and> rec = None then Some ErrNotFound else err)
        in case (err, rec) of
             (Some e, _) \<Rightarrow>
               if e = ErrNotFound
               then Inl (OAuthError StatusBadRequest ''expired_token'' ''device_code expired or already consumed'')
               else Inl ServerError
           | (None, None) \<Rightarrow> Inl ServerError
           | (None, Some r) \<Rightarrow>
               if dc_ClientID r \<noteq> clientID
               then Inl (OAuthError StatusBadRequest ''invalid_grant'' ''device_code rejected'')
               else Inr r)"

definition dc_poll_input :: "time \<Rightarrow> DeviceCode \<Rightarrow> poll_Input" where
  "dc_poll_input now rec =
     \<lparr>pi_Now = now, pi_LastPolledAt = derefTime (dc_LastPolledAt rec), pi_EffectiveInterval = dc_Interval rec,
      pi_ExpiresAt = dc_ExpiresAt rec, pi_Approved = (dc_Status rec = DeviceCodeStatusApproved),
      pi_Denied = (dc_Status rec = DeviceCodeStatusDenied), pi_Consumed = (dc_Status rec = DeviceCodeStatusConsumed),
      pi_PollViolations = dc_PollViolations rec, pi_MaxPollViolations = 0\<rparr>"

definition dc_slowDown :: "poll_clock \<Rightarrow> string \<Rightarrow> poll_Output \<Rightarrow> deviceCodeStore \<Rightarrow> deviceCodeStore" where
  "dc_slowDown clk deviceCode d s =
     (if po_CountThisAsViolation d then
        (case deviceCodeStore_IncrementPollViolation (pc_increment clk) deviceCode s of
           ((strikes, err), s) \<Rightarrow>
             if err = None \<and> strikes \<ge> MaxPollViolations
             then snd (deviceCodeStore_Deny (pc_deny clk) deviceCode ''poll_abuse'' s)
             else s)
      else s)"

definition applyPollDecision ::
  "poll_clock \<Rightarrow> DeviceCode \<Rightarrow> string \<Rightarrow> deviceCodeStore \<Rightarrow> wire_error option \<times> deviceCodeStore" where
  "applyPollDecision clk rec deviceCode s =
     applyPollOutcome
       \<lparr>sp_recordPoll = \<lambda>t i. deviceCodeStore_RecordPoll (pc_record clk) deviceCode t i,
        sp_slowDown = dc_slowDown clk deviceCode,
        sp_expiredDescription = ''device_code expired or already consumed'',
        sp_redeemedDescription = ''device_code expired or already consumed''\<rparr>
       (dc_DecidePoll (dc_poll_input (pc_poll clk) rec)) (pc_poll clk) (dc_Interval rec) s"

definition authorizeDeviceCodePoll ::
  "Registry option \<Rightarrow> Client \<Rightarrow> DeviceCode \<Rightarrow> tokenBinding \<Rightarrow> wire_error + Approval" where
  "authorizeDeviceCodePoll scopes client rec binding =
     (case dc_Authorize (Some client) (Some rec)
             \<lparr>ps_DPoPJKT = tb_DPoPJKT binding, ps_MTLSCertS256 = tb_MTLSThumbprint binding\<rparr> of
        Inl err \<Rightarrow> (case deviceCodeAuthError err of (code, status, description) \<Rightarrow> Inl (OAuthError status code description))
      | Inr authorized \<Rightarrow>
          (case checkTokenScopeAllowlist scopes (cl_ID client) (ap_Scope authorized) of
             Some r \<Rightarrow> Inl r
           | None \<Rightarrow> Inr authorized))"

definition consumeDeviceCode ::
  "time \<Rightarrow> string \<Rightarrow> deviceCodeStore \<Rightarrow> wire_error option \<times> deviceCodeStore" where
  "consumeDeviceCode now deviceCode s =
     (case deviceCodeStore_Consume now deviceCode s of ((consumed, err), s) \<Rightarrow>
        let err = (if err = None \<and> consumed = None then Some ErrNotFound else err)
        in (case err of
              None \<Rightarrow> None
            | Some e \<Rightarrow>
                if e = ErrAlreadyConsumed \<or> e = ErrNotFound
                then Some (OAuthError StatusBadRequest ''expired_token'' ''device_code expired or already consumed'')
                else if e = ErrConflict
                then Some (OAuthError StatusBadRequest ''invalid_grant'' ''device_code is not in a consumable state'')
                else Some ServerError, s))"

definition handleDeviceCode ::
  "('w, 'c) poll_deps \<Rightarrow> poll_clock \<Rightarrow> wire_error + Client \<Rightarrow> string \<Rightarrow> wire_error + tokenBinding \<Rightarrow>
     deviceCodeStore \<times> 'w \<Rightarrow> 'c response \<times> (deviceCodeStore \<times> 'w)" where
  "handleDeviceCode deps clk authenticated deviceCode bound = (\<lambda>(s, w).
     if \<not> pd_wired deps
     then (Refuse (OAuthError StatusBadRequest ''unsupported_grant_type'' ''grant_type is not supported''), (s, w))
     else case authenticated of Inl r \<Rightarrow> (Refuse r, (s, w)) | Inr client \<Rightarrow>
     if deviceCode = []
     then (Refuse (OAuthError StatusBadRequest ''invalid_request'' ''device_code is required''), (s, w))
     else case bound of Inl r \<Rightarrow> (Refuse r, (s, w)) | Inr binding \<Rightarrow>
     case lookupDeviceCode (pc_find clk) deviceCode (cl_ID client) s of Inl r \<Rightarrow> (Refuse r, (s, w)) | Inr rec \<Rightarrow>
     case applyPollDecision clk rec deviceCode s of (Some r, s) \<Rightarrow> (Refuse r, (s, w)) | (None, s) \<Rightarrow>
     case authorizeDeviceCodePoll (pd_Scopes deps) client rec binding of
       Inl r \<Rightarrow> (Refuse r, (s, w)) | Inr authorized \<Rightarrow>
     (case pd_lookupLiveSubject deps (ap_Subject authorized) w of
        SubjectFault \<Rightarrow> (Refuse (writeSubjectLookupError SubjectFault), (s, w))
      | SubjectDeprovisioned \<Rightarrow>
          (Refuse (writeSubjectLookupError SubjectDeprovisioned),
           (snd (deviceCodeStore_Consume (pc_consume clk) deviceCode s), w))
      | SubjectLive \<Rightarrow>
          (case pd_prepare deps client
                  \<lparr>red_Subject = ap_Subject authorized, red_Scope = ap_Scope authorized,
                   red_Audience = ap_Audience authorized, red_AuthTime = ap_AuthTime authorized, red_ACR = []\<rparr>
                  binding
                  \<lparr>pis_GrantID = dc_GrantID deviceCode, pis_Origin = ''device_code'',
                   pis_DiscardGrantOnFailure = False\<rparr> w of
             (None, w) \<Rightarrow> (Refuse ServerError, (s, w))
           | (Some issued, w) \<Rightarrow>
               (case consumeDeviceCode (pc_consume clk) deviceCode s of
                  (Some r, s) \<Rightarrow> (Refuse r, (s, pd_cleanup deps issued w))
                | (None, s) \<Rightarrow>
                    (case pd_refuseClosed deps issued (dc_IssuedAt rec) ''device_code rejected'' w of
                       (Some r, w) \<Rightarrow> (Refuse r, (s, w))
                     | (None, w) \<Rightarrow> (TokenResponse issued, (s, w)))))))"


subsection \<open>CIBA\<close>

definition lookupCIBARequest ::
  "time \<Rightarrow> string \<Rightarrow> string \<Rightarrow> cibaRequestStore \<Rightarrow> wire_error + CIBARequest" where
  "lookupCIBARequest now authReqID clientID s =
     (case cibaRequestStore_FindByAuthReqID now authReqID s of (rec, err) \<Rightarrow>
        let err = (if err = None \<and> rec = None then Some ErrNotFound else err)
        in case (err, rec) of
             (Some e, _) \<Rightarrow>
               if e = ErrNotFound
               then Inl (OAuthError StatusBadRequest ''expired_token'' ''auth_req_id expired or already consumed'')
               else Inl ServerError
           | (None, None) \<Rightarrow> Inl ServerError
           | (None, Some r) \<Rightarrow>
               if cr_ClientID r \<noteq> clientID
               then Inl (OAuthError StatusBadRequest ''invalid_grant'' ''auth_req_id rejected'')
               else Inr r)"

definition ci_poll_input :: "8 word \<Rightarrow> time \<Rightarrow> CIBARequest \<Rightarrow> poll_Input" where
  "ci_poll_input maxViolations now rec =
     \<lparr>pi_Now = now, pi_LastPolledAt = derefTime (cr_LastPolledAt rec), pi_EffectiveInterval = cr_Interval rec,
      pi_ExpiresAt = cr_ExpiresAt rec, pi_Approved = (cr_Status rec = CIBARequestStatusApproved),
      pi_Denied = (cr_Status rec = CIBARequestStatusDenied), pi_Consumed = (cr_Status rec = CIBARequestStatusConsumed),
      pi_PollViolations = cr_PollViolations rec, pi_MaxPollViolations = maxViolations\<rparr>"

definition recordCIBAPollViolation ::
  "8 word \<Rightarrow> poll_clock \<Rightarrow> string \<Rightarrow> cibaRequestStore \<Rightarrow> cibaRequestStore" where
  "recordCIBAPollViolation maxViolations clk authReqID s =
     (case cibaRequestStore_IncrementPollViolation (pc_increment clk) authReqID s of
        ((strikes, err), s) \<Rightarrow>
          let threshold = (if maxViolations = 0 then MaxPollViolations else maxViolations)
          in if err \<noteq> None \<or> strikes < threshold then s
             else snd (cibaRequestStore_Deny (pc_deny clk) authReqID ''poll_abuse'' s))"

definition applyCIBAPollDecision ::
  "8 word \<Rightarrow> poll_clock \<Rightarrow> CIBARequest \<Rightarrow> string \<Rightarrow> cibaRequestStore \<Rightarrow>
     wire_error option \<times> cibaRequestStore" where
  "applyCIBAPollDecision maxViolations clk rec authReqID s =
     applyPollOutcome
       \<lparr>sp_recordPoll = \<lambda>t i. cibaRequestStore_RecordPoll (pc_record clk) authReqID t i,
        sp_slowDown = \<lambda>d. recordCIBAPollViolation maxViolations clk authReqID,
        sp_expiredDescription = ''auth_req_id expired'',
        sp_redeemedDescription = ''auth_req_id was already redeemed''\<rparr>
       (ci_DecidePoll (ci_poll_input maxViolations (pc_poll clk) rec)) (pc_poll clk) (cr_Interval rec) s"

definition authorizeCIBAPoll ::
  "Registry option \<Rightarrow> Client \<Rightarrow> CIBARequest \<Rightarrow> tokenBinding \<Rightarrow> wire_error + ci_Authorized" where
  "authorizeCIBAPoll scopes client rec binding =
     (case ci_Authorize (Some client) (Some rec)
             \<lparr>ps_DPoPJKT = tb_DPoPJKT binding, ps_MTLSCertS256 = tb_MTLSThumbprint binding\<rparr> of
        Inl err \<Rightarrow> (case cibaAuthError err of (code, status, description) \<Rightarrow> Inl (OAuthError status code description))
      | Inr authorized \<Rightarrow>
          (case checkTokenScopeAllowlist scopes (cl_ID client) (ap_Scope authorized) of
             Some r \<Rightarrow> Inl r
           | None \<Rightarrow> Inr authorized))"

definition consumeCIBARequest ::
  "time \<Rightarrow> string \<Rightarrow> cibaRequestStore \<Rightarrow> wire_error option \<times> cibaRequestStore" where
  "consumeCIBARequest now authReqID s =
     (case cibaRequestStore_Consume now authReqID s of ((consumed, err), s) \<Rightarrow>
        let err = (if err = None \<and> consumed = None then Some ErrNotFound else err)
        in (case err of
              None \<Rightarrow> None
            | Some e \<Rightarrow>
                if e = ErrAlreadyConsumed
                then Some (OAuthError StatusBadRequest ''invalid_grant'' ''auth_req_id was already redeemed'')
                else if e = ErrNotFound
                then Some (OAuthError StatusBadRequest ''expired_token'' ''auth_req_id expired or unknown'')
                else if e = ErrConflict
                then Some (OAuthError StatusBadRequest ''invalid_grant'' ''auth_req_id is not in a consumable state'')
                else Some ServerError, s))"

definition handleCIBA ::
  "('w, 'c) poll_deps \<Rightarrow> poll_clock \<Rightarrow> wire_error + Client \<Rightarrow> string \<Rightarrow> wire_error + tokenBinding \<Rightarrow>
     cibaRequestStore \<times> 'w \<Rightarrow> 'c response \<times> (cibaRequestStore \<times> 'w)" where
  "handleCIBA deps clk authenticated authReqID bound = (\<lambda>(s, w).
     if \<not> pd_wired deps
     then (Refuse (OAuthError StatusBadRequest ''unsupported_grant_type'' ''grant_type is not supported''), (s, w))
     else case authenticated of Inl r \<Rightarrow> (Refuse r, (s, w)) | Inr client \<Rightarrow>
     if authReqID = []
     then (Refuse (OAuthError StatusBadRequest ''invalid_request'' ''auth_req_id is required''), (s, w))
     else case bound of Inl r \<Rightarrow> (Refuse r, (s, w)) | Inr binding \<Rightarrow>
     case lookupCIBARequest (pc_find clk) authReqID (cl_ID client) s of Inl r \<Rightarrow> (Refuse r, (s, w)) | Inr rec \<Rightarrow>
     case applyCIBAPollDecision (pd_CIBAMaxPollViolations deps) clk rec authReqID s of
       (Some r, s) \<Rightarrow> (Refuse r, (s, w)) | (None, s) \<Rightarrow>
     case authorizeCIBAPoll (pd_Scopes deps) client rec binding of
       Inl r \<Rightarrow> (Refuse r, (s, w)) | Inr authorized \<Rightarrow>
     (case pd_lookupLiveSubject deps (ap_Subject authorized) w of
        SubjectFault \<Rightarrow> (Refuse (writeSubjectLookupError SubjectFault), (s, w))
      | SubjectDeprovisioned \<Rightarrow>
          (Refuse (writeSubjectLookupError SubjectDeprovisioned),
           (snd (cibaRequestStore_Consume (pc_consume clk) authReqID s), w))
      | SubjectLive \<Rightarrow>
          (case pd_prepare deps client
                  \<lparr>red_Subject = ap_Subject authorized, red_Scope = ap_Scope authorized,
                   red_Audience = ap_Audience authorized, red_AuthTime = ap_AuthTime authorized,
                   red_ACR = ap_ACR authorized\<rparr>
                  binding
                  \<lparr>pis_GrantID = [], pis_Origin = ''ciba'', pis_DiscardGrantOnFailure = True\<rparr> w of
             (None, w) \<Rightarrow> (Refuse ServerError, (s, w))
           | (Some issued, w) \<Rightarrow>
               (case consumeCIBARequest (pc_consume clk) authReqID s of
                  (Some r, s) \<Rightarrow> (Refuse r, (s, pd_cleanup deps issued w))
                | (None, s) \<Rightarrow>
                    (case pd_refuseClosed deps issued (cr_IssuedAt rec) ''auth_req_id rejected'' w of
                       (Some r, w) \<Rightarrow> (Refuse r, (s, w))
                     | (None, w) \<Rightarrow> (TokenResponse issued, (s, w)))))))"


section \<open>What a poll that issues tokens has passed\<close>

lemma lookupDeviceCode_Inr:
  "lookupDeviceCode now code clientID s = Inr rec \<longleftrightarrow>
     (\<exists>r. dc_row s (hashKey code) = Some r \<and> dc_ID r = hashKey code \<and> \<not> isExpired (dc_ExpiresAt r) now
        \<and> dc_ClientID r = clientID \<and> rec = r\<lparr>dc_ID := code\<rparr>)"
  by (auto simp: lookupDeviceCode_def deviceCodeStore_FindByDeviceCode_def Let_def split: option.splits if_splits)

lemma lookupCIBARequest_Inr:
  "lookupCIBARequest now i clientID s = Inr rec \<longleftrightarrow>
     (\<exists>r. ciba_row s (hashKey i) = Some r \<and> cr_ID r = hashKey i \<and> \<not> isExpired (cr_ExpiresAt r) now
        \<and> cr_ClientID r = clientID \<and> rec = r\<lparr>cr_ID := i\<rparr>)"
  by (auto simp: lookupCIBARequest_def cibaRequestStore_FindByAuthReqID_def Let_def split: option.splits if_splits)

lemma dc_DecidePoll_emit: "po_Decision (dc_DecidePoll inp) = OutcomeEmit \<longleftrightarrow> pr_Outcome (Decide inp) = OutcomeEmit"
  by (auto simp: dc_DecidePoll_def DecideAs_def Let_def)

lemma ci_DecidePoll_emit: "po_Decision (ci_DecidePoll inp) = OutcomeEmit \<longleftrightarrow> pr_Outcome (Decide inp) = OutcomeEmit"
  by (auto simp: ci_DecidePoll_def DecideAs_def Let_def)

lemma applyPollDecision_None:
  "applyPollDecision clk rec code s = (None, s') \<longleftrightarrow>
     pr_Outcome (Decide (dc_poll_input (pc_poll clk) rec)) = OutcomeEmit
     \<and> s' = snd (deviceCodeStore_RecordPoll (pc_record clk) code (pc_poll clk) (dc_Interval rec) s)"
  by (simp add: applyPollDecision_def applyPollOutcome_emit dc_DecidePoll_emit)

lemma applyCIBAPollDecision_None:
  "applyCIBAPollDecision mx clk rec i s = (None, s') \<longleftrightarrow>
     pr_Outcome (Decide (ci_poll_input mx (pc_poll clk) rec)) = OutcomeEmit
     \<and> s' = snd (cibaRequestStore_RecordPoll (pc_record clk) i (pc_poll clk) (cr_Interval rec) s)"
  by (simp add: applyCIBAPollDecision_def applyPollOutcome_emit ci_DecidePoll_emit)

lemma checkTokenScopeAllowlist_None:
  "checkTokenScopeAllowlist scopes clientID granted = None \<longleftrightarrow> Registry_AllowsAll granted clientID scopes"
  by (simp add: checkTokenScopeAllowlist_def)

lemma dc_status_ok: "dc_mapStatusToError st = None \<longleftrightarrow> st = DeviceCodeStatusApproved"
  by (cases st) simp_all

lemma ci_status_ok: "ci_mapStatusToError st = None \<longleftrightarrow> st = CIBARequestStatusApproved"
  by (cases st) simp_all

abbreviation presented_by :: "tokenBinding \<Rightarrow> Presented" where
  "presented_by b \<equiv> \<lparr>ps_DPoPJKT = tb_DPoPJKT b, ps_MTLSCertS256 = tb_MTLSThumbprint b\<rparr>"

definition dc_approval :: "DeviceCode \<Rightarrow> Approval" where
  "dc_approval r = \<lparr>ap_Scope = dc_Scope r, ap_Audience = dc_Resource r, ap_Subject = dc_Subject r,
     ap_AuthTime = dc_AuthTime r, ap_SenderConstraint = cnf_label (dc_project r)\<rparr>"

lemma authorizeDeviceCodePoll_Inr:
  "authorizeDeviceCodePoll scopes client rec b = Inr a \<longleftrightarrow>
     dc_grantTypeWire \<in> set (cl_GrantTypes client) \<and> dc_Status rec = DeviceCodeStatusApproved
     \<and> dc_Subject rec \<noteq> [] \<and> cnf_proved (dc_project rec) (presented_by b)
     \<and> set (dc_Scope rec) \<subseteq> set (cl_Scopes client) \<and> Registry_AllowsAll (dc_Scope rec) (cl_ID client) scopes
     \<and> a = dc_approval rec"
proof (cases "dc_Authorize (Some client) (Some rec) (presented_by b)")
  case (Inl e)
  then have "\<not> (dc_grantTypeWire \<in> set (cl_GrantTypes client) \<and> dc_Status rec = DeviceCodeStatusApproved
     \<and> dc_Subject rec \<noteq> [] \<and> cnf_proved (dc_project rec) (presented_by b) \<and> set (dc_Scope rec) \<subseteq> set (cl_Scopes client))"
    using pollgrant_Authorize_iff [of client dc_grantTypeWire "dc_project rec" "presented_by b"
        "dc_mapStatusToError (dc_Status rec)" dc_errors "dc_approval rec"]
    by (auto simp: dc_Authorize_def dc_status_ok dc_project_def dc_approval_def)
  with Inl show ?thesis
    by (auto simp: authorizeDeviceCodePoll_def split: prod.split)
next
  case (Inr a')
  then have "dc_grantTypeWire \<in> set (cl_GrantTypes client) \<and> dc_Status rec = DeviceCodeStatusApproved
     \<and> dc_Subject rec \<noteq> [] \<and> cnf_proved (dc_project rec) (presented_by b) \<and> set (dc_Scope rec) \<subseteq> set (cl_Scopes client)
     \<and> a' = dc_approval rec"
    by (simp add: dc_Authorize_def pollgrant_Authorize_iff dc_status_ok) (simp add: dc_project_def dc_approval_def)
  with Inr show ?thesis
    by (auto simp: authorizeDeviceCodePoll_def checkTokenScopeAllowlist_def dc_approval_def)
qed

lemma handleDeviceCode_tokens:
  assumes "handleDeviceCode deps clk auth code bound (s, w) = (TokenResponse c, (s', w'))"
  obtains client b rec a s1 w1 where "pd_wired deps" "auth = Inr client" "code \<noteq> []" "bound = Inr b"
    "lookupDeviceCode (pc_find clk) code (cl_ID client) s = Inr rec"
    "applyPollDecision clk rec code s = (None, s1)"
    "authorizeDeviceCodePoll (pd_Scopes deps) client rec b = Inr a"
    "pd_prepare deps client
       \<lparr>red_Subject = ap_Subject a, red_Scope = ap_Scope a, red_Audience = ap_Audience a,
        red_AuthTime = ap_AuthTime a, red_ACR = []\<rparr> b
       \<lparr>pis_GrantID = dc_GrantID code, pis_Origin = ''device_code'', pis_DiscardGrantOnFailure = False\<rparr> w = (Some c, w1)"
    "consumeDeviceCode (pc_consume clk) code s1 = (None, s')"
    "pd_refuseClosed deps c (dc_IssuedAt rec) ''device_code rejected'' w1 = (None, w')"
  using assms unfolding handleDeviceCode_def
  by (auto split: if_splits sum.splits option.splits prod.splits subject_lookup.splits)

lemma consumeDeviceCode_None:
  assumes "consumeDeviceCode now code s = (None, s')"
  obtains r where "deviceCodeStore_Consume now code s = ((Some r, None), s')"
  using assms by (auto simp: consumeDeviceCode_def Let_def split: prod.splits option.splits if_splits)

text \<open>A poll changes the store of records by operations that save nothing.\<close>

definition dc_moves :: "deviceCodeStore \<Rightarrow> deviceCodeStore \<Rightarrow> bool" where
  "dc_moves s s' \<longleftrightarrow> (\<exists>ops. (\<forall>op\<in>set ops. dc_saves op = {}) \<and> s' = fold dc_exec ops s)"

lemma dc_moves_one: "dc_saves op = {} \<Longrightarrow> dc_moves s (dc_exec op s)"
  unfolding dc_moves_def by (rule exI [of _ "[op]"]) simp

lemma dc_moves_refl [simp]: "dc_moves s s"
  unfolding dc_moves_def by (rule exI [of _ "[]"]) simp

lemma dc_moves_trans: "dc_moves s s1 \<Longrightarrow> dc_moves s1 s2 \<Longrightarrow> dc_moves s s2"
proof -
  assume "dc_moves s s1"
  then obtain a where a: "\<forall>op\<in>set a. dc_saves op = {}" "s1 = fold dc_exec a s"
    unfolding dc_moves_def by blast
  assume "dc_moves s1 s2"
  then obtain b where "\<forall>op\<in>set b. dc_saves op = {}" "s2 = fold dc_exec b s1"
    unfolding dc_moves_def by blast
  with a show ?thesis unfolding dc_moves_def by (intro exI [of _ "a @ b"]) auto
qed

lemma dc_moves_op:
  "dc_moves s (snd (deviceCodeStore_RecordPoll now code t i s))"
  "dc_moves s (snd (deviceCodeStore_IncrementPollViolation now code s))"
  "dc_moves s (snd (deviceCodeStore_Deny now code reason s))"
  "dc_moves s (snd (deviceCodeStore_Consume now code s))"
  using dc_moves_one [of "DcRecordPoll now code t i" s] dc_moves_one [of "DcViolation now code" s]
    dc_moves_one [of "DcDeny now code reason" s] dc_moves_one [of "DcConsume now code" s]
  by simp_all

lemma dc_slowDown_moves: "dc_moves s (dc_slowDown clk code d s)"
proof -
  let ?s = "snd (deviceCodeStore_IncrementPollViolation (pc_increment clk) code s)"
  have struck: "dc_moves s ?s" by (rule dc_moves_op)
  have denied: "dc_moves s (snd (deviceCodeStore_Deny (pc_deny clk) code ''poll_abuse'' ?s))"
    by (rule dc_moves_trans [OF struck]) (rule dc_moves_op)
  have "dc_slowDown clk code d s = s \<or> dc_slowDown clk code d s = ?s
      \<or> dc_slowDown clk code d s = snd (deviceCodeStore_Deny (pc_deny clk) code ''poll_abuse'' ?s)"
    by (simp add: dc_slowDown_def case_prod_beta)
  then show ?thesis
    by (elim disjE) (simp_all only: dc_moves_refl struck denied)
qed

lemma applyPollDecision_moves: "dc_moves s (snd (applyPollDecision clk rec code s))"
proof -
  let ?d = "dc_DecidePoll (dc_poll_input (pc_poll clk) rec)"
  let ?s = "snd (deviceCodeStore_RecordPoll (pc_record clk) code (pc_poll clk)
      (if po_Decision ?d = OutcomeSlowDown then po_NextInterval ?d else dc_Interval rec) s)"
  have "snd (applyPollDecision clk rec code s) = ?s \<or> snd (applyPollDecision clk rec code s) = dc_slowDown clk code ?d ?s"
    by (simp add: applyPollDecision_def applyPollOutcome_def Let_def split: Outcome.split)
  moreover have recorded: "dc_moves s ?s" by (rule dc_moves_op)
  moreover have "dc_moves s (dc_slowDown clk code ?d ?s)"
    by (rule dc_moves_trans [OF recorded dc_slowDown_moves])
  ultimately show ?thesis
    by (elim disjE) (simp_all only:)
qed

lemma handleDeviceCode_moves: "dc_moves s (fst (snd (handleDeviceCode deps clk auth code bound (s, w))))"
proof -
  have poll: "dc_moves s s1" if "applyPollDecision clk rec code s = (r, s1)" for r s1 rec
    using applyPollDecision_moves [of s clk rec code] that by simp
  have consume: "dc_moves s1 s2" if "consumeDeviceCode now code s1 = (r, s2)" for r s1 s2 now
    using dc_moves_op(4) [of s1 now code] that by (auto simp: consumeDeviceCode_def Let_def split: prod.splits)
  show ?thesis
    unfolding handleDeviceCode_def
    by (auto split: sum.split option.split prod.split subject_lookup.split
        intro: poll dc_moves_trans [OF poll consume] dc_moves_trans [OF poll dc_moves_op(4)])
qed


section \<open>Records that can issue nothing any more\<close>

definition dc_dead :: "string \<Rightarrow> deviceCodeStore \<Rightarrow> bool" where
  "dc_dead code s \<longleftrightarrow> (\<forall>r. dc_row s (hashKey code) = Some r \<longrightarrow>
     phase_terminal (dc_phase r) \<or> MaxPollViolations \<le> dc_PollViolations r)"

lemma dc_dead_exec:
  assumes "hashKey code \<notin> dc_saves op" and "dc_dead code s"
  shows "dc_dead code (dc_exec op s)"
  unfolding dc_dead_def
proof (intro allI impI)
  fix r'
  assume row: "dc_row (dc_exec op s) (hashKey code) = Some r'"
  obtain r where r: "dc_row s (hashKey code) = Some r" "poll_edge\<^sup>=\<^sup>= (dc_phase r) (dc_phase r')"
    "dc_PollViolations r \<le> dc_PollViolations r'"
    using dc_exec_row [OF assms(1) row] dc_exec_violations [OF assms(1) row] by auto
  with assms(2) show "phase_terminal (dc_phase r') \<or> MaxPollViolations \<le> dc_PollViolations r'"
    unfolding dc_dead_def by (auto elim: edge_from_deniedE edge_from_consumedE)
qed

lemma dc_dead_fold: "\<forall>op\<in>set ops. hashKey code \<notin> dc_saves op \<Longrightarrow> dc_dead code s \<Longrightarrow> dc_dead code (fold dc_exec ops s)"
  by (induction ops arbitrary: s) (simp_all add: dc_dead_exec)

lemma dc_dead_moves: "dc_moves s s' \<Longrightarrow> dc_dead code s \<Longrightarrow> dc_dead code s'"
  unfolding dc_moves_def using dc_dead_fold by fastforce

lemma dc_dead_no_tokens:
  assumes "dc_dead code s"
  shows "fst (handleDeviceCode deps clk auth code bound (s, w)) \<noteq> TokenResponse c"
proof
  assume "fst (handleDeviceCode deps clk auth code bound (s, w)) = TokenResponse c"
  then obtain s' w' where "handleDeviceCode deps clk auth code bound (s, w) = (TokenResponse c, (s', w'))"
    by (metis prod.collapse)
  then show False
  proof (cases rule: handleDeviceCode_tokens)
    case (1 client b rec a s1 w1)
    then obtain r where "dc_row s (hashKey code) = Some r" and rec: "rec = r\<lparr>dc_ID := code\<rparr>"
      by (auto simp: lookupDeviceCode_Inr)
    with assms have "phase_terminal (dc_phase r) \<or> MaxPollViolations \<le> dc_PollViolations r"
      by (simp add: dc_dead_def)
    moreover from 1 rec have "dc_Status r = DeviceCodeStatusApproved" and "dc_PollViolations r < MaxPollViolations"
      by (auto simp: authorizeDeviceCodePoll_Inr applyPollDecision_None Decide_emit_iff dc_poll_input_def)
    ultimately show False by auto
  qed
qed

lemma handleDeviceCode_dies:
  assumes "handleDeviceCode deps clk auth code bound (s, w) = (TokenResponse c, (s', w'))"
  shows "\<exists>r. dc_row s' (hashKey code) = Some r \<and> dc_Status r = DeviceCodeStatusConsumed"
  using assms
proof (cases rule: handleDeviceCode_tokens)
  case (1 client b rec a s1 w1)
  from 1(9) obtain r where "deviceCodeStore_Consume (pc_consume clk) code s1 = ((Some r, None), s')"
    by (rule consumeDeviceCode_None)
  from dc_store.consume_redeems [OF this] obtain r where "dc_row s' (hashKey code) = Some r" "dc_phase r = PhaseConsumed"
    by blast
  then show ?thesis by (cases "dc_Status r") auto
qed

text \<open>Events at the store of device codes: a direct operation or a poll at the token endpoint.\<close>

datatype dc_event =
    EvOp dc_op
  | EvPoll poll_clock "wire_error + Client" string "wire_error + tokenBinding"

fun dc_event_exec :: "('w, 'c) poll_deps \<Rightarrow> dc_event \<Rightarrow> deviceCodeStore \<times> 'w \<Rightarrow> deviceCodeStore \<times> 'w" where
  "dc_event_exec deps (EvOp op) st = (dc_exec op (fst st), snd st)"
| "dc_event_exec deps (EvPoll clk auth code bound) st = snd (handleDeviceCode deps clk auth code bound st)"

fun dc_event_saves :: "dc_event \<Rightarrow> key set" where
  "dc_event_saves (EvOp op) = dc_saves op"
| "dc_event_saves (EvPoll clk auth code bound) = {}"

lemma dc_dead_events:
  assumes "\<forall>ev\<in>set evs. hashKey code \<notin> dc_event_saves ev" and "dc_dead code (fst st)"
  shows "dc_dead code (fst (fold (dc_event_exec deps) evs st))"
  using assms
proof (induction evs arbitrary: st)
  case (Cons ev evs)
  have "dc_dead code (fst (dc_event_exec deps ev st))"
  proof (cases ev)
    case (EvOp op)
    with Cons.prems show ?thesis by (simp add: dc_dead_exec)
  next
    case (EvPoll clk auth code' bound)
    with Cons.prems(2) show ?thesis
      using dc_dead_moves [OF handleDeviceCode_moves [of "fst st" deps clk auth code' bound "snd st"]] by simp
  qed
  with Cons show ?case by simp
qed simp


abbreviation dc_redemption :: "DeviceCode \<Rightarrow> polledRedemption" where
  "dc_redemption r \<equiv> \<lparr>red_Subject = dc_Subject r, red_Scope = dc_Scope r, red_Audience = dc_Resource r,
     red_AuthTime = dc_AuthTime r, red_ACR = []\<rparr>"

abbreviation dc_issuance :: "string \<Rightarrow> polledIssuance" where
  "dc_issuance code \<equiv> \<lparr>pis_GrantID = dc_GrantID code, pis_Origin = ''device_code'', pis_DiscardGrantOnFailure = False\<rparr>"


section \<open>The properties of the device grant\<close>


text \<open>
  A poll the gates let through: the record under the code is approved and unexpired, belongs to the
  client, is within its registration and has its sender constraints proved; it is below the strike
  cap, and the poll keeps the distance of the interval less the tolerance.
\<close>

definition dc_pollable ::
  "Registry option \<Rightarrow> poll_clock \<Rightarrow> Client \<Rightarrow> string \<Rightarrow> tokenBinding \<Rightarrow> deviceCodeStore \<Rightarrow> DeviceCode \<Rightarrow> bool" where
  "dc_pollable scopes clk client code b s r \<longleftrightarrow>
     dc_row s (hashKey code) = Some r \<and> dc_ID r = hashKey code \<and> code \<noteq> []
     \<and> dc_ClientID r = cl_ID client \<and> dc_Status r = DeviceCodeStatusApproved \<and> dc_Subject r \<noteq> []
     \<and> dc_grantTypeWire \<in> set (cl_GrantTypes client) \<and> cnf_proved (dc_project r) (presented_by b)
     \<and> set (dc_Scope r) \<subseteq> set (cl_Scopes client) \<and> Registry_AllowsAll (dc_Scope r) (cl_ID client) scopes
     \<and> (dc_ExpiresAt r = zero_time \<or>
        (pc_find clk \<le> dc_ExpiresAt r \<and> pc_poll clk < dc_ExpiresAt r \<and> pc_consume clk \<le> dc_ExpiresAt r))
     \<and> dc_PollViolations r < MaxPollViolations
     \<and> 0 \<le> dc_Interval r \<and> dc_Interval r \<le> max_duration
     \<and> (\<forall>l. dc_LastPolledAt r = Some l \<longrightarrow> poll_bar (dc_Interval r) \<le> pc_poll clk - l)"

lemma dc_pollable_issues:
  assumes ok: "dc_pollable (pd_Scopes deps) clk client code b s r" and wired: "pd_wired deps"
    and live: "pd_lookupLiveSubject deps (dc_Subject r) w = SubjectLive"
    and prepared: "pd_prepare deps client (dc_redemption r) b (dc_issuance code) w = (Some c, w1)"
    and open_grant: "pd_refuseClosed deps c (dc_IssuedAt r) ''device_code rejected'' w1 = (None, w2)"
  shows "\<exists>s'. handleDeviceCode deps clk (Inr client) code (Inr b) (s, w) = (TokenResponse c, (s', w2))"
proof -
  let ?rec = "r\<lparr>dc_ID := code\<rparr>"
  let ?s1 = "snd (deviceCodeStore_RecordPoll (pc_record clk) code (pc_poll clk) (dc_Interval r) s)"
  have row: "dc_row s (hashKey code) = Some r" and approved: "dc_Status r = DeviceCodeStatusApproved"
    and interval: "0 \<le> dc_Interval r" "dc_Interval r \<le> max_duration"
    using ok by (simp_all add: dc_pollable_def)
  have found: "lookupDeviceCode (pc_find clk) code (cl_ID client) s = Inr ?rec"
    using ok by (auto simp: dc_pollable_def lookupDeviceCode_Inr isExpired_def IsExpiredStrict_def)
  have "\<not> (time_sub (pc_poll clk) (derefTime (dc_LastPolledAt r)) < FastPollFloor \<or>
      time_sub (pc_poll clk) (derefTime (dc_LastPolledAt r)) < IntervalBar (dc_Interval r))"
    if "derefTime (dc_LastPolledAt r) \<noteq> zero_time"
    using that ok by (cases "dc_LastPolledAt r") (simp_all add: dc_pollable_def derefTime_def too_fast_iff [OF interval])
  then have poll: "applyPollDecision clk ?rec code s = (None, ?s1)"
    using ok by (auto simp: dc_pollable_def applyPollDecision_None Decide_emit_iff dc_poll_input_def)
  have auth: "authorizeDeviceCodePoll (pd_Scopes deps) client ?rec b = Inr (dc_approval r)"
    using ok by (simp add: dc_pollable_def authorizeDeviceCodePoll_Inr dc_project_def dc_approval_def)
  have "dc_row ?s1 (hashKey code) =
      Some (if isExpired (dc_ExpiresAt r) (pc_record clk) then r else r\<lparr>dc_LastPolledAt := Some (pc_poll clk)\<rparr>)"
    using row by (simp add: deviceCodeStore_RecordPoll_def deviceCodeStore_transition_def recordPollMutation_def Let_def)
  then have "\<exists>s2. consumeDeviceCode (pc_consume clk) code ?s1 = (None, s2)"
    using ok approved
    by (auto simp: dc_pollable_def consumeDeviceCode_def deviceCodeStore_Consume_def isExpired_def IsExpiredStrict_def Let_def)
  then obtain s2 where consumed: "consumeDeviceCode (pc_consume clk) code ?s1 = (None, s2)" ..
  have "code \<noteq> []" using ok by (simp add: dc_pollable_def)
  then have "handleDeviceCode deps clk (Inr client) code (Inr b) (s, w) = (TokenResponse c, (s2, w2))"
    by (simp add: handleDeviceCode_def found poll auth consumed wired dc_approval_def live prepared open_grant)
  then show ?thesis by blast
qed

text \<open>
  C27. A device that polls on time gets its tokens: a poll that respects the interval for a record the
  user approved issues the credentials and consumes the record, when the subject is live, the
  credentials can be assembled and the grant was not closed meanwhile.
\<close>

theorem device_poll_live:
  assumes "dc_pollable (pd_Scopes deps) clk client code b s r" and "pd_wired deps"
    and "pd_lookupLiveSubject deps (dc_Subject r) w = SubjectLive"
    and "pd_prepare deps client (dc_redemption r) b (dc_issuance code) w = (Some c, w1)"
    and "pd_refuseClosed deps c (dc_IssuedAt r) ''device_code rejected'' w1 = (None, w2)"
  shows "\<exists>s'. handleDeviceCode deps clk (Inr client) code (Inr b) (s, w) = (TokenResponse c, (s', w2))
    \<and> (\<exists>r'. dc_row s' (hashKey code) = Some r' \<and> dc_Status r' = DeviceCodeStatusConsumed)"
  using dc_pollable_issues [OF assms] handleDeviceCode_dies by metis

text \<open>
  C28. A device code is redeemed once: after a poll that issued tokens, no later poll with the same
  code issues any, whatever operations and polls of any client come between, as long as no record is
  saved again under that code.
\<close>

theorem device_poll_once:
  assumes "handleDeviceCode deps clk auth code bound (s, w) = (TokenResponse c, st)"
    and "\<forall>ev\<in>set evs. hashKey code \<notin> dc_event_saves ev"
  shows "fst (handleDeviceCode deps clk' auth' code bound' (fold (dc_event_exec deps) evs st)) \<noteq> TokenResponse c'"
proof -
  have "dc_dead code (fst st)"
    using handleDeviceCode_dies [of deps clk auth code bound s w c "fst st" "snd st"] assms(1)
    by (auto simp: dc_dead_def)
  from dc_dead_events [OF assms(2) this]
  have "dc_dead code (fst (fold (dc_event_exec deps) evs st))" .
  from dc_dead_no_tokens [OF this, where w = "snd (fold (dc_event_exec deps) evs st)"] show ?thesis
    by (simp only: prod.collapse not_False_eq_True)
qed



subsection \<open>An approved device\<close>

definition sample_client :: Client where
  "sample_client = \<lparr>cl_ID = ''tv'', cl_GrantTypes = [dc_grantTypeWire, ci_grantTypeWire], cl_Scopes = [''openid''],
     cl_PublicClient = True, cl_TokenEndpointAuthMethod = ''none'', cl_RequireAuthTime = False\<rparr>"

definition sample_device :: DeviceCode where
  "sample_device = \<lparr>dc_ID = hashKey ''dev'', dc_UserCode = ''ABCD'', dc_ClientID = ''tv'', dc_Scope = [''openid''],
     dc_Resource = [], dc_DPoPJKT = ''jkt'', dc_MTLSCertS256 = [], dc_Interval = 5 * second, dc_IssuedAt = second,
     dc_ExpiresAt = 600 * second, dc_LastPolledAt = Some (10 * second), dc_Status = DeviceCodeStatusApproved,
     dc_Subject = ''alice'', dc_AuthTime = 9 * second, dc_DenyReason = [], dc_UserCodeStrikes = 0, dc_PollViolations = 1\<rparr>"

definition sample_devices :: deviceCodeStore where
  "sample_devices = \<lparr>dcs_m = fmupd (hashKey ''dev'') sample_device fmempty,
     dcs_userCodeIndex = fmupd ''ABCD'' (hashKey ''dev'') fmempty, dcs_savesSinceGC = 1\<rparr>"

definition sample_deps :: "(nat, string) poll_deps" where
  "sample_deps = \<lparr>pd_wired = True, pd_Scopes = None, pd_CIBAMaxPollViolations = 0,
     pd_lookupLiveSubject = \<lambda>sub w. SubjectLive, pd_prepare = \<lambda>client red b i w. (Some (red_Subject red), w + 1),
     pd_cleanup = \<lambda>c w. w, pd_refuseClosed = \<lambda>c t d w. (None, w)\<rparr>"

definition sample_clock :: "time \<Rightarrow> poll_clock" where
  "sample_clock t = \<lparr>pc_find = t, pc_poll = t, pc_record = t, pc_increment = t, pc_deny = t, pc_consume = t\<rparr>"

definition sample_binding :: tokenBinding where
  "sample_binding = \<lparr>tb_DPoPJKT = ''jkt'', tb_MTLSThumbprint = []\<rparr>"

lemmas sample_poll_defs = sample_client_def sample_device_def sample_devices_def sample_deps_def sample_clock_def
  sample_binding_def

abbreviation sample_poll :: "time \<Rightarrow> deviceCodeStore \<times> nat \<Rightarrow> string response \<times> (deviceCodeStore \<times> nat)" where
  "sample_poll t \<equiv> handleDeviceCode sample_deps (sample_clock t) (Inr sample_client) ''dev'' (Inr sample_binding)"

lemma sample_pollable:
  "dc_pollable (pd_Scopes sample_deps) (sample_clock (14 * second)) sample_client ''dev'' sample_binding
     sample_devices sample_device"
  by (simp add: dc_pollable_def sample_poll_defs cnf_proved_def dc_project_def Registry_AllowsAll_def Registry_Allows_def
      MaxPollViolations_def max_duration_def poll_bar_def poll_constants duration_defs)

lemma sample_deps_ok:
  "pd_wired sample_deps" "pd_lookupLiveSubject sample_deps (dc_Subject sample_device) 0 = SubjectLive"
  "pd_prepare sample_deps sample_client (dc_redemption sample_device) sample_binding (dc_issuance ''dev'') 0 =
     (Some ''alice'', 1)"
  "pd_refuseClosed sample_deps ''alice'' (dc_IssuedAt sample_device) ''device_code rejected'' 1 = (None, 1)"
  by (simp_all add: sample_deps_def sample_device_def)

theorem device_poll_live_witness:
  "\<exists>s'. sample_poll (14 * second) (sample_devices, 0) = (TokenResponse ''alice'', (s', 1))
     \<and> (\<exists>r'. dc_row s' (hashKey ''dev'') = Some r' \<and> dc_Status r' = DeviceCodeStatusConsumed)"
  by (rule device_poll_live [OF sample_pollable sample_deps_ok])

lemma sample_poll_issues: "\<exists>s'. sample_poll (14 * second) (sample_devices, 0) = (TokenResponse ''alice'', (s', 1))"
  by (rule dc_pollable_issues [OF sample_pollable sample_deps_ok])


theorem device_poll_once_witness:
  "fst (sample_poll (30 * second) (fold (dc_event_exec sample_deps) [EvOp (DcRevoke (20 * second) ''dev'' ''admin'')]
     (snd (sample_poll (14 * second) (sample_devices, 0))))) \<noteq> TokenResponse ''alice''"
proof -
  obtain s' where "sample_poll (14 * second) (sample_devices, 0) = (TokenResponse ''alice'', (s', 1))"
    using sample_poll_issues ..
  then have "sample_poll (14 * second) (sample_devices, 0) =
      (TokenResponse ''alice'', snd (sample_poll (14 * second) (sample_devices, 0)))"
    by simp
  moreover have "\<forall>ev\<in>set [EvOp (DcRevoke (20 * second) ''dev'' ''admin'')]. hashKey ''dev'' \<notin> dc_event_saves ev"
    by simp
  ultimately show ?thesis by (rule device_poll_once)
qed


end
