(* ===== verification/TokenMint.thy ===== *)
theory TokenMint
  imports TokenClaims PollGrant
begin

text \<open>
  How the token endpoint makes and takes back credentials, over the substores it is given:
  \<^verbatim>\<open>internal/tokenendpoint/grant.go\<close> (the grant identity), the access-token mint and the context of an
  authorization in \<^verbatim>\<open>authcode.go\<close>, the refresh-token gates of \<^verbatim>\<open>handler.go\<close> and \<^verbatim>\<open>refreshissue.go\<close>,
  \<^verbatim>\<open>prepared_credentials.go\<close>, \<^verbatim>\<open>teardown.go\<close>, and the check for a grant that was closed while the credentials
  were persisted (\<^verbatim>\<open>grant_closure.go\<close>).

  The argument \<open>h\<close> are the substores, of the store itself or of a transaction. The lemmas give the effect
  of a mint on the view of either, and on the fields of the store for the direct substores.
\<close>


section \<open>The configuration of the endpoint\<close>

record successResponse =
  sr_AccessToken :: string
  sr_TokenType :: string
  sr_ExpiresIn :: int
  sr_RefreshToken :: string
  sr_IDToken :: string
  sr_Scope :: string
  sr_AuthorizationDetails :: "jobject list"
  sr_GrantID :: string

datatype AccessTokenFormat = AccessTokenFormatJWT | AccessTokenFormatOpaque

text \<open>
  The key ring of the retry responses: sealing the JSON of a response for a predecessor token, and
  opening it again. The AEAD and the JSON codec are the two functions.
\<close>

record retry_ring =
  rk_seal :: "string \<Rightarrow> successResponse \<Rightarrow> token_err + byte list"
  rk_open :: "string \<Rightarrow> byte list \<Rightarrow> token_err + successResponse"

text \<open>
  The fields of \<^verbatim>\<open>Deps\<close> the endpoint reads. A flag says whether a substore or a verifier is wired.
  \<open>td_ClientEncJWKs\<close> is the encryption of an id_token for a client, \<open>td_SubjectProjector\<close> the embedder's
  projector and \<open>td_UserStore\<close> its user directory.
\<close>

record tokenDeps =
  td_Issuer :: string
  td_AccessTokenTTL :: duration
  td_IDTokenTTL :: duration
  td_RefreshTokenTTL :: duration
  td_RefreshTokenOfflineTTL :: duration
  td_RefreshTokenGraceTTL :: duration
  td_RefreshTokenRotationDisabled :: bool
  td_RefreshRetryEncryptionKeys :: "retry_ring option"
  td_StrictOfflineAccess :: bool
  td_OpenIDScopeOptional :: bool
  td_GrantManagementEnabled :: bool
  td_ClaimsParameterEnabled :: bool
  td_RequireSenderConstrainedTokens :: bool
  td_EnabledGrants :: "string list option"
  td_Scopes :: "Registry option"
  td_IDTokenScopeClaims :: "string list"
  td_CustomScopeClaims :: "(string \<times> string list) list"
  td_RevocationStrategy :: AccessTokenRevocationStrategy
  td_AccessTokenFormatFor :: "(string \<Rightarrow> AccessTokenFormat) option"
  td_SubjectProjector :: "(string \<Rightarrow> Client \<Rightarrow> token_err + string) option"
  td_UserStore :: "(string \<Rightarrow> User option \<times> store_err option) option"
  td_SigningKey :: SigningKey
  td_ClientEncJWKs :: "(Client \<Rightarrow> string \<Rightarrow> token_err + string) option"
  td_DPoP :: bool
  td_MTLS :: bool
  td_Transactions :: bool
  td_Codes :: bool
  td_Grants :: bool
  td_RefreshTokens :: bool
  td_OpaqueAccessTokens :: bool
  td_AccessTokens :: bool
  td_GrantRevocations :: bool

text \<open>
  What one request reads from outside: the instants of the clock and the random identifiers, each
  \<open>None\<close> when the generator fails.
\<close>

record mint_env =
  me_now :: time
  me_grantNow :: time
  me_issuerNow :: time
  me_teardownNow :: time
  me_storeNow :: time
  me_grantID :: "byte list option"
  me_chainID :: "byte list option"
  me_accessID :: "byte list option"
  me_refreshID :: "byte list option"


section \<open>The grant identity\<close>

datatype grantLineage = grantLineageConsent | grantLineageInherit | grantLineageUnbacked

record grantIssuance =
  gi_Lineage :: grantLineage
  gi_Grant :: Grant
  gi_InheritedID :: string

definition random_id :: "byte list option \<Rightarrow> token_err + string" where
  "random_id buf = (case RandomBase64URL buf of Inl e \<Rightarrow> Inl (TokenMsg e) | Inr i \<Rightarrow> Inr i)"

definition MintOpaqueAccessToken :: "byte list option \<Rightarrow> token_err + string" where
  "MintOpaqueAccessToken buf =
     (case RandomBase64URL buf of Inl e \<Rightarrow> Inl (TokenMsg (''tokens: opaque access token: '' @ e)) | Inr i \<Rightarrow> Inr i)"

definition saveConsentGrant ::
  "'s stores \<Rightarrow> tokenDeps \<Rightarrow> mint_env \<Rightarrow> Grant \<Rightarrow> 's \<Rightarrow> (token_err + string) \<times> 's" where
  "saveConsentGrant h deps env g s =
     (if \<not> td_Grants deps then (Inl (TokenMsg ''tokenendpoint: no grant store to record the grant in''), s)
      else
        let derived = gr_ID g \<noteq> []
        in case (if derived then Inr (gr_ID g) else random_id (me_grantID env)) of
             Inl e \<Rightarrow> (Inl e, s)
           | Inr i \<Rightarrow>
               let g = g\<lparr>gr_ID := i, gr_CreatedAt := me_grantNow env, gr_UpdatedAt := me_grantNow env\<rparr>
               in case so_grantSave h (Some g) s of
                    (Some e, s) \<Rightarrow>
                      (if derived \<and> e = ErrAlreadyExists then Inr (gr_ID g) else Inl (TokenStore e), s)
                  | (None, s) \<Rightarrow> (Inr (gr_ID g), s))"

definition newGrantID ::
  "'s stores \<Rightarrow> tokenDeps \<Rightarrow> mint_env \<Rightarrow> grantIssuance \<Rightarrow> 's \<Rightarrow> (token_err + string) \<times> 's" where
  "newGrantID h deps env gi s =
     (case gi_Lineage gi of
        grantLineageConsent \<Rightarrow> saveConsentGrant h deps env (gi_Grant gi) s
      | grantLineageInherit \<Rightarrow>
          (if gi_InheritedID gi = []
           then Inl (TokenMsg ''tokenendpoint: inherited grant lineage names no grant'')
           else Inr (gi_InheritedID gi), s)
      | grantLineageUnbacked \<Rightarrow> (random_id (me_grantID env), s))"

definition discardGrant :: "'s stores \<Rightarrow> tokenDeps \<Rightarrow> string \<Rightarrow> 's \<Rightarrow> 's" where
  "discardGrant h deps grantID s =
     (if grantID = [] \<or> \<not> td_Grants deps then s
      else snd (so_grantDelete h grantID s))"


section \<open>Access tokens\<close>

record authContext =
  ax_AuthTime :: int
  ax_ACR :: string
  ax_AMR :: "string list"
  ax_Claims :: "ClaimsRequest option"
  ax_EncodedClaims :: jobject
  ax_AuthorizationDetails :: "jobject list"

record accessTokenOverrides =
  ov_TTL :: duration
  ov_Audience :: "string list"
  ov_Extra :: jobject
  ov_ForceJWT :: bool
  ov_Authorization :: "authContext option"
  ov_ACR :: string
  ov_ChainID :: string

definition accessTokenFormat :: "tokenDeps \<Rightarrow> string \<Rightarrow> AccessTokenFormat" where
  "accessTokenFormat deps resource =
     (case td_AccessTokenFormatFor deps of None \<Rightarrow> AccessTokenFormatJWT | Some f \<Rightarrow> f resource)"

definition userInfoClaimsRequest :: "accessTokenOverrides \<Rightarrow> jobject option" where
  "userInfoClaimsRequest over =
     (case ov_Authorization over of
        None \<Rightarrow> None
      | Some a \<Rightarrow>
          (case DecodeClaimsFromGrant (ax_EncodedClaims a) of
             None \<Rightarrow> Some []
           | Some c \<Rightarrow>
               if cr_UserInfo c = [] then Some []
               else Some (EncodeClaimsToGrant (Some \<lparr>cr_IDToken = [], cr_UserInfo = cr_UserInfo c\<rparr>))))"

definition mintJWTAccessToken ::
  "'s stores \<Rightarrow> tokenDeps \<Rightarrow> mint_env \<Rightarrow> string \<Rightarrow> string \<Rightarrow> string \<Rightarrow> string \<Rightarrow> string list \<Rightarrow> string \<Rightarrow> time \<Rightarrow> int \<Rightarrow>
     tokenBinding \<Rightarrow> jobject list \<Rightarrow> accessTokenOverrides \<Rightarrow> 's \<Rightarrow> (token_err + string) \<times> 's" where
  "mintJWTAccessToken h deps env rawSubject publicSubject clientID grantID scope resource now authTime
     binding authorizationDetails over s =
     (case random_id (me_accessID env) of
        Inl e \<Rightarrow> (Inl e, s)
      | Inr jti \<Rightarrow>
          let expiresAt = tokens_ExpiresIn now (ov_TTL over);
              audience = (if ov_Audience over \<noteq> [] then ov_Audience over
                          else if resource \<noteq> [] then [resource] else [td_Issuer deps]);
              claims =
                \<lparr>jc_ClientID = clientID, jc_GrantID = grantID, jc_JTI = jti, jc_IssuedAt = Time_Unix now,
                 jc_Issuer = td_Issuer deps, jc_Subject = publicSubject, jc_Audience = audience,
                 jc_ExpiresAt = expiresAt, jc_Scope = scope, jc_AuthTime = authTime,
                 jc_Confirmation = Confirmation (tb_DPoPJKT binding) (tb_MTLSThumbprint binding),
                 jc_AuthorizationDetails = authorizationDetails,
                 jc_UserInfoClaims = userInfoClaimsRequest over, jc_Extra = ov_Extra over,
                 jc_ACR = (case ov_Authorization over of Some a \<Rightarrow> ax_ACR a | None \<Rightarrow> ov_ACR over),
                 jc_AMR = (case ov_Authorization over of Some a \<Rightarrow> ax_AMR a | None \<Rightarrow> [])\<rparr>
          in case SignAccessToken (td_SigningKey deps) claims of
               Inl e \<Rightarrow> (Inl e, s)
             | Inr jwt \<Rightarrow>
                 if td_RevocationStrategy deps = RevocationStrategyJTIRegistry \<and> td_AccessTokens deps
                 then (case so_accessRegister h
                         \<lparr>at_JTI = jti, at_GrantID = grantID, at_Subject = rawSubject, at_ClientID = clientID,
                          at_Scopes = scope, at_IssuedAt = now, at_ExpiresAt = time_Unix expiresAt,
                          at_Revoked = False\<rparr> s of
                         (Some e, s) \<Rightarrow> (Inl (TokenStore e), s)
                       | (None, s) \<Rightarrow> (Inr jwt, s))
                 else (Inr jwt, s))"

definition mintOpaqueAccessToken ::
  "'s stores \<Rightarrow> tokenDeps \<Rightarrow> mint_env \<Rightarrow> string \<Rightarrow> string \<Rightarrow> string \<Rightarrow> string list \<Rightarrow> string \<Rightarrow> time \<Rightarrow> int \<Rightarrow>
     tokenBinding \<Rightarrow> jobject list \<Rightarrow> accessTokenOverrides \<Rightarrow> 's \<Rightarrow> (token_err + string) \<times> 's" where
  "mintOpaqueAccessToken h deps env subject clientID grantID scope resource now authTime binding
     authorizationDetails over s =
     (if \<not> td_OpaqueAccessTokens deps
      then (Inl (TokenMsg ''tokenendpoint: opaque format requested but OpaqueAccessTokens substore is nil''), s)
      else
        (case MintOpaqueAccessToken (me_accessID env) of
           Inl e \<Rightarrow> (Inl e, s)
         | Inr raw \<Rightarrow>
             let expiresAt = tokens_ExpiresIn now (ov_TTL over);
                 rec =
                   \<lparr>oa_ID = raw, oa_GrantID = grantID, oa_Subject = subject, oa_ClientID = clientID,
                    oa_Scope = scope, oa_Audience = (if resource \<noteq> [] then resource else td_Issuer deps),
                    oa_ACR = (case ov_Authorization over of Some a \<Rightarrow> ax_ACR a | None \<Rightarrow> ov_ACR over),
                    oa_AMR = (case ov_Authorization over of Some a \<Rightarrow> ax_AMR a | None \<Rightarrow> []),
                    oa_AuthTime = TimeFromUnix authTime, oa_AuthorizationDetails = authorizationDetails,
                    oa_Claims = (case ov_Authorization over of Some a \<Rightarrow> ax_EncodedClaims a | None \<Rightarrow> []),
                    oa_AuthorizationRecorded = True, oa_DPoPJKT = tb_DPoPJKT binding,
                    oa_MTLSCertThumbprint = tb_MTLSThumbprint binding, oa_ChainID = ov_ChainID over,
                    oa_IssuedAt = now, oa_ExpiresAt = time_Unix expiresAt, oa_Revoked = False\<rparr>
             in case so_opaqueSave h (Some rec) s of
                  (Some e, s) \<Rightarrow> (Inl (TokenStore e), s)
                | (None, s) \<Rightarrow> (Inr raw, s)))"

definition mintAccessToken ::
  "'s stores \<Rightarrow> tokenDeps \<Rightarrow> mint_env \<Rightarrow> string \<Rightarrow> string \<Rightarrow> string \<Rightarrow> string \<Rightarrow> string list \<Rightarrow> string \<Rightarrow> time \<Rightarrow> int \<Rightarrow>
     tokenBinding \<Rightarrow> jobject list \<Rightarrow> accessTokenOverrides \<Rightarrow> 's \<Rightarrow> (token_err + string) \<times> 's" where
  "mintAccessToken h deps env rawSubject publicSubject clientID grantID scope resource now authTime binding
     authorizationDetails over s =
     (let over = (if ov_TTL over \<le> 0 then over\<lparr>ov_TTL := td_AccessTokenTTL deps\<rparr> else over);
          format = (if ov_ForceJWT over then AccessTokenFormatJWT else accessTokenFormat deps resource)
      in case format of
           AccessTokenFormatOpaque \<Rightarrow>
             mintOpaqueAccessToken h deps env (if grantID = [] then publicSubject else rawSubject) clientID grantID
               scope resource now authTime binding authorizationDetails over s
         | AccessTokenFormatJWT \<Rightarrow>
             mintJWTAccessToken h deps env rawSubject publicSubject clientID grantID scope resource now authTime
               binding authorizationDetails over s)"


section \<open>The context of an authorization, and id tokens\<close>

definition FindGrant :: "'s stores \<Rightarrow> tokenDeps \<Rightarrow> string \<Rightarrow> 's \<Rightarrow> token_err + Grant option" where
  "FindGrant h deps grantID s =
     (if grantID = [] \<or> \<not> td_Grants deps then Inr None
      else
        (case so_grantFind h grantID s of
           (g, Some e) \<Rightarrow> if e = ErrNotFound then Inr None else Inl (TokenStore e)
         | (None, None) \<Rightarrow> Inl (TokenMsg ''tokens: grant store returned no grant and no error'')
         | (Some g, None) \<Rightarrow> Inr (Some g)))"

definition authContextOf :: "tokenDeps \<Rightarrow> Authorization \<Rightarrow> authContext" where
  "authContextOf deps a =
     \<lparr>ax_AuthTime = UnixOrZero (az_AuthTime a), ax_ACR = az_ACR a, ax_AMR = az_AMR a,
      ax_Claims = (if td_ClaimsParameterEnabled deps then DecodeClaimsFromGrant (az_Claims a) else None),
      ax_EncodedClaims = az_Claims a, ax_AuthorizationDetails = az_AuthorizationDetails a\<rparr>"

definition Deps_idTokenClaims :: "tokenDeps \<Rightarrow> string \<Rightarrow> string \<Rightarrow> time \<Rightarrow> IDTokenClaims" where
  "Deps_idTokenClaims deps subject clientID now =
     \<lparr>it_Issuer = td_Issuer deps, it_Subject = subject, it_Audience = [clientID], it_IssuedAt = Time_Unix now,
      it_ExpiresAt = tokens_ExpiresIn now (td_IDTokenTTL deps), it_AuthTime = 0, it_Nonce = [], it_ACR = [],
      it_AMR = [], it_AZP = [], it_AtHash = [], it_CHash = [], it_SID = [], it_Extra = []\<rparr>"

definition maybeEncryptIDToken :: "tokenDeps \<Rightarrow> Client \<Rightarrow> string \<Rightarrow> token_err + string" where
  "maybeEncryptIDToken deps client jws =
     (case td_ClientEncJWKs deps of None \<Rightarrow> Inr jws | Some encrypt \<Rightarrow> encrypt client jws)"

definition Deps_idTokenExtra ::
  "tokenDeps \<Rightarrow> User option \<Rightarrow> string list \<Rightarrow> ClaimsRequest option \<Rightarrow> jobject" where
  "Deps_idTokenExtra deps user scope req =
     idTokenExtraClaims (td_IDTokenScopeClaims deps) (td_CustomScopeClaims deps) user scope req"


section \<open>Refresh tokens\<close>

definition grantTypeRefreshToken :: string where "grantTypeRefreshToken = ''refresh_token''"

definition refreshDropProviderGrantDisabled :: string where "refreshDropProviderGrantDisabled = ''provider_grant_disabled''"
definition refreshDropClientNotRegistered :: string where "refreshDropClientNotRegistered = ''client_not_registered''"
definition refreshDropScopeIneligible :: string where "refreshDropScopeIneligible = ''scope_not_eligible''"
definition refreshDropEmptySubject :: string where "refreshDropEmptySubject = ''empty_subject''"
definition refreshDropEmptyScope :: string where "refreshDropEmptyScope = ''empty_scope''"

lemmas refreshDrop_defs = refreshDropProviderGrantDisabled_def refreshDropClientNotRegistered_def
  refreshDropScopeIneligible_def refreshDropEmptySubject_def refreshDropEmptyScope_def

definition Deps_grantEnabled :: "tokenDeps \<Rightarrow> string \<Rightarrow> bool" where
  "Deps_grantEnabled deps grantType =
     (case td_EnabledGrants deps of None \<Rightarrow> True | Some gs \<Rightarrow> grantType \<in> set gs)"

definition clientRegisteredForRefresh :: "Client \<Rightarrow> bool" where
  "clientRegisteredForRefresh c = (grantTypeRefreshToken \<in> set (cl_GrantTypes c))"

definition clientPermitsRefresh :: "tokenDeps \<Rightarrow> Client \<Rightarrow> string list \<Rightarrow> bool" where
  "clientPermitsRefresh deps c scope =
     (if \<not> td_OpenIDScopeOptional deps \<and> \<not> ContainsOpenID scope then False
      else if td_StrictOfflineAccess deps \<and> \<not> ContainsOfflineAccess scope then False
      else clientRegisteredForRefresh c)"

definition Deps_refreshIssuanceBlockedReason :: "tokenDeps \<Rightarrow> Client \<Rightarrow> string" where
  "Deps_refreshIssuanceBlockedReason deps c =
     (if \<not> Deps_grantEnabled deps grantTypeRefreshToken then refreshDropProviderGrantDisabled
      else if \<not> clientRegisteredForRefresh c then refreshDropClientNotRegistered
      else [])"

definition offlineTTLApplies :: "tokenDeps \<Rightarrow> string list \<Rightarrow> bool" where
  "offlineTTLApplies deps scope = (td_RefreshTokenOfflineTTL deps > 0 \<and> ContainsOfflineAccess scope)"

definition pickRefreshTokenTTL :: "tokenDeps \<Rightarrow> string list \<Rightarrow> duration" where
  "pickRefreshTokenTTL deps scope =
     (if offlineTTLApplies deps scope then td_RefreshTokenOfflineTTL deps else td_RefreshTokenTTL deps)"

definition IsPublicClient :: "Client \<Rightarrow> bool" where
  "IsPublicClient c = (cl_PublicClient c \<or> cl_TokenEndpointAuthMethod c = ''none'')"

definition refreshDPoPJKT :: "Client \<Rightarrow> string \<Rightarrow> string" where
  "refreshDPoPJKT client dpopJKT =
     (if dpopJKT = [] then [] else if \<not> IsPublicClient client then [] else dpopJKT)"

record refreshIssuance =
  ri_Client :: Client
  ri_Subject :: string
  ri_SubjectPublic :: bool
  ri_GrantID :: string
  ri_Scope :: "string list"
  ri_Resource :: string
  ri_Nonce :: string
  ri_ChainID :: string
  ri_Origin :: RefreshTokenOrigin
  ri_Binding :: tokenBinding
  ri_AuthCtx :: authContext
  ri_AccessTokenExtra :: jobject
  ri_ScopeEligible :: "(string list \<Rightarrow> bool) option"
  ri_Ineligible :: string

definition builtinRefreshIssuance :: "tokenDeps \<Rightarrow> Client \<Rightarrow> refreshIssuance" where
  "builtinRefreshIssuance deps client =
     \<lparr>ri_Client = client, ri_Subject = [], ri_SubjectPublic = False, ri_GrantID = [], ri_Scope = [],
      ri_Resource = [], ri_Nonce = [], ri_ChainID = [], ri_Origin = [],
      ri_Binding = \<lparr>tb_DPoPJKT = [], tb_MTLSThumbprint = []\<rparr>,
      ri_AuthCtx = \<lparr>ax_AuthTime = 0, ax_ACR = [], ax_AMR = [], ax_Claims = None, ax_EncodedClaims = [], ax_AuthorizationDetails = []\<rparr>,
      ri_AccessTokenExtra = [], ri_ScopeEligible = Some (clientPermitsRefresh deps client), ri_Ineligible = []\<rparr>"

definition refreshDropReason :: "tokenDeps \<Rightarrow> refreshIssuance \<Rightarrow> string" where
  "refreshDropReason deps inp =
     (if Deps_refreshIssuanceBlockedReason deps (ri_Client inp) \<noteq> []
        then Deps_refreshIssuanceBlockedReason deps (ri_Client inp)
      else if \<not> (case ri_ScopeEligible inp of None \<Rightarrow> True | Some f \<Rightarrow> f (ri_Scope inp))
        then refreshDropScopeIneligible
      else if ri_Ineligible inp \<noteq> [] then ri_Ineligible inp
      else if ri_Subject inp = [] then refreshDropEmptySubject
      else if ri_Scope inp = [] then refreshDropEmptyScope
      else [])"

definition issueRefreshToken ::
  "'s stores \<Rightarrow> tokenDeps \<Rightarrow> mint_env \<Rightarrow> refreshIssuance \<Rightarrow> 's \<Rightarrow> (token_err + string) \<times> 's" where
  "issueRefreshToken h deps env inp s =
     (if refreshDropReason deps inp \<noteq> [] then (Inr [], s)
      else
        (case NewIssuer (if td_RefreshTokens deps then Some (so_refresh h) else None)
                (pickRefreshTokenTTL deps (ri_Scope inp)) of
           Inl e \<Rightarrow> (Inl (TokenRefresh e), s)
         | Inr issuer \<Rightarrow>
             (case Issuer_Issue issuer (me_issuerNow env) (me_refreshID env) None
                \<lparr>ii_ClientID = cl_ID (ri_Client inp), ii_Subject = ri_Subject inp, ii_GrantID = ri_GrantID inp,
                 ii_Scope = ri_Scope inp, ii_Resource = ri_Resource inp, ii_ParentID = None,
                 ii_Origin = ri_Origin inp, ii_SubjectPublic = ri_SubjectPublic inp,
                 ii_AuthTime = TimeFromUnix (ax_AuthTime (ri_AuthCtx inp)), ii_ACR = ax_ACR (ri_AuthCtx inp),
                 ii_AMR = ax_AMR (ri_AuthCtx inp),
                 ii_AuthorizationDetails = ax_AuthorizationDetails (ri_AuthCtx inp),
                 ii_AccessTokenExtra = ri_AccessTokenExtra inp, ii_Claims = ax_EncodedClaims (ri_AuthCtx inp),
                 ii_AuthorizationRecorded = True,
                 ii_DPoPJKT = refreshDPoPJKT (ri_Client inp) (tb_DPoPJKT (ri_Binding inp)),
                 ii_MTLSCertThumbprint = tb_MTLSThumbprint (ri_Binding inp), ii_Nonce = ri_Nonce inp,
                 ii_ChainID = ri_ChainID inp\<rparr> s of
                (Inl e, s) \<Rightarrow> (Inl (TokenRefresh e), s)
              | (Inr token, s) \<Rightarrow> (Inr token, s))))"


section \<open>Retiring what was issued\<close>

definition teardownReasonGrantTombstoned :: string where "teardownReasonGrantTombstoned = ''grant_tombstoned''"
definition teardownReasonPreparedPoll :: string where "teardownReasonPreparedPoll = ''prepared_poll_lost''"

definition grantTeardown :: "tokenDeps \<Rightarrow> mint_env \<Rightarrow> string \<Rightarrow> Revoker" where
  "grantTeardown deps env reason =
     NewRevoker (td_RefreshTokens deps) (td_OpaqueAccessTokens deps) (td_AccessTokens deps) (td_GrantRevocations deps)
       (td_RevocationStrategy deps) (td_AccessTokenTTL deps) (me_teardownNow env) reason"

definition cleanupPreparedCredentials ::
  "'s stores \<Rightarrow> tokenDeps \<Rightarrow> mint_env \<Rightarrow> string \<Rightarrow> string \<Rightarrow> bool \<Rightarrow> 's \<Rightarrow> 's" where
  "cleanupPreparedCredentials h deps env accessToken refreshToken opaque s =
     (let accessToken = (if \<not> opaque then [] else accessToken)
      in snd (Revoker_Run h (grantTeardown deps env teardownReasonPreparedPoll) (me_storeNow env)
           (IssuedCredentials accessToken refreshToken) s))"

record issuedUnderGrant =
  iu_GrantID :: string
  iu_IssuedAt :: time
  iu_AccessToken :: string
  iu_RefreshToken :: string

text \<open>Every revocation store of the cluster answers the issuance question itself.\<close>

definition grantClosedToIssuance :: "'s stores \<Rightarrow> string \<Rightarrow> time \<Rightarrow> 's \<Rightarrow> bool \<times> store_err option" where
  "grantClosedToIssuance h grantID issuedAt s = so_IsIssuanceRevoked h grantID issuedAt s"

definition refuseIssuanceUnderClosedGrant ::
  "'s stores \<Rightarrow> tokenDeps \<Rightarrow> mint_env \<Rightarrow> issuedUnderGrant \<Rightarrow> string \<Rightarrow> 's \<Rightarrow> wire_error option \<times> 's" where
  "refuseIssuanceUnderClosedGrant h deps env issued description s =
     (if \<not> td_GrantRevocations deps \<or> iu_GrantID issued = [] then (None, s)
      else
        (case grantClosedToIssuance h (iu_GrantID issued) (iu_IssuedAt issued) s of
           (closed, err) \<Rightarrow>
             if err = None \<and> \<not> closed then (None, s)
             else
               let s = snd (Revoker_Run h (grantTeardown deps env teardownReasonGrantTombstoned) (me_storeNow env)
                         (IssuedCredentials (iu_AccessToken issued) (iu_RefreshToken issued)) s)
               in if err \<noteq> None then (Some ServerError, s)
                  else (Some (OAuthError StatusBadRequest ''invalid_grant'' description), s)))"


section \<open>Requests and responses\<close>

definition tokenBinding_tokenTypeFor :: "tokenBinding \<Rightarrow> string" where
  "tokenBinding_tokenTypeFor b = (if tb_DPoPJKT b \<noteq> [] then ''DPoP'' else ''Bearer'')"

definition requireAuthTimeForIDToken :: "Client \<Rightarrow> string list \<Rightarrow> int \<Rightarrow> token_err option" where
  "requireAuthTimeForIDToken client scope authTime =
     (if \<not> cl_RequireAuthTime client \<or> \<not> ContainsOpenID scope then None
      else if authTime \<noteq> 0 then None
      else Some (TokenMsg ''tokenendpoint: require_auth_time cannot be satisfied''))"

definition projectPublicSubject :: "tokenDeps \<Rightarrow> string \<Rightarrow> Client \<Rightarrow> token_err + string" where
  "projectPublicSubject deps raw client =
     (if raw = [] then Inl (TokenMsg ''tokenendpoint: cannot project an empty subject'')
      else (case td_SubjectProjector deps of
              None \<Rightarrow> Inr raw
            | Some f \<Rightarrow>
                (case f raw client of
                   Inl e \<Rightarrow> Inl e
                 | Inr projected \<Rightarrow>
                     if projected = [] then Inl (TokenMsg ''tokenendpoint: SubjectProjector returned empty subject'')
                     else Inr projected)))"

definition grantIDForResponse :: "tokenDeps \<Rightarrow> string \<Rightarrow> string" where
  "grantIDForResponse deps grantID = (if \<not> td_GrantManagementEnabled deps then [] else grantID)"

text \<open>
  The seconds of a duration, truncated towards zero as \<^verbatim>\<open>int64(d.Seconds())\<close> does.
\<close>

definition whole_seconds :: "duration \<Rightarrow> int" where
  "whole_seconds d = (if d < 0 then - ((- d) div second) else d div second)"

text \<open>
  \<^verbatim>\<open>lookupLiveSubject\<close>: the user record and the outcome, live when the lookup returns no error. No
  directory means that nobody is looked up.
\<close>

definition lookupLiveSubject :: "tokenDeps \<Rightarrow> string \<Rightarrow> User option \<times> subject_lookup" where
  "lookupLiveSubject deps subject =
     (case td_UserStore deps of
        None \<Rightarrow> (None, SubjectLive)
      | Some FindBySubject \<Rightarrow>
          (case FindBySubject subject of (user, err) \<Rightarrow>
             let err = (if err = None \<and> user = None then Some ErrNotFound else err)
             in if err = Some ErrNotFound then (None, SubjectDeprovisioned)
                else if err = None then (user, SubjectLive) else (user, SubjectFault)))"



section \<open>What a mint does, on any substores\<close>

lemma random_id_Inr: "random_id buf = Inr i \<longleftrightarrow> (\<exists>bs. buf = Some bs \<and> i = base64_RawURL bs)"
  by (auto simp: random_id_def RandomBase64URL_def split: option.splits)

lemma mint_cases:
  "mintAccessToken h deps env rs ps c g sc res now at b ad ov s =
     (let ov = (if ov_TTL ov \<le> 0 then ov\<lparr>ov_TTL := td_AccessTokenTTL deps\<rparr> else ov)
      in if \<not> ov_ForceJWT ov \<and> accessTokenFormat deps res = AccessTokenFormatOpaque
         then mintOpaqueAccessToken h deps env (if g = [] then ps else rs) c g sc res now at b ad ov s
         else mintJWTAccessToken h deps env rs ps c g sc res now at b ad ov s)"
  by (cases "accessTokenFormat deps res") (simp_all add: mintAccessToken_def Let_def)

lemma Issuer_Prepare_Inr:
  assumes "Issuer_Prepare iss now rnd ch inp = Inr (i, rec)"
  shows "rt_ID rec = i" "rt_ClientID rec = ii_ClientID inp" "rt_Subject rec = ii_Subject inp"
    "rt_GrantID rec = ii_GrantID inp" "rt_Scope rec = ii_Scope inp" "rt_Origin rec = ii_Origin inp"
    "ii_ChainID inp \<noteq> [] \<Longrightarrow> rt_ChainID rec = ii_ChainID inp" "rt_ParentID rec = ii_ParentID inp"
    "rt_ConsumedAt rec = None" "\<not> rt_Revoked rec" "rt_CreatedAt rec = now" "rt_ExpiresAt rec = now + is_ttl iss"
    "rt_DPoPJKT rec = ii_DPoPJKT inp" "rt_MTLSCertThumbprint rec = ii_MTLSCertThumbprint inp"
    "rt_AuthorizationDetails rec = ii_AuthorizationDetails inp" "rt_Resource rec = ii_Resource inp"
    "rt_SubjectPublic rec = ii_SubjectPublic inp" "rt_AuthTime rec = ii_AuthTime inp" "rt_Nonce rec = ii_Nonce inp"
  using assms by (auto simp: Issuer_Prepare_def split: option.splits sum.splits if_splits)

text \<open>The row a mint records, or the claims it signs.\<close>

definition opaque_row ::
  "tokenDeps \<Rightarrow> string \<Rightarrow> string \<Rightarrow> string \<Rightarrow> string \<Rightarrow> string list \<Rightarrow> accessTokenOverrides \<Rightarrow> OpaqueAccessToken \<Rightarrow> bool" where
  "opaque_row deps tok sub c g sc ov row \<longleftrightarrow>
     tok \<noteq> [] \<and> oa_ID row = tok \<and> oa_Subject row = sub \<and> oa_ClientID row = c \<and> oa_GrantID row = g \<and> oa_Scope row = sc
     \<and> oa_ChainID row = ov_ChainID ov \<and> \<not> oa_Revoked row"

definition jwt_signed ::
  "tokenDeps \<Rightarrow> string \<Rightarrow> string \<Rightarrow> string \<Rightarrow> string \<Rightarrow> string list \<Rightarrow> time \<Rightarrow> minted_claims \<Rightarrow> bool" where
  "jwt_signed deps tok ps c g sc now claims \<longleftrightarrow>
     SignAccessToken (td_SigningKey deps) claims = Inr tok \<and> jc_Subject claims = ps \<and> jc_ClientID claims = c
     \<and> jc_GrantID claims = g \<and> jc_Scope claims = sc \<and> jc_IssuedAt claims = Time_Unix now"

definition registers :: "tokenDeps \<Rightarrow> bool" where
  "registers deps \<longleftrightarrow> td_RevocationStrategy deps = RevocationStrategyJTIRegistry \<and> td_AccessTokens deps"

text \<open>
  The equations of the two mints: the token, and the one call that records it.
\<close>

lemma mintOpaque_eq:
  obtains (fails) e where "\<And>s. mintOpaqueAccessToken h deps env sub c g sc res now at b ad ov s = (Inl e, s)"
  | (mints) raw row where "td_OpaqueAccessTokens deps" and "oa_ID row = raw" and "raw \<noteq> [] \<Longrightarrow> opaque_row deps raw sub c g sc ov row"
      and "\<And>s. mintOpaqueAccessToken h deps env sub c g sc res now at b ad ov s =
         (case so_opaqueSave h (Some row) s of (Some e, s) \<Rightarrow> (Inl (TokenStore e), s) | (None, s) \<Rightarrow> (Inr raw, s))"
proof (cases "td_OpaqueAccessTokens deps")
  case True
  show thesis
  proof (cases "MintOpaqueAccessToken (me_accessID env)")
    case (Inr raw)
    show thesis
      by (rule mints [OF True, of
            "\<lparr>oa_ID = raw, oa_GrantID = g, oa_Subject = sub, oa_ClientID = c, oa_Scope = sc,
              oa_Audience = (if res \<noteq> [] then res else td_Issuer deps),
              oa_ACR = (case ov_Authorization ov of Some a \<Rightarrow> ax_ACR a | None \<Rightarrow> ov_ACR ov),
              oa_AMR = (case ov_Authorization ov of Some a \<Rightarrow> ax_AMR a | None \<Rightarrow> []),
              oa_AuthTime = TimeFromUnix at, oa_AuthorizationDetails = ad,
              oa_Claims = (case ov_Authorization ov of Some a \<Rightarrow> ax_EncodedClaims a | None \<Rightarrow> []),
              oa_AuthorizationRecorded = True, oa_DPoPJKT = tb_DPoPJKT b, oa_MTLSCertThumbprint = tb_MTLSThumbprint b,
              oa_ChainID = ov_ChainID ov, oa_IssuedAt = now,
              oa_ExpiresAt = time_Unix (tokens_ExpiresIn now (ov_TTL ov)), oa_Revoked = False\<rparr>" raw])
         (simp_all add: mintOpaqueAccessToken_def opaque_row_def True Inr Let_def)
  qed (use True fails in \<open>simp add: mintOpaqueAccessToken_def\<close>)
qed (use fails in \<open>simp add: mintOpaqueAccessToken_def\<close>)

lemma mintJWT_eq:
  obtains (fails) e where "\<And>s. mintJWTAccessToken h deps env rs ps c g sc res now at b ad ov s = (Inl e, s)"
  | (mints) tok claims row where "jwt_signed deps tok ps c g sc now claims" and "at_JTI row = jc_JTI claims" and "at_GrantID row = g"
      and "\<And>s. mintJWTAccessToken h deps env rs ps c g sc res now at b ad ov s =
         (if registers deps
          then (case so_accessRegister h row s of (Some e, s) \<Rightarrow> (Inl (TokenStore e), s) | (None, s) \<Rightarrow> (Inr tok, s))
          else (Inr tok, s))"
proof (cases "random_id (me_accessID env)")
  case (Inr jti)
  let ?claims = "\<lparr>jc_ClientID = c, jc_GrantID = g, jc_JTI = jti, jc_IssuedAt = Time_Unix now,
     jc_Issuer = td_Issuer deps, jc_Subject = ps,
     jc_Audience = (if ov_Audience ov \<noteq> [] then ov_Audience ov else if res \<noteq> [] then [res] else [td_Issuer deps]),
     jc_ExpiresAt = tokens_ExpiresIn now (ov_TTL ov), jc_Scope = sc, jc_AuthTime = at,
     jc_Confirmation = Confirmation (tb_DPoPJKT b) (tb_MTLSThumbprint b), jc_AuthorizationDetails = ad,
     jc_UserInfoClaims = userInfoClaimsRequest ov, jc_Extra = ov_Extra ov,
     jc_ACR = (case ov_Authorization ov of Some a \<Rightarrow> ax_ACR a | None \<Rightarrow> ov_ACR ov),
     jc_AMR = (case ov_Authorization ov of Some a \<Rightarrow> ax_AMR a | None \<Rightarrow> [])\<rparr>"
  show thesis
  proof (cases "SignAccessToken (td_SigningKey deps) ?claims")
    case (Inl e)
    then show thesis using Inr fails by (simp add: mintJWTAccessToken_def Let_def)
  next
    case (Inr tok)
    show thesis
      by (rule mints [of tok ?claims
            "\<lparr>at_JTI = jti, at_GrantID = g, at_Subject = rs, at_ClientID = c, at_Scopes = sc, at_IssuedAt = now,
              at_ExpiresAt = time_Unix (tokens_ExpiresIn now (ov_TTL ov)), at_Revoked = False\<rparr>"])
         (simp_all add: mintJWTAccessToken_def jwt_signed_def registers_def Inr \<open>random_id (me_accessID env) = Inr jti\<close> Let_def)
  qed
qed (use fails in \<open>simp add: mintJWTAccessToken_def\<close>)

lemma issueRefresh_eq:
  obtains (fails) e where "\<And>s. issueRefreshToken h deps env inp s = (Inl e, s)"
  | (none) "refreshDropReason deps inp \<noteq> []" and "\<And>s. issueRefreshToken h deps env inp s = (Inr [], s)"
  | (issues) tok t where "refreshDropReason deps inp = []" and "td_RefreshTokens deps"
      and "rt_ID t = tok" and "rt_ClientID t = cl_ID (ri_Client inp)" and "rt_Subject t = ri_Subject inp"
      and "rt_GrantID t = ri_GrantID inp" and "rt_Scope t = ri_Scope inp" and "rt_Origin t = ri_Origin inp"
      and "ri_ChainID inp \<noteq> [] \<Longrightarrow> rt_ChainID t = ri_ChainID inp" and "rt_ParentID t = None" and "rt_ConsumedAt t = None"
      and "\<not> rt_Revoked t"
      and "\<And>s. issueRefreshToken h deps env inp s =
         (case ro_Save (so_refresh h) (Some t) s of
            (Some e, s) \<Rightarrow> (Inl (TokenRefresh (ErrRefreshStore ''refresh: save'' e)), s) | (None, s) \<Rightarrow> (Inr tok, s))"
proof (cases "refreshDropReason deps inp = []")
  case pass: True
  let ?iss = "\<lparr>is_store = so_refresh h, is_ttl =
     (if pickRefreshTokenTTL deps (ri_Scope inp) \<le> 0 then RefreshTokenTTLDefault else pickRefreshTokenTTL deps (ri_Scope inp))\<rparr>"
  let ?in = "\<lparr>ii_ClientID = cl_ID (ri_Client inp), ii_Subject = ri_Subject inp, ii_GrantID = ri_GrantID inp,
     ii_Scope = ri_Scope inp, ii_Resource = ri_Resource inp, ii_ParentID = None,
     ii_Origin = ri_Origin inp, ii_SubjectPublic = ri_SubjectPublic inp,
     ii_AuthTime = TimeFromUnix (ax_AuthTime (ri_AuthCtx inp)), ii_ACR = ax_ACR (ri_AuthCtx inp),
     ii_AMR = ax_AMR (ri_AuthCtx inp),
     ii_AuthorizationDetails = ax_AuthorizationDetails (ri_AuthCtx inp),
     ii_AccessTokenExtra = ri_AccessTokenExtra inp, ii_Claims = ax_EncodedClaims (ri_AuthCtx inp),
     ii_AuthorizationRecorded = True,
     ii_DPoPJKT = refreshDPoPJKT (ri_Client inp) (tb_DPoPJKT (ri_Binding inp)),
     ii_MTLSCertThumbprint = tb_MTLSThumbprint (ri_Binding inp), ii_Nonce = ri_Nonce inp,
     ii_ChainID = ri_ChainID inp\<rparr>"
  show thesis
  proof (cases "td_RefreshTokens deps")
    case wired: True
    show thesis
    proof (cases "Issuer_Prepare ?iss (me_issuerNow env) (me_refreshID env) None ?in")
      case (Inl e)
      then show thesis using fails pass wired by (simp add: issueRefreshToken_def NewIssuer_def Issuer_Issue_def)
    next
      case (Inr r)
      then obtain tok t where prep: "Issuer_Prepare ?iss (me_issuerNow env) (me_refreshID env) None ?in = Inr (tok, t)"
        by (cases r) simp
      have "issueRefreshToken h deps env inp s =
         (case ro_Save (so_refresh h) (Some t) s of
            (Some e, s) \<Rightarrow> (Inl (TokenRefresh (ErrRefreshStore ''refresh: save'' e)), s) | (None, s) \<Rightarrow> (Inr tok, s))" for s
        using prep pass wired
        by (simp add: issueRefreshToken_def NewIssuer_def Issuer_Issue_def split: prod.split option.split)
      with pass wired Issuer_Prepare_Inr [OF prep] show thesis by (intro issues [of t tok]) simp_all
    qed
  qed (use fails pass in \<open>simp add: issueRefreshToken_def NewIssuer_def\<close>)
qed (use none in \<open>simp add: issueRefreshToken_def\<close>)

context token_stores
begin

lemma mint_fails:
  assumes "inv s" and "mintAccessToken h deps env rs ps c g sc res now at b ad ov s = (Inl e, s')"
  shows "inv s'" and "view s' = view s"
proof -
  have "inv s' \<and> view s' = view s" if "mintOpaqueAccessToken h deps env sub c g sc res now at b ad ov s = (Inl e, s')" for sub ov
  proof (rule mintOpaque_eq [of h deps env sub c g sc res now at b ad ov])
    fix raw row
    assume "\<And>s. mintOpaqueAccessToken h deps env sub c g sc res now at b ad ov s =
       (case so_opaqueSave h (Some row) s of (Some e, s) \<Rightarrow> (Inl (TokenStore e), s) | (None, s) \<Rightarrow> (Inr raw, s))"
    with that have err: "fst (so_opaqueSave h (Some row) s) \<noteq> None" and s': "s' = snd (so_opaqueSave h (Some row) s)"
      by (auto split: prod.splits option.splits)
    show ?thesis using opaque_save(2,3) [OF assms(1), of row] err by (simp only: s' if_False)
  qed (use that assms(1) in simp)
  moreover have "inv s' \<and> view s' = view s" if "mintJWTAccessToken h deps env rs ps c g sc res now at b ad ov s = (Inl e, s')" for ov
  proof (rule mintJWT_eq [of h deps env rs ps c g sc res now at b ad ov])
    fix tok claims row
    assume "\<And>s. mintJWTAccessToken h deps env rs ps c g sc res now at b ad ov s =
       (if registers deps
        then (case so_accessRegister h row s of (Some e, s) \<Rightarrow> (Inl (TokenStore e), s) | (None, s) \<Rightarrow> (Inr tok, s))
        else (Inr tok, s))"
    with that have err: "fst (so_accessRegister h row s) \<noteq> None" and s': "s' = snd (so_accessRegister h row s)"
      by (auto split: prod.splits option.splits if_splits)
    show ?thesis using register(2,3) [OF assms(1), of row] err by (simp only: s' if_False)
  qed (use that assms(1) in simp)
  ultimately show "inv s'" and "view s' = view s"
    using assms(2) by (auto simp: mint_cases Let_def split: if_splits)
qed

text \<open>
  A mint that succeeds adds one row: of the opaque token, of the registry when it is used, or none.
\<close>

lemma mint_succeeds:
  assumes "inv s" and "mintAccessToken h deps env rs ps c g sc res now at b ad ov s = (Inr tok, s')"
  shows "inv s'"
    and "\<not> ov_ForceJWT ov \<and> accessTokenFormat deps res = AccessTokenFormatOpaque \<Longrightarrow>
      td_OpaqueAccessTokens deps \<and> cv_opaque (view s) (hashKey tok) = None \<and>
      (\<exists>row. opaque_row deps tok (if g = [] then ps else rs) c g sc ov row
         \<and> view s' = (view s)\<lparr>cv_opaque := (cv_opaque (view s))(hashKey tok \<mapsto> row\<lparr>oa_ID := hashKey tok\<rparr>)\<rparr>)"
    and "\<not> (\<not> ov_ForceJWT ov \<and> accessTokenFormat deps res = AccessTokenFormatOpaque) \<Longrightarrow>
      \<exists>claims. jwt_signed deps tok ps c g sc now claims
        \<and> (\<exists>m. view s' = (view s)\<lparr>cv_access := m\<rparr> \<and> cv_access (view s) \<subseteq>\<^sub>m m)
        \<and> (registers deps \<longrightarrow> (\<exists>row. at_GrantID row = g \<and> cv_access (view s') (jc_JTI claims) = Some row))"
proof -
  have opq: "inv s' \<and> td_OpaqueAccessTokens deps \<and> cv_opaque (view s) (hashKey tok) = None \<and>
      (\<exists>row. opaque_row deps tok sub c g sc ov row
         \<and> view s' = (view s)\<lparr>cv_opaque := (cv_opaque (view s))(hashKey tok \<mapsto> row\<lparr>oa_ID := hashKey tok\<rparr>)\<rparr>)"
    if run: "mintOpaqueAccessToken h deps env sub c g sc res now at b ad ov s = (Inr tok, s')" for sub ov
  proof (rule mintOpaque_eq [of h deps env sub c g sc res now at b ad ov])
    fix raw row
    assume wired: "td_OpaqueAccessTokens deps" and row: "oa_ID row = raw" "raw \<noteq> [] \<Longrightarrow> opaque_row deps raw sub c g sc ov row"
      and "\<And>s. mintOpaqueAccessToken h deps env sub c g sc res now at b ad ov s =
       (case so_opaqueSave h (Some row) s of (Some e, s) \<Rightarrow> (Inl (TokenStore e), s) | (None, s) \<Rightarrow> (Inr raw, s))"
    with run have ok: "fst (so_opaqueSave h (Some row) s) = None" and s': "s' = snd (so_opaqueSave h (Some row) s)" and tok: "tok = raw"
      by (auto split: prod.splits option.splits)
    note sv = opaque_save [OF assms(1), of row]
    from ok sv(1) row(1) tok have fresh: "tok \<noteq> []" "cv_opaque (view s) (hashKey tok) = None" by (auto split: if_splits)
    have "view s' = (view s)\<lparr>cv_opaque := (cv_opaque (view s))(hashKey tok \<mapsto> row\<lparr>oa_ID := hashKey tok\<rparr>)\<rparr>"
      using sv(2) ok by (simp add: s' row(1) tok)
    with sv(3) wired row(2) fresh tok show ?thesis by (auto simp: s')
  qed (use run in simp)
  have jwt: "inv s' \<and> (\<exists>claims. jwt_signed deps tok ps c g sc now claims
        \<and> (\<exists>m. view s' = (view s)\<lparr>cv_access := m\<rparr> \<and> cv_access (view s) \<subseteq>\<^sub>m m)
        \<and> (registers deps \<longrightarrow> (\<exists>row. at_GrantID row = g \<and> cv_access (view s') (jc_JTI claims) = Some row)))"
    if run: "mintJWTAccessToken h deps env rs ps c g sc res now at b ad ov s = (Inr tok, s')" for ov
  proof (rule mintJWT_eq [of h deps env rs ps c g sc res now at b ad ov])
    fix t claims row
    assume row: "jwt_signed deps t ps c g sc now claims" "at_JTI row = jc_JTI claims" "at_GrantID row = g"
      and eq: "\<And>s. mintJWTAccessToken h deps env rs ps c g sc res now at b ad ov s =
       (if registers deps
        then (case so_accessRegister h row s of (Some e, s) \<Rightarrow> (Inl (TokenStore e), s) | (None, s) \<Rightarrow> (Inr t, s))
        else (Inr t, s))"
    show ?thesis
    proof (cases "registers deps")
      case True
      with run eq have ok: "fst (so_accessRegister h row s) = None" and s': "s' = snd (so_accessRegister h row s)" and tok: "tok = t"
        by (auto split: prod.splits option.splits)
      note rg = register [OF assms(1), of row]
      from ok rg(1) have "cv_access (view s) (jc_JTI claims) = None" by (auto simp: row(2) split: if_splits)
      moreover have "view s' = (view s)\<lparr>cv_access := (cv_access (view s))(jc_JTI claims \<mapsto> row)\<rparr>"
        using rg(2) ok by (simp add: s' row(2))
      ultimately show ?thesis using rg(3) row tok
        by (intro conjI exI [of _ claims] exI [of _ "(cv_access (view s))(jc_JTI claims \<mapsto> row)"])
           (auto simp: s' map_le_def dom_def)
    next
      case False
      with run eq have "s' = s" "tok = t" by auto
      with assms(1) row(1) False show ?thesis
        by (intro conjI exI [of _ claims] exI [of _ "cv_access (view s)"]) simp_all
    qed
  qed (use run in simp)
  let ?ov = "if ov_TTL ov \<le> 0 then ov\<lparr>ov_TTL := td_AccessTokenTTL deps\<rparr> else ov"
  have ov: "ov_ForceJWT ?ov = ov_ForceJWT ov" "opaque_row deps tok sub c g sc ?ov row = opaque_row deps tok sub c g sc ov row" for sub row
    by (simp_all add: opaque_row_def)
  show "inv s'" using assms(2) opq jwt by (auto simp: mint_cases Let_def split: if_splits)
  show "td_OpaqueAccessTokens deps \<and> cv_opaque (view s) (hashKey tok) = None \<and>
      (\<exists>row. opaque_row deps tok (if g = [] then ps else rs) c g sc ov row
         \<and> view s' = (view s)\<lparr>cv_opaque := (cv_opaque (view s))(hashKey tok \<mapsto> row\<lparr>oa_ID := hashKey tok\<rparr>)\<rparr>)"
    if "\<not> ov_ForceJWT ov \<and> accessTokenFormat deps res = AccessTokenFormatOpaque"
    using opq [of "if g = [] then ps else rs" ?ov] that assms(2) by (simp only: mint_cases Let_def ov if_True) simp
  show "\<exists>claims. jwt_signed deps tok ps c g sc now claims
        \<and> (\<exists>m. view s' = (view s)\<lparr>cv_access := m\<rparr> \<and> cv_access (view s) \<subseteq>\<^sub>m m)
        \<and> (registers deps \<longrightarrow> (\<exists>row. at_GrantID row = g \<and> cv_access (view s') (jc_JTI claims) = Some row))"
    if "\<not> (\<not> ov_ForceJWT ov \<and> accessTokenFormat deps res = AccessTokenFormatOpaque)"
    using jwt [of ?ov] that assms(2) by (simp only: mint_cases Let_def ov if_False)
qed

end


section \<open>What a mint does to the store\<close>

lemma direct_saves [simp]:
  "so_grantSave direct_stores gr s =
     (fst (grantStore_Save gr (st_grants s)), s\<lparr>st_grants := snd (grantStore_Save gr (st_grants s))\<rparr>)"
  "so_grantFind direct_stores i s = grantStore_Find i (st_grants s)"
  "so_accessRegister direct_stores r s =
     (fst (accessTokenStore_Register r (st_accessTokens s)),
      s\<lparr>st_accessTokens := snd (accessTokenStore_Register r (st_accessTokens s))\<rparr>)"
  "so_opaqueSave direct_stores t s =
     (fst (opaqueAccessTokenStore_Save t (st_opaqueAccessTokens s)),
      s\<lparr>st_opaqueAccessTokens := snd (opaqueAccessTokenStore_Save t (st_opaqueAccessTokens s))\<rparr>)"
  "ro_Save (so_refresh direct_stores) u s =
     (fst (refreshStore_Save u (st_refreshes s)), s\<lparr>st_refreshes := snd (refreshStore_Save u (st_refreshes s))\<rparr>)"
  "so_IsIssuanceRevoked direct_stores g iat s = grantRevocationStore_IsIssuanceRevoked g iat (st_grantRevocations s)"
  by (simp_all add: direct_stores_def via_def case_prod_beta)

lemma mintJWT_Inl: "mintJWTAccessToken direct_stores deps env rs ps c g sc res now at b ad ov s = (Inl e, s') \<Longrightarrow> s' = s"
  by (auto simp: mintJWTAccessToken_def accessTokenStore_Register_def Let_def split: sum.splits if_splits option.splits)

lemma mintOpaque_Inl: "mintOpaqueAccessToken direct_stores deps env sub c g sc res now at b ad ov s = (Inl e, s') \<Longrightarrow> s' = s"
  by (auto simp: mintOpaqueAccessToken_def opaqueAccessTokenStore_Save_def Let_def split: sum.splits if_splits option.splits)

lemma mint_Inl: "mintAccessToken direct_stores deps env rs ps c g sc res now at b ad ov s = (Inl e, s') \<Longrightarrow> s' = s"
  by (auto simp: mintAccessToken_def Let_def dest: mintJWT_Inl mintOpaque_Inl split: AccessTokenFormat.splits if_splits)

text \<open>A minted JWT: its claims, and under the registry strategy its row.\<close>

lemma mintJWT_Inr:
  assumes "mintJWTAccessToken direct_stores deps env rs ps c g sc res now at b ad ov s = (Inr tok, s')"
  obtains claims where "SignAccessToken (td_SigningKey deps) claims = Inr tok" and "jc_GrantID claims = g"
    and "jc_ClientID claims = c" and "jc_IssuedAt claims = Time_Unix now" and "jc_Scope claims = sc"
    and "\<not> (td_RevocationStrategy deps = RevocationStrategyJTIRegistry \<and> td_AccessTokens deps) \<Longrightarrow> s' = s"
    and "td_RevocationStrategy deps = RevocationStrategyJTIRegistry \<Longrightarrow> td_AccessTokens deps \<Longrightarrow>
      \<exists>row. at_GrantID row = g \<and> jc_JTI claims \<noteq> [] \<and> at_JTI row = jc_JTI claims
        \<and> s' = direct_exec (DAccess (ARegister row)) s
        \<and> fmlookup (ats_m (st_accessTokens s')) (jc_JTI claims) = Some row"
proof -
  from assms obtain jti where jti: "random_id (me_accessID env) = Inr jti"
    by (auto simp: mintJWTAccessToken_def split: sum.splits)
  let ?claims = "\<lparr>jc_ClientID = c, jc_GrantID = g, jc_JTI = jti, jc_IssuedAt = Time_Unix now,
     jc_Issuer = td_Issuer deps, jc_Subject = ps,
     jc_Audience = (if ov_Audience ov \<noteq> [] then ov_Audience ov else if res \<noteq> [] then [res] else [td_Issuer deps]),
     jc_ExpiresAt = tokens_ExpiresIn now (ov_TTL ov), jc_Scope = sc, jc_AuthTime = at,
     jc_Confirmation = Confirmation (tb_DPoPJKT b) (tb_MTLSThumbprint b), jc_AuthorizationDetails = ad,
     jc_UserInfoClaims = userInfoClaimsRequest ov, jc_Extra = ov_Extra ov,
     jc_ACR = (case ov_Authorization ov of Some a \<Rightarrow> ax_ACR a | None \<Rightarrow> ov_ACR ov),
     jc_AMR = (case ov_Authorization ov of Some a \<Rightarrow> ax_AMR a | None \<Rightarrow> [])\<rparr>"
  let ?row = "\<lparr>at_JTI = jti, at_GrantID = g, at_Subject = rs, at_ClientID = c, at_Scopes = sc, at_IssuedAt = now,
     at_ExpiresAt = time_Unix (tokens_ExpiresIn now (ov_TTL ov)), at_Revoked = False\<rparr>"
  have signed: "SignAccessToken (td_SigningKey deps) ?claims = Inr tok"
    using assms jti by (auto simp: mintJWTAccessToken_def Let_def split: sum.splits if_splits option.splits prod.splits)
  have plain: "s' = s" if "\<not> (td_RevocationStrategy deps = RevocationStrategyJTIRegistry \<and> td_AccessTokens deps)"
    using assms jti that signed by (auto simp: mintJWTAccessToken_def Let_def)
  have row: "jti \<noteq> [] \<and> s' = direct_exec (DAccess (ARegister ?row)) s
      \<and> fmlookup (ats_m (st_accessTokens s')) jti = Some ?row"
    if "td_RevocationStrategy deps = RevocationStrategyJTIRegistry" "td_AccessTokens deps"
    using assms jti that signed
    by (auto simp: mintJWTAccessToken_def accessTokenStore_Register_def Let_def split: if_splits)
  show thesis
    by (rule that [of ?claims]) (use signed plain row in \<open>auto simp del: direct_exec.simps\<close>)
qed

lemma mintOpaque_Inr:
  assumes "mintOpaqueAccessToken direct_stores deps env sub c g sc res now at b ad ov s = (Inr tok, s')"
  obtains row where "tok \<noteq> []" and "fmlookup (oas_m (st_opaqueAccessTokens s)) (hashKey tok) = None"
    and "oa_ID row = tok" and "oa_GrantID row = g" and "oa_Subject row = sub" and "oa_ClientID row = c" and "oa_Scope row = sc"
    and "oa_ChainID row = ov_ChainID ov" and "\<not> oa_Revoked row" and "td_OpaqueAccessTokens deps"
    and "s' = direct_exec (DOpaque (OSave (Some row))) s"
    and "oas_m (st_opaqueAccessTokens s') = fmupd (hashKey tok) (row\<lparr>oa_ID := hashKey tok\<rparr>) (oas_m (st_opaqueAccessTokens s))"
proof -
  from assms obtain raw where raw: "MintOpaqueAccessToken (me_accessID env) = Inr raw" "td_OpaqueAccessTokens deps"
    by (auto simp: mintOpaqueAccessToken_def split: sum.splits if_splits)
  let ?row = "\<lparr>oa_ID = raw, oa_GrantID = g, oa_Subject = sub, oa_ClientID = c, oa_Scope = sc,
     oa_Audience = (if res \<noteq> [] then res else td_Issuer deps),
     oa_ACR = (case ov_Authorization ov of Some a \<Rightarrow> ax_ACR a | None \<Rightarrow> ov_ACR ov),
     oa_AMR = (case ov_Authorization ov of Some a \<Rightarrow> ax_AMR a | None \<Rightarrow> []),
     oa_AuthTime = TimeFromUnix at, oa_AuthorizationDetails = ad,
     oa_Claims = (case ov_Authorization ov of Some a \<Rightarrow> ax_EncodedClaims a | None \<Rightarrow> []),
     oa_AuthorizationRecorded = True, oa_DPoPJKT = tb_DPoPJKT b, oa_MTLSCertThumbprint = tb_MTLSThumbprint b,
     oa_ChainID = ov_ChainID ov, oa_IssuedAt = now, oa_ExpiresAt = time_Unix (tokens_ExpiresIn now (ov_TTL ov)),
     oa_Revoked = False\<rparr>"
  have tok: "tok = raw" "tok \<noteq> []" "fmlookup (oas_m (st_opaqueAccessTokens s)) (hashKey tok) = None"
    "s' = direct_exec (DOpaque (OSave (Some ?row))) s"
    "oas_m (st_opaqueAccessTokens s') = fmupd (hashKey tok) (?row\<lparr>oa_ID := hashKey tok\<rparr>) (oas_m (st_opaqueAccessTokens s))"
    using assms raw
    by (auto simp: mintOpaqueAccessToken_def opaqueAccessTokenStore_Save_def Let_def split: if_splits)
  show thesis
    by (rule that [of ?row]) (use tok raw(2) in \<open>auto simp del: direct_exec.simps\<close>)
qed

lemma issueRefreshToken_Inl:
  assumes "issueRefreshToken direct_stores deps env inp s = (Inl e, s')"
  shows "s' = s"
proof (rule issueRefresh_eq [of direct_stores deps env inp])
  fix tok t
  assume "\<And>s. issueRefreshToken direct_stores deps env inp s =
     (case ro_Save (so_refresh direct_stores) (Some t) s of
        (Some e, s) \<Rightarrow> (Inl (TokenRefresh (ErrRefreshStore ''refresh: save'' e)), s) | (None, s) \<Rightarrow> (Inr tok, s))"
  with assms show ?thesis by (auto simp: refreshStore_Save_def Let_def split: option.splits if_splits)
qed (use assms in auto)

lemma refreshStore_Save_None:
  assumes "fst (refreshStore_Save (Some t) rs) = None"
  shows "tokens_of rs (hashKey (rt_ID t)) = None"
    and "tokens_of (snd (refreshStore_Save (Some t) rs)) = (tokens_of rs)(hashKey (rt_ID t) \<mapsto> storeRefresh t (hashKey (rt_ID t)))"
  using assms
  by (auto simp: refreshStore_Save_def refreshStore_indexRefreshLocked_def Let_def fmlookup_fmupd_fun
      split: if_splits option.splits)

text \<open>An issued refresh token: the gates it passed and its record.\<close>

lemma issueRefreshToken_Inr:
  assumes "issueRefreshToken direct_stores deps env inp s = (Inr tok, s')" and "tok \<noteq> []"
  obtains t where "rt_ID t = tok" and "rt_ClientID t = cl_ID (ri_Client inp)" and "rt_Subject t = ri_Subject inp"
    and "rt_GrantID t = ri_GrantID inp" and "rt_Scope t = ri_Scope inp" and "rt_Origin t = ri_Origin inp"
    and "ri_ChainID inp \<noteq> [] \<Longrightarrow> rt_ChainID t = ri_ChainID inp" and "rt_ParentID t = None" and "rt_ConsumedAt t = None" and "\<not> rt_Revoked t"
    and "tokens_of (st_refreshes s) (hashKey tok) = None" and "td_RefreshTokens deps"
    and "refreshDropReason deps inp = []"
    and "s' = direct_exec (DRefresh (RSave (Some t))) s"
    and "tokens_of (st_refreshes s') = (tokens_of (st_refreshes s))(hashKey tok \<mapsto> storeRefresh t (hashKey tok))"
proof (rule issueRefresh_eq [of direct_stores deps env inp])
  fix i t
  assume t: "refreshDropReason deps inp = []" "td_RefreshTokens deps"
      "rt_ID t = i" "rt_ClientID t = cl_ID (ri_Client inp)" "rt_Subject t = ri_Subject inp"
      "rt_GrantID t = ri_GrantID inp" "rt_Scope t = ri_Scope inp" "rt_Origin t = ri_Origin inp"
      "ri_ChainID inp \<noteq> [] \<Longrightarrow> rt_ChainID t = ri_ChainID inp" "rt_ParentID t = None" "rt_ConsumedAt t = None" "\<not> rt_Revoked t"
    and "\<And>s. issueRefreshToken direct_stores deps env inp s =
     (case ro_Save (so_refresh direct_stores) (Some t) s of
        (Some e, s) \<Rightarrow> (Inl (TokenRefresh (ErrRefreshStore ''refresh: save'' e)), s) | (None, s) \<Rightarrow> (Inr i, s))"
  then have run: "tok = i" "s' = s\<lparr>st_refreshes := snd (refreshStore_Save (Some t) (st_refreshes s))\<rparr>"
    "fst (refreshStore_Save (Some t) (st_refreshes s)) = None"
    using assms(1) by (auto split: option.splits)
  note row = refreshStore_Save_None [OF run(3)]
  show thesis by (rule that [of t]) (use t run row in simp_all)
qed (use assms in auto)


section \<open>A deployment\<close>

text \<open>
  An endpoint whose signer names the type and the JTI of what it signs and whose id_tokens are
  encrypted; \<open>fmt\<close> is the format of its access tokens and \<open>idt\<close> the outcome of the encryption.
\<close>

definition sample_tokens :: "AccessTokenFormat \<Rightarrow> token_err + string \<Rightarrow> tokenDeps" where
  "sample_tokens fmt idt =
     \<lparr>td_Issuer = ''https://op'', td_AccessTokenTTL = hour, td_IDTokenTTL = hour, td_RefreshTokenTTL = 24 * hour,
      td_RefreshTokenOfflineTTL = 0, td_RefreshTokenGraceTTL = 0, td_RefreshTokenRotationDisabled = False,
      td_RefreshRetryEncryptionKeys = None, td_StrictOfflineAccess = False, td_OpenIDScopeOptional = False,
      td_GrantManagementEnabled = True, td_ClaimsParameterEnabled = True, td_RequireSenderConstrainedTokens = False,
      td_EnabledGrants = None, td_Scopes = None, td_IDTokenScopeClaims = [], td_CustomScopeClaims = [],
      td_RevocationStrategy = RevocationStrategyGrantTombstone, td_AccessTokenFormatFor = Some (\<lambda>_. fmt),
      td_SubjectProjector = None, td_UserStore = None,
      td_SigningKey = \<lparr>sk_Signer = Some (\<lambda>typ p. Inr (typ @ '':'' @ (case p ''jti'' of Some (JString j) \<Rightarrow> j | _ \<Rightarrow> []))),
                       sk_Alg = ''ES256''\<rparr>,
      td_ClientEncJWKs = Some (\<lambda>_ _. idt), td_DPoP = True, td_MTLS = False, td_Transactions = True, td_Codes = True,
      td_Grants = True, td_RefreshTokens = True, td_OpaqueAccessTokens = True, td_AccessTokens = True,
      td_GrantRevocations = True\<rparr>"

definition sample_env :: mint_env where
  "sample_env =
     \<lparr>me_now = 14 * second, me_grantNow = 14 * second, me_issuerNow = 14 * second, me_teardownNow = 15 * second,
      me_storeNow = 15 * second, me_grantID = Some [1], me_chainID = Some [2], me_accessID = Some [3],
      me_refreshID = Some [4]\<rparr>"

lemma base64_nonempty: "bs \<noteq> [] \<Longrightarrow> base64_RawURL bs \<noteq> []"
  using length_base64_RawURL [of bs] by (cases bs) (auto simp del: length_0_conv)


section \<open>A grant that was torn down\<close>

lemma grantTeardown_sel [simp]:
  "rv_RefreshTokens (grantTeardown deps env r) = td_RefreshTokens deps"
  "rv_OpaqueAccessTokens (grantTeardown deps env r) = td_OpaqueAccessTokens deps"
  "rv_AccessTokens (grantTeardown deps env r) = td_AccessTokens deps"
  "rv_GrantRevocations (grantTeardown deps env r) = td_GrantRevocations deps"
  "rv_Strategy (grantTeardown deps env r) = td_RevocationStrategy deps"
  "rv_Now (grantTeardown deps env r) = me_teardownNow env"
  by (simp_all add: grantTeardown_def NewRevoker_def)

text \<open>
  A dead grant: every refresh token and every opaque access token of it is revoked, and it is closed to
  issuance for every authorization made up to \<open>now\<close>.
\<close>

definition grant_dead :: "string \<Rightarrow> time \<Rightarrow> inmem_Store \<Rightarrow> bool" where
  "grant_dead g now s \<longleftrightarrow>
     (\<forall>k t. tokens_of (st_refreshes s) k = Some t \<longrightarrow> rt_GrantID t = g \<longrightarrow> rt_Revoked t)
   \<and> (\<forall>k row. fmlookup (oas_m (st_opaqueAccessTokens s)) k = Some row \<longrightarrow> oa_GrantID row = g \<longrightarrow> oa_Revoked row)
   \<and> (\<forall>t \<le> now. grantRevocationStore_IsIssuanceRevoked g t (st_grantRevocations s) = (True, None))"

lemma whole_grant_dead:
  assumes "substores_reachable s" and "g \<noteq> []" and "td_RefreshTokens deps" and "td_OpaqueAccessTokens deps"
    and "td_GrantRevocations deps" and "0 < me_teardownNow env"
  shows "grant_dead g (me_teardownNow env) (snd (Revoker_Run direct_stores (grantTeardown deps env reason) snow (WholeGrant g) s))"
proof -
  let ?r = "grantTeardown deps env reason"
  obtain out s' where run: "Revoker_Run direct_stores ?r snow (WholeGrant g) s = (out, s')" by fastforce
  note inv = substores_inv [OF assms(1)]
  note st = whole_grant_state [OF assms(2) _ _ _ run, unfolded grantTeardown_sel, OF assms(3-5)]
  show ?thesis
    using refresh_grant_revoked [OF inv(1) assms(2)] opaque_grant_revoked [OF inv(3) assms(2)] st(2,3)
      whole_grant_closed(2) [OF assms(2) _ _ st(5)] assms(6)
    by (auto simp: grant_dead_def run)
qed

end
