(* ===== verification/Issuance.thy ===== *)
theory Issuance
  imports TokenMint
begin

text \<open>
  The response of a polling grant: the assembly and the roll-back of \<^verbatim>\<open>internal/tokenendpoint/pollgrant.go\<close>
  over the substores, and the parameters of the device and CIBA handlers given by them.

  The lemmas show that what is issued hangs together, that a failed assembly leaves nothing that works,
  that a revocation racing the poll wins, and that a teardown of the grant reaches everything the mint
  produced.
\<close>


section \<open>A polled response\<close>

record preparedPolledResponse =
  pp_response :: successResponse
  pp_opaque :: bool
  pp_grantID :: string
  pp_discardOnClean :: bool

definition preparedPolledResponse_issuedUnder :: "preparedPolledResponse \<Rightarrow> time \<Rightarrow> issuedUnderGrant" where
  "preparedPolledResponse_issuedUnder p issuedAt =
     \<lparr>iu_GrantID = pp_grantID p, iu_IssuedAt = issuedAt, iu_AccessToken = sr_AccessToken (pp_response p),
      iu_RefreshToken = sr_RefreshToken (pp_response p)\<rparr>"

definition preparedPolledResponse_cleanup ::
  "'s stores \<Rightarrow> tokenDeps \<Rightarrow> mint_env \<Rightarrow> preparedPolledResponse \<Rightarrow> 's \<Rightarrow> 's" where
  "preparedPolledResponse_cleanup h deps env p s =
     (let s = cleanupPreparedCredentials h deps env (sr_AccessToken (pp_response p)) (sr_RefreshToken (pp_response p))
                (pp_opaque p) s
      in if pp_discardOnClean p then discardGrant h deps (pp_grantID p) s else s)"

definition resourceOf :: "string list \<Rightarrow> string" where
  "resourceOf audience = (case audience of [] \<Rightarrow> [] | a # _ \<Rightarrow> a)"

definition rollbackPolledResponse ::
  "'s stores \<Rightarrow> tokenDeps \<Rightarrow> mint_env \<Rightarrow> polledIssuance \<Rightarrow> string \<Rightarrow> string \<Rightarrow> string \<Rightarrow> AccessTokenFormat \<Rightarrow> 's \<Rightarrow> 's" where
  "rollbackPolledResponse h deps env opt grantID accessToken refreshToken format s =
     (let s = cleanupPreparedCredentials h deps env accessToken refreshToken (format = AccessTokenFormatOpaque) s
      in if pis_DiscardGrantOnFailure opt then discardGrant h deps grantID s else s)"

text \<open>
  The assembly after the grant was recorded: the credentials minted so far come back with an error, for
  the deferred roll-back.
\<close>

definition polledRefreshIssuance ::
  "tokenDeps \<Rightarrow> Client \<Rightarrow> polledRedemption \<Rightarrow> tokenBinding \<Rightarrow> polledIssuance \<Rightarrow> string \<Rightarrow> string \<Rightarrow> string \<Rightarrow> int \<Rightarrow>
     refreshIssuance" where
  "polledRefreshIssuance deps client red binding opt grantID resource chainID authTime =
     (builtinRefreshIssuance deps client)
       \<lparr>ri_Subject := red_Subject red, ri_GrantID := grantID, ri_Scope := red_Scope red, ri_Resource := resource,
        ri_Binding := binding, ri_Origin := pis_Origin opt, ri_ChainID := chainID,
        ri_AuthCtx := \<lparr>ax_AuthTime = authTime, ax_ACR = red_ACR red, ax_AMR = [], ax_Claims = None, ax_EncodedClaims = [],
                       ax_AuthorizationDetails = []\<rparr>\<rparr>"

record polledIDTokenInput =
  pid_Subject :: string
  pid_ClientID :: string
  pid_AccessToken :: string
  pid_Now :: time
  pid_AuthTime :: int
  pid_ACR :: string
  pid_Extra :: jobject

definition mintPolledIDToken :: "tokenDeps \<Rightarrow> polledIDTokenInput \<Rightarrow> token_err + string" where
  "mintPolledIDToken deps inp =
     (case HashForAlg (pid_AccessToken inp) (sk_Alg (td_SigningKey deps)) of
        Inl e \<Rightarrow> Inl e
      | Inr atHash \<Rightarrow>
          SignIDToken (td_SigningKey deps)
            ((Deps_idTokenClaims deps (pid_Subject inp) (pid_ClientID inp) (pid_Now inp))
               \<lparr>it_AtHash := atHash, it_AuthTime := pid_AuthTime inp, it_ACR := pid_ACR inp, it_Extra := pid_Extra inp\<rparr>))"

definition assemblePolledResponse ::
  "'s stores \<Rightarrow> tokenDeps \<Rightarrow> mint_env \<Rightarrow> Client \<Rightarrow> polledRedemption \<Rightarrow> User option \<Rightarrow> tokenBinding \<Rightarrow> polledIssuance \<Rightarrow> string \<Rightarrow> 's \<Rightarrow>
     ((token_err \<times> string) + preparedPolledResponse) \<times> 's" where
  "assemblePolledResponse h deps env client red user binding opt grantID s =
     (let resource = resourceOf (red_Audience red);
          authTime = UnixOrZero (red_AuthTime red)
      in case requireAuthTimeForIDToken client (red_Scope red) authTime of
           Some e \<Rightarrow> (Inl (e, []), s)
         | None \<Rightarrow>
      (case projectPublicSubject deps (red_Subject red) client of
           Inl e \<Rightarrow> (Inl (e, []), s)
         | Inr publicSubject \<Rightarrow>
      (case NewChainID (me_chainID env) of
           Inl e \<Rightarrow> (Inl (TokenRefresh e, []), s)
         | Inr chainID \<Rightarrow>
      (case mintAccessToken h deps env (red_Subject red) publicSubject (cl_ID client) grantID (red_Scope red) resource
              (me_now env) authTime binding []
              \<lparr>ov_TTL = 0, ov_Audience = [], ov_Extra = [], ov_ForceJWT = False, ov_Authorization = None,
               ov_ACR = red_ACR red, ov_ChainID = chainID\<rparr> s of
           (Inl e, s) \<Rightarrow> (Inl (e, []), s)
         | (Inr accessToken, s) \<Rightarrow>
      (case (if ContainsOpenID (red_Scope red)
             then (case mintPolledIDToken deps
                     \<lparr>pid_Subject = publicSubject, pid_ClientID = cl_ID client, pid_AccessToken = accessToken,
                      pid_Now = me_now env, pid_AuthTime = authTime, pid_ACR = red_ACR red,
                      pid_Extra = Deps_idTokenExtra deps user (red_Scope red) None\<rparr> of
                     Inl e \<Rightarrow> Inl e
                   | Inr jws \<Rightarrow> maybeEncryptIDToken deps client jws)
             else Inr []) of
           Inl e \<Rightarrow> (Inl (e, accessToken), s)
         | Inr idToken \<Rightarrow>
      (case issueRefreshToken h deps env
              (polledRefreshIssuance deps client red binding opt grantID resource chainID authTime) s of
           (Inl e, s) \<Rightarrow> (Inl (e, accessToken), s)
         | (Inr refreshToken, s) \<Rightarrow>
             (Inr \<lparr>pp_response =
                     \<lparr>sr_AccessToken = accessToken, sr_TokenType = tokenBinding_tokenTypeFor binding,
                      sr_ExpiresIn = whole_seconds (td_AccessTokenTTL deps), sr_RefreshToken = refreshToken,
                      sr_IDToken = idToken, sr_Scope = scope_Join (red_Scope red), sr_AuthorizationDetails = [],
                      sr_GrantID = grantIDForResponse deps grantID\<rparr>,
                   pp_opaque = (accessTokenFormat deps resource = AccessTokenFormatOpaque),
                   pp_grantID = grantID, pp_discardOnClean = pis_DiscardGrantOnFailure opt\<rparr>, s)))))))"

definition preparePolledResponse ::
  "'s stores \<Rightarrow> tokenDeps \<Rightarrow> mint_env \<Rightarrow> Client \<Rightarrow> polledRedemption \<Rightarrow> User option \<Rightarrow> tokenBinding \<Rightarrow> polledIssuance \<Rightarrow> 's \<Rightarrow>
     (token_err + preparedPolledResponse) \<times> 's" where
  "preparePolledResponse h deps env client red user binding opt s =
     (case newGrantID h deps env
             \<lparr>gi_Lineage = grantLineageConsent,
              gi_Grant = \<lparr>gr_ID = pis_GrantID opt, gr_Subject = red_Subject red, gr_ClientID = cl_ID client,
                gr_Scope = red_Scope red, gr_Claims = [], gr_AuthTime = red_AuthTime red, gr_ACR = red_ACR red,
                gr_AMR = [], gr_AuthorizationDetails = [], gr_CreatedAt = zero_time, gr_UpdatedAt = zero_time\<rparr>,
              gi_InheritedID = []\<rparr> s of
        (Inl e, s) \<Rightarrow> (Inl e, s)
      | (Inr grantID, s) \<Rightarrow>
          (case assemblePolledResponse h deps env client red user binding opt grantID s of
             (Inr p, s) \<Rightarrow> (Inr p, s)
           | (Inl (e, accessToken), s) \<Rightarrow>
               (Inl e, rollbackPolledResponse h deps env opt grantID accessToken []
                  (accessTokenFormat deps (resourceOf (red_Audience red))) s)))"

text \<open>
  The parameters of the polling handlers, given by these functions. The user record a handler passes on
  is the one the directory returned for the subject of the redemption.
\<close>

definition polled_deps ::
  "tokenDeps \<Rightarrow> mint_env \<Rightarrow> 8 word \<Rightarrow> (inmem_Store, preparedPolledResponse) poll_deps" where
  "polled_deps deps env maxViolations =
     \<lparr>pd_wired = True, pd_Scopes = td_Scopes deps, pd_CIBAMaxPollViolations = maxViolations,
      pd_lookupLiveSubject = (\<lambda>subject s. snd (lookupLiveSubject deps subject)),
      pd_prepare = (\<lambda>client red binding opt s.
        case preparePolledResponse direct_stores deps env client red (fst (lookupLiveSubject deps (red_Subject red))) binding opt s of
          (Inl _, s) \<Rightarrow> (None, s) | (Inr p, s) \<Rightarrow> (Some p, s)),
      pd_cleanup = preparedPolledResponse_cleanup direct_stores deps env,
      pd_refuseClosed = (\<lambda>p issuedAt description s.
        refuseIssuanceUnderClosedGrant direct_stores deps env (preparedPolledResponse_issuedUnder p issuedAt) description s)\<rparr>"




section \<open>What the assembly does\<close>

abbreviation polled_overrides :: "polledRedemption \<Rightarrow> string \<Rightarrow> accessTokenOverrides" where
  "polled_overrides red chainID \<equiv>
     \<lparr>ov_TTL = 0, ov_Audience = [], ov_Extra = [], ov_ForceJWT = False, ov_Authorization = None,
      ov_ACR = red_ACR red, ov_ChainID = chainID\<rparr>"

abbreviation polled_mint ::
  "tokenDeps \<Rightarrow> mint_env \<Rightarrow> Client \<Rightarrow> polledRedemption \<Rightarrow> tokenBinding \<Rightarrow> string \<Rightarrow> string \<Rightarrow> string \<Rightarrow> inmem_Store \<Rightarrow>
     (token_err + string) \<times> inmem_Store" where
  "polled_mint deps env client red binding grantID ps chainID s \<equiv>
     mintAccessToken direct_stores deps env (red_Subject red) ps (cl_ID client) grantID (red_Scope red) (resourceOf (red_Audience red))
       (me_now env) (UnixOrZero (red_AuthTime red)) binding [] (polled_overrides red chainID) s"

lemma assemble_Inl:
  assumes "assemblePolledResponse direct_stores deps env client red user binding opt g s = (Inl (e, acc), s')"
  shows "(acc = [] \<and> s' = s) \<or> (\<exists>ps ch. polled_mint deps env client red binding g ps ch s = (Inr acc, s'))"
  using assms
  by (auto simp: assemblePolledResponse_def Let_def dest: mint_Inl issueRefreshToken_Inl
      split: option.splits sum.splits prod.splits if_splits)

lemma assemble_Inr:
  assumes "assemblePolledResponse direct_stores deps env client red user binding opt g s = (Inr p, s')"
  obtains ps ch s1 where "polled_mint deps env client red binding g ps ch s = (Inr (sr_AccessToken (pp_response p)), s1)"
    and "issueRefreshToken direct_stores deps env (polledRefreshIssuance deps client red binding opt g (resourceOf (red_Audience red)) ch
           (UnixOrZero (red_AuthTime red))) s1 = (Inr (sr_RefreshToken (pp_response p)), s')"
    and "pp_opaque p = (accessTokenFormat deps (resourceOf (red_Audience red)) = AccessTokenFormatOpaque)"
    and "pp_grantID p = g" and "pp_discardOnClean p = pis_DiscardGrantOnFailure opt"
  using assms
  by (auto simp: assemblePolledResponse_def Let_def split: option.splits sum.splits prod.splits if_splits)

text \<open>The format decides which of the two mints ran.\<close>

lemma polled_mint_opaque:
  assumes "polled_mint deps env client red binding g ps ch s = (Inr tok, s')"
    and "accessTokenFormat deps (resourceOf (red_Audience red)) = AccessTokenFormatOpaque"
  obtains row where "tok \<noteq> []" and "fmlookup (oas_m (st_opaqueAccessTokens s)) (hashKey tok) = None"
    and "oa_GrantID row = g" and "g \<noteq> [] \<Longrightarrow> oa_Subject row = red_Subject red" and "oa_ClientID row = cl_ID client"
    and "oa_Scope row = red_Scope red" and "oa_ChainID row = ch" and "\<not> oa_Revoked row"
    and "s' = direct_exec (DOpaque (OSave (Some row))) s" and "td_OpaqueAccessTokens deps"
    and "oas_m (st_opaqueAccessTokens s') = fmupd (hashKey tok) (row\<lparr>oa_ID := hashKey tok\<rparr>) (oas_m (st_opaqueAccessTokens s))"
proof -
  from assms have "mintOpaqueAccessToken direct_stores deps env (if g = [] then ps else red_Subject red) (cl_ID client) g (red_Scope red)
      (resourceOf (red_Audience red)) (me_now env) (UnixOrZero (red_AuthTime red)) binding []
      ((polled_overrides red ch)\<lparr>ov_TTL := td_AccessTokenTTL deps\<rparr>) s = (Inr tok, s')"
    by (simp add: mintAccessToken_def)
  then show thesis by (rule mintOpaque_Inr) (rule that, simp_all)
qed

lemma polled_mint_jwt:
  assumes "polled_mint deps env client red binding g ps ch s = (Inr tok, s')"
    and "accessTokenFormat deps (resourceOf (red_Audience red)) \<noteq> AccessTokenFormatOpaque"
  shows "st_refreshes s' = st_refreshes s" "st_grants s' = st_grants s" "st_opaqueAccessTokens s' = st_opaqueAccessTokens s"
    "st_grantRevocations s' = st_grantRevocations s" "st_authCodes s' = st_authCodes s"
proof -
  from assms have "mintJWTAccessToken direct_stores deps env (red_Subject red) ps (cl_ID client) g (red_Scope red)
      (resourceOf (red_Audience red)) (me_now env) (UnixOrZero (red_AuthTime red)) binding []
      ((polled_overrides red ch)\<lparr>ov_TTL := td_AccessTokenTTL deps\<rparr>) s = (Inr tok, s')"
    by (cases "accessTokenFormat deps (resourceOf (red_Audience red))") (simp_all add: mintAccessToken_def)
  then show "st_refreshes s' = st_refreshes s" "st_grants s' = st_grants s" "st_opaqueAccessTokens s' = st_opaqueAccessTokens s"
    "st_grantRevocations s' = st_grantRevocations s" "st_authCodes s' = st_authCodes s"
    by (auto simp: mintJWTAccessToken_def Let_def split: sum.splits if_splits prod.splits option.splits)
qed


section \<open>The grant record\<close>

lemma saveConsentGrant_eq:
  "saveConsentGrant direct_stores deps env g s =
     (if \<not> td_Grants deps then (Inl (TokenMsg ''tokenendpoint: no grant store to record the grant in''), s)
      else case (if gr_ID g \<noteq> [] then Inr (gr_ID g) else random_id (me_grantID env)) of
             Inl e \<Rightarrow> (Inl e, s)
           | Inr i \<Rightarrow> (Inr i, s\<lparr>st_grants := (st_grants s)\<lparr>gs_m := fmupd i
               (g\<lparr>gr_ID := i, gr_CreatedAt := me_grantNow env, gr_UpdatedAt := me_grantNow env\<rparr>) (gs_m (st_grants s))\<rparr>\<rparr>))"
  by (auto simp: saveConsentGrant_def grantStore_Save_def Let_def split: sum.split)

lemma runToken_opaque_only:
  "snd (Revoker_Run direct_stores r snow (IssuedCredentials a []) s) =
     (if a \<noteq> [] \<and> rv_OpaqueAccessTokens r
      then s\<lparr>st_opaqueAccessTokens := snd (opaqueAccessTokenStore_RevokeByID a (st_opaqueAccessTokens s))\<rparr> else s)"
  by (simp add: Revoker_Run_def Revoker_runToken_def scope_defs class_defs)

lemma oas_m_RevokeByID:
  "a \<noteq> [] \<Longrightarrow> fmlookup (oas_m (snd (opaqueAccessTokenStore_RevokeByID a os))) k =
     (if k = hashKey a then map_option (oa_Revoked_update (\<lambda>_. True)) (fmlookup (oas_m os) k) else fmlookup (oas_m os) k)"
  by (auto simp: opaqueAccessTokenStore_RevokeByID_def Let_def split: option.split)

text \<open>The roll-back takes back the row of a minted opaque token and leaves everything else.\<close>

lemma cleanup_failed_mint:
  assumes "polled_mint deps env client red binding g ps ch s = (Inr acc, s1)"
  defines "s2 \<equiv> cleanupPreparedCredentials direct_stores deps env acc []
     (accessTokenFormat deps (resourceOf (red_Audience red)) = AccessTokenFormatOpaque) s1"
  shows "st_refreshes s2 = st_refreshes s" and "st_grants s2 = st_grants s"
    and "st_grantRevocations s2 = st_grantRevocations s" and "st_authCodes s2 = st_authCodes s"
    and "fmlookup (oas_m (st_opaqueAccessTokens s)) k = Some t \<Longrightarrow> fmlookup (oas_m (st_opaqueAccessTokens s2)) k = Some t"
    and "fmlookup (oas_m (st_opaqueAccessTokens s2)) k = Some t \<Longrightarrow>
      fmlookup (oas_m (st_opaqueAccessTokens s)) k = Some t \<or> oa_Revoked t"
proof -
  have "st_refreshes s2 = st_refreshes s \<and> st_grants s2 = st_grants s \<and> st_grantRevocations s2 = st_grantRevocations s
      \<and> st_authCodes s2 = st_authCodes s
      \<and> (\<forall>k t. fmlookup (oas_m (st_opaqueAccessTokens s)) k = Some t \<longrightarrow> fmlookup (oas_m (st_opaqueAccessTokens s2)) k = Some t)
      \<and> (\<forall>k t. fmlookup (oas_m (st_opaqueAccessTokens s2)) k = Some t \<longrightarrow>
           fmlookup (oas_m (st_opaqueAccessTokens s)) k = Some t \<or> oa_Revoked t)"
  proof (cases "accessTokenFormat deps (resourceOf (red_Audience red)) = AccessTokenFormatOpaque")
    case True
    obtain row where row: "acc \<noteq> []"
      "fmlookup (oas_m (st_opaqueAccessTokens s)) (hashKey acc) = None"
      "s1 = direct_exec (DOpaque (OSave (Some row))) s" "td_OpaqueAccessTokens deps"
      "oas_m (st_opaqueAccessTokens s1) = fmupd (hashKey acc) (row\<lparr>oa_ID := hashKey acc\<rparr>) (oas_m (st_opaqueAccessTokens s))"
      by (rule polled_mint_opaque [OF assms(1) True]) (rule that)
    have "s2 = s1\<lparr>st_opaqueAccessTokens := snd (opaqueAccessTokenStore_RevokeByID acc (st_opaqueAccessTokens s1))\<rparr>"
      using row(1,4) True by (simp add: s2_def cleanupPreparedCredentials_def runToken_opaque_only)
    moreover have "st_refreshes s1 = st_refreshes s" "st_grants s1 = st_grants s" "st_grantRevocations s1 = st_grantRevocations s"
      "st_authCodes s1 = st_authCodes s"
      by (simp_all add: row(3))
    ultimately show ?thesis using row(1,2) by (auto simp: oas_m_RevokeByID row(5))
  next
    case False
    with polled_mint_jwt [OF assms(1) False] show ?thesis by (simp add: s2_def cleanupPreparedCredentials_def runToken_opaque_only)
  qed
  then show "st_refreshes s2 = st_refreshes s" and "st_grants s2 = st_grants s"
    and "st_grantRevocations s2 = st_grantRevocations s" and "st_authCodes s2 = st_authCodes s"
    and "fmlookup (oas_m (st_opaqueAccessTokens s)) k = Some t \<Longrightarrow> fmlookup (oas_m (st_opaqueAccessTokens s2)) k = Some t"
    and "fmlookup (oas_m (st_opaqueAccessTokens s2)) k = Some t \<Longrightarrow>
      fmlookup (oas_m (st_opaqueAccessTokens s)) k = Some t \<or> oa_Revoked t"
    by blast+
qed


section \<open>A failed assembly\<close>

text \<open>The consent grant a polled redemption records.\<close>

abbreviation polled_grant :: "Client \<Rightarrow> polledRedemption \<Rightarrow> polledIssuance \<Rightarrow> Grant" where
  "polled_grant client red opt \<equiv>
     \<lparr>gr_ID = pis_GrantID opt, gr_Subject = red_Subject red, gr_ClientID = cl_ID client, gr_Scope = red_Scope red,
      gr_Claims = [], gr_AuthTime = red_AuthTime red, gr_ACR = red_ACR red, gr_AMR = [], gr_AuthorizationDetails = [],
      gr_CreatedAt = zero_time, gr_UpdatedAt = zero_time\<rparr>"

lemma prepare_cases:
  assumes "preparePolledResponse direct_stores deps env client red user binding opt s = (res, s')"
  obtains (no_grant) e where "res = Inl e" and "s' = s"
  | (grant) i s1 where "td_Grants deps" and "pis_GrantID opt \<noteq> [] \<Longrightarrow> i = pis_GrantID opt"
      and "s1 = s\<lparr>st_grants := (st_grants s)\<lparr>gs_m := fmupd i ((polled_grant client red opt)\<lparr>gr_ID := i,
             gr_CreatedAt := me_grantNow env, gr_UpdatedAt := me_grantNow env\<rparr>) (gs_m (st_grants s))\<rparr>\<rparr>"
      and "(\<exists>p. res = Inr p \<and> assemblePolledResponse direct_stores deps env client red user binding opt i s1 = (Inr p, s'))
         \<or> (\<exists>e acc s2. res = Inl e \<and> assemblePolledResponse direct_stores deps env client red user binding opt i s1 = (Inl (e, acc), s2)
              \<and> s' = rollbackPolledResponse direct_stores deps env opt i acc [] (accessTokenFormat deps (resourceOf (red_Audience red))) s2)"
proof (cases "saveConsentGrant direct_stores deps env (polled_grant client red opt) s")
  case (Pair r s1)
  show thesis
  proof (cases r)
    case (Inl e)
    with Pair assms have "res = Inl e" "s' = s1"
      by (simp_all add: preparePolledResponse_def newGrantID_def)
    moreover have "s1 = s"
      using Pair Inl by (auto simp: saveConsentGrant_eq split: if_splits sum.splits)
    ultimately show thesis by (simp add: no_grant)
  next
    case (Inr i)
    have "td_Grants deps" "pis_GrantID opt \<noteq> [] \<Longrightarrow> i = pis_GrantID opt"
      "s1 = s\<lparr>st_grants := (st_grants s)\<lparr>gs_m := fmupd i ((polled_grant client red opt)\<lparr>gr_ID := i,
             gr_CreatedAt := me_grantNow env, gr_UpdatedAt := me_grantNow env\<rparr>) (gs_m (st_grants s))\<rparr>\<rparr>"
      using Pair Inr by (auto simp: saveConsentGrant_eq split: if_splits sum.splits)
    moreover have "(\<exists>p. res = Inr p \<and> assemblePolledResponse direct_stores deps env client red user binding opt i s1 = (Inr p, s'))
         \<or> (\<exists>e acc s2. res = Inl e \<and> assemblePolledResponse direct_stores deps env client red user binding opt i s1 = (Inl (e, acc), s2)
              \<and> s' = rollbackPolledResponse direct_stores deps env opt i acc [] (accessTokenFormat deps (resourceOf (red_Audience red))) s2)"
      using assms Pair Inr
      by (auto simp: preparePolledResponse_def newGrantID_def split: prod.splits sum.splits)
    ultimately show thesis by (rule grant)
  qed
qed

lemma cleanup_nothing: "cleanupPreparedCredentials direct_stores deps env [] [] opaque s = s"
  by (simp add: cleanupPreparedCredentials_def runToken_opaque_only)

text \<open>
  C33. A failed assembly leaves nothing that works and touches nothing it did not write: no refresh
  token, code or revocation changes, every opaque token that was there is still there as it was, every
  opaque token added is revoked, and when the grant is to be discarded no grant record was added.
\<close>

theorem polled_failure_leaves_nothing:
  assumes "preparePolledResponse direct_stores deps env client red user binding opt s = (Inl e, s')"
  shows "st_refreshes s' = st_refreshes s \<and> st_authCodes s' = st_authCodes s \<and> st_grantRevocations s' = st_grantRevocations s
    \<and> (\<forall>k t. fmlookup (oas_m (st_opaqueAccessTokens s)) k = Some t \<longrightarrow>
         fmlookup (oas_m (st_opaqueAccessTokens s')) k = Some t)
    \<and> (\<forall>k t. fmlookup (oas_m (st_opaqueAccessTokens s')) k = Some t \<longrightarrow>
         fmlookup (oas_m (st_opaqueAccessTokens s)) k = Some t \<or> oa_Revoked t)
    \<and> (pis_DiscardGrantOnFailure opt \<longrightarrow>
         (\<forall>i g. fmlookup (gs_m (st_grants s')) i = Some g \<longrightarrow> i \<noteq> [] \<longrightarrow> fmlookup (gs_m (st_grants s)) i = Some g))"
  using assms
proof (cases rule: prepare_cases)
  case (no_grant e)
  then show ?thesis by simp
next
  case (grant i s1)
  from grant(4) obtain acc s2 where asm: "assemblePolledResponse direct_stores deps env client red user binding opt i s1 = (Inl (e, acc), s2)"
    and s': "s' = rollbackPolledResponse direct_stores deps env opt i acc [] (accessTokenFormat deps (resourceOf (red_Audience red))) s2"
    by auto
  define s3 where "s3 = cleanupPreparedCredentials direct_stores deps env acc []
    (accessTokenFormat deps (resourceOf (red_Audience red)) = AccessTokenFormatOpaque) s2"
  have s'': "s' = (if pis_DiscardGrantOnFailure opt then discardGrant direct_stores deps i s3 else s3)"
    by (simp add: s' s3_def rollbackPolledResponse_def)
  have "st_refreshes s3 = st_refreshes s1 \<and> st_authCodes s3 = st_authCodes s1 \<and> st_grantRevocations s3 = st_grantRevocations s1
    \<and> st_grants s3 = st_grants s1
    \<and> (\<forall>k t. fmlookup (oas_m (st_opaqueAccessTokens s1)) k = Some t \<longrightarrow>
         fmlookup (oas_m (st_opaqueAccessTokens s3)) k = Some t)
    \<and> (\<forall>k t. fmlookup (oas_m (st_opaqueAccessTokens s3)) k = Some t \<longrightarrow>
         fmlookup (oas_m (st_opaqueAccessTokens s1)) k = Some t \<or> oa_Revoked t)"
    using assemble_Inl [OF asm]
  proof
    assume "acc = [] \<and> s2 = s1"
    then show ?thesis by (simp add: s3_def cleanup_nothing)
  next
    assume "\<exists>ps ch. polled_mint deps env client red binding i ps ch s1 = (Inr acc, s2)"
    then obtain ps ch where mint: "polled_mint deps env client red binding i ps ch s1 = (Inr acc, s2)" by blast
    from cleanup_failed_mint [OF mint] show ?thesis unfolding s3_def by blast
  qed
  moreover have "st_refreshes s' = st_refreshes s3" "st_authCodes s' = st_authCodes s3"
    "st_grantRevocations s' = st_grantRevocations s3" "st_opaqueAccessTokens s' = st_opaqueAccessTokens s3"
    by (simp_all add: s'' discardGrant_def)
  moreover have "fmlookup (gs_m (st_grants s)) j = Some g"
    if "pis_DiscardGrantOnFailure opt" "fmlookup (gs_m (st_grants s')) j = Some g" "j \<noteq> []" for j g
    using that calculation(1) grant(1,3)
    by (auto simp: s'' discardGrant_def grantStore_Delete_def split: if_splits option.splits)
  ultimately show ?thesis using grant(3) by simp
qed


section \<open>What is issued hangs together\<close>

text \<open>
  The credentials of a polled response in a store: one grant record with the redeemed authorization,
  and an opaque access token and a refresh token, when they were issued, that name that grant, the
  client, the subject, the scope and the same chain.
\<close>

definition credentials_bound ::
  "Client \<Rightarrow> polledRedemption \<Rightarrow> string \<Rightarrow> preparedPolledResponse \<Rightarrow> inmem_Store \<Rightarrow> bool" where
  "credentials_bound client red ch p s \<longleftrightarrow>
     (\<exists>g. fmlookup (gs_m (st_grants s)) (pp_grantID p) = Some g \<and> gr_Subject g = red_Subject red
        \<and> gr_ClientID g = cl_ID client \<and> gr_Scope g = red_Scope red)
   \<and> (pp_opaque p \<longrightarrow>
        (\<exists>row. fmlookup (oas_m (st_opaqueAccessTokens s)) (hashKey (sr_AccessToken (pp_response p))) = Some row
           \<and> oa_GrantID row = pp_grantID p \<and> oa_ClientID row = cl_ID client \<and> oa_Scope row = red_Scope red
           \<and> (pp_grantID p \<noteq> [] \<longrightarrow> oa_Subject row = red_Subject red) \<and> oa_ChainID row = ch \<and> \<not> oa_Revoked row))
   \<and> (sr_RefreshToken (pp_response p) \<noteq> [] \<longrightarrow>
        clientRegisteredForRefresh client \<and>
        (\<exists>t. tokens_of (st_refreshes s) (hashKey (sr_RefreshToken (pp_response p))) = Some t
           \<and> rt_GrantID t = pp_grantID p \<and> rt_ClientID t = cl_ID client \<and> rt_Scope t = red_Scope red
           \<and> rt_Subject t = red_Subject red \<and> (ch \<noteq> [] \<longrightarrow> rt_ChainID t = ch) \<and> rt_ParentID t = None
           \<and> rt_ConsumedAt t = None \<and> \<not> rt_Revoked t))"

lemma issueRefreshToken_frame:
  assumes "issueRefreshToken direct_stores deps env inp s = (r, s')"
  shows "st_opaqueAccessTokens s' = st_opaqueAccessTokens s" "st_grants s' = st_grants s"
    "st_grantRevocations s' = st_grantRevocations s" "st_accessTokens s' = st_accessTokens s"
proof -
  have "\<exists>rs. s' = s\<lparr>st_refreshes := rs\<rparr>"
  proof (rule issueRefresh_eq [of direct_stores deps env inp])
    fix tok t
    assume "\<And>s. issueRefreshToken direct_stores deps env inp s =
       (case ro_Save (so_refresh direct_stores) (Some t) s of
          (Some e, s) \<Rightarrow> (Inl (TokenRefresh (ErrRefreshStore ''refresh: save'' e)), s) | (None, s) \<Rightarrow> (Inr tok, s))"
    with assms show ?thesis by (auto split: option.splits)
  qed (use assms in \<open>auto intro: exI [of _ "st_refreshes s"]\<close>)
  then show "st_opaqueAccessTokens s' = st_opaqueAccessTokens s" "st_grants s' = st_grants s"
    "st_grantRevocations s' = st_grantRevocations s" "st_accessTokens s' = st_accessTokens s"
    by auto
qed

lemma refreshDropReason_registered: "refreshDropReason deps inp = [] \<Longrightarrow> clientRegisteredForRefresh (ri_Client inp)"
  by (auto simp: refreshDropReason_def Deps_refreshIssuanceBlockedReason_def refreshDrop_defs split: if_splits)

lemma polledRefreshIssuance_sel [simp]:
  "ri_Client (polledRefreshIssuance deps client red binding opt g res ch at) = client"
  "ri_Subject (polledRefreshIssuance deps client red binding opt g res ch at) = red_Subject red"
  "ri_GrantID (polledRefreshIssuance deps client red binding opt g res ch at) = g"
  "ri_Scope (polledRefreshIssuance deps client red binding opt g res ch at) = red_Scope red"
  "ri_ChainID (polledRefreshIssuance deps client red binding opt g res ch at) = ch"
  by (simp_all add: polledRefreshIssuance_def builtinRefreshIssuance_def)

lemma polled_mint_frame:
  assumes "polled_mint deps env client red binding g ps ch s = (Inr tok, s')"
  shows "st_refreshes s' = st_refreshes s" "st_grants s' = st_grants s" "st_grantRevocations s' = st_grantRevocations s"
proof -
  have "st_refreshes s' = st_refreshes s \<and> st_grants s' = st_grants s \<and> st_grantRevocations s' = st_grantRevocations s"
  proof (cases "accessTokenFormat deps (resourceOf (red_Audience red)) = AccessTokenFormatOpaque")
    case True
    then obtain row where "s' = direct_exec (DOpaque (OSave (Some row))) s"
      by (rule polled_mint_opaque [OF assms]) (rule that)
    then show ?thesis by simp
  qed (use polled_mint_jwt [OF assms] in simp)
  then show "st_refreshes s' = st_refreshes s" "st_grants s' = st_grants s" "st_grantRevocations s' = st_grantRevocations s"
    by simp_all
qed

lemma prepare_Inr:
  assumes "preparePolledResponse direct_stores deps env client red user binding opt s = (Inr p, s')"
  obtains ch where "credentials_bound client red ch p s'" and "pis_GrantID opt \<noteq> [] \<Longrightarrow> pp_grantID p = pis_GrantID opt"
    and "st_grantRevocations s' = st_grantRevocations s"
    and "pp_opaque p \<Longrightarrow> td_OpaqueAccessTokens deps \<and> sr_AccessToken (pp_response p) \<noteq> []"
    and "sr_RefreshToken (pp_response p) \<noteq> [] \<Longrightarrow> td_RefreshTokens deps"
  using assms
proof (cases rule: prepare_cases)
  case (no_grant e)
  then show thesis by simp
next
  case (grant i s1)
  then have "assemblePolledResponse direct_stores deps env client red user binding opt i s1 = (Inr p, s')" by auto
  then obtain ps ch s2 where mint: "polled_mint deps env client red binding i ps ch s1 = (Inr (sr_AccessToken (pp_response p)), s2)"
    and issue: "issueRefreshToken direct_stores deps env (polledRefreshIssuance deps client red binding opt i (resourceOf (red_Audience red)) ch
           (UnixOrZero (red_AuthTime red))) s2 = (Inr (sr_RefreshToken (pp_response p)), s')"
    and p: "pp_opaque p = (accessTokenFormat deps (resourceOf (red_Audience red)) = AccessTokenFormatOpaque)" "pp_grantID p = i"
    by (rule assemble_Inr)
  note frame = issueRefreshToken_frame [OF issue] polled_mint_frame [OF mint]
  have opaque: "td_OpaqueAccessTokens deps \<and> sr_AccessToken (pp_response p) \<noteq> [] \<and>
      (\<exists>row. fmlookup (oas_m (st_opaqueAccessTokens s')) (hashKey (sr_AccessToken (pp_response p))) = Some row
         \<and> oa_GrantID row = i \<and> oa_ClientID row = cl_ID client \<and> oa_Scope row = red_Scope red
         \<and> (i \<noteq> [] \<longrightarrow> oa_Subject row = red_Subject red) \<and> oa_ChainID row = ch \<and> \<not> oa_Revoked row)" if "pp_opaque p"
  proof (rule polled_mint_opaque [OF mint])
    fix row
    assume "sr_AccessToken (pp_response p) \<noteq> []" "td_OpaqueAccessTokens deps" "oa_GrantID row = i" "oa_ClientID row = cl_ID client"
      "i \<noteq> [] \<Longrightarrow> oa_Subject row = red_Subject red" "oa_Scope row = red_Scope red" "oa_ChainID row = ch" "\<not> oa_Revoked row"
      "oas_m (st_opaqueAccessTokens s2) = fmupd (hashKey (sr_AccessToken (pp_response p)))
         (row\<lparr>oa_ID := hashKey (sr_AccessToken (pp_response p))\<rparr>) (oas_m (st_opaqueAccessTokens s1))"
    then show ?thesis using frame by simp
  qed (use that p in simp)
  have refresh: "td_RefreshTokens deps \<and> clientRegisteredForRefresh client \<and>
      (\<exists>t. tokens_of (st_refreshes s') (hashKey (sr_RefreshToken (pp_response p))) = Some t
         \<and> rt_GrantID t = i \<and> rt_ClientID t = cl_ID client \<and> rt_Scope t = red_Scope red
         \<and> rt_Subject t = red_Subject red \<and> (ch \<noteq> [] \<longrightarrow> rt_ChainID t = ch) \<and> rt_ParentID t = None
         \<and> rt_ConsumedAt t = None \<and> \<not> rt_Revoked t)" if "sr_RefreshToken (pp_response p) \<noteq> []"
    by (rule issueRefreshToken_Inr [OF issue that])
       (use refreshDropReason_registered in \<open>fastforce simp: storeRefresh_def\<close>)
  have "credentials_bound client red ch p s'"
    using opaque refresh grant(3) frame by (simp add: credentials_bound_def p)
  then show thesis
    using that grant(2,3) opaque refresh frame p(2) by simp
qed


section \<open>Reaching what was minted\<close>

lemma direct_cluster_reachable:
  assumes "cluster_reachable (s, None)"
  shows "cluster_reachable (direct_exec c s, None)"
proof -
  have "\<not> st_locked s" using cluster_reachable_inv [OF assms] by (simp add: cluster_inv_def)
  then have "cluster_step (s, None) (direct_exec c s, None)" by (rule cs_direct)
  with assms show ?thesis unfolding cluster_reachable_def by (rule rtranclp.rtrancl_into_rtrancl)
qed

lemma opaque_grant_kept:
  assumes "g \<noteq> []" and "fmlookup (oas_m os) k = Some row"
  shows "\<exists>row'. fmlookup (oas_m (snd (opaqueAccessTokenStore_RevokeByGrant g os))) k = Some row' \<and> oa_GrantID row' = oa_GrantID row"
  using assms by (simp add: opaqueAccessTokenStore_RevokeByGrant_def case_prod_beta opaque_rows.revokeIndexed_lookup)


section \<open>The properties of the issuance\<close>

lemma dc_GrantID_nonempty: "dc_GrantID code \<noteq> []"
  using length_base64_RawURL [of "sha256_Sum256 (bytes_of (''device_code:'' @ code))"]
  by (auto simp: dc_GrantID_def simp del: length_0_conv)

lemma refuse_None:
  assumes "refuseIssuanceUnderClosedGrant direct_stores deps env iu d s = (None, s')"
  shows "s' = s" and "td_GrantRevocations deps \<Longrightarrow> iu_GrantID iu \<noteq> [] \<Longrightarrow>
    grantRevocationStore_IsIssuanceRevoked (iu_GrantID iu) (iu_IssuedAt iu) (st_grantRevocations s) = (False, None)"
  using assms
  by (auto simp: refuseIssuanceUnderClosedGrant_def grantClosedToIssuance_def Let_def split: if_splits prod.splits)


text \<open>
  C35. A revocation that completes while a poll is minting wins: when the grant of the prepared
  credentials is torn down, at or after the authorization started and before the poll asks whether the
  grant is closed, the poll is refused with \<^verbatim>\<open>invalid_grant\<close>, and neither its refresh token nor its
  opaque access token is usable afterwards.
\<close>

theorem closed_grant_refused:
  assumes "preparePolledResponse direct_stores deps env client red user binding opt s = (Inr p, s1)" and "refresh_wf (st_refreshes s1)"
    and "pp_grantID p \<noteq> []" and "td_GrantRevocations deps" and "rv_GrantRevocations r"
    and "0 < rv_Now r" and "issuedAt \<le> rv_Now r"
    and "Revoker_Run direct_stores r snow (WholeGrant (pp_grantID p)) s1 = (out, s2)"
    and "refuseIssuanceUnderClosedGrant direct_stores deps env (preparedPolledResponse_issuedUnder p issuedAt) d s2 = (res, s3)"
  shows "res = Some (OAuthError StatusBadRequest ''invalid_grant'' d)
    \<and> (sr_RefreshToken (pp_response p) \<noteq> [] \<longrightarrow>
         (\<forall>t. tokens_of (st_refreshes s3) (hashKey (sr_RefreshToken (pp_response p))) = Some t \<longrightarrow> rt_Revoked t))
    \<and> (pp_opaque p \<longrightarrow>
         (\<forall>t. fmlookup (oas_m (st_opaqueAccessTokens s3)) (hashKey (sr_AccessToken (pp_response p))) = Some t \<longrightarrow> oa_Revoked t))"
proof -
  let ?a = "sr_AccessToken (pp_response p)" and ?i = "sr_RefreshToken (pp_response p)"
  let ?r = "grantTeardown deps env teardownReasonGrantTombstoned"
  obtain ch where ch: "credentials_bound client red ch p s1" "pp_opaque p \<Longrightarrow> td_OpaqueAccessTokens deps \<and> ?a \<noteq> []"
    "?i \<noteq> [] \<Longrightarrow> td_RefreshTokens deps"
    by (rule prepare_Inr [OF assms(1)]) (rule that)
  have s2: "s2 = snd (Revoker_runGrant direct_stores r snow (WholeGrant (pp_grantID p)) s1)"
    using assms(8) by (simp add: Revoker_Run_def)
  have "grantRevocationStore_IsIssuanceRevoked (pp_grantID p) issuedAt (st_grantRevocations s2) = (True, None)"
    using tombstone_closes(2) [of "access_tombstone r (WholeGrant (pp_grantID p))" "pp_grantID p" issuedAt] assms(3-7)
    by (simp add: s2 runGrant_closed Revoker_owesIssuanceClosure_def)
  then have res: "res = Some (OAuthError StatusBadRequest ''invalid_grant'' d)"
      "s3 = snd (Revoker_Run direct_stores ?r (me_storeNow env) (IssuedCredentials ?a ?i) s2)"
    using assms(3,4,9)
    by (auto simp: refuseIssuanceUnderClosedGrant_def grantClosedToIssuance_def preparedPolledResponse_issuedUnder_def Let_def)
  have wf: "refresh_wf (st_refreshes s2)"
    using assms(2,3) RevokeByGrant_spec(3) [OF assms(2)] by (simp add: s2 runGrant_closed)
  have "\<forall>t. fmlookup (oas_m (st_opaqueAccessTokens s3)) (hashKey ?a) = Some t \<longrightarrow> oa_Revoked t" if "pp_opaque p"
    using ch(2) [OF that]
    by (auto simp: res(2) Revoker_Run_def Revoker_runToken_def scope_defs class_defs oas_m_RevokeByID)
  moreover have "\<forall>t. tokens_of (st_refreshes s3) (hashKey ?i) = Some t \<longrightarrow> rt_Revoked t" if "?i \<noteq> []"
    using ch(3) [OF that] that refreshStore_RevokeChain_spec(2) [OF wf, of "me_storeNow env" ?i]
    by (auto simp: res(2) Revoker_Run_def Revoker_runToken_def scope_defs class_defs spec_refresh_revokeChain_def
        revoke_where_def descends_def split: if_splits)
  ultimately show ?thesis using res(1) by blast
qed

text \<open>
  C36. Every access token that is minted can be revoked: an access token minted under a grant, in
  either format, stops working when the grant is torn down later, under every strategy that revokes
  JWTs at all. The row of an opaque token is revoked; a JWT, whose claims carry the grant and the
  instant of the mint, is refused by the verifier.
\<close>

theorem minted_token_revocable:
  assumes "cluster_reachable (s, None)" and "g \<noteq> []"
    and "mintAccessToken direct_stores deps env rs ps c g sc res now at b ad ov s = (Inr tok, s1)"
    and "td_RefreshTokens deps" and "td_OpaqueAccessTokens deps" and "td_AccessTokens deps" and "td_GrantRevocations deps"
    and "td_RevocationStrategy deps \<noteq> RevocationStrategyNone"
    and "0 < me_teardownNow env'" and "now \<le> me_teardownNow env'"
    and "Revoker_Run direct_stores (grantTeardown deps env' reason) snow (WholeGrant g) s1 = (out, s2)"
  shows "if \<not> ov_ForceJWT ov \<and> accessTokenFormat deps res = AccessTokenFormatOpaque
    then \<exists>row. fmlookup (oas_m (st_opaqueAccessTokens s2)) (hashKey tok) = Some row \<and> oa_Revoked row
    else \<exists>claims. SignAccessToken (td_SigningKey deps) claims = Inr tok \<and> jc_GrantID claims = g \<and> jc_Scope claims = sc
      \<and> (\<forall>opts. verifier_of (grantTeardown deps env' reason) opts \<longrightarrow> client_resolved opts (jc_ClientID claims) \<longrightarrow>
           fst (JWTAccessTokenRevoked opts claims s2) = (True, True))"
proof (cases "\<not> ov_ForceJWT ov \<and> accessTokenFormat deps res = AccessTokenFormatOpaque")
  case True
  with assms(3) have "mintOpaqueAccessToken direct_stores deps env (if g = [] then ps else rs) c g sc res now at b ad
      (if ov_TTL ov \<le> 0 then ov\<lparr>ov_TTL := td_AccessTokenTTL deps\<rparr> else ov) s = (Inr tok, s1)"
    by (simp add: mintAccessToken_def Let_def split: if_splits)
  then obtain row where row: "oa_GrantID row = g" "s1 = direct_exec (DOpaque (OSave (Some row))) s"
    "oas_m (st_opaqueAccessTokens s1) = fmupd (hashKey tok) (row\<lparr>oa_ID := hashKey tok\<rparr>) (oas_m (st_opaqueAccessTokens s))"
    by (rule mintOpaque_Inr) (rule that)
  have cov: "opaque_covered (st_opaqueAccessTokens s1)"
    using reachable_substores(3) [OF direct_cluster_reachable [OF assms(1)]] unfolding row(2) .
  obtain row' where "fmlookup (oas_m (st_opaqueAccessTokens s2)) (hashKey tok) = Some row'" "oa_GrantID row' = g"
    using opaque_grant_kept [OF assms(2), of "st_opaqueAccessTokens s1" "hashKey tok" "row\<lparr>oa_ID := hashKey tok\<rparr>"]
      whole_grant_state(3) [OF assms(2) _ _ _ assms(11)] assms(4-7) row(1,3) by auto
  with opaque_grant_revoked [OF cov assms(2)] whole_grant_state(3) [OF assms(2) _ _ _ assms(11)] assms(4-7) True
  show ?thesis by auto
next
  case False
  with assms(3) have "mintJWTAccessToken direct_stores deps env rs ps c g sc res now at b ad
      (if ov_TTL ov \<le> 0 then ov\<lparr>ov_TTL := td_AccessTokenTTL deps\<rparr> else ov) s = (Inr tok, s1)"
    by (cases "accessTokenFormat deps res") (auto simp: mintAccessToken_def Let_def split: if_splits)
  then obtain claims where claims: "SignAccessToken (td_SigningKey deps) claims = Inr tok" "jc_GrantID claims = g"
      "jc_IssuedAt claims = Time_Unix now" "jc_Scope claims = sc"
    and plain: "\<not> (td_RevocationStrategy deps = RevocationStrategyJTIRegistry \<and> td_AccessTokens deps) \<Longrightarrow> s1 = s"
    and reg: "td_RevocationStrategy deps = RevocationStrategyJTIRegistry \<Longrightarrow> td_AccessTokens deps \<Longrightarrow>
      \<exists>row. at_GrantID row = g \<and> jc_JTI claims \<noteq> [] \<and> at_JTI row = jc_JTI claims
        \<and> s1 = direct_exec (DAccess (ARegister row)) s
        \<and> fmlookup (ats_m (st_accessTokens s1)) (jc_JTI claims) = Some row"
    by (rule mintJWT_Inr) (rule that)
  have "cluster_reachable (s1, None)"
    using plain reg assms(1,6) direct_cluster_reachable [OF assms(1)] by (metis (full_types))
  then have cov: "access_covered (st_accessTokens s1)" by (rule reachable_substores)
  have "fst (JWTAccessTokenRevoked opts claims s2) = (True, True)"
    if "verifier_of (grantTeardown deps env' reason) opts" "client_resolved opts (jc_ClientID claims)" for opts
    by (rule whole_grant_jwt [OF cov assms(2) _ _ _ _ _ assms(11) that(1) _ that(2) claims(2,3)])
       (use assms(4-10) reg in auto)
  with False claims show ?thesis by auto
qed


subsection \<open>A concrete endpoint\<close>

text \<open>The polled exchange of the approved device code.\<close>

abbreviation sample_prepare ::
  "AccessTokenFormat \<Rightarrow> token_err + string \<Rightarrow> inmem_Store \<Rightarrow> (token_err + preparedPolledResponse) \<times> inmem_Store" where
  "sample_prepare fmt idt \<equiv> preparePolledResponse direct_stores (sample_tokens fmt idt) sample_env sample_client
     (dc_redemption sample_device) None sample_binding (dc_issuance ''dev'')"

lemmas sample_issue_defs = sample_tokens_def sample_env_def preparePolledResponse_def newGrantID_def saveConsentGrant_eq
  assemblePolledResponse_def requireAuthTimeForIDToken_def projectPublicSubject_def NewChainID_def RandomBase64URL_def
  mintAccessToken_def accessTokenFormat_def random_id_def MintOpaqueAccessToken_def issueRefreshToken_def refreshDropReason_def
  Deps_refreshIssuanceBlockedReason_def Deps_grantEnabled_def clientRegisteredForRefresh_def grantTypeRefreshToken_def
  refreshDrop_defs sample_client_def sample_device_def sample_binding_def dc_GrantID_nonempty ScopeOpenID_def
  dc_grantTypeWire_def ci_grantTypeWire_def strategy_defs resourceOf_def UnixOrZero_def mintPolledIDToken_def HashForAlg_def
  SignIDToken_def SignAccessToken_def validateNoStandardCollisions_def Deps_idTokenClaims_def Deps_idTokenExtra_def
  idTokenExtraClaims_def maybeEncryptIDToken_def suffix_def

lemma sample_prepare_jwt: "\<exists>p s'. sample_prepare AccessTokenFormatJWT (Inr ''id'') Store_New = (Inr p, s')"
  by (simp add: sample_issue_defs mintJWTAccessToken_def)

lemma sample_prepare_fails: "\<exists>e s'. sample_prepare AccessTokenFormatOpaque (Inl (TokenMsg ''sign'')) Store_New = (Inl e, s')"
  by (simp add: sample_issue_defs mintOpaqueAccessToken_def Store_New_def newOpaqueAccessTokenStore_def
      opaqueAccessTokenStore_Save_def base64_nonempty Let_def)

theorem polled_failure_leaves_nothing_witness:
  "\<exists>e s'. sample_prepare AccessTokenFormatOpaque (Inl (TokenMsg ''sign'')) Store_New = (Inl e, s')
     \<and> (\<forall>k t. fmlookup (oas_m (st_opaqueAccessTokens s')) k = Some t \<longrightarrow> oa_Revoked t)"
proof -
  obtain e s' where run: "sample_prepare AccessTokenFormatOpaque (Inl (TokenMsg ''sign'')) Store_New = (Inl e, s')"
    using sample_prepare_fails by blast
  from polled_failure_leaves_nothing [OF run] run show ?thesis
    by (auto simp: Store_New_def newOpaqueAccessTokenStore_def)
qed

lemma sample_prepare_grant:
  assumes "sample_prepare fmt idt Store_New = (Inr p, s')"
  shows "pp_grantID p = dc_GrantID ''dev'' \<and> st_grantRevocations s' = newGrantRevocationStore"
  by (rule prepare_Inr [OF assms]) (simp add: dc_GrantID_nonempty Store_New_def)


theorem closed_grant_refused_witness:
  "\<exists>p s1 s2 s3. sample_prepare AccessTokenFormatJWT (Inr ''id'') Store_New = (Inr p, s1)
     \<and> snd (Revoker_Run direct_stores (sample_revoker RevocationStrategyNone) 7 (WholeGrant (pp_grantID p)) s1) = s2
     \<and> refuseIssuanceUnderClosedGrant direct_stores (sample_tokens AccessTokenFormatJWT (Inr ''id'')) sample_env
         (preparedPolledResponse_issuedUnder p second) ''rejected'' s2 =
         (Some (OAuthError StatusBadRequest ''invalid_grant'' ''rejected''), s3)"
proof -
  let ?r = "sample_revoker RevocationStrategyNone" and ?d = "sample_tokens AccessTokenFormatJWT (Inr ''id'')"
  obtain p s1 where prep: "sample_prepare AccessTokenFormatJWT (Inr ''id'') Store_New = (Inr p, s1)"
    using sample_prepare_jwt by blast
  obtain out s2 where run: "Revoker_Run direct_stores ?r 7 (WholeGrant (pp_grantID p)) s1 = (out, s2)"
    by (cases "Revoker_Run direct_stores ?r 7 (WholeGrant (pp_grantID p)) s1")
  obtain res s3 where ref: "refuseIssuanceUnderClosedGrant direct_stores ?d sample_env
      (preparedPolledResponse_issuedUnder p second) ''rejected'' s2 = (res, s3)"
    by (cases "refuseIssuanceUnderClosedGrant direct_stores ?d sample_env (preparedPolledResponse_issuedUnder p second) ''rejected'' s2")
  have "st_refreshes s1 = newRefreshStore"
    using prep by (auto simp: sample_issue_defs mintJWTAccessToken_def Store_New_def)
  then have wf: "refresh_wf (st_refreshes s1)" by simp
  have g: "pp_grantID p \<noteq> []" using sample_prepare_grant [OF prep] by (simp add: dc_GrantID_nonempty)
  have f: "td_GrantRevocations ?d" "rv_GrantRevocations ?r" "0 < rv_Now ?r" "second \<le> rv_Now ?r"
    by (simp_all add: sample_tokens_def sample_teardown_defs time_Unix_def unix_epoch_def second_def)
  from closed_grant_refused [OF prep wf g f run ref] prep run ref show ?thesis by auto
qed

theorem minted_token_revocable_witness:
  "\<exists>tok s1 claims. mintAccessToken direct_stores (sample_tokens AccessTokenFormatJWT (Inr ''id'')) sample_env ''alice'' ''alice'' ''tv'' ''g1''
       [''openid''] [] (14 * second) 0 sample_binding [] (polled_overrides (dc_redemption sample_device) ''c1'') Store_New = (Inr tok, s1)
     \<and> SignAccessToken (td_SigningKey (sample_tokens AccessTokenFormatJWT (Inr ''id''))) claims = Inr tok
     \<and> fst (JWTAccessTokenRevoked (sample_verifier RevocationStrategyGrantTombstone) claims
         (snd (Revoker_Run direct_stores (grantTeardown (sample_tokens AccessTokenFormatJWT (Inr ''id'')) sample_env ''logout'') 7
            (WholeGrant ''g1'') s1))) = (True, True)"
proof -
  let ?d = "sample_tokens AccessTokenFormatJWT (Inr ''id'')" and ?v = "sample_verifier RevocationStrategyGrantTombstone"
  let ?r = "grantTeardown ?d sample_env ''logout''" and ?ov = "polled_overrides (dc_redemption sample_device) ''c1''"
  have "\<exists>tok s1. mintAccessToken direct_stores ?d sample_env ''alice'' ''alice'' ''tv'' ''g1'' [''openid''] [] (14 * second) 0
      sample_binding [] ?ov Store_New = (Inr tok, s1)"
    by (simp add: sample_issue_defs mintJWTAccessToken_def)
  then obtain tok s1 where mint: "mintAccessToken direct_stores ?d sample_env ''alice'' ''alice'' ''tv'' ''g1'' [''openid''] [] (14 * second) 0
      sample_binding [] ?ov Store_New = (Inr tok, s1)" by blast
  obtain out s2 where run: "Revoker_Run direct_stores ?r 7 (WholeGrant ''g1'') s1 = (out, s2)"
    by (cases "Revoker_Run direct_stores ?r 7 (WholeGrant ''g1'') s1")
  have new: "cluster_reachable (Store_New, None)" by (simp add: cluster_reachable_def)
  have "if \<not> ov_ForceJWT ?ov \<and> accessTokenFormat ?d [] = AccessTokenFormatOpaque
    then \<exists>row. fmlookup (oas_m (st_opaqueAccessTokens s2)) (hashKey tok) = Some row \<and> oa_Revoked row
    else \<exists>claims. SignAccessToken (td_SigningKey ?d) claims = Inr tok \<and> jc_GrantID claims = ''g1'' \<and> jc_Scope claims = [''openid'']
      \<and> (\<forall>opts. verifier_of ?r opts \<longrightarrow> client_resolved opts (jc_ClientID claims) \<longrightarrow>
           fst (JWTAccessTokenRevoked opts claims s2) = (True, True))"
    by (rule minted_token_revocable [OF new _ mint _ _ _ _ _ _ _ run])
       (simp_all add: sample_tokens_def sample_env_def strategy_defs second_def)
  moreover have "verifier_of ?r ?v" "client_resolved ?v c" for c
    by (simp_all add: verifier_of_def sample_tokens_def sample_teardown_defs)
  moreover have "accessTokenFormat ?d [] = AccessTokenFormatJWT" by (simp add: accessTokenFormat_def sample_tokens_def)
  ultimately obtain claims where "SignAccessToken (td_SigningKey ?d) claims = Inr tok"
    "fst (JWTAccessTokenRevoked ?v claims s2) = (True, True)"
    by auto
  with mint run show ?thesis by auto
qed

end
