(* ===== verification/RefreshPreflight.thy ===== *)
theory RefreshPreflight
  imports TokenMint
begin

text \<open>
  The gates of the token endpoint, and what the refresh_token grant checks before it spends a token:
  \<^verbatim>\<open>internal/tokenendpoint/refresh_preflight.go\<close>, \<^verbatim>\<open>refresh_chain.go\<close>, \<^verbatim>\<open>authorization_details.go\<close>,
  \<^verbatim>\<open>authcode_enforce.go\<close>, \<^verbatim>\<open>binding.go\<close>, and the sender-constraint checks of \<^verbatim>\<open>dpop.go\<close> and \<^verbatim>\<open>mtls.go\<close>.

  A gate that writes a response and returns false is a function that returns that response. Client
  authentication and the verification of a DPoP proof are done before these functions run; the outcome
  of checking the client certificate of a request against a thumbprint is a function of the request.
\<close>


section \<open>Sender constraints\<close>

record dpopOutcome =
  do_JKT :: string
  do_JTI :: string
  do_Presented :: bool

definition tokenBinding_constrained :: "tokenBinding \<Rightarrow> bool" where
  "tokenBinding_constrained b \<longleftrightarrow> tb_DPoPJKT b \<noteq> [] \<or> tb_MTLSThumbprint b \<noteq> []"

definition enforceSenderConstraint :: "tokenDeps \<Rightarrow> tokenBinding \<Rightarrow> wire_error option" where
  "enforceSenderConstraint deps b =
     (if \<not> td_RequireSenderConstrainedTokens deps \<or> tokenBinding_constrained b then None
      else Some (OAuthError StatusBadRequest ''invalid_request''
        ''sender-constrained access token required: present a DPoP proof or a client certificate''))"

definition enforceDPoPRefreshBinding :: "tokenDeps \<Rightarrow> dpopOutcome \<Rightarrow> string \<Rightarrow> wire_error option" where
  "enforceDPoPRefreshBinding deps out boundJKT =
     (if \<not> td_DPoP deps then
        (if boundJKT \<noteq> [] then
           Some (OAuthError StatusBadRequest ''invalid_grant'' ''refresh token is DPoP-bound but DPoP is not enabled'')
         else None)
      else if \<not> do_Presented out then
        (if boundJKT = [] then None
         else Some (OAuthError StatusBadRequest ''invalid_grant''
           ''DPoP proof required for sender-constrained refresh token''))
      else if boundJKT \<noteq> [] \<and> do_JKT out \<noteq> boundJKT then
        Some (OAuthError StatusBadRequest ''invalid_grant'' ''DPoP proof key does not match the bound thumbprint'')
      else None)"

datatype mtls_err =
    ErrNoClientCert
  | ErrCertSourceConflict
  | ErrThumbprintMismatch
  | ErrCertMalformed
  | ErrCertUntrusted
  | ErrMTLSOther

definition writeMTLSError :: "mtls_err \<Rightarrow> wire_error" where
  "writeMTLSError err =
     (case err of
        ErrNoClientCert \<Rightarrow>
          OAuthError StatusBadRequest ''invalid_grant'' ''client certificate required for mTLS-bound token''
      | ErrCertSourceConflict \<Rightarrow> OAuthError StatusBadRequest ''invalid_request'' ''client certificate sources disagree''
      | ErrThumbprintMismatch \<Rightarrow>
          OAuthError StatusBadRequest ''invalid_grant'' ''client certificate does not match the bound thumbprint''
      | ErrCertMalformed \<Rightarrow> OAuthError StatusBadRequest ''invalid_request'' ''client certificate malformed''
      | ErrCertUntrusted \<Rightarrow> OAuthError 401 ''invalid_client'' ''client certificate is not trusted''
      | ErrMTLSOther \<Rightarrow> ServerError)"

text \<open>\<open>verifyBound\<close> is \<^verbatim>\<open>VerifyBoundRequest\<close> on the request, under the trust rule of the client.\<close>

definition requireMTLSMatch :: "tokenDeps \<Rightarrow> (string \<Rightarrow> mtls_err option) \<Rightarrow> string \<Rightarrow> wire_error option" where
  "requireMTLSMatch deps verifyBound boundThumbprint =
     (if boundThumbprint = [] then None
      else if \<not> td_MTLS deps then
        Some (OAuthError StatusBadRequest ''invalid_grant'' ''refresh token is mTLS-bound but mTLS is not enabled'')
      else map_option writeMTLSError (verifyBound boundThumbprint))"


section \<open>Scopes and authorization_details\<close>

definition requireRegisteredScopes :: "Client \<Rightarrow> string list \<Rightarrow> wire_error option" where
  "requireRegisteredScopes client scope =
     (if Subset scope (cl_Scopes client) then None
      else Some (OAuthError StatusBadRequest ''invalid_scope'' ''scope exceeds the client's registered scopes''))"

definition enforceStrictOfflineAccess :: "tokenDeps \<Rightarrow> string list \<Rightarrow> RefreshTokenOrigin \<Rightarrow> wire_error option" where
  "enforceStrictOfflineAccess deps scope origin =
     (if \<not> td_StrictOfflineAccess deps then None
      else if origin = RefreshOriginCustomGrant then None
      else if ContainsOfflineAccess scope then None
      else Some (OAuthError StatusBadRequest ''invalid_grant''
        ''refresh issued without offline_access; refresh disabled by current policy''))"

definition reduceAuthorizationDetails :: "jobject list \<Rightarrow> jobject list \<Rightarrow> wire_error + jobject list" where
  "reduceAuthorizationDetails requested granted =
     (if requested = [] then Inr granted
      else if list_all (ContainsAuthorizationDetail granted) requested then Inr requested
      else Inl (OAuthError StatusBadRequest ''invalid_authorization_details''
        ''authorization_details exceeds the granted authorization''))"

definition preflightRefreshScope :: "string list \<Rightarrow> string list \<Rightarrow> wire_error + string list" where
  "preflightRefreshScope granted requested =
     (if requested = [] then Inr granted
      else if list_all (\<lambda>s. s \<in> set granted) requested then Inr requested
      else Inl (OAuthError StatusBadRequest ''invalid_scope'' ''requested scope exceeds the original grant''))"


section \<open>The chain and its grant\<close>

definition grantIsOwnConsent :: "RefreshTokenOrigin \<Rightarrow> bool" where
  "grantIsOwnConsent origin \<longleftrightarrow> origin \<noteq> RefreshOriginCustomGrant"

definition chainGrant :: "'s stores \<Rightarrow> tokenDeps \<Rightarrow> RefreshTokenOrigin \<Rightarrow> string \<Rightarrow> 's \<Rightarrow> token_err + Grant option" where
  "chainGrant h deps origin grantID s =
     (if \<not> grantIsOwnConsent origin then Inr None else FindGrant h deps grantID s)"

definition chainAuthorizationDetails :: "Grant option \<Rightarrow> string \<Rightarrow> jobject list \<Rightarrow> bool \<Rightarrow> jobject list" where
  "chainAuthorizationDetails g clientID snapshot recorded =
     az_AuthorizationDetails
       (ResolveAuthorization
          \<lparr>az_AuthTime = zero_time, az_ACR = [], az_AMR = [], az_AuthorizationDetails = snapshot, az_Claims = []\<rparr>
          recorded g clientID)"

definition refreshAuthContext :: "'s stores \<Rightarrow> tokenDeps \<Rightarrow> Exchanged \<Rightarrow> 's \<Rightarrow> token_err + authContext" where
  "refreshAuthContext h deps x s =
     (case chainGrant h deps (xd_Origin x) (xd_GrantID x) s of
        Inl e \<Rightarrow> Inl e
      | Inr g \<Rightarrow>
          Inr (authContextOf deps
            (ResolveAuthorization
               \<lparr>az_AuthTime = xd_AuthTime x, az_ACR = xd_ACR x, az_AMR = xd_AMR x,
                az_AuthorizationDetails = xd_AuthorizationDetails x, az_Claims = xd_Claims x\<rparr>
               (xd_AuthorizationRecorded x) g (xd_ClientID x))))"

definition withChainID :: "byte list option \<Rightarrow> Exchanged \<Rightarrow> refresh_err + Exchanged" where
  "withChainID buf x =
     (if xd_ChainID x \<noteq> [] then Inr x
      else (case NewChainID buf of Inl e \<Rightarrow> Inl e | Inr chainID \<Rightarrow> Inr (x\<lparr>xd_ChainID := chainID\<rparr>)))"

definition refreshExchangedForRotation :: "Exchanged \<Rightarrow> authContext \<Rightarrow> jobject list \<Rightarrow> Exchanged" where
  "refreshExchangedForRotation x authCtx details =
     x\<lparr>xd_AuthTime := TimeFromUnix (ax_AuthTime authCtx), xd_ACR := ax_ACR authCtx, xd_AMR := ax_AMR authCtx,
       xd_AuthorizationDetails := details, xd_Claims := ax_EncodedClaims authCtx, xd_AuthorizationRecorded := True\<rparr>"

definition chainGrantIDForResponse :: "tokenDeps \<Rightarrow> Exchanged \<Rightarrow> string" where
  "chainGrantIDForResponse deps x =
     (if \<not> grantIsOwnConsent (xd_Origin x) then [] else grantIDForResponse deps (xd_GrantID x))"


section \<open>The request\<close>

record refreshInputs =
  rin_Token :: string
  rin_RequestedScope :: "string list"

definition parseRefreshRequest :: "string \<Rightarrow> string \<Rightarrow> wire_error + refreshInputs" where
  "parseRefreshRequest refresh_token scope =
     (if refresh_token = [] then Inl (OAuthError StatusBadRequest ''invalid_request'' ''refresh_token is required'')
      else Inr \<lparr>rin_Token = refresh_token, rin_RequestedScope = scope_Parse scope\<rparr>)"

definition preflightRefreshSenderConstraint ::
  "tokenDeps \<Rightarrow> (string \<Rightarrow> mtls_err option) \<Rightarrow> RefreshToken \<Rightarrow> dpopOutcome \<Rightarrow> wire_error option" where
  "preflightRefreshSenderConstraint deps verifyBound rec out =
     (case enforceDPoPRefreshBinding deps out (rt_DPoPJKT rec) of
        Some e \<Rightarrow> Some e
      | None \<Rightarrow>
          (case requireMTLSMatch deps verifyBound (rt_MTLSCertThumbprint rec) of
             Some e \<Rightarrow> Some e
           | None \<Rightarrow>
               enforceSenderConstraint deps
                 \<lparr>tb_DPoPJKT = do_JKT out, tb_MTLSThumbprint = rt_MTLSCertThumbprint rec\<rparr>))"

text \<open>The gates that need only the record and the request, in order.\<close>

definition preflight_gates ::
  "tokenDeps \<Rightarrow> time \<Rightarrow> Client \<Rightarrow> refreshInputs \<Rightarrow> dpopOutcome \<Rightarrow> (string \<Rightarrow> mtls_err option) \<Rightarrow> RefreshToken \<Rightarrow>
     wire_error option" where
  "preflight_gates deps now client inp out verifyBound rec =
     (if rt_ClientID rec \<noteq> cl_ID client
        then Some (OAuthError StatusBadRequest ''invalid_grant'' ''refresh token rejected'')
      else if rt_ExpiresAt rec \<noteq> zero_time \<and> rt_ExpiresAt rec < now
        then Some (OAuthError StatusBadRequest ''invalid_grant'' ''refresh token rejected'')
      else
        (case preflightRefreshScope (rt_Scope rec) (rin_RequestedScope inp) of
           Inl e \<Rightarrow> Some e
         | Inr scope \<Rightarrow>
        (case checkTokenScopeAllowlist (td_Scopes deps) (cl_ID client) scope of
           Some e \<Rightarrow> Some e
         | None \<Rightarrow>
        (case requireRegisteredScopes client scope of
           Some e \<Rightarrow> Some e
         | None \<Rightarrow>
        (case enforceStrictOfflineAccess deps (rt_Scope rec) (rt_Origin rec) of
           Some e \<Rightarrow> Some e
         | None \<Rightarrow> preflightRefreshSenderConstraint deps verifyBound rec out)))))"

text \<open>\<open>findNow\<close> is the clock of the store during the lookup and \<open>now\<close> that of the endpoint.\<close>

definition preflightRefreshBeforeConsume ::
  "'s stores \<Rightarrow> tokenDeps \<Rightarrow> time \<Rightarrow> time \<Rightarrow> Client \<Rightarrow> refreshInputs \<Rightarrow> dpopOutcome \<Rightarrow> (string \<Rightarrow> mtls_err option) \<Rightarrow>
     's \<Rightarrow> wire_error + RefreshToken option" where
  "preflightRefreshBeforeConsume h deps findNow now client inp out verifyBound s =
     (let (rec, err) = ro_Find (so_refresh h) findNow (rin_Token inp) s;
          err = (if err = None \<and> rec = None then Some ErrNotFound else err)
      in case (rec, err) of
           (_, Some err) \<Rightarrow> if err = ErrNotFound then Inr None else Inl ServerError
         | (None, None) \<Rightarrow> Inr None
         | (Some rec, None) \<Rightarrow>
             if rt_ConsumedAt rec \<noteq> None then Inr None
             else (case preflight_gates deps now client inp out verifyBound rec of
                     Some e \<Rightarrow> Inl e
                   | None \<Rightarrow> Inr (Some rec)))"

definition preflightRefreshAuthorizationDetails ::
  "'s stores \<Rightarrow> tokenDeps \<Rightarrow> RefreshToken option \<Rightarrow> jobject list \<Rightarrow> 's \<Rightarrow> wire_error + jobject list" where
  "preflightRefreshAuthorizationDetails h deps rec requested s =
     (case rec of
        None \<Rightarrow> Inr []
      | Some rec \<Rightarrow>
          (case chainGrant h deps (rt_Origin rec) (rt_GrantID rec) s of
             Inl _ \<Rightarrow> Inl ServerError
           | Inr grant \<Rightarrow>
               reduceAuthorizationDetails requested
                 (chainAuthorizationDetails grant (rt_ClientID rec) (rt_AuthorizationDetails rec)
                    (rt_AuthorizationRecorded rec))))"

definition revalidateRefreshAuthorizationDetails ::
  "'s stores \<Rightarrow> tokenDeps \<Rightarrow> Exchanged \<Rightarrow> jobject list \<Rightarrow> jobject list \<Rightarrow> 's \<Rightarrow> wire_error option" where
  "revalidateRefreshAuthorizationDetails h deps x requested effective s =
     (if xd_InGrace x \<or> \<not> td_Grants deps \<or> xd_GrantID x = [] \<or> \<not> grantIsOwnConsent (xd_Origin x) then None
      else
        (case FindGrant h deps (xd_GrantID x) s of
           Inl _ \<Rightarrow> Some ServerError
         | Inr grant \<Rightarrow>
             (case reduceAuthorizationDetails requested
                     (chainAuthorizationDetails grant (xd_ClientID x) (xd_AuthorizationDetails x)
                        (xd_AuthorizationRecorded x)) of
                Inl e \<Rightarrow> Some e
              | Inr want \<Rightarrow>
                  if want \<noteq> effective
                  then Some (OAuthError StatusBadRequest ''invalid_authorization_details''
                    ''authorization_details changed while refresh was in flight'')
                  else None)))"

end
