(* ===== verification/RefreshHandler.thy ===== *)
theory RefreshHandler
  imports RefreshPreflight
begin

text \<open>
  The refresh_token grant of the token endpoint: \<^verbatim>\<open>internal/tokenendpoint/refresh.go\<close>, \<^verbatim>\<open>refresh_response.go\<close>,
  \<^verbatim>\<open>refresh_grace.go\<close>, \<^verbatim>\<open>refresh_retry.go\<close>, \<^verbatim>\<open>refresh_mint_guards.go\<close>, \<^verbatim>\<open>refresh_replay_cascade.go\<close> and \<^verbatim>\<open>subject.go\<close>.
  The exchange and the issuance take the substores \<open>h\<close>: the handler runs them on the store, or on the
  handles of a transaction that it commits or rolls back afterwards.

  The record \<open>refresh_env\<close> holds what a request reads from outside: the clock of the endpoint and that of
  the store at each call, and the random identifiers. Audit records have no effect on the store and are
  left out.
\<close>

record refresh_env =
  re_findNow :: time
  re_preflightNow :: time
  re_consumeNow :: time
  re_exchangeNow :: time
  re_loadNow :: time
  re_rotationNow :: time
  re_mint :: mint_env
  re_commitCodesNow :: time
  re_commitRefreshNow :: time
  re_confirm :: mint_env
  re_retireNow :: time
  re_cascade :: mint_env

definition teardownReasonRotation :: string where "teardownReasonRotation = ''refresh_rotation''"
definition teardownReasonRefreshReplay :: string where "teardownReasonRefreshReplay = ''refresh_replay''"
definition teardownReasonSubjectDeprovisioned :: string where
  "teardownReasonSubjectDeprovisioned = ''subject_deprovisioned''"


section \<open>What is armed for the settle point\<close>

record deprovisionedRedemption =
  dr_ClientID :: string
  dr_Subject :: string
  dr_GrantType :: string
  dr_GrantID :: string

record replayCascade =
  ca_token :: string
  ca_deprovisioned :: deprovisionedRedemption

definition zero_replayCascade :: replayCascade where
  "zero_replayCascade =
     \<lparr>ca_token = [], ca_deprovisioned = \<lparr>dr_ClientID = [], dr_Subject = [], dr_GrantType = [], dr_GrantID = []\<rparr>\<rparr>"

definition replayCascade_arm :: "string \<Rightarrow> replayCascade \<Rightarrow> replayCascade" where
  "replayCascade_arm presented c = c\<lparr>ca_token := presented\<rparr>"

definition replayCascade_armDeprovisioned :: "deprovisionedRedemption \<Rightarrow> replayCascade \<Rightarrow> replayCascade" where
  "replayCascade_armDeprovisioned inp c = c\<lparr>ca_deprovisioned := inp\<rparr>"

definition replayCascade_armed :: "replayCascade \<Rightarrow> bool" where
  "replayCascade_armed c \<longleftrightarrow> ca_token c \<noteq> [] \<or> dr_Subject (ca_deprovisioned c) \<noteq> []"


section \<open>The exchange\<close>

definition newRefreshExchanger :: "'s stores \<Rightarrow> tokenDeps \<Rightarrow> refresh_err + 's Exchanger" where
  "newRefreshExchanger h deps =
     NewExchanger
       \<lparr>xc_Store = (if td_RefreshTokens deps then Some (so_refresh h) else None),
        xc_GraceTTL = td_RefreshTokenGraceTTL deps, xc_DeferReplayCascade = True,
        xc_RotationDisabled = td_RefreshTokenRotationDisabled deps\<rparr>"

definition writeRefreshExchangeError :: "refresh_err \<Rightarrow> wire_error" where
  "writeRefreshExchangeError err =
     (if err = ErrTokenMissing \<or> err = ErrTokenExpired \<or> err = ErrTokenReplayed \<or> err = refresh_err.ErrClientMismatch
        then OAuthError StatusBadRequest ''invalid_grant'' ''refresh token rejected''
      else if err = ErrScopeWidening
        then OAuthError StatusBadRequest ''invalid_scope'' ''requested scope exceeds the original grant''
      else ServerError)"

definition exchangeRefresh ::
  "'s stores \<Rightarrow> tokenDeps \<Rightarrow> refresh_env \<Rightarrow> string \<Rightarrow> refreshInputs \<Rightarrow> replayCascade \<Rightarrow> 's \<Rightarrow>
     (wire_error + Exchanged) \<times> replayCascade \<times> 's" where
  "exchangeRefresh h deps env clientID inp cascade s =
     (case newRefreshExchanger h deps of
        Inl _ \<Rightarrow> (Inl ServerError, cascade, s)
      | Inr exchanger \<Rightarrow>
          (case Exchanger_Exchange exchanger (re_consumeNow env) (re_exchangeNow env)
                  \<lparr>xi_Token = rin_Token inp, xi_ClientID = clientID, xi_RequestedScope = rin_RequestedScope inp\<rparr> (s, []) of
             (Inl err, s, _) \<Rightarrow>
               (Inl (writeRefreshExchangeError err),
                if err = ErrTokenReplayed then replayCascade_arm (rin_Token inp) cascade else cascade, s)
           | (Inr x, s, _) \<Rightarrow> (Inr x, cascade, s)))"


section \<open>The guards of a mint\<close>

definition refreshMintPinnedJWT :: "Exchanged \<Rightarrow> bool" where
  "refreshMintPinnedJWT x = xd_SubjectPublic x"

definition revokePriorOpaqueAT :: "'s stores \<Rightarrow> tokenDeps \<Rightarrow> mint_env \<Rightarrow> Exchanged \<Rightarrow> 's \<Rightarrow> revoker_err option \<times> 's" where
  "revokePriorOpaqueAT h deps env x s =
     (if \<not> td_OpaqueAccessTokens deps \<or> xd_GrantID x = [] \<or> refreshMintPinnedJWT x then (None, s)
      else if accessTokenFormat deps (xd_Resource x) \<noteq> AccessTokenFormatOpaque then (None, s)
      else
        (case Revoker_Run h (grantTeardown deps env teardownReasonRotation) (me_storeNow env)
                (OpaqueAccessTokensOfChain (xd_GrantID x) (xd_ChainID x)) s of
           (out, s) \<Rightarrow> (Outcome_Err out, s)))"

definition retirePriorOpaqueAccessTokens ::
  "'s stores \<Rightarrow> tokenDeps \<Rightarrow> mint_env \<Rightarrow> Exchanged \<Rightarrow> 's \<Rightarrow> wire_error option \<times> 's" where
  "retirePriorOpaqueAccessTokens h deps env x s =
     (case revokePriorOpaqueAT h deps env x s of
        (err, s) \<Rightarrow> (if err \<noteq> None then Some ServerError else None, s))"

definition refreshIssuedUnderGrant :: "Exchanged \<Rightarrow> issuedUnderGrant" where
  "refreshIssuedUnderGrant x =
     \<lparr>iu_GrantID = xd_GrantID x, iu_IssuedAt = xd_IssuedAt x, iu_AccessToken = [], iu_RefreshToken = []\<rparr>"

definition refreshIssuanceChain :: "tokenDeps \<Rightarrow> byte list option \<Rightarrow> Exchanged \<Rightarrow> refresh_err + Exchanged" where
  "refreshIssuanceChain deps buf x =
     (if td_RefreshTokenRotationDisabled deps then Inr x else withChainID buf x)"


section \<open>The access token and the id_token of a refresh\<close>

definition mintRefreshAccessToken ::
  "'s stores \<Rightarrow> tokenDeps \<Rightarrow> mint_env \<Rightarrow> Client \<Rightarrow> Exchanged \<Rightarrow> authContext \<Rightarrow> tokenBinding \<Rightarrow> jobject list \<Rightarrow> time \<Rightarrow> 's \<Rightarrow>
     (token_err + string \<times> string) \<times> 's" where
  "mintRefreshAccessToken h deps env client x authCtx binding authorizationDetails now s =
     (case (if \<not> xd_SubjectPublic x then projectPublicSubject deps (xd_Subject x) client else Inr (xd_Subject x)) of
        Inl e \<Rightarrow> (Inl e, s)
      | Inr publicSubject \<Rightarrow>
          (case mintAccessToken h deps env (xd_Subject x) publicSubject (cl_ID client) (xd_GrantID x) (xd_Scope x)
                  (xd_Resource x) now (ax_AuthTime authCtx) binding authorizationDetails
                  \<lparr>ov_TTL = 0, ov_Audience = [], ov_Extra = xd_AccessTokenExtra x, ov_ForceJWT = refreshMintPinnedJWT x,
                   ov_Authorization = Some authCtx, ov_ACR = [], ov_ChainID = xd_ChainID x\<rparr> s of
             (Inl e, s) \<Rightarrow> (Inl e, s)
           | (Inr accessToken, s) \<Rightarrow> (Inr (accessToken, publicSubject), s)))"

record refreshIDTokenInput =
  rid_Subject :: string
  rid_ClientID :: string
  rid_Scope :: "string list"
  rid_Now :: time
  rid_AuthTime :: int
  rid_ACR :: string
  rid_AMR :: "string list"
  rid_Claims :: "ClaimsRequest option"
  rid_Nonce :: string
  rid_Extra :: jobject

definition exchangeChainWithholdsIDToken :: "Exchanged \<Rightarrow> bool" where
  "exchangeChainWithholdsIDToken x =
     (if xd_Origin x \<noteq> RefreshOriginCustomGrant then False else map_of (xd_AccessTokenExtra x) ''act'' \<noteq> None)"

definition refreshIDTokenScope :: "Exchanged \<Rightarrow> string list" where
  "refreshIDTokenScope x = (if exchangeChainWithholdsIDToken x then [] else xd_Scope x)"

definition maybeMintRefreshIDToken :: "tokenDeps \<Rightarrow> refreshIDTokenInput \<Rightarrow> token_err + string" where
  "maybeMintRefreshIDToken deps inp =
     (if \<not> ContainsOpenID (rid_Scope inp) then Inr []
      else
        SignIDToken (td_SigningKey deps)
          ((Deps_idTokenClaims deps (rid_Subject inp) (rid_ClientID inp) (rid_Now inp))
             \<lparr>it_AuthTime := rid_AuthTime inp, it_Nonce := rid_Nonce inp,
              it_ACR := idTokenACRForClaims (rid_ACR inp) (rid_Claims inp), it_AMR := rid_AMR inp,
              it_Extra := rid_Extra inp\<rparr>))"


section \<open>Retry responses\<close>

definition refreshRetryFormatV0 :: byte where "refreshRetryFormatV0 = 0"

definition sealRefreshRetryResponse :: "retry_ring \<Rightarrow> string \<Rightarrow> successResponse \<Rightarrow> token_err + byte list" where
  "sealRefreshRetryResponse material predecessor response =
     (case rk_seal material predecessor response of
        Inl e \<Rightarrow> Inl e
      | Inr sealed \<Rightarrow> Inr (refreshRetryFormatV0 # sealed))"

definition openRefreshRetryResponse :: "retry_ring \<Rightarrow> string \<Rightarrow> byte list \<Rightarrow> token_err + successResponse" where
  "openRefreshRetryResponse material predecessor sealed =
     (case sealed of
        [] \<Rightarrow> Inl (TokenMsg ''refresh retry response is unavailable'')
      | _ # body \<Rightarrow>
          (case rk_open material predecessor body of
             Inl e \<Rightarrow> Inl e
           | Inr response \<Rightarrow>
               if sr_AccessToken response = [] \<or> sr_RefreshToken response = []
               then Inl (TokenMsg ''refresh retry response is malformed'') else Inr response))"

text \<open>The response, or None when there is nothing cached.\<close>

definition loadRefreshRetryResponse ::
  "'s stores \<Rightarrow> tokenDeps \<Rightarrow> time \<Rightarrow> string \<Rightarrow> 's \<Rightarrow> token_err + successResponse option" where
  "loadRefreshRetryResponse h deps now predecessor s =
     (case td_RefreshRetryEncryptionKeys deps of
        None \<Rightarrow> Inr None
      | Some material \<Rightarrow>
          (case so_LoadRetryResponse h now predecessor s of
             (_, Some err) \<Rightarrow> if err = ErrNotFound then Inr None else Inl (TokenStore err)
           | (sealed, None) \<Rightarrow>
               (case openRefreshRetryResponse material predecessor (case sealed of None \<Rightarrow> [] | Some b \<Rightarrow> b) of
                  Inl e \<Rightarrow> Inl e
                | Inr response \<Rightarrow> Inr (Some response))))"


section \<open>Rotation\<close>

definition rotation_input :: "Client \<Rightarrow> Exchanged \<Rightarrow> tokenBinding \<Rightarrow> IssueInput" where
  "rotation_input client x binding =
     \<lparr>ii_ClientID = cl_ID client, ii_Subject = xd_Subject x, ii_GrantID = xd_GrantID x, ii_Scope = xd_BoundScope x,
      ii_Resource = xd_Resource x, ii_ParentID = Some (xd_ConsumedID x), ii_Origin = xd_Origin x,
      ii_SubjectPublic = xd_SubjectPublic x, ii_AuthTime = xd_AuthTime x, ii_ACR = xd_ACR x, ii_AMR = xd_AMR x,
      ii_AuthorizationDetails = xd_AuthorizationDetails x, ii_AccessTokenExtra = xd_AccessTokenExtra x,
      ii_Claims = xd_Claims x, ii_AuthorizationRecorded = xd_AuthorizationRecorded x,
      ii_DPoPJKT = (if xd_DPoPJKT x = [] then refreshDPoPJKT client (tb_DPoPJKT binding) else tb_DPoPJKT binding),
      ii_MTLSCertThumbprint = tb_MTLSThumbprint binding, ii_Nonce = xd_Nonce x, ii_ChainID = xd_ChainID x\<rparr>"

definition rotateRefreshToken ::
  "'s stores \<Rightarrow> tokenDeps \<Rightarrow> refresh_env \<Rightarrow> Client \<Rightarrow> Exchanged \<Rightarrow> tokenBinding \<Rightarrow> successResponse \<Rightarrow> 's \<Rightarrow>
     (token_err + successResponse) \<times> 's" where
  "rotateRefreshToken h deps env client x binding response s =
     (if Deps_refreshIssuanceBlockedReason deps client \<noteq> [] then (Inr response, s)
      else
        (case NewIssuer (if td_RefreshTokens deps then Some (so_refresh h) else None)
                (pickRefreshTokenTTL deps (xd_BoundScope x)) of
           Inl e \<Rightarrow> (Inl (TokenRefresh e), s)
         | Inr issuer \<Rightarrow>
             (case td_RefreshRetryEncryptionKeys deps of
                None \<Rightarrow>
                  (case Issuer_Issue issuer (me_issuerNow (re_mint env)) (me_refreshID (re_mint env)) None
                          (rotation_input client x binding) s of
                     (Inl e, s) \<Rightarrow> (Inl (TokenRefresh e), s)
                   | (Inr token, s) \<Rightarrow> (Inr (response\<lparr>sr_RefreshToken := token\<rparr>), s))
              | Some material \<Rightarrow>
                  (case Issuer_Prepare issuer (me_issuerNow (re_mint env)) (me_refreshID (re_mint env)) None
                          (rotation_input client x binding) of
                     Inl e \<Rightarrow> (Inl (TokenRefresh e), s)
                   | Inr (token, successor) \<Rightarrow>
                       let response = response\<lparr>sr_RefreshToken := token\<rparr>
                       in case sealRefreshRetryResponse material (xd_ConsumedID x) response of
                            Inl e \<Rightarrow> (Inl e, s)
                          | Inr sealed \<Rightarrow>
                              (case so_SaveRotationWithRetry h (re_rotationNow env) (Some successor) sealed s of
                                 (Some e, s) \<Rightarrow> (Inl (TokenStore e), s)
                               | (None, s) \<Rightarrow> (Inr response, s))))))"

definition rotateOrKeepRefreshToken ::
  "'s stores \<Rightarrow> tokenDeps \<Rightarrow> refresh_env \<Rightarrow> Client \<Rightarrow> Exchanged \<Rightarrow> authContext \<Rightarrow> jobject list \<Rightarrow> tokenBinding \<Rightarrow>
     successResponse \<Rightarrow> 's \<Rightarrow> (token_err + successResponse) \<times> 's" where
  "rotateOrKeepRefreshToken h deps env client x authCtx authorizationDetails binding response s =
     (if td_RefreshTokenRotationDisabled deps then (Inr response, s)
      else rotateRefreshToken h deps env client (refreshExchangedForRotation x authCtx authorizationDetails) binding
             response s)"


section \<open>The response\<close>

text \<open>
  A response, and what the exchange persisted, for the check that follows once it is durable.
\<close>

type_synonym refresh_result = "successResponse response \<times> issuedUnderGrant option"

definition reissueGraceAccessToken ::
  "'s stores \<Rightarrow> tokenDeps \<Rightarrow> refresh_env \<Rightarrow> Client \<Rightarrow> Exchanged \<Rightarrow> tokenBinding \<Rightarrow> successResponse \<Rightarrow> 's \<Rightarrow>
     refresh_result \<times> 's" where
  "reissueGraceAccessToken h deps env client x binding response s =
     (case refuseIssuanceUnderClosedGrant h deps (re_mint env) (refreshIssuedUnderGrant x) ''refresh token rejected'' s of
        (Some e, s) \<Rightarrow> ((Refuse e, None), s)
      | (None, s) \<Rightarrow>
     (case retirePriorOpaqueAccessTokens h deps (re_mint env) x s of
        (Some e, s) \<Rightarrow> ((Refuse e, None), s)
      | (None, s) \<Rightarrow>
     (case refreshAuthContext h deps x s of
        Inl _ \<Rightarrow> ((Refuse ServerError, None), s)
      | Inr authCtx \<Rightarrow>
     (case mintRefreshAccessToken h deps (re_mint env) client x authCtx binding (sr_AuthorizationDetails response)
             (me_now (re_mint env)) s of
        (Inl _, s) \<Rightarrow> ((Refuse ServerError, None), s)
      | (Inr (accessToken, _), s) \<Rightarrow>
          ((TokenResponse (response\<lparr>sr_AccessToken := accessToken, sr_TokenType := tokenBinding_tokenTypeFor binding,
              sr_ExpiresIn := whole_seconds (td_AccessTokenTTL deps)\<rparr>),
            Some ((refreshIssuedUnderGrant x)\<lparr>iu_AccessToken := accessToken\<rparr>)), s)))))"

definition serveGraceRetry ::
  "'s stores \<Rightarrow> tokenDeps \<Rightarrow> refresh_env \<Rightarrow> Client \<Rightarrow> Exchanged \<Rightarrow> tokenBinding \<Rightarrow> 's \<Rightarrow> refresh_result \<times> 's" where
  "serveGraceRetry h deps env client x binding s =
     (case loadRefreshRetryResponse h deps (re_loadNow env) (xd_ConsumedID x) s of
        Inl _ \<Rightarrow> ((Refuse ServerError, None), s)
      | Inr None \<Rightarrow> ((Refuse (OAuthError StatusBadRequest ''invalid_grant'' ''refresh token rejected''), None), s)
      | Inr (Some response) \<Rightarrow>
          if sr_Scope response \<noteq> scope_Join (xd_Scope x)
          then ((Refuse (OAuthError StatusBadRequest ''invalid_grant''
                  ''refresh token retry does not match original exchange''), None), s)
          else if tokenBinding_constrained binding then reissueGraceAccessToken h deps env client x binding response s
          else ((TokenResponse response, None), s))"

definition refresh_id_token ::
  "tokenDeps \<Rightarrow> mint_env \<Rightarrow> Client \<Rightarrow> Exchanged \<Rightarrow> User option \<Rightarrow> authContext \<Rightarrow> string \<Rightarrow> token_err + string" where
  "refresh_id_token deps env client x user authCtx publicSubject =
     (case maybeMintRefreshIDToken deps
             \<lparr>rid_Subject = publicSubject, rid_ClientID = cl_ID client, rid_Scope = refreshIDTokenScope x,
              rid_Now = me_now env, rid_AuthTime = ax_AuthTime authCtx, rid_ACR = ax_ACR authCtx,
              rid_AMR = ax_AMR authCtx, rid_Claims = ax_Claims authCtx, rid_Nonce = xd_Nonce x,
              rid_Extra = (if ContainsOpenID (refreshIDTokenScope x)
                           then Deps_idTokenExtra deps user (xd_Scope x) (ax_Claims authCtx) else [])\<rparr> of
        Inl e \<Rightarrow> Inl e
      | Inr idToken \<Rightarrow> if idToken \<noteq> [] then maybeEncryptIDToken deps client idToken else Inr idToken)"

definition refreshed_response ::
  "tokenDeps \<Rightarrow> Exchanged \<Rightarrow> tokenBinding \<Rightarrow> jobject list \<Rightarrow> string \<Rightarrow> string \<Rightarrow> successResponse" where
  "refreshed_response deps x binding authorizationDetails accessToken idToken =
     \<lparr>sr_AccessToken = accessToken, sr_TokenType = tokenBinding_tokenTypeFor binding,
      sr_ExpiresIn = whole_seconds (td_AccessTokenTTL deps), sr_RefreshToken = [], sr_IDToken = idToken,
      sr_Scope = scope_Join (xd_Scope x), sr_AuthorizationDetails = authorizationDetails,
      sr_GrantID = chainGrantIDForResponse deps x\<rparr>"

definition issueRefreshResponse ::
  "'s stores \<Rightarrow> tokenDeps \<Rightarrow> refresh_env \<Rightarrow> Client \<Rightarrow> Exchanged \<Rightarrow> User option \<Rightarrow> tokenBinding \<Rightarrow> jobject list \<Rightarrow> 's \<Rightarrow>
     refresh_result \<times> 's" where
  "issueRefreshResponse h deps env client x user binding authorizationDetails s =
     (if xd_InGrace x then serveGraceRetry h deps env client x binding s
      else
     (case refreshAuthContext h deps x s of
        Inl _ \<Rightarrow> ((Refuse ServerError, None), s)
      | Inr authCtx \<Rightarrow>
     (case requireAuthTimeForIDToken client (xd_Scope x) (ax_AuthTime authCtx) of
        Some _ \<Rightarrow>
          ((Refuse (OAuthError StatusInternalServerError ''server_error'' ''required auth_time is unavailable''), None), s)
      | None \<Rightarrow>
     (case retirePriorOpaqueAccessTokens h deps (re_mint env) x s of
        (Some e, s) \<Rightarrow> ((Refuse e, None), s)
      | (None, s) \<Rightarrow>
     (case refuseIssuanceUnderClosedGrant h deps (re_mint env) (refreshIssuedUnderGrant x) ''refresh token rejected'' s of
        (Some e, s) \<Rightarrow> ((Refuse e, None), s)
      | (None, s) \<Rightarrow>
     (case refreshIssuanceChain deps (me_chainID (re_mint env)) x of
        Inl _ \<Rightarrow> ((Refuse ServerError, None), s)
      | Inr x \<Rightarrow>
     (case mintRefreshAccessToken h deps (re_mint env) client x authCtx binding authorizationDetails
             (me_now (re_mint env)) s of
        (Inl _, s) \<Rightarrow> ((Refuse ServerError, None), s)
      | (Inr (accessToken, publicSubject), s) \<Rightarrow>
     (case refresh_id_token deps (re_mint env) client x user authCtx publicSubject of
        Inl _ \<Rightarrow> ((Refuse ServerError, None), s)
      | Inr idToken \<Rightarrow>
     (case rotateOrKeepRefreshToken h deps env client x authCtx authorizationDetails binding
             (refreshed_response deps x binding authorizationDetails accessToken idToken) s of
        (Inl _, s) \<Rightarrow> ((Refuse ServerError, None), s)
      | (Inr response, s) \<Rightarrow>
          ((TokenResponse response,
            Some ((refreshIssuedUnderGrant x)
              \<lparr>iu_AccessToken := accessToken, iu_RefreshToken := sr_RefreshToken response\<rparr>)), s))))))))))"


section \<open>The settle point\<close>

definition retireDeprovisionedGrant ::
  "'s stores \<Rightarrow> tokenDeps \<Rightarrow> mint_env \<Rightarrow> deprovisionedRedemption \<Rightarrow> 's \<Rightarrow> 's" where
  "retireDeprovisionedGrant h deps env inp s =
     (if dr_GrantID inp \<noteq> []
      then snd (Revoker_Run h (grantTeardown deps env teardownReasonSubjectDeprovisioned) (me_storeNow env)
             (WholeGrant (dr_GrantID inp)) s)
      else s)"

definition replayCascade_run :: "'s stores \<Rightarrow> tokenDeps \<Rightarrow> refresh_env \<Rightarrow> replayCascade \<Rightarrow> 's \<Rightarrow> 's" where
  "replayCascade_run h deps env c s =
     (if \<not> replayCascade_armed c then s
      else
        let s = (if dr_Subject (ca_deprovisioned c) \<noteq> []
                 then retireDeprovisionedGrant h deps (re_cascade env) (ca_deprovisioned c) s else s)
        in if ca_token c = [] then s
           else
             (case newRefreshExchanger h deps of
                Inl _ \<Rightarrow> s
              | Inr exchanger \<Rightarrow>
                  (case Exchanger_RevokeReplayedChain exchanger (re_retireNow env) (ca_token c) (s, []) of
                     (replayed, s, _) \<Rightarrow>
                       if rc_JoinedGrant replayed \<and> rc_ChainID replayed = [] then s
                       else
                         snd (Revoker_Run h (grantTeardown deps (re_cascade env) teardownReasonRefreshReplay)
                           (me_storeNow (re_cascade env))
                           (if rc_JoinedGrant replayed
                            then OpaqueAccessTokensOfChain (rc_GrantID replayed) (rc_ChainID replayed)
                            else CompromisedGrantAccessTokens (rc_GrantID replayed)) s))))"

definition rotationOutcome_confirm ::
  "'s stores \<Rightarrow> tokenDeps \<Rightarrow> refresh_env \<Rightarrow> refresh_result \<Rightarrow> 's \<Rightarrow> successResponse response \<times> 's" where
  "rotationOutcome_confirm h deps env result s =
     (case result of
        (staged, None) \<Rightarrow> (staged, s)
      | (staged, Some issued) \<Rightarrow>
          (case refuseIssuanceUnderClosedGrant h deps (re_confirm env) issued ''refresh token rejected'' s of
             (None, s) \<Rightarrow> (staged, s)
           | (Some e, s) \<Rightarrow> (Refuse e, s)))"

definition requireLiveRefreshSubject ::
  "'s stores \<Rightarrow> tokenDeps \<Rightarrow> string \<Rightarrow> Exchanged \<Rightarrow> replayCascade \<Rightarrow> 's \<Rightarrow>
     (wire_error + User option) \<times> replayCascade" where
  "requireLiveRefreshSubject h deps clientID x cascade s =
     (case (if grantIsOwnConsent (xd_Origin x) then Inr (Some (xd_Subject x))
            else (case FindGrant h deps (xd_GrantID x) s of
                    Inl e \<Rightarrow> Inl e
                  | Inr lineage \<Rightarrow> Inr (map_option gr_Subject lineage))) of
        Inl _ \<Rightarrow> (Inl ServerError, cascade)
      | Inr None \<Rightarrow> (Inr None, cascade)
      | Inr (Some subject) \<Rightarrow>
          (case lookupLiveSubject deps subject of
             (user, SubjectLive) \<Rightarrow> (Inr user, cascade)
           | (user, err) \<Rightarrow>
               (Inl (writeSubjectLookupError err),
                if err = SubjectDeprovisioned
                then replayCascade_armDeprovisioned
                  \<lparr>dr_ClientID = clientID, dr_Subject = subject, dr_GrantType = grantTypeRefreshToken,
                   dr_GrantID = xd_GrantID x\<rparr> cascade
                else cascade)))"


section \<open>The handler\<close>

text \<open>The gates after the exchange, in order.\<close>

definition exchanged_gates ::
  "tokenDeps \<Rightarrow> Client \<Rightarrow> dpopOutcome \<Rightarrow> (string \<Rightarrow> mtls_err option) \<Rightarrow> Exchanged \<Rightarrow> wire_error option" where
  "exchanged_gates deps client out verifyBound x =
     (case checkTokenScopeAllowlist (td_Scopes deps) (cl_ID client) (xd_Scope x) of
        Some e \<Rightarrow> Some e
      | None \<Rightarrow>
     (case requireRegisteredScopes client (xd_Scope x) of
        Some e \<Rightarrow> Some e
      | None \<Rightarrow>
     (case enforceStrictOfflineAccess deps (xd_BoundScope x) (xd_Origin x) of
        Some e \<Rightarrow> Some e
      | None \<Rightarrow>
     (case enforceDPoPRefreshBinding deps out (xd_DPoPJKT x) of
        Some e \<Rightarrow> Some e
      | None \<Rightarrow>
     (case requireMTLSMatch deps verifyBound (xd_MTLSCertThumbprint x) of
        Some e \<Rightarrow> Some e
      | None \<Rightarrow>
          enforceSenderConstraint deps
            \<lparr>tb_DPoPJKT = do_JKT out, tb_MTLSThumbprint = xd_MTLSCertThumbprint x\<rparr>)))))"

record refresh_outcome =
  ro_rollback :: bool
  ro_result :: refresh_result
  ro_cascade :: replayCascade

abbreviation refused :: "bool \<Rightarrow> wire_error \<Rightarrow> replayCascade \<Rightarrow> refresh_outcome" where
  "refused rollback e cascade \<equiv> \<lparr>ro_rollback = rollback, ro_result = (Refuse e, None), ro_cascade = cascade\<rparr>"

definition completeRefreshToken ::
  "'s stores \<Rightarrow> tokenDeps \<Rightarrow> refresh_env \<Rightarrow> Client \<Rightarrow> refreshInputs \<Rightarrow> dpopOutcome \<Rightarrow> (string \<Rightarrow> mtls_err option) \<Rightarrow>
     jobject list \<Rightarrow> jobject list \<Rightarrow> bool \<Rightarrow> replayCascade \<Rightarrow> 's \<Rightarrow> refresh_outcome \<times> 's" where
  "completeRefreshToken h deps env client inp out verifyBound requested authorizationDetails transactional cascade s =
     (case exchangeRefresh h deps env (cl_ID client) inp cascade s of
        (Inl e, cascade, s) \<Rightarrow> (refused False e cascade, s)
      | (Inr x, cascade, s) \<Rightarrow>
     (case (if transactional then revalidateRefreshAuthorizationDetails h deps x requested authorizationDetails s else None) of
        Some e \<Rightarrow> (refused True e cascade, s)
      | None \<Rightarrow>
     (case exchanged_gates deps client out verifyBound x of
        Some e \<Rightarrow> (refused False e cascade, s)
      | None \<Rightarrow>
     (case requireLiveRefreshSubject h deps (cl_ID client) x cascade s of
        (Inl e, cascade) \<Rightarrow> (refused False e cascade, s)
      | (Inr user, cascade) \<Rightarrow>
          (case issueRefreshResponse h deps env client x user
                  \<lparr>tb_DPoPJKT = do_JKT out, tb_MTLSThumbprint = xd_MTLSCertThumbprint x\<rparr> authorizationDetails s of
             (result, s) \<Rightarrow> (\<lparr>ro_rollback = False, ro_result = result, ro_cascade = cascade\<rparr>, s))))))"

definition response_status :: "'c response \<Rightarrow> nat" where
  "response_status r = (case r of Refuse (OAuthError status _ _) \<Rightarrow> status | TokenResponse _ \<Rightarrow> 200)"

text \<open>
  One attempt of the transactional path: None when \<^verbatim>\<open>BeginTx\<close> waits for another transaction. The handlers
  of the transaction are closed by the deferred \<^verbatim>\<open>Rollback\<close> when it was not committed.
\<close>

definition runRefreshTokenTransaction ::
  "tokenDeps \<Rightarrow> refresh_env \<Rightarrow> Client \<Rightarrow> refreshInputs \<Rightarrow> dpopOutcome \<Rightarrow> (string \<Rightarrow> mtls_err option) \<Rightarrow>
     jobject list \<Rightarrow> jobject list \<Rightarrow> replayCascade \<Rightarrow> inmem_Store \<Rightarrow>
     ((store_err + successResponse response) \<times> replayCascade \<times> inmem_Store) option" where
  "runRefreshTokenTransaction deps env client inp out verifyBound requested authorizationDetails cascade s =
     (case Store_BeginTx None None s of
        None \<Rightarrow> None
      | Some ((None, e), s) \<Rightarrow> Some (Inl (case e of Some e \<Rightarrow> e | None \<Rightarrow> ErrTxRequired), cascade, s)
      | Some ((Some tx, _), s) \<Rightarrow>
          (case completeRefreshToken tx_stores (deps\<lparr>td_Transactions := False\<rparr>) env client inp out verifyBound requested
                  authorizationDetails True cascade (s, tx) of
             (o', (s, tx)) \<Rightarrow>
               if ro_rollback o' \<or> response_status (fst (ro_result o')) \<ge> StatusInternalServerError
               then Some (Inr (fst (ro_result o')), ro_cascade o', snd (tx_Rollback tx s))
               else
                 (case tx_Commit (re_commitCodesNow env) (re_commitRefreshNow env) tx s of
                    ((Some e, tx), s) \<Rightarrow>
                      Some (if replayCascade_armed (ro_cascade o') then Inr (fst (ro_result o')) else Inl e,
                            ro_cascade o', snd (tx_Rollback tx s))
                  | ((None, tx), s) \<Rightarrow>
                      (case rotationOutcome_confirm direct_stores deps env (ro_result o') s of
                         (staged, s) \<Rightarrow> Some (Inr staged, ro_cascade o', s)))))"

definition handleRefreshTokenTransaction ::
  "tokenDeps \<Rightarrow> refresh_env \<Rightarrow> refresh_env \<Rightarrow> Client \<Rightarrow> refreshInputs \<Rightarrow> dpopOutcome \<Rightarrow> (string \<Rightarrow> mtls_err option) \<Rightarrow>
     jobject list \<Rightarrow> jobject list \<Rightarrow> inmem_Store \<Rightarrow> (successResponse response \<times> inmem_Store) option" where
  "handleRefreshTokenTransaction deps env env2 client inp out verifyBound requested authorizationDetails s =
     (case runRefreshTokenTransaction deps env client inp out verifyBound requested authorizationDetails zero_replayCascade s of
        None \<Rightarrow> None
      | Some (staged, cascade, s) \<Rightarrow>
          (case (if staged = Inl ErrConflict
                 then runRefreshTokenTransaction deps env2 client inp out verifyBound requested authorizationDetails cascade s
                 else Some (staged, cascade, s)) of
             None \<Rightarrow> None
           | Some (staged, cascade, s) \<Rightarrow>
               let s = replayCascade_run direct_stores deps env cascade s
               in Some (case staged of Inl _ \<Rightarrow> Refuse ServerError | Inr r \<Rightarrow> r, s)))"

text \<open>
  \<^verbatim>\<open>handleRefreshToken\<close> after the client was authenticated: \<open>auth\<close> is the outcome of client authentication
  and of the proof, \<open>details\<close> that of parsing the requested authorization_details. \<open>between\<close> is what other
  requests do to the store between the preflight and the exchange.
\<close>

definition handleRefreshToken ::
  "tokenDeps \<Rightarrow> refresh_env \<Rightarrow> refresh_env \<Rightarrow> wire_error + (dpopOutcome \<times> Client) \<Rightarrow> string \<Rightarrow> string \<Rightarrow>
     (string \<Rightarrow> mtls_err option) \<Rightarrow> wire_error + jobject list \<Rightarrow> (inmem_Store \<Rightarrow> inmem_Store) \<Rightarrow> inmem_Store \<Rightarrow>
     (successResponse response \<times> inmem_Store) option" where
  "handleRefreshToken deps env env2 auth refresh_token scope verifyBound details between s =
     (case auth of
        Inl e \<Rightarrow> Some (Refuse e, s)
      | Inr (out, client) \<Rightarrow>
     (case parseRefreshRequest refresh_token scope of
        Inl e \<Rightarrow> Some (Refuse e, s)
      | Inr inp \<Rightarrow>
     (case checkTokenScopeAllowlist (td_Scopes deps) (cl_ID client) (rin_RequestedScope inp) of
        Some e \<Rightarrow> Some (Refuse e, s)
      | None \<Rightarrow>
     (case details of
        Inl e \<Rightarrow> Some (Refuse e, s)
      | Inr requested \<Rightarrow>
     (case preflightRefreshBeforeConsume direct_stores deps (re_findNow env) (re_preflightNow env) client inp out
             verifyBound s of
        Inl e \<Rightarrow> Some (Refuse e, s)
      | Inr presented \<Rightarrow>
     (case preflightRefreshAuthorizationDetails direct_stores deps presented requested s of
        Inl e \<Rightarrow> Some (Refuse e, s)
      | Inr effective \<Rightarrow>
          let s = between s
          in if td_Transactions deps \<and> \<not> td_RefreshTokenRotationDisabled deps
             then handleRefreshTokenTransaction deps env env2 client inp out verifyBound requested effective s
             else
               (case completeRefreshToken direct_stores deps env client inp out verifyBound [] effective False
                       zero_replayCascade s of
                  (o', s) \<Rightarrow>
                    (case rotationOutcome_confirm direct_stores deps env (ro_result o') s of
                       (staged, s) \<Rightarrow> Some (staged, replayCascade_run direct_stores deps env (ro_cascade o') s)))))))))"

end
