(* ===== verification/Pkce.thy ===== *)
theory Pkce
  imports Digest_Vectors
begin

text \<open>
  PKCE, \<^verbatim>\<open>internal/pkce/pkce.go\<close>: the format of challenges and verifiers (RFC 7636) and the S256
  verification.
\<close>

definition pkce_Method :: string where
  "pkce_Method = ''S256''"

definition VerifierMinLength :: nat where "VerifierMinLength = 43"
definition VerifierMaxLength :: nat where "VerifierMaxLength = 128"

datatype pkce_err =
    ErrChallengeRequired
  | ErrChallengeMethodUnsupported
  | ErrChallengeFormat
  | ErrVerifierFormat
  | ErrVerifierMismatch

definition isUnreserved :: "char \<Rightarrow> bool" where
  "isUnreserved c =
     (if CHR ''A'' \<le> c \<and> c \<le> CHR ''Z'' then True
      else if CHR ''a'' \<le> c \<and> c \<le> CHR ''z'' then True
      else if CHR ''0'' \<le> c \<and> c \<le> CHR ''9'' then True
      else if c = CHR ''-'' \<or> c = CHR ''.'' \<or> c = CHR ''_'' \<or> c = CHR ''~'' then True
      else False)"

fun all_unreserved :: "string \<Rightarrow> bool" where
  "all_unreserved [] = True"
| "all_unreserved (c # s) = (if \<not> isUnreserved c then False else all_unreserved s)"

fun isBase64URLNoPad :: "string \<Rightarrow> bool" where
  "isBase64URLNoPad [] = True"
| "isBase64URLNoPad (c # s) =
     (if CHR ''A'' \<le> c \<and> c \<le> CHR ''Z'' then isBase64URLNoPad s
      else if CHR ''a'' \<le> c \<and> c \<le> CHR ''z'' then isBase64URLNoPad s
      else if CHR ''0'' \<le> c \<and> c \<le> CHR ''9'' then isBase64URLNoPad s
      else if c = CHR ''-'' \<or> c = CHR ''_'' then isBase64URLNoPad s
      else False)"

definition isValidChallenge :: "string \<Rightarrow> bool" where
  "isValidChallenge s = (if length s \<noteq> 43 then False else isBase64URLNoPad s)"

definition isValidVerifier :: "string \<Rightarrow> bool" where
  "isValidVerifier s =
     (if length s < VerifierMinLength \<or> length s > VerifierMaxLength then False else all_unreserved s)"

definition ValidateChallenge :: "string \<Rightarrow> string \<Rightarrow> pkce_err option" where
  "ValidateChallenge challenge meth =
     (if challenge = [] then Some ErrChallengeRequired
      else if meth = [] then Some ErrChallengeRequired
      else if meth \<noteq> pkce_Method then Some ErrChallengeMethodUnsupported
      else if \<not> isValidChallenge challenge then Some ErrChallengeFormat
      else None)"

definition pkce_Verify :: "string \<Rightarrow> string \<Rightarrow> string \<Rightarrow> pkce_err option" where
  "pkce_Verify challenge challengeMethod verifier =
     (if challengeMethod \<noteq> pkce_Method then Some ErrChallengeMethodUnsupported
      else if \<not> isValidVerifier verifier then Some ErrVerifierFormat
      else
        let sum = sha256_Sum256 (bytes_of verifier);
            got = base64_RawURL sum
        in if ConstantTimeCompare (bytes_of got) (bytes_of challenge) \<noteq> 1 then Some ErrVerifierMismatch
           else None)"


section \<open>Formats\<close>

lemma all_unreserved_iff: "all_unreserved s \<longleftrightarrow> (\<forall>c \<in> set s. isUnreserved c)"
  by (induction s) auto

definition base64url_char :: "char \<Rightarrow> bool" where
  "base64url_char c \<longleftrightarrow> isBase64URLNoPad [c]"

lemma isBase64URLNoPad_iff: "isBase64URLNoPad s \<longleftrightarrow> (\<forall>c \<in> set s. base64url_char c)"
  by (induction s) (auto simp: base64url_char_def)

lemma b64_alphabet_base64url: "\<forall>c \<in> set b64_alphabet. base64url_char c"
  by (simp add: b64_alphabet_def base64url_char_def less_eq_char_def)

lemma base64url_unreserved: "base64url_char c \<Longrightarrow> isUnreserved c"
  by (auto simp: base64url_char_def isUnreserved_def split: if_splits)

text \<open>The S256 challenge of any verifier has the format the authorization endpoint accepts.\<close>

lemma isValidChallenge_S256: "isValidChallenge (base64_RawURL (sha256_Sum256 bs))"
  using base64_RawURL_alphabet [of "sha256_Sum256 bs"] b64_alphabet_base64url
  by (auto simp: isValidChallenge_def length_base64_RawURL isBase64URLNoPad_iff)

lemma pkce_Verify_None:
  "pkce_Verify challenge meth verifier = None \<longleftrightarrow>
     meth = pkce_Method \<and> isValidVerifier verifier
     \<and> challenge = base64_RawURL (sha256_Sum256 (bytes_of verifier))"
  by (auto simp: pkce_Verify_def Let_def ConstantTimeCompare_iff bytes_of_inject)

lemma sample_verifier_valid: "isValidVerifier sample_verifier"
  by (simp add: isValidVerifier_def sample_verifier_def VerifierMinLength_def VerifierMaxLength_def
      isUnreserved_def less_eq_char_def)


section \<open>Properties of PKCE\<close>

text \<open>
  C16. PKCE is sound and complete: verification succeeds exactly for the S256 method, a verifier of 43
  to 128 unreserved characters, and a challenge that is the unpadded base64url encoding of the
  verifier's SHA-256; and every challenge computed this way passes the check at the authorization
  endpoint, which accepts only 43-character base64url strings under S256.
\<close>

theorem pkce_correct:
  "(pkce_Verify challenge meth verifier = None \<longleftrightarrow>
      meth = ''S256'' \<and> 43 \<le> length verifier \<and> length verifier \<le> 128
      \<and> (\<forall>c. c \<in> set verifier \<longrightarrow> isUnreserved c)
      \<and> challenge = base64_RawURL (sha256_Sum256 (bytes_of verifier)))
   \<and> ValidateChallenge (base64_RawURL (sha256_Sum256 (bytes_of verifier))) ''S256'' = None
   \<and> (ValidateChallenge challenge meth = None \<longleftrightarrow>
        meth = ''S256'' \<and> length challenge = 43 \<and> (\<forall>c. c \<in> set challenge \<longrightarrow> base64url_char c))"
  (is "?verify \<and> ?complete \<and> ?format")
proof (intro conjI)
  show ?verify
    by (auto simp: pkce_Verify_None pkce_Method_def isValidVerifier_def all_unreserved_iff
        VerifierMinLength_def VerifierMaxLength_def)
  have "base64_RawURL (sha256_Sum256 (bytes_of verifier)) \<noteq> []"
    using isValidChallenge_S256 [of "bytes_of verifier"] by (auto simp: isValidChallenge_def)
  then show ?complete
    using isValidChallenge_S256 by (simp add: ValidateChallenge_def pkce_Method_def)
  show ?format
    by (auto simp: ValidateChallenge_def pkce_Method_def isValidChallenge_def isBase64URLNoPad_iff)
qed

theorem pkce_correct_witness:
  "pkce_Verify sample_challenge ''S256'' sample_verifier = None
   \<and> ValidateChallenge sample_challenge ''S256'' = None
   \<and> pkce_Verify sample_verifier ''plain'' sample_verifier \<noteq> None"
  using pkce_correct [of sample_challenge "''S256''" sample_verifier]
    pkce_correct [of sample_verifier "''plain''" sample_verifier] sample_verifier_valid
  by (auto simp: challenge_of_verifier isValidVerifier_def all_unreserved_iff VerifierMinLength_def
      VerifierMaxLength_def split: if_splits)

end
