(* ===== verification/AuthCodeGrant.thy ===== *)
theory AuthCodeGrant
  imports AuthCodeStore Pkce
begin

text \<open>
  The authorization_code grant, \<^verbatim>\<open>internal/grants/authcode/authcode.go\<close>: issuing a code and exchanging
  it. The bindings (client, redirect URI, PKCE) and the caller's own gate are checked on the
  unconsumed record first, so that a presentation that fails them leaves the code redeemable, and
  again on the consumed one. \<open>snow\<close> is the instant of the store's clock and \<open>now\<close> that of the
  exchanger's clock during a call.
\<close>

text \<open>
  The errors of the package. \<open>ErrAdmit\<close> is the refusal of the caller's own gate, with the status, the code and the
  description of the response that gate has written.
\<close>

datatype authcode_err =
    ErrCodeMissing
  | ErrCodeExpired
  | ErrCodeReplayed
  | ReplayError string
  | ErrCodeClientMismatch
  | ErrRedirectURIMismatch
  | ErrPKCE pkce_err
  | ErrCodeMsg string
  | ErrCodeStore string store_err
  | ErrAdmit nat string string

text \<open>\<^verbatim>\<open>errors.Is(err, ErrCodeReplayed)\<close> holds of the sentinel and of the error that wraps it.\<close>

definition is_replay :: "authcode_err \<Rightarrow> bool" where
  "is_replay e = (case e of ErrCodeReplayed \<Rightarrow> True | ReplayError _ \<Rightarrow> True | _ \<Rightarrow> False)"

definition ReplayGrantID :: "authcode_err \<Rightarrow> string" where
  "ReplayGrantID e = (case e of ReplayError g \<Rightarrow> g | _ \<Rightarrow> [])"

record 's code_ops =
  co_Save :: "time \<Rightarrow> AuthorizationCode option \<Rightarrow> 's \<Rightarrow> store_err option \<times> 's"
  co_Find :: "time \<Rightarrow> string \<Rightarrow> 's \<Rightarrow> AuthorizationCode option \<times> store_err option"
  co_Consume :: "time \<Rightarrow> string \<Rightarrow> 's \<Rightarrow> (AuthorizationCode option \<times> store_err option) \<times> 's"

definition authcode_IDLength :: nat where "authcode_IDLength = 32"

definition TTLDefault :: duration where
  "TTLDefault = 60 * second"


section \<open>Issuing\<close>

record 's code_Issuer =
  ci_store :: "'s code_ops"
  ci_ttl :: duration

definition authcode_NewIssuer :: "'s code_ops option \<Rightarrow> duration \<Rightarrow> authcode_err + 's code_Issuer" where
  "authcode_NewIssuer st ttl =
     (case st of
        None \<Rightarrow> Inl (ErrCodeMsg ''authcode: NewIssuer requires Store'')
      | Some ops \<Rightarrow> Inr \<lparr>ci_store = ops, ci_ttl = (if ttl \<le> 0 then TTLDefault else ttl)\<rparr>)"

record code_IssueInput =
  cii_ClientID :: string
  cii_Subject :: string
  cii_GrantID :: string
  cii_RedirectURI :: string
  cii_Scope :: "string list"
  cii_Resource :: string
  cii_CodeChallenge :: string
  cii_CodeChallengeMethod :: string
  cii_Nonce :: string
  cii_State :: string
  cii_DPoPJKT :: string

definition authcode_validateIssue :: "code_IssueInput \<Rightarrow> authcode_err option" where
  "authcode_validateIssue inp =
     (if cii_ClientID inp = [] then Some (ErrCodeMsg ''authcode: Issue requires ClientID'')
      else if cii_Subject inp = [] then Some (ErrCodeMsg ''authcode: Issue requires Subject'')
      else if cii_RedirectURI inp = [] then Some (ErrCodeMsg ''authcode: Issue requires RedirectURI'')
      else None)"

definition authcode_newID :: "byte list option \<Rightarrow> authcode_err + string" where
  "authcode_newID buf =
     (case RandomBase64URL buf of Inl e \<Rightarrow> Inl (ErrCodeMsg (''authcode: '' @ e)) | Inr i \<Rightarrow> Inr i)"

definition issued_code :: "time \<Rightarrow> duration \<Rightarrow> string \<Rightarrow> code_IssueInput \<Rightarrow> AuthorizationCode" where
  "issued_code now ttl i inp =
     \<lparr>ac_ID = i, ac_ClientID = cii_ClientID inp, ac_Subject = cii_Subject inp,
      ac_GrantID = cii_GrantID inp, ac_RedirectURI = cii_RedirectURI inp, ac_Scope = cii_Scope inp,
      ac_Resource = cii_Resource inp, ac_CodeChallenge = cii_CodeChallenge inp,
      ac_CodeChallengeMethod = cii_CodeChallengeMethod inp, ac_Nonce = cii_Nonce inp,
      ac_State = cii_State inp, ac_DPoPJKT = cii_DPoPJKT inp, ac_AuthTime = zero_time, ac_ACR = [],
      ac_AMR = [], ac_AuthorizationDetails = [], ac_Claims = [], ac_AuthorizationRecorded = False,
      ac_ExpiresAt = now + ttl, ac_ConsumedAt = None, ac_CreatedAt = now\<rparr>"

definition code_Issuer_Issue ::
  "'s code_Issuer \<Rightarrow> time \<Rightarrow> time \<Rightarrow> byte list option \<Rightarrow> code_IssueInput \<Rightarrow> 's \<Rightarrow>
     (authcode_err + string) \<times> 's" where
  "code_Issuer_Issue iss snow now rnd inp s =
     (case authcode_validateIssue inp of
        Some e \<Rightarrow> (Inl e, s)
      | None \<Rightarrow>
          (case if cii_CodeChallenge inp \<noteq> []
                then ValidateChallenge (cii_CodeChallenge inp) (cii_CodeChallengeMethod inp)
                else None of
             Some e \<Rightarrow> (Inl (ErrPKCE e), s)
           | None \<Rightarrow>
               (case authcode_newID rnd of
                  Inl e \<Rightarrow> (Inl e, s)
                | Inr i \<Rightarrow>
                    (case co_Save (ci_store iss) snow (Some (issued_code now (ci_ttl iss) i inp)) s of
                       (Some e, s) \<Rightarrow> (Inl (ErrCodeStore ''authcode: save'' e), s)
                     | (None, s) \<Rightarrow> (Inr i, s)))))"


section \<open>Exchanging\<close>

record code_Exchanged =
  cx_ClientID :: string
  cx_Subject :: string
  cx_GrantID :: string
  cx_Scope :: "string list"
  cx_Resource :: string
  cx_Nonce :: string
  cx_DPoPJKT :: string
  cx_HadCodeChallenge :: bool
  cx_ConsumedAt :: time
  cx_AuthTime :: time
  cx_ACR :: string
  cx_AMR :: "string list"
  cx_AuthorizationDetails :: "jobject list"
  cx_Claims :: jobject
  cx_AuthorizationRecorded :: bool
  cx_IssuedAt :: time

record code_ExchangeInput =
  cxi_Code :: string
  cxi_ClientID :: string
  cxi_RedirectURI :: string
  cxi_CodeVerifier :: string
  cxi_Admit :: "(code_Exchanged \<Rightarrow> authcode_err option) option"

definition project :: "AuthorizationCode \<Rightarrow> code_Exchanged" where
  "project rec =
     \<lparr>cx_ClientID = ac_ClientID rec, cx_Subject = ac_Subject rec, cx_GrantID = ac_GrantID rec,
      cx_Scope = ac_Scope rec, cx_Resource = ac_Resource rec, cx_Nonce = ac_Nonce rec,
      cx_DPoPJKT = ac_DPoPJKT rec, cx_HadCodeChallenge = (ac_CodeChallenge rec \<noteq> []),
      cx_ConsumedAt = (case ac_ConsumedAt rec of None \<Rightarrow> zero_time | Some t \<Rightarrow> t),
      cx_AuthTime = ac_AuthTime rec, cx_ACR = ac_ACR rec, cx_AMR = ac_AMR rec,
      cx_AuthorizationDetails = ac_AuthorizationDetails rec, cx_Claims = ac_Claims rec,
      cx_AuthorizationRecorded = ac_AuthorizationRecorded rec, cx_IssuedAt = ac_CreatedAt rec\<rparr>"

definition checkBindings :: "AuthorizationCode \<Rightarrow> code_ExchangeInput \<Rightarrow> authcode_err option" where
  "checkBindings rec inp =
     (if ac_ClientID rec \<noteq> cxi_ClientID inp then Some ErrCodeClientMismatch
      else if ac_RedirectURI rec \<noteq> cxi_RedirectURI inp then Some ErrRedirectURIMismatch
      else if ac_CodeChallenge rec = [] then
        (if cxi_CodeVerifier inp \<noteq> [] then Some (ErrPKCE ErrVerifierMismatch) else None)
      else map_option ErrPKCE
        (pkce_Verify (ac_CodeChallenge rec) (ac_CodeChallengeMethod rec) (cxi_CodeVerifier inp)))"

definition admit :: "AuthorizationCode \<Rightarrow> code_ExchangeInput \<Rightarrow> authcode_err option" where
  "admit rec inp =
     (case checkBindings rec inp of
        Some e \<Rightarrow> Some e
      | None \<Rightarrow> (case cxi_Admit inp of None \<Rightarrow> None | Some gate \<Rightarrow> gate (project rec)))"

definition code_Exchanger_preflight ::
  "'s code_ops \<Rightarrow> time \<Rightarrow> code_ExchangeInput \<Rightarrow> 's \<Rightarrow> authcode_err option" where
  "code_Exchanger_preflight ops snow inp s =
     (case co_Find ops snow (cxi_Code inp) s of
        (_, Some e) \<Rightarrow>
          if e = ErrNotFound then None else Some (ErrCodeStore ''authcode: find'' e)
      | (None, None) \<Rightarrow> None
      | (Some rec, None) \<Rightarrow> admit rec inp)"

definition code_Exchanger_consume ::
  "'s code_ops \<Rightarrow> time \<Rightarrow> string \<Rightarrow> 's \<Rightarrow> (AuthorizationCode option \<times> store_err option) \<times> 's" where
  "code_Exchanger_consume ops snow code s =
     (case co_Consume ops snow code s of
        ((rec, err), s) \<Rightarrow>
          if err = None \<and> rec = None then ((None, Some ErrNotFound), s) else ((rec, err), s))"

definition code_Exchanger_Exchange ::
  "'s code_ops \<Rightarrow> time \<Rightarrow> time \<Rightarrow> code_ExchangeInput \<Rightarrow> 's \<Rightarrow> (authcode_err + code_Exchanged) \<times> 's" where
  "code_Exchanger_Exchange ops snow now inp s =
     (if cxi_Code inp = [] then (Inl ErrCodeMissing, s)
      else
        (case code_Exchanger_preflight ops snow inp s of
           Some e \<Rightarrow> (Inl e, s)
         | None \<Rightarrow>
             (case code_Exchanger_consume ops snow (cxi_Code inp) s of
                ((rec, Some err), s) \<Rightarrow>
                  if err = ErrNotFound then (Inl ErrCodeMissing, s)
                  else if err = ErrAlreadyConsumed then
                    (case rec of
                       None \<Rightarrow> (Inl ErrCodeReplayed, s)
                     | Some rec \<Rightarrow>
                         (case admit rec inp of
                            Some e \<Rightarrow> (Inl e, s)
                          | None \<Rightarrow>
                              if ac_GrantID rec \<noteq> [] then (Inl (ReplayError (ac_GrantID rec)), s)
                              else (Inl ErrCodeReplayed, s)))
                  else (Inl (ErrCodeStore ''authcode: consume'' err), s)
              | ((None, None), s) \<Rightarrow> (Inl ErrCodeMissing, s)
              | ((Some rec, None), s) \<Rightarrow>
                  if ac_ConsumedAt rec = None
                    then (Inl (ErrCodeMsg ''authcode: store returned record without ConsumedAt''), s)
                  else if ac_ExpiresAt rec < now then (Inl ErrCodeExpired, s)
                  else
                    (case admit rec inp of
                       Some e \<Rightarrow> (Inl e, s)
                     | None \<Rightarrow> (Inr (project rec), s)))))"


section \<open>The contract of a code backend\<close>

locale code_backend =
  fixes ops :: "'s code_ops"
    and inv :: "'s \<Rightarrow> bool"
    and view :: "'s \<Rightarrow> code_map"
  assumes code_find: "inv s \<Longrightarrow> co_Find ops now i s = spec_code_find now i (view s)"
    and code_consume: "inv s \<Longrightarrow> fst (co_Consume ops now i s) = fst (spec_code_consume now i (view s))"
      "inv s \<Longrightarrow> view (snd (co_Consume ops now i s)) = snd (spec_code_consume now i (view s))"
begin

text \<open>The answer of an exchange, by the state of the row under the presented code.\<close>

lemma Exchange_answer:
  fixes snow :: time
  assumes inv: "inv s" and code: "cxi_Code inp \<noteq> []"
  defines "s1 \<equiv> snd (co_Consume ops snow (cxi_Code inp) s)"
  shows "code_Exchanger_Exchange ops snow now inp s =
    (case view s (hashKey (cxi_Code inp)) of
       None \<Rightarrow> (Inl ErrCodeMissing, s1)
     | Some r \<Rightarrow>
         if isExpired (ac_ExpiresAt r) snow then (Inl ErrCodeMissing, s1)
         else
           (case admit (r\<lparr>ac_ID := cxi_Code inp\<rparr>) inp of
              Some e \<Rightarrow> (Inl e, s)
            | None \<Rightarrow>
                if ac_ConsumedAt r \<noteq> None then
                  (if ac_GrantID r \<noteq> [] then (Inl (ReplayError (ac_GrantID r)), s1)
                   else (Inl ErrCodeReplayed, s1))
                else if ac_ExpiresAt r < now then (Inl ErrCodeExpired, s1)
                else
                  (case admit (r\<lparr>ac_ID := cxi_Code inp, ac_ConsumedAt := Some snow\<rparr>) inp of
                     Some e \<Rightarrow> (Inl e, s1)
                   | None \<Rightarrow> (Inr (project (r\<lparr>ac_ConsumedAt := Some snow\<rparr>)), s1))))"
proof -
  have run: "co_Consume ops snow (cxi_Code inp) s =
      (fst (spec_code_consume snow (cxi_Code inp) (view s)), s1)"
    using code_consume [OF inv] by (simp add: prod_eq_iff s1_def)
  have same: "project (r\<lparr>ac_ConsumedAt := c, ac_ID := i\<rparr>) = project (r\<lparr>ac_ConsumedAt := c\<rparr>)" for r c i
    by (simp add: project_def)
  show ?thesis
    by (auto simp: code_Exchanger_Exchange_def code_Exchanger_preflight_def code_Exchanger_consume_def
        code run code_find [OF inv] spec_code_find_def spec_code_consume_def same project_def
        split: option.split)
qed

end


definition inmem_code_ops :: "authCodeStore code_ops" where
  "inmem_code_ops =
     \<lparr>co_Save = authCodeStore_Save, co_Find = authCodeStore_Find, co_Consume = authCodeStore_Consume\<rparr>"

definition tx_code_ops :: "authCodeStore \<Rightarrow> authCodeStaging code_ops" where
  "tx_code_ops parent =
     \<lparr>co_Save = (\<lambda>now c. txAuthCodes_Save None c parent),
      co_Find = (\<lambda>now i. txAuthCodes_Find None now i parent),
      co_Consume = (\<lambda>now i. txAuthCodes_Consume None now i parent)\<rparr>"

interpretation inmem_codes: code_backend inmem_code_ops "\<lambda>s. codes_keyed (codes_of s)" codes_of
  by unfold_locales
    (simp_all add: inmem_code_ops_def authCodeStore_Find_spec authCodeStore_Consume_spec)

interpretation tx_codes_backend: code_backend "tx_code_ops parent" "\<lambda>st. True" "tx_codes parent"
  for parent
  by unfold_locales (simp_all add: tx_code_ops_def txAuthCodes_Find_spec txAuthCodes_Consume_spec)


section \<open>Properties of the authorization-code grant\<close>

lemma checkBindings_rename [simp]:
  "checkBindings (r\<lparr>ac_ID := i\<rparr>) inp = checkBindings r inp"
  "checkBindings (r\<lparr>ac_ConsumedAt := c\<rparr>) inp = checkBindings r inp"
  by (simp_all add: checkBindings_def)

lemma checkBindings_None:
  "checkBindings r inp = None \<longleftrightarrow>
     ac_ClientID r = cxi_ClientID inp \<and> ac_RedirectURI r = cxi_RedirectURI inp
     \<and> (if ac_CodeChallenge r = [] then cxi_CodeVerifier inp = []
        else ac_CodeChallengeMethod r = ''S256'' \<and> isValidVerifier (cxi_CodeVerifier inp)
          \<and> ac_CodeChallenge r = base64_RawURL (sha256_Sum256 (bytes_of (cxi_CodeVerifier inp))))"
  by (auto simp: checkBindings_def pkce_Verify_None pkce_Method_def)

lemma admit_None:
  "admit r inp = None \<longleftrightarrow>
     checkBindings r inp = None \<and> (\<forall>gate. cxi_Admit inp = Some gate \<longrightarrow> gate (project r) = None)"
  by (auto simp: admit_def split: option.split)

text \<open>
  An exchange succeeds only for a live, unconsumed code whose recorded client, redirect URI and
  PKCE challenge match the presentation (with the SHA-256 relation spelled out, and no verifier for
  a code issued without a challenge) and which the caller's gate admits; it then consumes this code
  and changes nothing else.
\<close>

theorem authcode_exchange_sound:
  assumes "authcode_reachable s"
    and run: "code_Exchanger_Exchange inmem_code_ops snow now inp s = (Inr x, s')"
  shows "\<exists>r. codes_of s (hashKey (cxi_Code inp)) = Some r \<and> ac_ConsumedAt r = None
    \<and> \<not> isExpired (ac_ExpiresAt r) snow \<and> now \<le> ac_ExpiresAt r
    \<and> ac_ClientID r = cxi_ClientID inp \<and> ac_RedirectURI r = cxi_RedirectURI inp
    \<and> (if ac_CodeChallenge r = [] then cxi_CodeVerifier inp = []
       else ac_CodeChallengeMethod r = ''S256''
         \<and> ac_CodeChallenge r = base64_RawURL (sha256_Sum256 (bytes_of (cxi_CodeVerifier inp))))
    \<and> (\<forall>gate. cxi_Admit inp = Some gate \<longrightarrow> gate (project r) = None)
    \<and> x = project (r\<lparr>ac_ConsumedAt := Some snow\<rparr>)
    \<and> codes_of s' = (codes_of s)(hashKey (cxi_Code inp) \<mapsto> r\<lparr>ac_ConsumedAt := Some snow\<rparr>)"
proof -
  note keyed = authcode_reachable_keyed [OF assms(1)]
  have code: "cxi_Code inp \<noteq> []"
    using run by (auto simp: code_Exchanger_Exchange_def)
  note answer = inmem_codes.Exchange_answer [OF keyed code, of snow now, unfolded run]
  obtain r where row: "codes_of s (hashKey (cxi_Code inp)) = Some r"
    and facts: "\<not> isExpired (ac_ExpiresAt r) snow" "ac_ConsumedAt r = None" "now \<le> ac_ExpiresAt r"
      "admit (r\<lparr>ac_ID := cxi_Code inp\<rparr>) inp = None" "x = project (r\<lparr>ac_ConsumedAt := Some snow\<rparr>)"
      "s' = snd (authCodeStore_Consume snow (cxi_Code inp) s)"
    using answer by (auto simp: inmem_code_ops_def split: option.splits if_splits)
  have id: "ac_ID r = hashKey (cxi_Code inp)"
    by (rule codes_keyedD [OF keyed row])
  have proj: "project (r\<lparr>ac_ID := i\<rparr>) = project r" for i
    by (simp add: project_def)
  have "codes_of s' = (codes_of s)(hashKey (cxi_Code inp) \<mapsto> r\<lparr>ac_ConsumedAt := Some snow\<rparr>)"
    using row facts id by (simp add: authCodeStore_Consume_def fun_eq_iff Let_def)
  with row facts show ?thesis
    by (intro exI [of _ r]) (auto simp: admit_None checkBindings_None proj)
qed

definition sample_pkce_code :: AuthorizationCode where
  "sample_pkce_code =
     sample_code\<lparr>ac_CodeChallenge := sample_challenge, ac_CodeChallengeMethod := ''S256''\<rparr>"

definition sample_pkce_store :: authCodeStore where
  "sample_pkce_store = snd (authCodeStore_Save 10 (Some sample_pkce_code) newAuthCodeStore)"

definition sample_code_input :: "string \<Rightarrow> code_ExchangeInput" where
  "sample_code_input verifier =
     \<lparr>cxi_Code = ''code-1'', cxi_ClientID = ''client'', cxi_RedirectURI = ''https://rp/cb'',
      cxi_CodeVerifier = verifier, cxi_Admit = None\<rparr>"

lemma sample_pkce_reachable: "authcode_reachable sample_pkce_store"
  unfolding sample_pkce_store_def by (intro reach_save reach_new)

lemma sample_pkce_row:
  "codes_of sample_pkce_store (hashKey ''code-1'') = Some (sample_pkce_code\<lparr>ac_ID := hashKey ''code-1''\<rparr>)"
  by (simp add: sample_pkce_store_def authCodeStore_Save_def authCodeStore_maybeGCLocked_def
      sweeper_due_def sweepDue_def fullGCInterval_def newAuthCodeStore_def sample_pkce_code_def
      sample_code_def Let_def)

lemma sample_challenge_nonempty [simp]: "sample_challenge \<noteq> []"
  by (simp add: sample_challenge_def)

lemma sample_code_exchange:
  "code_Exchanger_Exchange inmem_code_ops 20 20 (sample_code_input sample_verifier) sample_pkce_store =
     (Inr (project (sample_pkce_code\<lparr>ac_ConsumedAt := Some 20\<rparr>)),
      snd (authCodeStore_Consume 20 ''code-1'' sample_pkce_store))"
proof -
  have ok: "admit (r\<lparr>ac_ID := i\<rparr>) (sample_code_input sample_verifier) = None"
      "admit (r\<lparr>ac_ID := i, ac_ConsumedAt := Some 20\<rparr>) (sample_code_input sample_verifier) = None"
    if "r = sample_pkce_code\<lparr>ac_ID := j\<rparr>" for r i j
    unfolding that
    by (simp_all add: admit_None checkBindings_None sample_code_input_def sample_pkce_code_def sample_code_def
        challenge_of_verifier sample_verifier_valid)
  have code: "cxi_Code (sample_code_input sample_verifier) \<noteq> []"
    by (simp add: sample_code_input_def)
  from inmem_codes.Exchange_answer [OF authcode_reachable_keyed [OF sample_pkce_reachable] code, of 20 20] ok
  show ?thesis
    by (simp add: sample_code_input_def sample_pkce_row inmem_code_ops_def isExpired_def IsExpiredStrict_def)
      (simp add: sample_pkce_code_def sample_code_def project_def)
qed

theorem authcode_exchange_sound_witness:
  "\<exists>r. codes_of sample_pkce_store (hashKey ''code-1'') = Some r
     \<and> ac_CodeChallenge r = base64_RawURL (sha256_Sum256 (bytes_of sample_verifier))"
  using authcode_exchange_sound [OF sample_pkce_reachable sample_code_exchange]
  by (auto simp: sample_code_input_def sample_pkce_row sample_pkce_code_def sample_code_def)

text \<open>
  A failed presentation does not spend the code: when a live, unconsumed code is presented with
  a wrong client, redirect URI or verifier, or the caller's gate refuses it, the exchange reports that
  error and leaves the store as it was, so the rightful client can still redeem the code.
\<close>

theorem authcode_failed_presentation_spends_nothing:
  assumes "authcode_reachable s" and "cxi_Code inp \<noteq> []"
    and "codes_of s (hashKey (cxi_Code inp)) = Some r" and "\<not> isExpired (ac_ExpiresAt r) snow"
    and refused: "admit r inp = Some e"
  shows "code_Exchanger_Exchange inmem_code_ops snow now inp s = (Inl e, s)"
proof -
  have "admit (r\<lparr>ac_ID := cxi_Code inp\<rparr>) inp = admit r inp"
    by (simp add: admit_def project_def split: option.split)
  with assms inmem_codes.Exchange_answer [OF authcode_reachable_keyed [OF assms(1)] assms(2), of snow now]
  show ?thesis by simp
qed

theorem authcode_failed_presentation_spends_nothing_witness:
  "code_Exchanger_Exchange inmem_code_ops 20 20 (sample_code_input ''guess'') sample_pkce_store =
     (Inl (ErrPKCE ErrVerifierFormat), sample_pkce_store)"
proof (rule authcode_failed_presentation_spends_nothing [OF sample_pkce_reachable])
  show "codes_of sample_pkce_store (hashKey (cxi_Code (sample_code_input ''guess''))) =
      Some (sample_pkce_code\<lparr>ac_ID := hashKey ''code-1''\<rparr>)"
    by (simp add: sample_code_input_def sample_pkce_row)
  show "admit (sample_pkce_code\<lparr>ac_ID := hashKey ''code-1''\<rparr>) (sample_code_input ''guess'') =
      Some (ErrPKCE ErrVerifierFormat)"
    by (simp add: admit_def checkBindings_def sample_pkce_code_def sample_code_def sample_code_input_def
        pkce_Verify_def pkce_Method_def isValidVerifier_def VerifierMinLength_def)
qed (simp_all add: sample_code_input_def sample_pkce_code_def sample_code_def isExpired_def IsExpiredStrict_def)


lemma authcode_step_reachable: "authcode_step i s s' \<Longrightarrow> authcode_reachable s \<Longrightarrow> authcode_reachable s'"
  by (induction rule: authcode_step.induct) (auto intro: authcode_reachable.intros)

lemma authcode_steps_reachable:
  "(authcode_step i)\<^sup>*\<^sup>* s s' \<Longrightarrow> authcode_reachable s \<Longrightarrow> authcode_reachable s'"
  by (induction rule: rtranclp_induct) (auto intro: authcode_step_reachable)

text \<open>
  At most one exchange of a code succeeds: after a success, and after any direct calls and
  commits that do not issue a code under the same digest, every exchange of this code fails; a
  correct re-presentation of a code that is still recorded is reported as a replay that carries the
  grant, which is what the revocation cascade is keyed on.
\<close>

theorem authcode_exchange_once:
  assumes reach: "authcode_reachable s"
    and first: "code_Exchanger_Exchange inmem_code_ops snow now inp s = (Inr x, s1)"
    and steps: "(authcode_step (cxi_Code inp))\<^sup>*\<^sup>* s1 s2" and again: "cxi_Code inp' = cxi_Code inp"
  shows "\<exists>e s3. code_Exchanger_Exchange inmem_code_ops snow' now' inp' s2 = (Inl e, s3)
    \<and> (\<forall>r. codes_of s2 (hashKey (cxi_Code inp)) = Some r \<longrightarrow> \<not> isExpired (ac_ExpiresAt r) snow' \<longrightarrow>
         admit r inp' = None \<longrightarrow> is_replay e \<and> ReplayGrantID e = ac_GrantID r)"
proof -
  let ?i = "cxi_Code inp"
  have code: "?i \<noteq> []"
    using first by (auto simp: code_Exchanger_Exchange_def)
  note answer = inmem_codes.Exchange_answer [OF authcode_reachable_keyed [OF reach] code, of snow now, unfolded first]
  have s1: "s1 = snd (authCodeStore_Consume snow ?i s)" and ok: "snd (fst (authCodeStore_Consume snow ?i s)) = None"
    using answer authCodeStore_Consume_spec(1) [OF authcode_reachable_keyed [OF reach], of snow ?i]
    by (auto simp: inmem_code_ops_def spec_code_consume_def spec_code_find_def split: option.splits if_splits)
  have "code_spent ?i (codes_of s1)"
    using code_once.consume_spends [of snow ?i s "fst (fst (authCodeStore_Consume snow ?i s))" s1] s1 ok
    by (simp add: prod_eq_iff)
  then have spent: "code_spent ?i (codes_of s2)"
    by (rule code_once.spent_steps [OF steps])
  have "authcode_reachable s2"
    using authcode_steps_reachable [OF steps] reach_consume [OF reach] s1 by simp
  note keyed = authcode_reachable_keyed [OF this]
  have code': "cxi_Code inp' \<noteq> []"
    using code again by simp
  have rename: "admit (r\<lparr>ac_ID := i\<rparr>) inp' = admit r inp'" for r i
    by (simp add: admit_def project_def split: option.split)
  show ?thesis
    unfolding inmem_codes.Exchange_answer [OF keyed code', of snow' now'] again
    using spent
    by (auto simp: code_spent_def rename is_replay_def ReplayGrantID_def split: option.split)
qed

theorem authcode_exchange_once_witness:
  "\<exists>e. fst (code_Exchanger_Exchange inmem_code_ops 30 30 (sample_code_input sample_verifier)
      (snd (code_Exchanger_Exchange inmem_code_ops 20 20 (sample_code_input sample_verifier) sample_pkce_store)))
   = Inl e"
  using authcode_exchange_once [OF sample_pkce_reachable sample_code_exchange rtranclp.rtrancl_refl refl,
      of 30 30] sample_code_exchange by force

text \<open>
  Issue and exchange agree: a code issued with the S256 challenge of a well-formed verifier is
  redeemed by the same client with the same redirect URI and this verifier, as long as neither clock
  has passed its lifetime, and the exchange reports what was recorded at the authorization endpoint.
\<close>

theorem authcode_issue_exchange:
  assumes reach: "authcode_reachable s" and iss: "ci_store iss = inmem_code_ops"
    and issue: "code_Issuer_Issue iss snow0 t0 (Some bs) inp s = (Inr i, s1)"
    and "length bs = authcode_IDLength"
    and challenge: "cii_CodeChallenge inp = base64_RawURL (sha256_Sum256 (bytes_of v))"
      "cii_CodeChallengeMethod inp = ''S256''" "isValidVerifier v"
    and times: "snow \<le> t0 + ci_ttl iss" "now \<le> t0 + ci_ttl iss"
  shows "\<exists>x s2. code_Exchanger_Exchange inmem_code_ops snow now
        \<lparr>cxi_Code = i, cxi_ClientID = cii_ClientID inp, cxi_RedirectURI = cii_RedirectURI inp,
         cxi_CodeVerifier = v, cxi_Admit = None\<rparr> s1 = (Inr x, s2)
    \<and> cx_Subject x = cii_Subject inp \<and> cx_GrantID x = cii_GrantID inp \<and> cx_Scope x = cii_Scope inp
    \<and> cx_Resource x = cii_Resource inp \<and> cx_Nonce x = cii_Nonce inp \<and> cx_DPoPJKT x = cii_DPoPJKT inp
    \<and> cx_HadCodeChallenge x \<and> cx_ConsumedAt x = snow \<and> cx_IssuedAt x = t0"
proof -
  let ?rec = "issued_code t0 (ci_ttl iss) i inp"
  let ?in = "\<lparr>cxi_Code = i, cxi_ClientID = cii_ClientID inp, cxi_RedirectURI = cii_RedirectURI inp,
    cxi_CodeVerifier = v, cxi_Admit = None\<rparr>"
  have i: "i = base64_RawURL bs" and saved: "authCodeStore_Save snow0 (Some ?rec) s = (None, s1)"
    using issue by (auto simp: code_Issuer_Issue_def authcode_newID_def RandomBase64URL_def iss
        inmem_code_ops_def split: option.splits prod.splits if_splits)
  have "i \<noteq> []"
    using length_base64_RawURL [of bs] \<open>length bs = authcode_IDLength\<close> by (auto simp: i authcode_IDLength_def)
  then have code: "cxi_Code ?in \<noteq> []"
    by simp
  have "authcode_reachable s1"
    using reach_save [OF reach, of snow0 "Some ?rec"] saved by simp
  note keyed = authcode_reachable_keyed [OF this]
  have row: "codes_of s1 (hashKey i) = Some (?rec\<lparr>ac_ID := hashKey i\<rparr>)"
    using saved by (auto simp: authCodeStore_Save_def issued_code_def Let_def split: if_splits)
  have len: "cii_CodeChallenge inp \<noteq> []"
    using isValidChallenge_S256 [of "bytes_of v"] challenge(1) by (auto simp: isValidChallenge_def)
  have ok: "admit (?rec\<lparr>ac_ID := j\<rparr>) ?in = None" "admit (?rec\<lparr>ac_ID := j, ac_ConsumedAt := c\<rparr>) ?in = None" for j c
    using challenge len by (auto simp: admit_None checkBindings_None issued_code_def)
  show ?thesis
    using inmem_codes.Exchange_answer [OF keyed code, of snow now] row ok times len
    by (simp add: isExpired_def IsExpiredStrict_def) (simp add: issued_code_def project_def)
qed

definition sample_code_issuer :: "authCodeStore code_Issuer" where
  "sample_code_issuer = \<lparr>ci_store = inmem_code_ops, ci_ttl = TTLDefault\<rparr>"

definition sample_code_issue :: code_IssueInput where
  "sample_code_issue =
     \<lparr>cii_ClientID = ''client'', cii_Subject = ''alice'', cii_GrantID = ''g1'',
      cii_RedirectURI = ''https://rp/cb'', cii_Scope = [''openid''], cii_Resource = [],
      cii_CodeChallenge = sample_challenge, cii_CodeChallengeMethod = ''S256'', cii_Nonce = ''n'',
      cii_State = ''st'', cii_DPoPJKT = []\<rparr>"

theorem authcode_issue_exchange_witness:
  "\<exists>i s1 x s2. code_Issuer_Issue sample_code_issuer 10 10 (Some (replicate 32 0)) sample_code_issue
       newAuthCodeStore = (Inr i, s1)
     \<and> code_Exchanger_Exchange inmem_code_ops 20 20
         \<lparr>cxi_Code = i, cxi_ClientID = ''client'', cxi_RedirectURI = ''https://rp/cb'',
          cxi_CodeVerifier = sample_verifier, cxi_Admit = None\<rparr> s1 = (Inr x, s2)
     \<and> cx_Subject x = ''alice''"
proof -
  have challenge: "ValidateChallenge sample_challenge ''S256'' = None"
    using isValidChallenge_S256 [of "bytes_of sample_verifier"]
    by (simp add: ValidateChallenge_def pkce_Method_def challenge_of_verifier)
  obtain i s1 where issue: "code_Issuer_Issue sample_code_issuer 10 10 (Some (replicate 32 0)) sample_code_issue
       newAuthCodeStore = (Inr i, s1)"
    by (simp add: code_Issuer_Issue_def authcode_validateIssue_def sample_code_issue_def challenge
        authcode_newID_def RandomBase64URL_def sample_code_issuer_def inmem_code_ops_def authCodeStore_Save_def
        authCodeStore_maybeGCLocked_def sweeper_due_def sweepDue_def fullGCInterval_def newAuthCodeStore_def Let_def)
  have facts: "ci_store sample_code_issuer = inmem_code_ops" "20 \<le> 10 + ci_ttl sample_code_issuer"
      "length (replicate 32 (0 :: byte)) = authcode_IDLength"
      "cii_CodeChallenge sample_code_issue = base64_RawURL (sha256_Sum256 (bytes_of sample_verifier))"
      "cii_CodeChallengeMethod sample_code_issue = ''S256''"
    by (simp_all add: sample_code_issuer_def TTLDefault_def second_def authcode_IDLength_def
        sample_code_issue_def challenge_of_verifier)
  have fields: "cii_ClientID sample_code_issue = ''client''" "cii_RedirectURI sample_code_issue = ''https://rp/cb''"
      "cii_Subject sample_code_issue = ''alice''"
    by (simp_all add: sample_code_issue_def)
  from authcode_issue_exchange [OF reach_new facts(1) issue facts(3-5) sample_verifier_valid facts(2) facts(2)]
    issue
  show ?thesis unfolding fields by blast
qed

end
