(* ===== verification/AuthCodeHandler.thy ===== *)
theory AuthCodeHandler
  imports Issuance RefreshHandler AuthCodeGrant
begin

text \<open>
  The authorization_code grant of the token endpoint: \<^verbatim>\<open>internal/tokenendpoint/authcode.go\<close>,
  \<^verbatim>\<open>authcode_enforce.go\<close> and \<^verbatim>\<open>bindRequest\<close> of \<^verbatim>\<open>binding.go\<close>. The handler works on the store itself; the
  code is consumed by the exchange and the credentials are persisted after it.

  \<open>auth\<close> is the outcome of the proof and of client authentication, \<open>details\<close> that of parsing the requested
  authorization_details and \<open>mtls\<close> the thumbprint of the client certificate. \<open>race\<close> is what other requests
  do to the store after the credentials were persisted and before the handler asks whether the grant was
  closed meanwhile. Audit records have no effect on the store and are left out.
\<close>

record code_env =
  ce_codesNow :: time
  ce_exchangeNow :: time
  ce_findNow :: time
  ce_mint :: mint_env

definition grantTypeAuthorizationCode :: string where "grantTypeAuthorizationCode = ''authorization_code''"
definition teardownReasonCodeReplay :: string where "teardownReasonCodeReplay = ''code_replay''"
definition teardownReasonOrphanedMint :: string where "teardownReasonOrphanedMint = ''orphaned_mint''"

text \<open>The code substore of the cluster.\<close>

definition cluster_codes :: "inmem_Store code_ops" where
  "cluster_codes =
     \<lparr>co_Save = (\<lambda>now c. via st_authCodes (\<lambda>x s. s\<lparr>st_authCodes := x\<rparr>) (authCodeStore_Save now c)),
      co_Find = (\<lambda>now i s. authCodeStore_Find now i (st_authCodes s)),
      co_Consume = (\<lambda>now i. via st_authCodes (\<lambda>x s. s\<lparr>st_authCodes := x\<rparr>) (authCodeStore_Consume now i))\<rparr>"


section \<open>The request\<close>

record authCodeInputs =
  ai_Code :: string
  ai_RedirectURI :: string
  ai_CodeVerifier :: string
  ai_ClientID :: string
  ai_Admit :: "(code_Exchanged \<Rightarrow> authcode_err option) option"

definition parseAuthCodeRequest :: "string \<Rightarrow> string \<Rightarrow> string \<Rightarrow> wire_error + authCodeInputs" where
  "parseAuthCodeRequest code redirect_uri code_verifier =
     (if code = [] then Inl (OAuthError StatusBadRequest ''invalid_request'' ''code is required'')
      else if redirect_uri = [] then Inl (OAuthError StatusBadRequest ''invalid_request'' ''redirect_uri is required'')
      else Inr \<lparr>ai_Code = code, ai_RedirectURI = redirect_uri, ai_CodeVerifier = code_verifier, ai_ClientID = [],
                ai_Admit = None\<rparr>)"

definition bindRequest :: "tokenDeps \<Rightarrow> wire_error + string \<Rightarrow> dpopOutcome \<Rightarrow> wire_error + tokenBinding" where
  "bindRequest deps mtls dpopOut =
     (case mtls of
        Inl e \<Rightarrow> Inl e
      | Inr thumbprint \<Rightarrow>
          let binding = \<lparr>tb_DPoPJKT = do_JKT dpopOut, tb_MTLSThumbprint = thumbprint\<rparr>
          in case enforceSenderConstraint deps binding of Some e \<Rightarrow> Inl e | None \<Rightarrow> Inr binding)"


section \<open>The gates on the record of the code\<close>

definition enforcePKCEDowngradeGuard :: "Client \<Rightarrow> code_Exchanged \<Rightarrow> wire_error option" where
  "enforcePKCEDowngradeGuard client x =
     (if \<not> IsPublicClient client then None
      else if cx_HadCodeChallenge x then None
      else Some (OAuthError StatusBadRequest ''invalid_grant''
        (''PKCE is required for public clients (RFC 9700 '' @ [CHR 0xC2, CHR 0xA7] @ ''2.1.1)'')))"

definition enforceDPoPJKTBinding :: "code_Exchanged \<Rightarrow> tokenBinding \<Rightarrow> wire_error option" where
  "enforceDPoPJKTBinding x binding =
     (if cx_DPoPJKT x = [] then None
      else if tb_DPoPJKT binding = [] then
        Some (OAuthError StatusBadRequest ''invalid_grant''
          ''authorization code is bound to a DPoP key but no proof was presented'')
      else if tb_DPoPJKT binding \<noteq> cx_DPoPJKT x then
        Some (OAuthError StatusBadRequest ''invalid_grant'' ''DPoP proof key does not match the dpop_jkt commitment'')
      else None)"

definition codeAuthContext :: "tokenDeps \<Rightarrow> code_Exchanged \<Rightarrow> inmem_Store \<Rightarrow> token_err + authContext" where
  "codeAuthContext deps x s =
     (case FindGrant direct_stores deps (cx_GrantID x) s of
        Inl e \<Rightarrow> Inl e
      | Inr g \<Rightarrow>
          Inr (authContextOf deps
            (ResolveAuthorization
               \<lparr>az_AuthTime = cx_AuthTime x, az_ACR = cx_ACR x, az_AMR = cx_AMR x,
                az_AuthorizationDetails = cx_AuthorizationDetails x, az_Claims = cx_Claims x\<rparr>
               (cx_AuthorizationRecorded x) g (cx_ClientID x))))"

definition admitAuthorizationDetails ::
  "tokenDeps \<Rightarrow> code_Exchanged \<Rightarrow> jobject list \<Rightarrow> inmem_Store \<Rightarrow> wire_error option" where
  "admitAuthorizationDetails deps x requested s =
     (if requested = [] then None
      else
        (case codeAuthContext deps x s of
           Inl _ \<Rightarrow> None
         | Inr authCtx \<Rightarrow>
             (case reduceAuthorizationDetails requested (ax_AuthorizationDetails authCtx) of
                Inl e \<Rightarrow> Some e
              | Inr _ \<Rightarrow> None)))"

text \<open>
  \<^verbatim>\<open>in.Admit\<close> of the handler: the gates in order. The first one that refuses has written its response, and
  the exchange reports \<^verbatim>\<open>errRedemptionRefused\<close>; here the error carries that response.
\<close>

definition redemption_gate ::
  "tokenDeps \<Rightarrow> Client \<Rightarrow> tokenBinding \<Rightarrow> jobject list \<Rightarrow> inmem_Store \<Rightarrow> code_Exchanged \<Rightarrow> wire_error option" where
  "redemption_gate deps client binding requested s x =
     (case checkTokenScopeAllowlist (td_Scopes deps) (cl_ID client) (cx_Scope x) of
        Some e \<Rightarrow> Some e
      | None \<Rightarrow>
     (case requireRegisteredScopes client (cx_Scope x) of
        Some e \<Rightarrow> Some e
      | None \<Rightarrow>
     (case enforcePKCEDowngradeGuard client x of
        Some e \<Rightarrow> Some e
      | None \<Rightarrow>
     (case enforceDPoPJKTBinding x binding of
        Some e \<Rightarrow> Some e
      | None \<Rightarrow> admitAuthorizationDetails deps x requested s))))"

definition errRedemptionRefused :: "wire_error \<Rightarrow> authcode_err" where
  "errRedemptionRefused e = (case e of OAuthError status code description \<Rightarrow> ErrAdmit status code description)"


section \<open>The exchange\<close>

definition revokeChainForCode :: "tokenDeps \<Rightarrow> code_env \<Rightarrow> string \<Rightarrow> string \<Rightarrow> inmem_Store \<Rightarrow> inmem_Store" where
  "revokeChainForCode deps env code replayGrantID s =
     (case (if replayGrantID = []
            then (case co_Find cluster_codes (ce_findNow env) code s of
                    (Some rec, None) \<Rightarrow> Some (ac_GrantID rec)
                  | _ \<Rightarrow> None)
            else Some replayGrantID) of
        None \<Rightarrow> s
      | Some grantID \<Rightarrow>
          if grantID = [] then s
          else snd (Revoker_Run direct_stores (grantTeardown deps (ce_mint env) teardownReasonCodeReplay)
                 (me_storeNow (ce_mint env)) (WholeGrant grantID) s))"

definition writeAuthCodeExchangeError ::
  "tokenDeps \<Rightarrow> code_env \<Rightarrow> authCodeInputs \<Rightarrow> authcode_err \<Rightarrow> inmem_Store \<Rightarrow> wire_error \<times> inmem_Store" where
  "writeAuthCodeExchangeError deps env inp err s =
     (case err of
        ErrAdmit status code description \<Rightarrow> (OAuthError status code description, s)
      | ErrCodeMissing \<Rightarrow> (OAuthError StatusBadRequest ''invalid_grant'' ''authorization code rejected'', s)
      | ErrCodeExpired \<Rightarrow> (OAuthError StatusBadRequest ''invalid_grant'' ''authorization code rejected'', s)
      | ErrCodeClientMismatch \<Rightarrow> (OAuthError StatusBadRequest ''invalid_grant'' ''authorization code rejected'', s)
      | ErrRedirectURIMismatch \<Rightarrow> (OAuthError StatusBadRequest ''invalid_grant'' ''authorization code rejected'', s)
      | ErrPKCE e \<Rightarrow>
          (if e \<in> {ErrChallengeMethodUnsupported, ErrVerifierFormat, ErrVerifierMismatch}
           then OAuthError StatusBadRequest ''invalid_grant'' ''PKCE verification failed'' else ServerError, s)
      | _ \<Rightarrow>
          if is_replay err
          then (OAuthError StatusBadRequest ''invalid_grant'' ''authorization code rejected'',
                revokeChainForCode deps env (ai_Code inp) (ReplayGrantID err) s)
          else (ServerError, s))"

definition exchangeAuthCode ::
  "tokenDeps \<Rightarrow> code_env \<Rightarrow> authCodeInputs \<Rightarrow> inmem_Store \<Rightarrow> (wire_error + code_Exchanged) \<times> inmem_Store" where
  "exchangeAuthCode deps env inp s =
     (if \<not> td_Codes deps then (Inl ServerError, s)
      else
        (case code_Exchanger_Exchange cluster_codes (ce_codesNow env) (ce_exchangeNow env)
                \<lparr>cxi_Code = ai_Code inp, cxi_ClientID = ai_ClientID inp, cxi_RedirectURI = ai_RedirectURI inp,
                 cxi_CodeVerifier = ai_CodeVerifier inp, cxi_Admit = ai_Admit inp\<rparr> s of
           (Inl err, s) \<Rightarrow> (case writeAuthCodeExchangeError deps env inp err s of (e, s) \<Rightarrow> (Inl e, s))
         | (Inr x, s) \<Rightarrow> (Inr x, s)))"


section \<open>The response\<close>

record mintIDTokenInput =
  mi_Subject :: string
  mi_ClientID :: string
  mi_Nonce :: string
  mi_AccessToken :: string
  mi_Code :: string
  mi_Now :: time
  mi_AuthTime :: int
  mi_ACR :: string
  mi_AMR :: "string list"
  mi_Claims :: "ClaimsRequest option"
  mi_Extra :: jobject

definition mintAuthCodeIDToken :: "tokenDeps \<Rightarrow> mintIDTokenInput \<Rightarrow> token_err + string" where
  "mintAuthCodeIDToken deps inp =
     (case HashForAlg (mi_AccessToken inp) (sk_Alg (td_SigningKey deps)) of
        Inl e \<Rightarrow> Inl e
      | Inr atHash \<Rightarrow>
     (case HashForAlg (mi_Code inp) (sk_Alg (td_SigningKey deps)) of
        Inl e \<Rightarrow> Inl e
      | Inr cHash \<Rightarrow>
          SignIDToken (td_SigningKey deps)
            ((Deps_idTokenClaims deps (mi_Subject inp) (mi_ClientID inp) (mi_Now inp))
               \<lparr>it_AuthTime := mi_AuthTime inp, it_Nonce := mi_Nonce inp, it_AtHash := atHash, it_CHash := cHash,
                it_ACR := idTokenACRForClaims (mi_ACR inp) (mi_Claims inp), it_AMR := mi_AMR inp,
                it_Extra := mi_Extra inp\<rparr>)))"

definition revokeOrphanedOpaqueAccessToken :: "tokenDeps \<Rightarrow> mint_env \<Rightarrow> string \<Rightarrow> inmem_Store \<Rightarrow> inmem_Store" where
  "revokeOrphanedOpaqueAccessToken deps env accessToken s =
     snd (Revoker_Run direct_stores (grantTeardown deps env teardownReasonOrphanedMint) (me_storeNow env)
       (IssuedCredentials accessToken []) s)"

text \<open>The id_token of the response, empty without the openid scope.\<close>

definition code_id_token ::
  "tokenDeps \<Rightarrow> mint_env \<Rightarrow> Client \<Rightarrow> string \<Rightarrow> code_Exchanged \<Rightarrow> User option \<Rightarrow> authContext \<Rightarrow> string \<Rightarrow> string \<Rightarrow>
     token_err + string" where
  "code_id_token deps env client code x user authCtx publicSubject accessToken =
     (if \<not> ContainsOpenID (cx_Scope x) then Inr []
      else
        (case mintAuthCodeIDToken deps
                \<lparr>mi_Subject = publicSubject, mi_ClientID = cl_ID client, mi_Nonce = cx_Nonce x,
                 mi_AccessToken = accessToken, mi_Code = code, mi_Now = me_now env, mi_AuthTime = ax_AuthTime authCtx,
                 mi_ACR = ax_ACR authCtx, mi_AMR = ax_AMR authCtx, mi_Claims = ax_Claims authCtx,
                 mi_Extra = Deps_idTokenExtra deps user (cx_Scope x) (ax_Claims authCtx)\<rparr> of
           Inl e \<Rightarrow> Inl e
         | Inr idToken \<Rightarrow> maybeEncryptIDToken deps client idToken))"

definition code_refresh_issuance ::
  "tokenDeps \<Rightarrow> Client \<Rightarrow> code_Exchanged \<Rightarrow> tokenBinding \<Rightarrow> string \<Rightarrow> authContext \<Rightarrow> jobject list \<Rightarrow> refreshIssuance" where
  "code_refresh_issuance deps client x binding chainID authCtx authorizationDetails =
     (builtinRefreshIssuance deps client)
       \<lparr>ri_Subject := cx_Subject x, ri_GrantID := cx_GrantID x, ri_Scope := cx_Scope x, ri_Resource := cx_Resource x,
        ri_Nonce := cx_Nonce x, ri_Binding := binding, ri_Origin := RefreshOriginAuthCode, ri_ChainID := chainID,
        ri_AuthCtx := authCtx\<lparr>ax_AuthorizationDetails := authorizationDetails\<rparr>\<rparr>"

definition issueAuthCodeResponse ::
  "tokenDeps \<Rightarrow> mint_env \<Rightarrow> Client \<Rightarrow> string \<Rightarrow> code_Exchanged \<Rightarrow> User option \<Rightarrow> tokenBinding \<Rightarrow> jobject list \<Rightarrow>
     (inmem_Store \<Rightarrow> inmem_Store) \<Rightarrow> inmem_Store \<Rightarrow> successResponse response \<times> inmem_Store" where
  "issueAuthCodeResponse deps env client code x user binding requested race s =
     (case codeAuthContext deps x s of
        Inl _ \<Rightarrow> (Refuse ServerError, s)
      | Inr authCtx \<Rightarrow>
     (case requireAuthTimeForIDToken client (cx_Scope x) (ax_AuthTime authCtx) of
        Some _ \<Rightarrow>
          (Refuse (OAuthError StatusInternalServerError ''server_error'' ''required auth_time is unavailable''), s)
      | None \<Rightarrow>
     (case reduceAuthorizationDetails requested (ax_AuthorizationDetails authCtx) of
        Inl e \<Rightarrow> (Refuse e, s)
      | Inr authorizationDetails \<Rightarrow>
     (case projectPublicSubject deps (cx_Subject x) client of
        Inl _ \<Rightarrow> (Refuse ServerError, s)
      | Inr publicSubject \<Rightarrow>
     (case NewChainID (me_chainID env) of
        Inl _ \<Rightarrow> (Refuse ServerError, s)
      | Inr chainID \<Rightarrow>
     (case mintAccessToken direct_stores deps env (cx_Subject x) publicSubject (cl_ID client) (cx_GrantID x) (cx_Scope x)
             (cx_Resource x) (me_now env) (ax_AuthTime authCtx) binding authorizationDetails
             \<lparr>ov_TTL = 0, ov_Audience = [], ov_Extra = [], ov_ForceJWT = False, ov_Authorization = Some authCtx,
              ov_ACR = [], ov_ChainID = chainID\<rparr> s of
        (Inl _, s) \<Rightarrow> (Refuse ServerError, s)
      | (Inr accessToken, s) \<Rightarrow>
     (case code_id_token deps env client code x user authCtx publicSubject accessToken of
        Inl _ \<Rightarrow> (Refuse ServerError, revokeOrphanedOpaqueAccessToken deps env accessToken s)
      | Inr idToken \<Rightarrow>
     (case issueRefreshToken direct_stores deps env
             (code_refresh_issuance deps client x binding chainID authCtx authorizationDetails) s of
        (Inl _, s) \<Rightarrow> (Refuse ServerError, revokeOrphanedOpaqueAccessToken deps env accessToken s)
      | (Inr refreshToken, s) \<Rightarrow>
     (case refuseIssuanceUnderClosedGrant direct_stores deps env
             \<lparr>iu_GrantID = cx_GrantID x, iu_IssuedAt = cx_IssuedAt x, iu_AccessToken = accessToken,
              iu_RefreshToken = refreshToken\<rparr> ''authorization code rejected'' (race s) of
        (Some e, s) \<Rightarrow> (Refuse e, s)
      | (None, s) \<Rightarrow>
          (TokenResponse
             \<lparr>sr_AccessToken = accessToken, sr_TokenType = tokenBinding_tokenTypeFor binding,
              sr_ExpiresIn = whole_seconds (td_AccessTokenTTL deps), sr_RefreshToken = refreshToken,
              sr_IDToken = idToken, sr_Scope = scope_Join (cx_Scope x),
              sr_AuthorizationDetails = authorizationDetails,
              sr_GrantID = grantIDForResponse deps (cx_GrantID x)\<rparr>, s))))))))))"


section \<open>The handler\<close>

definition handleAuthorizationCode ::
  "tokenDeps \<Rightarrow> code_env \<Rightarrow> wire_error + (dpopOutcome \<times> Client) \<Rightarrow> string \<Rightarrow> string \<Rightarrow> string \<Rightarrow>
     wire_error + jobject list \<Rightarrow> wire_error + string \<Rightarrow> (inmem_Store \<Rightarrow> inmem_Store) \<Rightarrow> inmem_Store \<Rightarrow>
     successResponse response \<times> inmem_Store" where
  "handleAuthorizationCode deps env auth code redirect_uri code_verifier details mtls race s =
     (case auth of
        Inl e \<Rightarrow> (Refuse e, s)
      | Inr (dpopOut, client) \<Rightarrow>
     (case parseAuthCodeRequest code redirect_uri code_verifier of
        Inl e \<Rightarrow> (Refuse e, s)
      | Inr inp \<Rightarrow>
     (case details of
        Inl e \<Rightarrow> (Refuse e, s)
      | Inr requested \<Rightarrow>
     (case bindRequest deps mtls dpopOut of
        Inl e \<Rightarrow> (Refuse e, s)
      | Inr binding \<Rightarrow>
     (case exchangeAuthCode deps env
             (inp\<lparr>ai_ClientID := cl_ID client,
                  ai_Admit := Some (\<lambda>x. map_option errRedemptionRefused (redemption_gate deps client binding requested s x))\<rparr>)
             s of
        (Inl e, s) \<Rightarrow> (Refuse e, s)
      | (Inr x, s) \<Rightarrow>
     (case lookupLiveSubject deps (cx_Subject x) of
        (user, SubjectLive) \<Rightarrow> issueAuthCodeResponse deps (ce_mint env) client code x user binding requested race s
      | (_, err) \<Rightarrow>
          (Refuse (writeSubjectLookupError err),
           if err = SubjectDeprovisioned
           then retireDeprovisionedGrant direct_stores deps (ce_mint env)
             \<lparr>dr_ClientID = cl_ID client, dr_Subject = cx_Subject x, dr_GrantType = grantTypeAuthorizationCode,
              dr_GrantID = cx_GrantID x\<rparr> s
           else s)))))))"

end
