(* ===== verification/AuthCodeFlow.thy ===== *)
theory AuthCodeFlow
  imports AuthCodeHandler
begin

text \<open>
  What the authorization_code handler guarantees: the credentials of a response are those of the
  redeemed code, a presentation that fails its checks spends nothing, a refusal leaves nothing usable
  behind, a replayed code costs its grant, and a replay that is handled while the first redemption is
  still issuing wins over it.
\<close>


section \<open>The code substore of the cluster\<close>

lemma codes_reachable: "substores_reachable s \<Longrightarrow> authcode_reachable (st_authCodes s)"
  by (simp add: substores_reachable_def)

interpretation cluster_code_store: code_backend cluster_codes substores_reachable "\<lambda>s. codes_of (st_authCodes s)"
  by unfold_locales
    (simp_all add: cluster_codes_def authCodeStore_Find_spec authCodeStore_Consume_spec authcode_reachable_keyed codes_reachable)

text \<open>The parts of the store a redemption leaves alone when it consumes the code.\<close>

definition consumed_code :: "code_env \<Rightarrow> string \<Rightarrow> inmem_Store \<Rightarrow> inmem_Store" where
  "consumed_code env code s = snd (co_Consume cluster_codes (ce_codesNow env) code s)"

lemma consumed_code_exec: "consumed_code env code s = direct_exec (DCodeConsume (ce_codesNow env) code) s"
  by (simp add: consumed_code_def cluster_codes_def)

lemma consumed_code_sel [simp]:
  "st_refreshes (consumed_code env code s) = st_refreshes s"
  "st_opaqueAccessTokens (consumed_code env code s) = st_opaqueAccessTokens s"
  "st_grants (consumed_code env code s) = st_grants s"
  "st_grantRevocations (consumed_code env code s) = st_grantRevocations s"
  by (simp_all add: consumed_code_exec)

lemma consumed_code_reachable: "substores_reachable s \<Longrightarrow> substores_reachable (consumed_code env code s)"
  by (simp only: consumed_code_exec direct_reachable)


section \<open>The presentation of a code\<close>

text \<open>
  The presentation matches the record: client, redirect URI and PKCE verifier are the recorded ones, the
  scope is allowed to the client and registered for it, a public client has a challenge on record, and a
  committed DPoP key is the one of the proof.
\<close>

definition code_presented ::
  "tokenDeps \<Rightarrow> Client \<Rightarrow> tokenBinding \<Rightarrow> string \<Rightarrow> string \<Rightarrow> AuthorizationCode \<Rightarrow> bool" where
  "code_presented deps client binding redirect_uri code_verifier r \<longleftrightarrow>
     ac_ClientID r = cl_ID client \<and> ac_RedirectURI r = redirect_uri
   \<and> (if ac_CodeChallenge r = [] then code_verifier = []
      else ac_CodeChallengeMethod r = ''S256'' \<and> isValidVerifier code_verifier
        \<and> ac_CodeChallenge r = base64_RawURL (sha256_Sum256 (bytes_of code_verifier)))
   \<and> Registry_AllowsAll (ac_Scope r) (cl_ID client) (td_Scopes deps) \<and> Subset (ac_Scope r) (cl_Scopes client)
   \<and> (IsPublicClient client \<longrightarrow> ac_CodeChallenge r \<noteq> [])
   \<and> (ac_DPoPJKT r \<noteq> [] \<longrightarrow> tb_DPoPJKT binding = ac_DPoPJKT r)"

definition code_input ::
  "tokenDeps \<Rightarrow> Client \<Rightarrow> tokenBinding \<Rightarrow> jobject list \<Rightarrow> string \<Rightarrow> string \<Rightarrow> string \<Rightarrow> inmem_Store \<Rightarrow> code_ExchangeInput" where
  "code_input deps client binding requested code redirect_uri code_verifier s =
     \<lparr>cxi_Code = code, cxi_ClientID = cl_ID client, cxi_RedirectURI = redirect_uri, cxi_CodeVerifier = code_verifier,
      cxi_Admit = Some (\<lambda>x. map_option errRedemptionRefused (redemption_gate deps client binding requested s x))\<rparr>"

lemma project_sel [simp]:
  "cx_ClientID (project r) = ac_ClientID r" "cx_Subject (project r) = ac_Subject r" "cx_GrantID (project r) = ac_GrantID r"
  "cx_Scope (project r) = ac_Scope r" "cx_Resource (project r) = ac_Resource r" "cx_Nonce (project r) = ac_Nonce r"
  "cx_DPoPJKT (project r) = ac_DPoPJKT r" "cx_HadCodeChallenge (project r) = (ac_CodeChallenge r \<noteq> [])"
  "cx_AuthTime (project r) = ac_AuthTime r" "cx_ACR (project r) = ac_ACR r" "cx_AMR (project r) = ac_AMR r"
  "cx_AuthorizationDetails (project r) = ac_AuthorizationDetails r" "cx_Claims (project r) = ac_Claims r"
  "cx_AuthorizationRecorded (project r) = ac_AuthorizationRecorded r" "cx_IssuedAt (project r) = ac_CreatedAt r"
  by (simp_all add: project_def)

lemma project_same [simp]:
  "project (r\<lparr>ac_ID := i\<rparr>) = project r"
  "codeAuthContext deps (project (r\<lparr>ac_ConsumedAt := c\<rparr>)) s = codeAuthContext deps (project r) s"
  "redemption_gate deps client binding requested s (project (r\<lparr>ac_ConsumedAt := c\<rparr>)) =
     redemption_gate deps client binding requested s (project r)"
  by (simp add: project_def)
    (simp_all add: redemption_gate_def admitAuthorizationDetails_def codeAuthContext_def
      enforcePKCEDowngradeGuard_def enforceDPoPJKTBinding_def cong: option.case_cong sum.case_cong if_cong)

lemma errRedemptionRefused_admit: "\<exists>a b c. errRedemptionRefused e = ErrAdmit a b c"
  by (cases e) (simp add: errRedemptionRefused_def)

lemma admit_code_input:
  "admit r (code_input deps client binding requested code uri ver s) = None \<longleftrightarrow>
     code_presented deps client binding uri ver r \<and> admitAuthorizationDetails deps (project r) requested s = None"
  unfolding admit_None checkBindings_None
  by (auto simp: code_input_def code_presented_def redemption_gate_def checkTokenScopeAllowlist_def
      requireRegisteredScopes_def enforcePKCEDowngradeGuard_def enforceDPoPJKTBinding_def
      split: option.splits if_splits)

lemma admit_same:
  "admit (r\<lparr>ac_ID := i\<rparr>) (code_input deps client binding requested code uri ver s) =
     admit r (code_input deps client binding requested code uri ver s)"
  "admit (r\<lparr>ac_ConsumedAt := c\<rparr>) (code_input deps client binding requested code uri ver s) =
     admit r (code_input deps client binding requested code uri ver s)"
  by (simp_all add: admit_def code_input_def cong: option.case_cong)

text \<open>The exchange of the handler, by the row of the presented code.\<close>

lemma exchange_row:
  fixes env :: code_env
  assumes "substores_reachable s" and "code \<noteq> []"
    and inp_def: "inp = code_input deps client binding requested code uri ver s"
  shows "code_Exchanger_Exchange cluster_codes (ce_codesNow env) now inp s =
    (case codes_of (st_authCodes s) (hashKey code) of
       None \<Rightarrow> (Inl ErrCodeMissing, consumed_code env code s)
     | Some r \<Rightarrow>
         if isExpired (ac_ExpiresAt r) (ce_codesNow env) then (Inl ErrCodeMissing, consumed_code env code s)
         else
           (case admit r inp of
              Some e \<Rightarrow> (Inl e, s)
            | None \<Rightarrow>
                if ac_ConsumedAt r \<noteq> None then
                  (Inl (if ac_GrantID r \<noteq> [] then ReplayError (ac_GrantID r) else ErrCodeReplayed), consumed_code env code s)
                else if ac_ExpiresAt r < now then (Inl ErrCodeExpired, consumed_code env code s)
                else (Inr (project (r\<lparr>ac_ConsumedAt := Some (ce_codesNow env)\<rparr>)), consumed_code env code s)))"
proof -
  have code: "cxi_Code inp = code" by (simp add: inp_def code_input_def)
  have upd: "r\<lparr>ac_ID := code, ac_ConsumedAt := c\<rparr> = r\<lparr>ac_ConsumedAt := c\<rparr>\<lparr>ac_ID := code\<rparr>" for r :: AuthorizationCode and c by simp
  have same: "admit (r\<lparr>ac_ID := code\<rparr>) inp = admit r inp" "admit (r\<lparr>ac_ID := code, ac_ConsumedAt := c\<rparr>) inp = admit r inp" for r c
    by (simp_all only: inp_def upd admit_same)
  have "cxi_Code inp \<noteq> []" using assms(2) code by simp
  from cluster_code_store.Exchange_answer [OF assms(1) this, of "ce_codesNow env" now] show ?thesis
    unfolding code same consumed_code_def [symmetric] by (auto split: option.split)
qed

definition handler_prefix ::
  "tokenDeps \<Rightarrow> wire_error + (dpopOutcome \<times> Client) \<Rightarrow> string \<Rightarrow> string \<Rightarrow> wire_error + jobject list \<Rightarrow> wire_error + string \<Rightarrow>
     Client \<Rightarrow> tokenBinding \<Rightarrow> jobject list \<Rightarrow> bool" where
  "handler_prefix deps auth code redirect_uri details mtls client binding requested \<longleftrightarrow>
     (\<exists>out. auth = Inr (out, client) \<and> bindRequest deps mtls out = Inr binding) \<and> code \<noteq> [] \<and> redirect_uri \<noteq> []
   \<and> details = Inr requested"

lemma handleAuthorizationCode_cases:
  obtains (early) e where "\<And>race s. handleAuthorizationCode deps env auth code uri ver details mtls race s = (Refuse e, s)"
  | (exchanges) client binding requested where "td_Codes deps"
      and "handler_prefix deps auth code uri details mtls client binding requested"
proof (cases "\<exists>client binding requested. handler_prefix deps auth code uri details mtls client binding requested")
  case True
  then obtain client binding requested where p: "handler_prefix deps auth code uri details mtls client binding requested" by blast
  show thesis
  proof (cases "td_Codes deps")
    case False
    with p show thesis
      by (intro early [of ServerError])
         (auto simp: handler_prefix_def handleAuthorizationCode_def parseAuthCodeRequest_def exchangeAuthCode_def)
  qed (use p exchanges in blast)
next
  case False
  note pre = this [unfolded handler_prefix_def] and hd = handleAuthorizationCode_def parseAuthCodeRequest_def
  show thesis
  proof (cases auth)
    case (Inl e)
    then show thesis by (intro early [of e]) (simp add: hd)
  next
    case (Inr a)
    obtain out client where a: "auth = Inr (out, client)" using Inr by (cases a) simp
    show thesis
    proof (cases "parseAuthCodeRequest code uri ver")
      case (Inl e)
      then show thesis by (intro early [of e]) (simp add: handleAuthorizationCode_def a)
    next
      case parsed: (Inr inp)
      show thesis
      proof (cases details)
        case (Inl e)
        then show thesis by (intro early [of e]) (simp add: handleAuthorizationCode_def a parsed)
      next
        case (Inr requested)
        with pre a parsed obtain e where "bindRequest deps mtls out = Inl e"
          by (cases "bindRequest deps mtls out") (auto simp: parseAuthCodeRequest_def split: if_splits)
        then show thesis using Inr by (intro early [of e]) (simp add: handleAuthorizationCode_def a parsed)
      qed
    qed
  qed
qed

lemma handle_eq:
  assumes "handler_prefix deps auth code uri details mtls client binding requested" and "td_Codes deps"
  shows "handleAuthorizationCode deps env auth code uri ver details mtls race s =
    (case code_Exchanger_Exchange cluster_codes (ce_codesNow env) (ce_exchangeNow env)
            (code_input deps client binding requested code uri ver s) s of
       (Inl err, s1) \<Rightarrow>
         (case writeAuthCodeExchangeError deps env
                 \<lparr>ai_Code = code, ai_RedirectURI = uri, ai_CodeVerifier = ver, ai_ClientID = cl_ID client,
                  ai_Admit = cxi_Admit (code_input deps client binding requested code uri ver s)\<rparr> err s1 of
            (e, s2) \<Rightarrow> (Refuse e, s2))
     | (Inr x, s1) \<Rightarrow>
         (case lookupLiveSubject deps (cx_Subject x) of
            (user, SubjectLive) \<Rightarrow> issueAuthCodeResponse deps (ce_mint env) client code x user binding requested race s1
          | (_, err) \<Rightarrow>
              (Refuse (writeSubjectLookupError err),
               if err = SubjectDeprovisioned
               then retireDeprovisionedGrant direct_stores deps (ce_mint env)
                 \<lparr>dr_ClientID = cl_ID client, dr_Subject = cx_Subject x, dr_GrantType = grantTypeAuthorizationCode,
                  dr_GrantID = cx_GrantID x\<rparr> s1
               else s1)))"
  using assms
  by (auto simp: handler_prefix_def handleAuthorizationCode_def parseAuthCodeRequest_def exchangeAuthCode_def code_input_def
      split: prod.splits sum.splits)


section \<open>Issuing under a code\<close>

text \<open>
  The credentials of a response in a store: the access token (a live opaque row, or a signed JWT) and the
  refresh token, if one was issued, name the grant, the client, the subject and the scope of the redeemed
  code, on one chain.
\<close>

definition code_credentials ::
  "tokenDeps \<Rightarrow> Client \<Rightarrow> code_Exchanged \<Rightarrow> string \<Rightarrow> string \<Rightarrow> string \<Rightarrow> inmem_Store \<Rightarrow> bool" where
  "code_credentials deps client x ch accessToken refreshToken s \<longleftrightarrow>
     (if accessTokenFormat deps (cx_Resource x) = AccessTokenFormatOpaque
      then accessToken \<noteq> [] \<and> td_OpaqueAccessTokens deps \<and>
        (\<exists>row. fmlookup (oas_m (st_opaqueAccessTokens s)) (hashKey accessToken) = Some row
           \<and> oa_GrantID row = cx_GrantID x \<and> oa_ClientID row = cl_ID client \<and> oa_Scope row = cx_Scope x
           \<and> (cx_GrantID x \<noteq> [] \<longrightarrow> oa_Subject row = cx_Subject x) \<and> oa_ChainID row = ch \<and> \<not> oa_Revoked row)
      else (\<exists>claims. SignAccessToken (td_SigningKey deps) claims = Inr accessToken \<and> jc_GrantID claims = cx_GrantID x
           \<and> jc_ClientID claims = cl_ID client \<and> jc_Scope claims = cx_Scope x))
   \<and> (refreshToken \<noteq> [] \<longrightarrow>
        td_RefreshTokens deps \<and> clientRegisteredForRefresh client \<and>
        (\<exists>t. tokens_of (st_refreshes s) (hashKey refreshToken) = Some t
           \<and> rt_GrantID t = cx_GrantID x \<and> rt_ClientID t = cl_ID client \<and> rt_Scope t = cx_Scope x
           \<and> rt_Subject t = cx_Subject x \<and> (ch \<noteq> [] \<longrightarrow> rt_ChainID t = ch) \<and> rt_ParentID t = None
           \<and> rt_Origin t = RefreshOriginAuthCode \<and> rt_ConsumedAt t = None \<and> \<not> rt_Revoked t))"

text \<open>What persisting credentials adds to a store: at most these two rows.\<close>

definition only_adds :: "string \<Rightarrow> string \<Rightarrow> inmem_Store \<Rightarrow> inmem_Store \<Rightarrow> bool" where
  "only_adds accessToken refreshToken s s' \<longleftrightarrow>
     (\<forall>k. fmlookup (oas_m (st_opaqueAccessTokens s')) k = fmlookup (oas_m (st_opaqueAccessTokens s)) k \<or> k = hashKey accessToken)
   \<and> (\<forall>k. tokens_of (st_refreshes s') k = tokens_of (st_refreshes s) k \<or> k = hashKey refreshToken)
   \<and> st_authCodes s' = st_authCodes s \<and> st_grants s' = st_grants s \<and> st_grantRevocations s' = st_grantRevocations s"

lemma only_addsD:
  assumes "only_adds acc refr s s'"
  shows "k \<noteq> hashKey acc \<Longrightarrow> fmlookup (oas_m (st_opaqueAccessTokens s')) k = fmlookup (oas_m (st_opaqueAccessTokens s)) k"
    and "k \<noteq> hashKey refr \<Longrightarrow> tokens_of (st_refreshes s') k = tokens_of (st_refreshes s) k"
  using assms unfolding only_adds_def by blast+

abbreviation code_mint ::
  "tokenDeps \<Rightarrow> mint_env \<Rightarrow> Client \<Rightarrow> code_Exchanged \<Rightarrow> tokenBinding \<Rightarrow> jobject list \<Rightarrow> authContext \<Rightarrow> string \<Rightarrow> string \<Rightarrow>
     inmem_Store \<Rightarrow> (token_err + string) \<times> inmem_Store" where
  "code_mint deps env client x binding ad authCtx ps ch s \<equiv>
     mintAccessToken direct_stores deps env (cx_Subject x) ps (cl_ID client) (cx_GrantID x) (cx_Scope x)
       (cx_Resource x) (me_now env) (ax_AuthTime authCtx) binding ad
       \<lparr>ov_TTL = 0, ov_Audience = [], ov_Extra = [], ov_ForceJWT = False, ov_Authorization = Some authCtx,
        ov_ACR = [], ov_ChainID = ch\<rparr> s"

lemma mint_frame:
  assumes "mintAccessToken direct_stores deps env rs ps c g sc res now at b ad ov s = (r, s')"
  shows "st_refreshes s' = st_refreshes s" "st_authCodes s' = st_authCodes s" "st_grants s' = st_grants s"
    "st_grantRevocations s' = st_grantRevocations s"
proof -
  let ?same = "st_refreshes s' = st_refreshes s \<and> st_authCodes s' = st_authCodes s \<and> st_grants s' = st_grants s
    \<and> st_grantRevocations s' = st_grantRevocations s"
  have ?same if "mintOpaqueAccessToken direct_stores deps env sub c g sc res now at b ad ov s = (r, s')" for sub ov
    using that by (rule_tac mintOpaque_eq [of direct_stores deps env sub c g sc res now at b ad ov]) (auto split: option.splits)
  moreover have ?same if "mintJWTAccessToken direct_stores deps env rs ps c g sc res now at b ad ov s = (r, s')" for ov
    using that by (rule_tac mintJWT_eq [of direct_stores deps env rs ps c g sc res now at b ad ov])
      (auto split: option.splits if_splits)
  ultimately have ?same using assms by (auto simp: mint_cases Let_def split: if_splits)
  then show "st_refreshes s' = st_refreshes s" "st_authCodes s' = st_authCodes s" "st_grants s' = st_grants s"
    "st_grantRevocations s' = st_grantRevocations s" by simp_all
qed

lemma code_mint_rows:
  assumes "substores_reachable s" and "code_mint deps env client x binding ad authCtx ps ch s = (Inr acc, s')"
  shows "substores_reachable s'" and "code_credentials deps client x ch acc [] s'" and "only_adds acc [] s s'"
    and "accessTokenFormat deps (cx_Resource x) \<noteq> AccessTokenFormatOpaque \<Longrightarrow>
      fmlookup (oas_m (st_opaqueAccessTokens s')) = fmlookup (oas_m (st_opaqueAccessTokens s))"
proof -
  note m = direct_tokens.mint_succeeds [OF assms]
  note frame = mint_frame [OF assms(2)]
  show "substores_reachable s'" by (rule m(1))
  show jwt: "fmlookup (oas_m (st_opaqueAccessTokens s')) = fmlookup (oas_m (st_opaqueAccessTokens s))"
    if "accessTokenFormat deps (cx_Resource x) \<noteq> AccessTokenFormatOpaque"
  proof -
    from m(3) that obtain m' where "direct_view s' = (direct_view s)\<lparr>cv_access := m'\<rparr>" by auto
    from arg_cong [OF this, of cv_opaque] show ?thesis by simp
  qed
  have opq: "acc \<noteq> [] \<and> td_OpaqueAccessTokens deps \<and> (\<exists>row. opaque_row deps acc (if cx_GrantID x = [] then ps else cx_Subject x) (cl_ID client)
        (cx_GrantID x) (cx_Scope x) \<lparr>ov_TTL = 0, ov_Audience = [], ov_Extra = [], ov_ForceJWT = False, ov_Authorization = Some authCtx,
        ov_ACR = [], ov_ChainID = ch\<rparr> row
      \<and> fmlookup (oas_m (st_opaqueAccessTokens s')) = (fmlookup (oas_m (st_opaqueAccessTokens s)))(hashKey acc \<mapsto> row\<lparr>oa_ID := hashKey acc\<rparr>))"
    if "accessTokenFormat deps (cx_Resource x) = AccessTokenFormatOpaque"
  proof -
    from m(2) that obtain row where row: "td_OpaqueAccessTokens deps" "opaque_row deps acc (if cx_GrantID x = [] then ps else cx_Subject x) (cl_ID client)
        (cx_GrantID x) (cx_Scope x) \<lparr>ov_TTL = 0, ov_Audience = [], ov_Extra = [], ov_ForceJWT = False, ov_Authorization = Some authCtx,
        ov_ACR = [], ov_ChainID = ch\<rparr> row"
      "direct_view s' = (direct_view s)\<lparr>cv_opaque := (cv_opaque (direct_view s))(hashKey acc \<mapsto> row\<lparr>oa_ID := hashKey acc\<rparr>)\<rparr>" by auto
    from arg_cong [OF row(3), of cv_opaque] row(1,2) show ?thesis by (auto simp: opaque_row_def)
  qed
  show "only_adds acc [] s s'"
    using opq jwt by (cases "accessTokenFormat deps (cx_Resource x)") (auto simp: only_adds_def frame)
  show "code_credentials deps client x ch acc [] s'"
    using opq m(3) by (cases "accessTokenFormat deps (cx_Resource x)") (auto simp: code_credentials_def opaque_row_def jwt_signed_def)
qed

abbreviation code_issuance ::
  "tokenDeps \<Rightarrow> mint_env \<Rightarrow> Client \<Rightarrow> code_Exchanged \<Rightarrow> tokenBinding \<Rightarrow> jobject list \<Rightarrow> authContext \<Rightarrow> string \<Rightarrow>
     inmem_Store \<Rightarrow> (token_err + string) \<times> inmem_Store" where
  "code_issuance deps env client x binding ad authCtx ch s \<equiv>
     issueRefreshToken direct_stores deps env (code_refresh_issuance deps client x binding ch authCtx ad) s"

abbreviation code_issued :: "code_Exchanged \<Rightarrow> string \<Rightarrow> string \<Rightarrow> issuedUnderGrant" where
  "code_issued x acc refr \<equiv>
     \<lparr>iu_GrantID = cx_GrantID x, iu_IssuedAt = cx_IssuedAt x, iu_AccessToken = acc, iu_RefreshToken = refr\<rparr>"

lemma code_refresh_issuance_sel [simp]:
  "ri_Client (code_refresh_issuance deps client x binding ch ctx ad) = client"
  "ri_Subject (code_refresh_issuance deps client x binding ch ctx ad) = cx_Subject x"
  "ri_GrantID (code_refresh_issuance deps client x binding ch ctx ad) = cx_GrantID x"
  "ri_Scope (code_refresh_issuance deps client x binding ch ctx ad) = cx_Scope x"
  "ri_ChainID (code_refresh_issuance deps client x binding ch ctx ad) = ch"
  "ri_Origin (code_refresh_issuance deps client x binding ch ctx ad) = RefreshOriginAuthCode"
  by (simp_all add: code_refresh_issuance_def builtinRefreshIssuance_def)

lemma issueRefreshToken_adds:
  assumes "issueRefreshToken direct_stores deps env inp s = (Inr tok, s')" and "substores_reachable s"
  shows "substores_reachable s'" and "st_authCodes s' = st_authCodes s"
    and "k \<noteq> hashKey tok \<Longrightarrow> tokens_of (st_refreshes s') k = tokens_of (st_refreshes s) k"
proof -
  have "s' = s \<or> (\<exists>t. rt_ID t = tok \<and> fst (refreshStore_Save (Some t) (st_refreshes s)) = None \<and> s' = direct_exec (DRefresh (RSave (Some t))) s)"
  proof (rule issueRefresh_eq [of direct_stores deps env inp])
    fix i t
    assume "rt_ID t = i" and "\<And>s. issueRefreshToken direct_stores deps env inp s =
       (case ro_Save (so_refresh direct_stores) (Some t) s of
          (Some e, s) \<Rightarrow> (Inl (TokenRefresh (ErrRefreshStore ''refresh: save'' e)), s) | (None, s) \<Rightarrow> (Inr i, s))"
    with assms(1) show ?thesis by (intro disjI2 exI [of _ t]) (auto split: option.splits)
  qed (use assms(1) in auto)
  then have "substores_reachable s' \<and> st_authCodes s' = st_authCodes s
      \<and> (k \<noteq> hashKey tok \<longrightarrow> tokens_of (st_refreshes s') k = tokens_of (st_refreshes s) k)"
  proof (elim disjE exE conjE)
    fix t
    assume t: "rt_ID t = tok" "fst (refreshStore_Save (Some t) (st_refreshes s)) = None" "s' = direct_exec (DRefresh (RSave (Some t))) s"
    from refreshStore_Save_None(2) [OF t(2)] t(1) direct_reachable [OF assms(2), of "DRefresh (RSave (Some t))", folded t(3)]
    show ?thesis by (simp add: t(3))
  qed (use assms(2) in simp)
  then show "substores_reachable s'" and "st_authCodes s' = st_authCodes s"
    and "k \<noteq> hashKey tok \<Longrightarrow> tokens_of (st_refreshes s') k = tokens_of (st_refreshes s) k" by simp_all
qed

text \<open>A response without a refresh token persisted none, as the generator hands out a non-empty identifier.\<close>

lemma issueRefreshToken_none:
  assumes "issueRefreshToken direct_stores deps env inp s = (Inr [], s')" and "me_refreshID env \<noteq> Some []"
  shows "s' = s"
proof -
  have "refresh_newID (me_refreshID env) \<noteq> Inr []"
    using assms(2) base64_nonempty by (auto simp: refresh_newID_def RandomBase64URL_def split: option.splits)
  moreover have "refresh_newID rnd = Inr i" if "Issuer_Prepare iss now rnd c ii = Inr (i, rec)" for iss :: "inmem_Store Issuer" and now rnd c ii i rec
    using that by (simp add: Issuer_Prepare_def split: option.splits sum.splits)
  ultimately have never: "Issuer_Issue iss now (me_refreshID env) c ii s \<noteq> (Inr [], s')" for iss :: "inmem_Store Issuer" and now c ii
    by (fastforce simp: Issuer_Issue_def split: sum.splits prod.splits option.splits)
  show ?thesis
  proof (cases "refreshDropReason deps inp = []")
    case True
    with assms(1) never show ?thesis
      by (cases "NewIssuer (if td_RefreshTokens deps then Some (so_refresh direct_stores) else None) (pickRefreshTokenTTL deps (ri_Scope inp))")
         (simp_all only: issueRefreshToken_def sum.case simp_thms if_False split: prod.splits sum.splits, auto)
  qed (use assms(1) in \<open>simp add: issueRefreshToken_def\<close>)
qed

text \<open>The outcomes of the issuance: nothing was minted, a mint was taken back, or both credentials were persisted.\<close>

inductive issue_outcome ::
  "tokenDeps \<Rightarrow> mint_env \<Rightarrow> Client \<Rightarrow> code_Exchanged \<Rightarrow> tokenBinding \<Rightarrow> jobject list \<Rightarrow> (inmem_Store \<Rightarrow> inmem_Store) \<Rightarrow>
     inmem_Store \<Rightarrow> successResponse response \<Rightarrow> inmem_Store \<Rightarrow> bool"
  for deps env client x binding requested race s where
  nothing: "issue_outcome deps env client x binding requested race s (Refuse e) s"
| orphan: "code_mint deps env client x binding ad ctx ps ch s = (Inr acc, s1) \<Longrightarrow>
    issue_outcome deps env client x binding requested race s (Refuse e) (revokeOrphanedOpaqueAccessToken deps env acc s1)"
| closed: "code_mint deps env client x binding ad ctx ps ch s = (Inr acc, s1) \<Longrightarrow>
    code_issuance deps env client x binding ad ctx ch s1 = (Inr refr, s2) \<Longrightarrow>
    refuseIssuanceUnderClosedGrant direct_stores deps env (code_issued x acc refr) ''authorization code rejected'' (race s2) = (Some e, s') \<Longrightarrow>
    issue_outcome deps env client x binding requested race s (Refuse e) s'"
| granted: "code_mint deps env client x binding ad ctx ps ch s = (Inr (sr_AccessToken resp), s1) \<Longrightarrow>
    code_issuance deps env client x binding ad ctx ch s1 = (Inr (sr_RefreshToken resp), s2) \<Longrightarrow>
    refuseIssuanceUnderClosedGrant direct_stores deps env (code_issued x (sr_AccessToken resp) (sr_RefreshToken resp))
      ''authorization code rejected'' (race s2) = (None, s') \<Longrightarrow>
    sr_Scope resp = scope_Join (cx_Scope x) \<Longrightarrow> sr_AuthorizationDetails resp = ad \<Longrightarrow> codeAuthContext deps x s = Inr ctx \<Longrightarrow>
    reduceAuthorizationDetails requested (ax_AuthorizationDetails ctx) = Inr ad \<Longrightarrow>
    issue_outcome deps env client x binding requested race s (TokenResponse resp) s'"

inductive_cases issue_granted: "issue_outcome deps env client x binding requested race s (TokenResponse resp) s'"

lemma issue_cases:
  assumes "issueAuthCodeResponse deps env client code x user binding requested race s = (res, s')"
  shows "issue_outcome deps env client x binding requested race s res s'"
  using assms unfolding issueAuthCodeResponse_def
  by (auto dest: mint_Inl issueRefreshToken_Inl intro: issue_outcome.intros split: option.splits sum.splits prod.splits)

lemma issuance_rows:
  assumes "substores_reachable s" and "code_mint deps env client x binding ad ctx ps ch s = (Inr acc, s1)"
    and "code_issuance deps env client x binding ad ctx ch s1 = (Inr refr, s2)"
  shows "substores_reachable s2" and "code_credentials deps client x ch acc refr s2" and "only_adds acc refr s s2"
    and "accessTokenFormat deps (cx_Resource x) \<noteq> AccessTokenFormatOpaque \<Longrightarrow>
      fmlookup (oas_m (st_opaqueAccessTokens s2)) = fmlookup (oas_m (st_opaqueAccessTokens s))"
proof -
  note mint = code_mint_rows [OF assms(1,2)] and frame = issueRefreshToken_frame [OF assms(3)]
  note adds = issueRefreshToken_adds [OF assms(3) mint(1)]
  have refresh: "td_RefreshTokens deps \<and> clientRegisteredForRefresh client \<and>
      (\<exists>t. tokens_of (st_refreshes s2) (hashKey refr) = Some t
         \<and> rt_GrantID t = cx_GrantID x \<and> rt_ClientID t = cl_ID client \<and> rt_Scope t = cx_Scope x
         \<and> rt_Subject t = cx_Subject x \<and> (ch \<noteq> [] \<longrightarrow> rt_ChainID t = ch) \<and> rt_ParentID t = None
         \<and> rt_Origin t = RefreshOriginAuthCode \<and> rt_ConsumedAt t = None \<and> \<not> rt_Revoked t)" if "refr \<noteq> []"
    by (rule issueRefreshToken_Inr [OF assms(3) that])
       (use refreshDropReason_registered in \<open>fastforce simp: storeRefresh_def\<close>)
  show "substores_reachable s2" by (rule adds(1))
  from mint(4) frame show "accessTokenFormat deps (cx_Resource x) \<noteq> AccessTokenFormatOpaque \<Longrightarrow>
      fmlookup (oas_m (st_opaqueAccessTokens s2)) = fmlookup (oas_m (st_opaqueAccessTokens s))" by simp
  show "code_credentials deps client x ch acc refr s2"
    using mint(2) refresh frame by (simp add: code_credentials_def)
  show "only_adds acc refr s s2"
    unfolding only_adds_def using mint(3) [unfolded only_adds_def] adds(2,3) frame mint_frame(1) [OF assms(2)] by auto
qed


section \<open>What a refusal leaves behind\<close>

text \<open>No opaque access token and no refresh token is usable after it that was not there, and usable, before.\<close>

definition no_new_credential :: "inmem_Store \<Rightarrow> inmem_Store \<Rightarrow> bool" where
  "no_new_credential s s' \<longleftrightarrow>
     (\<forall>k t. fmlookup (oas_m (st_opaqueAccessTokens s')) k = Some t \<longrightarrow> \<not> oa_Revoked t \<longrightarrow>
        fmlookup (oas_m (st_opaqueAccessTokens s)) k = Some t)
   \<and> (\<forall>k t. tokens_of (st_refreshes s') k = Some t \<longrightarrow> \<not> rt_Revoked t \<longrightarrow> tokens_of (st_refreshes s) k = Some t)"

lemma no_new_refl [simp]: "no_new_credential s s"
  by (simp add: no_new_credential_def)

lemma no_new_consumed [simp]: "no_new_credential (consumed_code env code s) s' = no_new_credential s s'"
  by (simp add: no_new_credential_def)

lemma no_new_whole_grant:
  assumes "substores_reachable s"
  shows "no_new_credential s (snd (Revoker_Run direct_stores r snow (WholeGrant g) s))"
proof (cases "g = []")
  case True
  then show ?thesis by (simp add: Revoker_Run_def Revoker_runGrant_def)
next
  case False
  note wf = substores_inv(1) [OF assms]
  have "fmlookup (oas_m (snd (opaqueAccessTokenStore_RevokeByGrant g (st_opaqueAccessTokens s)))) k = Some t \<Longrightarrow> \<not> oa_Revoked t \<Longrightarrow>
      fmlookup (oas_m (st_opaqueAccessTokens s)) k = Some t" for k t
    by (auto simp: opaqueAccessTokenStore_RevokeByGrant_def case_prod_beta opaque_rows.revokeIndexed_lookup split: if_splits)
  moreover have "tokens_of (snd (refreshStore_RevokeByGrant snow g (st_refreshes s))) k = Some t \<Longrightarrow> \<not> rt_Revoked t \<Longrightarrow>
      tokens_of (st_refreshes s) k = Some t" for k t
    by (auto simp: refresh_grant_rows [OF wf False] revoke_where_def split: if_splits)
  moreover have "st_opaqueAccessTokens (snd (Revoker_Run direct_stores r snow (WholeGrant g) s))
      \<in> {st_opaqueAccessTokens s, snd (opaqueAccessTokenStore_RevokeByGrant g (st_opaqueAccessTokens s))}"
    "st_refreshes (snd (Revoker_Run direct_stores r snow (WholeGrant g) s))
      \<in> {st_refreshes s, snd (refreshStore_RevokeByGrant snow g (st_refreshes s))}"
    using False by (simp_all add: Revoker_Run_def runGrant_closed)
  ultimately show ?thesis unfolding no_new_credential_def by (elim insertE emptyE) (simp_all only:, blast+)
qed

text \<open>Taking back what was persisted: its rows are revoked and no other row gains anything.\<close>

lemma issued_teardown_rows:
  assumes "substores_reachable s"
    and s'_def: "s' = snd (Revoker_Run direct_stores (grantTeardown deps env reason) snow (IssuedCredentials acc refr) s)"
  shows "fmlookup (oas_m (st_opaqueAccessTokens s')) k = Some t \<Longrightarrow> \<not> oa_Revoked t \<Longrightarrow>
      fmlookup (oas_m (st_opaqueAccessTokens s)) k = Some t \<and> \<not> (acc \<noteq> [] \<and> td_OpaqueAccessTokens deps \<and> k = hashKey acc)"
    and "tokens_of (st_refreshes s') k = Some u \<and> \<not> rt_Revoked u \<Longrightarrow>
      tokens_of (st_refreshes s) k = Some u \<and> \<not> (refr \<noteq> [] \<and> td_RefreshTokens deps \<and> k = hashKey refr)"
proof -
  have opq: "st_opaqueAccessTokens s' = (if acc \<noteq> [] \<and> td_OpaqueAccessTokens deps
      then snd (opaqueAccessTokenStore_RevokeByID acc (st_opaqueAccessTokens s)) else st_opaqueAccessTokens s)"
    and refr: "st_refreshes s' = (if refr \<noteq> [] \<and> td_RefreshTokens deps
      then snd (refreshStore_RevokeChain snow refr (st_refreshes s)) else st_refreshes s)"
    by (simp_all add: s'_def Revoker_Run_def Revoker_runToken_def scope_defs class_defs)
  show "fmlookup (oas_m (st_opaqueAccessTokens s')) k = Some t \<Longrightarrow> \<not> oa_Revoked t \<Longrightarrow>
      fmlookup (oas_m (st_opaqueAccessTokens s)) k = Some t \<and> \<not> (acc \<noteq> [] \<and> td_OpaqueAccessTokens deps \<and> k = hashKey acc)"
    by (auto simp: opq oas_m_RevokeByID split: if_splits)
  show "tokens_of (st_refreshes s') k = Some u \<and> \<not> rt_Revoked u \<Longrightarrow>
      tokens_of (st_refreshes s) k = Some u \<and> \<not> (refr \<noteq> [] \<and> td_RefreshTokens deps \<and> k = hashKey refr)"
  proof (cases "refr \<noteq> [] \<and> td_RefreshTokens deps")
    case True
    then have rows: "tokens_of (st_refreshes s') = snd (spec_refresh_revokeChain snow refr (tokens_of (st_refreshes s)))"
      using refreshStore_RevokeChain_spec(2) [OF substores_inv(1) [OF assms(1)], of snow refr] by (simp add: refr)
    have self: "descends M i i" for M i by (simp add: descends_def)
    assume "tokens_of (st_refreshes s') k = Some u \<and> \<not> rt_Revoked u"
    then show ?thesis
      unfolding rows by (auto simp: spec_refresh_revokeChain_def revoke_where_def self split: if_splits)
  qed (auto simp: refr)
qed

lemma issue_refused_no_new:
  assumes "substores_reachable s" and "me_refreshID env \<noteq> Some []"
    and "issueAuthCodeResponse deps env client code x user binding requested (\<lambda>s. s) s = (Refuse e, s')"
  shows "no_new_credential s s'"
  using issue_cases [OF assms(3)]
proof cases
  case (orphan ad ctx ps ch acc s1)
  note rows = code_mint_rows [OF assms(1) orphan(2)] and frame = mint_frame(1) [OF orphan(2)]
  note gone = issued_teardown_rows [OF rows(1) orphan(1) [unfolded revokeOrphanedOpaqueAccessToken_def]]
  have "fmlookup (oas_m (st_opaqueAccessTokens s)) k = Some t"
    if "fmlookup (oas_m (st_opaqueAccessTokens s')) k = Some t" "\<not> oa_Revoked t" for k t
    using gone(1) [OF that] rows(2,4) only_addsD(1) [OF rows(3), of k] by (auto simp: code_credentials_def split: if_splits)
  moreover have "tokens_of (st_refreshes s) k = Some t" if "tokens_of (st_refreshes s') k = Some t" "\<not> rt_Revoked t" for k t
    using gone(2) [OF conjI [OF that]] by (simp add: frame)
  ultimately show ?thesis by (simp add: no_new_credential_def)
next
  case (closed ad ctx ps ch acc s1 refr s2)
  note rows = issuance_rows [OF assms(1) closed(1,2)]
  have s': "s' = snd (Revoker_Run direct_stores (grantTeardown deps env teardownReasonGrantTombstoned) (me_storeNow env)
      (IssuedCredentials acc refr) s2)"
    using closed(3) by (auto simp: refuseIssuanceUnderClosedGrant_def Let_def split: if_splits prod.splits)
  have none: "tokens_of (st_refreshes s2) = tokens_of (st_refreshes s)" if "refr = []"
    using issueRefreshToken_none [OF closed(2) [unfolded that] assms(2)] mint_frame(1) [OF closed(1)] by simp
  note gone = issued_teardown_rows [OF rows(1) s']
  have "fmlookup (oas_m (st_opaqueAccessTokens s)) k = Some t"
    if "fmlookup (oas_m (st_opaqueAccessTokens s')) k = Some t" "\<not> oa_Revoked t" for k t
    using gone(1) [OF that] rows(2,4) only_addsD(1) [OF rows(3), of k] by (auto simp: code_credentials_def split: if_splits)
  moreover have "tokens_of (st_refreshes s) k = Some t" if "tokens_of (st_refreshes s') k = Some t" "\<not> rt_Revoked t" for k t
    using gone(2) [OF conjI [OF that]] rows(2) only_addsD(2) [OF rows(3), of k] none by (cases "refr = []") (auto simp: code_credentials_def)
  ultimately show ?thesis by (simp add: no_new_credential_def)
qed simp


section \<open>The properties of the handler\<close>

lemma exchange_refusals:
  assumes "substores_reachable s" and "code \<noteq> []"
    and "code_Exchanger_Exchange cluster_codes (ce_codesNow env) now (code_input deps client binding requested code uri ver s) s = (Inl err, s1)"
  shows "s1 \<in> {s, consumed_code env code s}"
  using assms(3) unfolding exchange_row [OF assms(1,2) refl] by (auto split: option.splits if_splits)

lemma exchange_granted:
  assumes "substores_reachable s" and "code \<noteq> []"
    and "code_Exchanger_Exchange cluster_codes (ce_codesNow env) now (code_input deps client binding requested code uri ver s) s = (Inr x, s1)"
  obtains r where "codes_of (st_authCodes s) (hashKey code) = Some r" and "ac_ConsumedAt r = None"
    and "\<not> isExpired (ac_ExpiresAt r) (ce_codesNow env)" and "now \<le> ac_ExpiresAt r"
    and "code_presented deps client binding uri ver r" and "x = project (r\<lparr>ac_ConsumedAt := Some (ce_codesNow env)\<rparr>)"
    and "s1 = consumed_code env code s"
    and "codes_of (st_authCodes s1) = (codes_of (st_authCodes s))(hashKey code \<mapsto> r\<lparr>ac_ConsumedAt := Some (ce_codesNow env)\<rparr>)"
proof -
  obtain r where r: "codes_of (st_authCodes s) (hashKey code) = Some r" "ac_ConsumedAt r = None"
    "\<not> isExpired (ac_ExpiresAt r) (ce_codesNow env)" "now \<le> ac_ExpiresAt r" "code_presented deps client binding uri ver r"
    "x = project (r\<lparr>ac_ConsumedAt := Some (ce_codesNow env)\<rparr>)" "s1 = consumed_code env code s"
    using assms(3) unfolding exchange_row [OF assms(1,2) refl]
    by (auto simp: admit_code_input split: option.splits if_splits)
  have "ac_ID r = hashKey code"
    by (rule codes_keyedD [OF authcode_reachable_keyed [OF codes_reachable [OF assms(1)]] r(1)])
  with r have "codes_of (st_authCodes s1) = (codes_of (st_authCodes s))(hashKey code \<mapsto> r\<lparr>ac_ConsumedAt := Some (ce_codesNow env)\<rparr>)"
    by (simp add: consumed_code_exec authCodeStore_Consume_def fun_eq_iff Let_def)
  with r show thesis by (intro that)
qed

lemma handleAuthorizationCode_granted:
  assumes "substores_reachable s"
    and "handleAuthorizationCode deps env auth code uri ver details mtls race s = (TokenResponse resp, s')"
  obtains client binding requested r ch s1 where "handler_prefix deps auth code uri details mtls client binding requested"
    and "codes_of (st_authCodes s) (hashKey code) = Some r" and "ac_ConsumedAt r = None"
    and "\<not> isExpired (ac_ExpiresAt r) (ce_codesNow env)" and "ce_exchangeNow env \<le> ac_ExpiresAt r"
    and "code_presented deps client binding uri ver r" and "snd (lookupLiveSubject deps (ac_Subject r)) = SubjectLive"
    and "codes_of (st_authCodes s1) = (codes_of (st_authCodes s))(hashKey code \<mapsto> r\<lparr>ac_ConsumedAt := Some (ce_codesNow env)\<rparr>)"
    and "code_credentials deps client (project r) ch (sr_AccessToken resp) (sr_RefreshToken resp) s1"
    and "st_grants s1 = st_grants s" and "substores_reachable s1"
    and "sr_Scope resp = scope_Join (ac_Scope r)" and "s' = race s1"
    and "td_GrantRevocations deps \<Longrightarrow> ac_GrantID r \<noteq> [] \<Longrightarrow>
      grantRevocationStore_IsIssuanceRevoked (ac_GrantID r) (ac_CreatedAt r) (st_grantRevocations s') = (False, None)"
proof (rule handleAuthorizationCode_cases [of deps env auth code uri ver details mtls])
  fix client binding requested
  assume codes: "td_Codes deps" and pre: "handler_prefix deps auth code uri details mtls client binding requested"
  then have code: "code \<noteq> []" by (simp add: handler_prefix_def)
  obtain res s1 where ex: "code_Exchanger_Exchange cluster_codes (ce_codesNow env) (ce_exchangeNow env)
      (code_input deps client binding requested code uri ver s) s = (res, s1)" by fastforce
  note run = assms(2) [unfolded handle_eq [OF pre codes] ex]
  obtain x where res: "res = Inr x" using run by (cases res) (auto split: prod.splits)
  from exchange_granted [OF assms(1) code ex [unfolded res]] obtain r where
    r: "codes_of (st_authCodes s) (hashKey code) = Some r" "ac_ConsumedAt r = None"
      "\<not> isExpired (ac_ExpiresAt r) (ce_codesNow env)" "ce_exchangeNow env \<le> ac_ExpiresAt r" "code_presented deps client binding uri ver r"
      "x = project (r\<lparr>ac_ConsumedAt := Some (ce_codesNow env)\<rparr>)" "s1 = consumed_code env code s"
      "codes_of (st_authCodes s1) = (codes_of (st_authCodes s))(hashKey code \<mapsto> r\<lparr>ac_ConsumedAt := Some (ce_codesNow env)\<rparr>)" .
  obtain user where live: "lookupLiveSubject deps (ac_Subject r) = (user, SubjectLive)"
    and issue: "issueAuthCodeResponse deps (ce_mint env) client code x user binding requested race s1 = (TokenResponse resp, s')"
    using run by (auto simp: res r(6) split: prod.splits subject_lookup.splits)
  have inv: "substores_reachable s1" using assms(1) r(7) by (simp add: consumed_code_reachable)
  from issue_cases [OF issue] obtain ad ctx ps ch s2 s3 where
    mint: "code_mint deps (ce_mint env) client x binding ad ctx ps ch s1 = (Inr (sr_AccessToken resp), s2)"
    and refresh: "code_issuance deps (ce_mint env) client x binding ad ctx ch s2 = (Inr (sr_RefreshToken resp), s3)"
    and check: "refuseIssuanceUnderClosedGrant direct_stores deps (ce_mint env) (code_issued x (sr_AccessToken resp) (sr_RefreshToken resp))
      ''authorization code rejected'' (race s3) = (None, s')"
    and scope: "sr_Scope resp = scope_Join (cx_Scope x)"
    by (rule issue_granted) blast
  note rows = issuance_rows [OF inv mint refresh] and closed = refuse_None [OF check]
  have cred: "code_credentials deps client (project r) ch (sr_AccessToken resp) (sr_RefreshToken resp) s3"
    using rows(2) by (simp add: code_credentials_def r(6) cong: if_cong)
  have same: "st_authCodes s3 = st_authCodes s1" "st_grants s3 = st_grants s" using rows(3) by (simp_all add: only_adds_def r(7))
  show thesis
    by (rule that [OF pre r(1-5), of s3 ch]) (use live r(6,8) rows(1) cred same closed scope in simp_all)
qed (use assms(2) in simp)


text \<open>
  A presentation that does not match spends nothing: when the client, the redirect URI, the verifier,
  the scopes, the downgrade guard or the DPoP commitment refuse a code, or a requested authorization
  detail was not granted, the request is refused and the store is as it was, so the code stays
  redeemable by its owner.
\<close>

theorem authcode_mismatch_keeps_store:
  assumes "substores_reachable s" and "handler_prefix deps auth code uri details mtls client binding requested"
    and "codes_of (st_authCodes s) (hashKey code) = Some r" and "\<not> isExpired (ac_ExpiresAt r) (ce_codesNow env)"
    and "\<not> (code_presented deps client binding uri ver r \<and> admitAuthorizationDetails deps (project r) requested s = None)"
  shows "\<exists>e. handleAuthorizationCode deps env auth code uri ver details mtls race s = (Refuse e, s)"
proof (cases "td_Codes deps")
  case True
  let ?inp = "code_input deps client binding requested code uri ver s"
  have code: "code \<noteq> []" using assms(2) by (simp add: handler_prefix_def)
  obtain e where admit: "admit r ?inp = Some e" using assms(5) admit_code_input [of r deps client binding requested code uri ver s] by auto
  then have "\<not> is_replay e"
    by (auto simp: admit_def checkBindings_def code_input_def errRedemptionRefused_def is_replay_def split: option.splits if_splits wire_error.splits)
  then show ?thesis
    using assms(3,4) admit
    by (cases e) (simp_all add: handle_eq [OF assms(2) True] exchange_row [OF assms(1) code refl] writeAuthCodeExchangeError_def)
next
  case False
  with assms(2) show ?thesis
    by (auto simp: handler_prefix_def handleAuthorizationCode_def parseAuthCodeRequest_def exchangeAuthCode_def)
qed

text \<open>
  C9. A refusal leaves nothing usable behind: whatever the reason, and also when the code was consumed and
  the access token or both credentials were already persisted, no opaque access token and no refresh token
  is usable after the refused request that was not usable before it.
\<close>

theorem authcode_refusal_no_credential:
  assumes "substores_reachable s" and "me_refreshID (ce_mint env) \<noteq> Some []"
    and "handleAuthorizationCode deps env auth code uri ver details mtls (\<lambda>s. s) s = (Refuse e, s')"
  shows "no_new_credential s s'"
proof (rule handleAuthorizationCode_cases [of deps env auth code uri ver details mtls])
  fix client binding requested
  assume codes: "td_Codes deps" and pre: "handler_prefix deps auth code uri details mtls client binding requested"
  then have code: "code \<noteq> []" by (simp add: handler_prefix_def)
  obtain res s1 where ex: "code_Exchanger_Exchange cluster_codes (ce_codesNow env) (ce_exchangeNow env)
      (code_input deps client binding requested code uri ver s) s = (res, s1)" by fastforce
  note run = assms(3) [unfolded handle_eq [OF pre codes] ex]
  show ?thesis
  proof (cases res)
    case (Inl err)
    have s1: "substores_reachable s1" "no_new_credential s1 s2 \<Longrightarrow> no_new_credential s s2" for s2
      using exchange_refusals [OF assms(1) code ex [unfolded Inl]] assms(1) consumed_code_reachable by auto
    have "s' = s1 \<or> (\<exists>r g. s' = snd (Revoker_Run direct_stores r (me_storeNow (ce_mint env)) (WholeGrant g) s1))"
      using run
      by (cases err) (auto simp: Inl writeAuthCodeExchangeError_def revokeChainForCode_def split: if_splits option.splits prod.splits)
    then show ?thesis using s1 no_new_whole_grant by auto
  next
    case (Inr x)
    from exchange_granted [OF assms(1) code ex [unfolded Inr]] have s1: "s1 = consumed_code env code s" .
    have inv: "substores_reachable s1" using assms(1) by (simp add: s1 consumed_code_reachable)
    obtain user live where look: "lookupLiveSubject deps (cx_Subject x) = (user, live)" by fastforce
    have "no_new_credential s1 s'"
    proof (cases "live = SubjectLive")
      case True
      with run have "issueAuthCodeResponse deps (ce_mint env) client code x user binding requested (\<lambda>s. s) s1 = (Refuse e, s')"
        by (simp add: Inr look)
      then show ?thesis by (rule issue_refused_no_new [OF inv assms(2)])
    next
      case False
      with run have "s' = s1 \<or> (\<exists>r g. s' = snd (Revoker_Run direct_stores r (me_storeNow (ce_mint env)) (WholeGrant g) s1))"
        by (cases live) (auto simp: Inr look retireDeprovisionedGrant_def split: if_splits)
      then show ?thesis using no_new_whole_grant [OF inv] by auto
    qed
    then show ?thesis by (simp add: s1)
  qed
qed (use assms(3) in simp)


section \<open>A replayed code\<close>

lemma replay_run:
  assumes "substores_reachable s" and "td_Codes deps" and "handler_prefix deps auth code uri details mtls client binding requested"
    and "codes_of (st_authCodes s) (hashKey code) = Some r" and "ac_ConsumedAt r \<noteq> None"
    and "\<not> isExpired (ac_ExpiresAt r) (ce_codesNow env)" and "ac_GrantID r \<noteq> []"
    and "code_presented deps client binding uri ver r" and "admitAuthorizationDetails deps (project r) requested s = None"
  shows "handleAuthorizationCode deps env auth code uri ver details mtls race s =
    (Refuse (OAuthError StatusBadRequest ''invalid_grant'' ''authorization code rejected''),
     snd (Revoker_Run direct_stores (grantTeardown deps (ce_mint env) teardownReasonCodeReplay) (me_storeNow (ce_mint env))
       (WholeGrant (ac_GrantID r)) (consumed_code env code s)))"
proof -
  have code: "code \<noteq> []" using assms(3) by (simp add: handler_prefix_def)
  have "admit r (code_input deps client binding requested code uri ver s) = None"
    using assms(8,9) by (simp add: admit_code_input)
  with assms(4-7) show ?thesis
    by (simp add: handle_eq [OF assms(3,2)] exchange_row [OF assms(1) code refl] writeAuthCodeExchangeError_def
        is_replay_def ReplayGrantID_def revokeChainForCode_def)
qed

text \<open>
  C8. A replayed code costs its grant: when a code that was already consumed is presented again with the
  right client, redirect URI, verifier and proof, the request is refused with \<^verbatim>\<open>invalid_grant\<close>, and
  afterwards every refresh token and every opaque access token of the code's grant is revoked and the
  grant is closed to every authorization that started up to that instant.
\<close>

theorem authcode_replay_teardown:
  assumes "substores_reachable s" and "td_Codes deps" and "handler_prefix deps auth code uri details mtls client binding requested"
    and "codes_of (st_authCodes s) (hashKey code) = Some r" and "ac_ConsumedAt r \<noteq> None"
    and "\<not> isExpired (ac_ExpiresAt r) (ce_codesNow env)" and "ac_GrantID r \<noteq> []"
    and "code_presented deps client binding uri ver r" and "admitAuthorizationDetails deps (project r) requested s = None"
    and "td_RefreshTokens deps" and "td_OpaqueAccessTokens deps" and "td_GrantRevocations deps"
    and "0 < me_teardownNow (ce_mint env)"
  shows "\<exists>s'. handleAuthorizationCode deps env auth code uri ver details mtls race s =
      (Refuse (OAuthError StatusBadRequest ''invalid_grant'' ''authorization code rejected''), s')
    \<and> grant_dead (ac_GrantID r) (me_teardownNow (ce_mint env)) s'"
  using replay_run [OF assms(1-9)] whole_grant_dead [OF consumed_code_reachable [OF assms(1)] assms(7,10-13)] by simp

text \<open>
  C7. A replay wins over a redemption in flight: when the same code is presented a second time, matching
  its record, after the first request persisted its credentials and before that request asked whether the
  grant was closed, the first request is refused as well, so neither presentation is answered with tokens.
\<close>

theorem authcode_replay_race:
  assumes "substores_reachable s" and "td_Codes deps" and "handler_prefix deps auth2 code uri2 details2 mtls2 client2 binding2 requested2"
    and "codes_of (st_authCodes s) (hashKey code) = Some r"
    and "\<not> isExpired (ac_ExpiresAt r) (ce_codesNow env2)" and "ac_GrantID r \<noteq> []"
    and "code_presented deps client2 binding2 uri2 ver2 r" and "admitAuthorizationDetails deps (project r) requested2 s = None"
    and "td_RefreshTokens deps" and "td_OpaqueAccessTokens deps" and "td_GrantRevocations deps"
    and "0 < me_teardownNow (ce_mint env2)" and "ac_CreatedAt r \<le> me_teardownNow (ce_mint env2)"
  shows "\<exists>e. fst (handleAuthorizationCode deps env auth code uri ver details mtls
      (\<lambda>s1. snd (handleAuthorizationCode deps env2 auth2 code uri2 ver2 details2 mtls2 race2 s1)) s) = Refuse e"
proof -
  let ?replay = "handleAuthorizationCode deps env2 auth2 code uri2 ver2 details2 mtls2 race2"
  let ?race = "\<lambda>s1. snd (?replay s1)"
  obtain res s' where run: "handleAuthorizationCode deps env auth code uri ver details mtls ?race s = (res, s')" by fastforce
  show ?thesis
  proof (cases res)
    case (TokenResponse resp)
    from handleAuthorizationCode_granted [OF assms(1) run [unfolded TokenResponse]] obtain r' s1 where
      row: "codes_of (st_authCodes s) (hashKey code) = Some r'"
      and spent: "codes_of (st_authCodes s1) = (codes_of (st_authCodes s))(hashKey code \<mapsto> r'\<lparr>ac_ConsumedAt := Some (ce_codesNow env)\<rparr>)"
      and s1: "st_grants s1 = st_grants s" "substores_reachable s1" "s' = ?race s1"
      and free: "td_GrantRevocations deps \<Longrightarrow> ac_GrantID r' \<noteq> [] \<Longrightarrow>
        grantRevocationStore_IsIssuanceRevoked (ac_GrantID r') (ac_CreatedAt r') (st_grantRevocations s') = (False, None)" by metis
    let ?r = "r\<lparr>ac_ConsumedAt := Some (ce_codesNow env)\<rparr>"
    have rr: "r' = r" using row assms(4) by simp
    have "FindGrant direct_stores deps (ac_GrantID r) s1 = FindGrant direct_stores deps (ac_GrantID r) s"
      by (simp add: FindGrant_def s1(1))
    then have ctx: "codeAuthContext deps (project r) s1 = codeAuthContext deps (project r) s" by (simp add: codeAuthContext_def)
    have gate: "admitAuthorizationDetails deps (project ?r) requested2 s1 = None"
      using assms(8) by (simp only: admitAuthorizationDetails_def project_same(2) ctx)
    have pres: "code_presented deps client2 binding2 uri2 ver2 ?r" using assms(7) by (simp add: code_presented_def)
    have row1: "codes_of (st_authCodes s1) (hashKey code) = Some ?r" using spent by (simp add: rr)
    have "\<exists>s2. ?replay s1 = (Refuse (OAuthError StatusBadRequest ''invalid_grant'' ''authorization code rejected''), s2)
        \<and> grant_dead (ac_GrantID ?r) (me_teardownNow (ce_mint env2)) s2"
      using replay_run [OF s1(2) assms(2,3) row1 _ _ _ pres gate] assms(5,6)
        whole_grant_dead [OF consumed_code_reachable [OF s1(2)] assms(6,9-12)] by simp
    then have "grantRevocationStore_IsIssuanceRevoked (ac_GrantID r) (ac_CreatedAt r) (st_grantRevocations s') = (True, None)"
      using s1(3) assms(13) by (auto simp: grant_dead_def)
    with free assms(6,11) show ?thesis by (simp add: rr)
  qed (simp add: run)
qed

end
