(* ===== verification/RefreshFlow.thy ===== *)
theory RefreshFlow
  imports RefreshHandler
begin

text \<open>
  What the refresh_token grant does to the store. The exchange and the issuance are followed once, on
  the view of the substores in \<open>token_stores\<close>; the handler's theorems are about the store, before the
  transaction is opened and after it was committed or rolled back.
\<close>


section \<open>The refusals\<close>

lemma refuse_probe:
  "refuseIssuanceUnderClosedGrant h deps env (refreshIssuedUnderGrant x) d s =
     (if \<not> td_GrantRevocations deps \<or> xd_GrantID x = [] then (None, s)
      else case so_IsIssuanceRevoked h (xd_GrantID x) (xd_IssuedAt x) s of
             (closed, err) \<Rightarrow>
               (if err = None \<and> \<not> closed then None
                else if err \<noteq> None then Some ServerError
                else Some (OAuthError StatusBadRequest ''invalid_grant'' d), s))"
  by (simp add: refuseIssuanceUnderClosedGrant_def refreshIssuedUnderGrant_def grantClosedToIssuance_def
      Revoker_Run_def Revoker_runToken_def IssuedCredentials_def zero_Scope_def Let_def split: prod.split)

lemma newRefreshExchanger_Inr:
  assumes "newRefreshExchanger h deps = Inr e"
  shows "ex_store e = so_refresh h" "ex_deferCascade e" "ex_rotationDisabled e = td_RefreshTokenRotationDisabled deps"
    "td_RefreshTokens deps"
  using assms by (auto simp: newRefreshExchanger_def NewExchanger_def split: if_splits)

lemma armed_simps [simp]:
  "\<not> replayCascade_armed zero_replayCascade" "replayCascade_armed (replayCascade_arm i c) \<longleftrightarrow> i \<noteq> [] \<or> dr_Subject (ca_deprovisioned c) \<noteq> []"
  "replayCascade_armed (replayCascade_armDeprovisioned d c) \<longleftrightarrow> ca_token c \<noteq> [] \<or> dr_Subject d \<noteq> []"
  by (simp_all add: replayCascade_armed_def zero_replayCascade_def replayCascade_arm_def replayCascade_armDeprovisioned_def)

lemma status_simps [simp]:
  "response_status (TokenResponse r) = 200" "response_status (Refuse (OAuthError st c d)) = st"
  by (simp_all add: response_status_def)

lemma exchange_refusal_status:
  "response_status (Refuse (writeRefreshExchangeError ErrTokenReplayed)) = 400"
  by (simp add: writeRefreshExchangeError_def)

text \<open>A cascade is armed only by a refusal with status 400.\<close>

lemma exchangeRefresh_cascade:
  assumes "exchangeRefresh h deps env cid inp c s = (r, c', s')"
  shows "c' = c \<or> (c' = replayCascade_arm (rin_Token inp) c \<and> r = Inl (writeRefreshExchangeError ErrTokenReplayed))"
  using assms by (auto simp: exchangeRefresh_def split: sum.splits prod.splits if_splits)

lemma requireLive_cascade:
  assumes "requireLiveRefreshSubject h deps cid x c s = (r, c')"
  shows "c' = c \<or> r = Inl (writeSubjectLookupError SubjectDeprovisioned)"
  using assms by (auto simp: requireLiveRefreshSubject_def split: sum.splits prod.splits if_splits option.splits subject_lookup.splits)

lemma complete_cascade:
  assumes "completeRefreshToken h deps env client inp out vb rq ad tr c s = (o', s')"
  shows "ro_cascade o' = c \<or> response_status (fst (ro_result o')) = 400"
proof -
  obtain r c1 s1 where x: "exchangeRefresh h deps env (cl_ID client) inp c s = (r, c1, s1)"
    by (cases "exchangeRefresh h deps env (cl_ID client) inp c s") auto
  show ?thesis
  proof (cases r)
    case (Inl e)
    with x assms exchangeRefresh_cascade [OF x] show ?thesis
      by (auto simp: completeRefreshToken_def writeRefreshExchangeError_def)
  next
    case (Inr y)
    then have c1: "c1 = c" using exchangeRefresh_cascade [OF x] by auto
    obtain l c2 where live: "requireLiveRefreshSubject h deps (cl_ID client) y c s1 = (l, c2)"
      by (cases "requireLiveRefreshSubject h deps (cl_ID client) y c s1") auto
    from assms x Inr c1 live requireLive_cascade [OF live] show ?thesis
      by (auto simp: completeRefreshToken_def writeSubjectLookupError_def split: option.splits sum.splits prod.splits if_splits)
  qed
qed


section \<open>The exchange and the issuance on a view\<close>

text \<open>The rows a rotation retires: the opaque tokens of the chain, or of the grant for a chain without an identifier.\<close>

definition rotation_retires :: "tokenDeps \<Rightarrow> Exchanged \<Rightarrow> OpaqueAccessToken \<Rightarrow> bool" where
  "rotation_retires deps x r \<longleftrightarrow>
     td_OpaqueAccessTokens deps \<and> xd_GrantID x \<noteq> [] \<and> \<not> refreshMintPinnedJWT x
     \<and> accessTokenFormat deps (xd_Resource x) = AccessTokenFormatOpaque
     \<and> oa_GrantID r = xd_GrantID x \<and> (xd_ChainID x = [] \<or> oa_ChainID r = xd_ChainID x)"

lemma opaque_retired_refl: "(\<And>r. \<not> P r) \<Longrightarrow> opaque_retired P M M"
  by (simp add: opaque_retired_def)

lemma opaque_retired_row:
  assumes "opaque_retired P M M'" and "M k = Some row" and "P row" and "P (row\<lparr>oa_Revoked := True\<rparr>) = P row"
  shows "M' k = Some (row\<lparr>oa_Revoked := True\<rparr>)"
proof -
  have "oa_Revoked row \<Longrightarrow> row\<lparr>oa_Revoked := True\<rparr> = row" by (cases row) simp
  with assms show ?thesis unfolding opaque_retired_def by metis
qed

definition access_only :: "cluster_view \<Rightarrow> cluster_view \<Rightarrow> bool" where
  "access_only v v' \<longleftrightarrow>
     cv_refreshes v' = cv_refreshes v \<and> cv_grants v' = cv_grants v \<and> cv_revocations v' = cv_revocations v"

lemma access_only_refl [simp]: "access_only v v"
  by (simp add: access_only_def)

lemma access_only_trans: "access_only u v \<Longrightarrow> access_only v w \<Longrightarrow> access_only u w"
  by (simp add: access_only_def)

lemma access_only_opaque: "v' = v\<lparr>cv_opaque := m\<rparr> \<Longrightarrow> access_only v v'"
  by (simp add: access_only_def)

lemma access_only_tokens: "v' = v\<lparr>cv_opaque := m, cv_access := n\<rparr> \<Longrightarrow> access_only v v'"
  by (simp add: access_only_def)

definition issues_refresh :: "tokenDeps \<Rightarrow> refresh_env \<Rightarrow> IssueInput \<Rightarrow> string \<Rightarrow> RefreshToken \<Rightarrow> bool" where
  "issues_refresh deps env inp tok t \<longleftrightarrow>
     rt_ID t = tok \<and> rt_ClientID t = ii_ClientID inp \<and> rt_Subject t = ii_Subject inp \<and> rt_GrantID t = ii_GrantID inp
   \<and> rt_Scope t = ii_Scope inp \<and> rt_Origin t = ii_Origin inp \<and> rt_ParentID t = ii_ParentID inp
   \<and> (ii_ChainID inp \<noteq> [] \<longrightarrow> rt_ChainID t = ii_ChainID inp) \<and> rt_ConsumedAt t = None \<and> \<not> rt_Revoked t
   \<and> rt_DPoPJKT t = ii_DPoPJKT inp \<and> rt_MTLSCertThumbprint t = ii_MTLSCertThumbprint inp
   \<and> rt_AuthorizationDetails t = ii_AuthorizationDetails inp
   \<and> rt_CreatedAt t = me_issuerNow (re_mint env)
   \<and> rt_ExpiresAt t = me_issuerNow (re_mint env) +
       (if pickRefreshTokenTTL deps (ii_Scope inp) \<le> 0 then RefreshTokenTTLDefault else pickRefreshTokenTTL deps (ii_Scope inp))"

text \<open>What a rotation leaves: the chain ends where the client may hold no refresh token, otherwise one more row.\<close>

definition rotation_result ::
  "tokenDeps \<Rightarrow> refresh_env \<Rightarrow> Client \<Rightarrow> Exchanged \<Rightarrow> tokenBinding \<Rightarrow> successResponse \<Rightarrow> cluster_view \<Rightarrow> cluster_view \<Rightarrow> bool" where
  "rotation_result deps env client x b resp v v' \<longleftrightarrow>
     Deps_refreshIssuanceBlockedReason deps client \<noteq> [] \<and> sr_RefreshToken resp = [] \<and> v' = v
   \<or> Deps_refreshIssuanceBlockedReason deps client = []
     \<and> (\<exists>t. issues_refresh deps env (rotation_input client x b) (sr_RefreshToken resp) t
          \<and> cv_refreshes v (hashKey (sr_RefreshToken resp)) = None \<and> \<not> parent_revoked (cv_refreshes v) t
          \<and> v' = v\<lparr>cv_refreshes := (cv_refreshes v)(hashKey (sr_RefreshToken resp) \<mapsto> t\<lparr>rt_ID := hashKey (sr_RefreshToken resp)\<rparr>)\<rparr>)"

context token_stores
begin

lemma refuse_view:
  assumes "inv s"
  shows "refuseIssuanceUnderClosedGrant h deps env (refreshIssuedUnderGrant x) d s =
    (if td_GrantRevocations deps \<and> xd_GrantID x \<noteq> [] \<and> spec_grv_IsIssuanceRevoked (xd_GrantID x) (xd_IssuedAt x) (cv_revocations (view s))
     then Some (OAuthError StatusBadRequest ''invalid_grant'' d) else None, s)"
  by (simp add: refuse_probe issuance [OF assms])

lemma FindGrant_view:
  assumes "inv s"
  shows "FindGrant h deps g s = Inr (if g = [] \<or> \<not> td_Grants deps then None else cv_grants (view s) g)"
  by (auto simp: FindGrant_def grant_find [OF assms] split: option.split)

lemma refreshAuthContext_view:
  assumes "inv s"
  shows "\<exists>authCtx. refreshAuthContext h deps x s = Inr authCtx"
  by (simp add: refreshAuthContext_def chainGrant_def FindGrant_view [OF assms])

lemma retire_view:
  assumes "inv s" and "retirePriorOpaqueAccessTokens h deps env x s = (e, s')"
  shows "e = None" and "inv s'" and "view s' = (view s)\<lparr>cv_opaque := cv_opaque (view s')\<rparr>"
    and "opaque_retired (rotation_retires deps x) (cv_opaque (view s)) (cv_opaque (view s'))"
proof -
  let ?skip = "\<not> td_OpaqueAccessTokens deps \<or> xd_GrantID x = [] \<or> refreshMintPinnedJWT x
     \<or> accessTokenFormat deps (xd_Resource x) \<noteq> AccessTokenFormatOpaque"
  have "e = None \<and> inv s' \<and> view s' = (view s)\<lparr>cv_opaque := cv_opaque (view s')\<rparr>
      \<and> opaque_retired (rotation_retires deps x) (cv_opaque (view s)) (cv_opaque (view s'))"
  proof (cases ?skip)
    case True
    then have "revokePriorOpaqueAT h deps env x s = (None, s)" by (auto simp: revokePriorOpaqueAT_def)
    with assms(2) have "e = None" "s' = s" by (simp_all add: retirePriorOpaqueAccessTokens_def)
    moreover from True have "\<not> rotation_retires deps x r" for r by (auto simp: rotation_retires_def)
    ultimately show ?thesis using assms(1) by (simp add: opaque_retired_refl)
  next
    case False
    let ?run = "if xd_ChainID x \<noteq> [] then so_opaqueRevokeByChain h (xd_GrantID x) (xd_ChainID x) s
      else so_opaqueRevokeByGrant h (xd_GrantID x) s"
    have P: "rotation_retires deps x = (if xd_ChainID x \<noteq> []
        then (\<lambda>r. xd_GrantID x \<noteq> [] \<and> xd_ChainID x \<noteq> [] \<and> oa_GrantID r = xd_GrantID x \<and> oa_ChainID r = xd_ChainID x)
        else (\<lambda>r. xd_GrantID x \<noteq> [] \<and> oa_GrantID r = xd_GrantID x))"
      using False by (auto simp: rotation_retires_def)
    obtain n1 s1 where c: "so_opaqueRevokeByChain h (xd_GrantID x) (xd_ChainID x) s = ((n1, None), s1)"
      using opaque_chain(1) [OF assms(1)] by (metis prod.collapse)
    obtain n2 s2 where g: "so_opaqueRevokeByGrant h (xd_GrantID x) s = ((n2, None), s2)"
      using opaque_grant(1) [OF assms(1)] by (metis prod.collapse)
    have run: "e = None" "s' = snd ?run"
      using assms(2) False c g
      by (auto simp: retirePriorOpaqueAccessTokens_def revokePriorOpaqueAT_def Revoker_Run_def Revoker_runChain_def
          OpaqueAccessTokensOfChain_def zero_Scope_def grantTeardown_def NewRevoker_def only_err_def Outcome_add_def Outcome_Err_def zero_Outcome_def
          split: prod.splits if_splits option.splits)
    show ?thesis
      using opaque_chain(2-4) [OF assms(1), of "xd_GrantID x" "xd_ChainID x"]
        opaque_grant(2-4) [OF assms(1), of "xd_GrantID x"]
      by (cases "xd_ChainID x = []") (simp_all add: run P)
  qed
  then show "e = None" "inv s'" "view s' = (view s)\<lparr>cv_opaque := cv_opaque (view s')\<rparr>"
    "opaque_retired (rotation_retires deps x) (cv_opaque (view s)) (cv_opaque (view s'))"
    by simp_all
qed

text \<open>The exchange: the row that was presented, and what became of it.\<close>

lemma exchange_succeeds:
  assumes "inv s" and "\<not> td_RefreshTokenRotationDisabled deps" and "rin_Token inp \<noteq> []"
    and "exchangeRefresh h deps env cid inp c s = (Inr x, c', s')"
  obtains r scope where "c' = c" and "inv s'" and "td_RefreshTokens deps"
    and "cv_refreshes (view s) (hashKey (rin_Token inp)) = Some r"
    and "\<not> isExpired (rt_ExpiresAt r) (re_consumeNow env)" and "rt_ClientID r = cid"
    and "scope = (if rin_RequestedScope inp = [] then rt_Scope r else rin_RequestedScope inp)"
    and "set scope \<subseteq> set (rt_Scope r)"
    and "rt_ConsumedAt r = None \<Longrightarrow>
      x = exchangedFrom (r\<lparr>rt_ConsumedAt := Some (re_consumeNow env), rt_ID := rin_Token inp\<rparr>) scope
      \<and> view s' = (view s)\<lparr>cv_refreshes := (cv_refreshes (view s))(hashKey (rin_Token inp) \<mapsto>
           r\<lparr>rt_ConsumedAt := Some (re_consumeNow env)\<rparr>)\<rparr>"
    and "rt_ConsumedAt r \<noteq> None \<Longrightarrow>
      x = (exchangedFrom (r\<lparr>rt_ID := rin_Token inp\<rparr>) scope)\<lparr>xd_InGrace := True\<rparr> \<and> view s' = view s \<and> \<not> rt_Revoked r"
proof -
  let ?i = "\<lparr>xi_Token = rin_Token inp, xi_ClientID = cid, xi_RequestedScope = rin_RequestedScope inp\<rparr>"
  let ?k = "hashKey (rin_Token inp)"
  from assms(4) obtain e where e: "newRefreshExchanger h deps = Inr e"
    by (cases "newRefreshExchanger h deps") (auto simp: exchangeRefresh_def)
  note ex = newRefreshExchanger_Inr [OF e]
  from assms(4) e obtain log where run: "Exchanger_Exchange e (re_consumeNow env) (re_exchangeNow env) ?i (s, []) = (Inr x, s', log)"
    and c': "c' = c"
    by (auto simp: exchangeRefresh_def split: prod.splits sum.splits)
  note eq = Exchange_rotating [OF ex(1) _ assms(1), of ?i "re_consumeNow env" "re_exchangeNow env" "[]"]
  from run obtain r where row: "cv_refreshes (view s) ?k = Some r" and live: "\<not> isExpired (rt_ExpiresAt r) (re_consumeNow env)"
    using eq ex(3) assms(2,3) by (auto split: option.splits if_splits)
  note frame = refresh_frame(2) [OF assms(1), of "re_consumeNow env" "rin_Token inp"]
  note con = consume [OF assms(1), of "re_consumeNow env" "rin_Token inp"]
  have s': "s' = snd (ro_Consume (so_refresh h) (re_consumeNow env) (rin_Token inp) s)"
    using run eq ex(3) assms(2,3) row live by (auto split: sum.splits if_splits)
  from run eq ex(3) assms(2,3) row live obtain scope where
    scope: "check_bindings (re_exchangeNow env) r ?i = Inr scope"
    and x: "x = (if rt_ConsumedAt r = None
       then exchangedFrom (r\<lparr>rt_ConsumedAt := Some (re_consumeNow env), rt_ID := rin_Token inp\<rparr>) scope
       else (exchangedFrom (r\<lparr>rt_ID := rin_Token inp\<rparr>) scope)\<lparr>xd_InGrace := True\<rparr>)"
    and grace: "rt_ConsumedAt r \<noteq> None \<Longrightarrow> Exchanger_withinGraceWindow e (re_exchangeNow env) r"
    by (auto split: sum.splits if_splits)
  have v: "view s' = (view s)\<lparr>cv_refreshes := snd (spec_refresh_consume (re_consumeNow env) (rin_Token inp) (cv_refreshes (view s)))\<rparr>"
    using frame con(2) by (simp add: s')
  show thesis
  proof (rule that [of r scope])
    show "inv s'" using con(3) by (simp add: s')
    show "rt_ClientID r = cid" "scope = (if rin_RequestedScope inp = [] then rt_Scope r else rin_RequestedScope inp)"
      "set scope \<subseteq> set (rt_Scope r)"
      using scope by (auto simp: check_bindings_Inr split: if_splits)
    show "x = exchangedFrom (r\<lparr>rt_ConsumedAt := Some (re_consumeNow env), rt_ID := rin_Token inp\<rparr>) scope
      \<and> view s' = (view s)\<lparr>cv_refreshes := (cv_refreshes (view s))(hashKey (rin_Token inp) \<mapsto>
           r\<lparr>rt_ConsumedAt := Some (re_consumeNow env)\<rparr>)\<rparr>" if "rt_ConsumedAt r = None"
      using that x v row live by (simp add: spec_refresh_consume_def)
    show "x = (exchangedFrom (r\<lparr>rt_ID := rin_Token inp\<rparr>) scope)\<lparr>xd_InGrace := True\<rparr> \<and> view s' = view s \<and> \<not> rt_Revoked r"
      if "rt_ConsumedAt r \<noteq> None"
      using that x v row live grace by (auto simp: spec_refresh_consume_def Exchanger_withinGraceWindow_def)
  qed (use c' ex row live in auto)
qed

text \<open>The mint: one opaque row of the chain at most, nothing lost.\<close>

lemma mintRefresh_view:
  assumes "inv s" and "mintRefreshAccessToken h deps env client x a b ad now s = (r, s')"
  shows "inv s'" and "r = Inl e \<Longrightarrow> view s' = view s"
    and "r = Inr (tok, ps) \<Longrightarrow>
      view s' = (view s)\<lparr>cv_opaque := cv_opaque (view s'), cv_access := cv_access (view s')\<rparr>
      \<and> cv_access (view s) \<subseteq>\<^sub>m cv_access (view s') \<and> cv_opaque (view s) \<subseteq>\<^sub>m cv_opaque (view s')
      \<and> (\<forall>k row. cv_opaque (view s') k = Some row \<longrightarrow> cv_opaque (view s) k \<noteq> Some row \<longrightarrow> k = hashKey tok)"
proof -
  let ?ov = "\<lparr>ov_TTL = 0, ov_Audience = [], ov_Extra = xd_AccessTokenExtra x, ov_ForceJWT = refreshMintPinnedJWT x,
     ov_Authorization = Some a, ov_ACR = [], ov_ChainID = xd_ChainID x\<rparr>"
  let ?mint = "\<lambda>ps. mintAccessToken h deps env (xd_Subject x) ps (cl_ID client) (xd_GrantID x) (xd_Scope x)
     (xd_Resource x) now (ax_AuthTime a) b ad ?ov s"
  consider (project) e' where "r = Inl e'" "s' = s"
    | (mint_err) e' ps where "r = Inl e'" "?mint ps = (Inl e', s')"
    | (mints) tok' ps where "r = Inr (tok', ps)" "?mint ps = (Inr tok', s')"
    using assms(2) by (auto simp: mintRefreshAccessToken_def split: sum.splits prod.splits)
  then have "inv s' \<and> (\<forall>e. r = Inl e \<longrightarrow> view s' = view s) \<and> (\<forall>tok ps. r = Inr (tok, ps) \<longrightarrow>
      view s' = (view s)\<lparr>cv_opaque := cv_opaque (view s'), cv_access := cv_access (view s')\<rparr>
      \<and> cv_access (view s) \<subseteq>\<^sub>m cv_access (view s') \<and> cv_opaque (view s) \<subseteq>\<^sub>m cv_opaque (view s')
      \<and> (\<forall>k row. cv_opaque (view s') k = Some row \<longrightarrow> cv_opaque (view s) k \<noteq> Some row \<longrightarrow> k = hashKey tok))"
  proof cases
    case (mint_err e' ps)
    with mint_fails [OF assms(1) mint_err(2)] show ?thesis by blast
  next
    case (mints tok' ps)
    note ok = mint_succeeds [OF assms(1) mints(2)]
    show ?thesis
    proof (cases "\<not> ov_ForceJWT ?ov \<and> accessTokenFormat deps (xd_Resource x) = AccessTokenFormatOpaque")
      case True
      from ok(2) [OF True] obtain row where "cv_opaque (view s) (hashKey tok') = None"
        "view s' = (view s)\<lparr>cv_opaque := (cv_opaque (view s))(hashKey tok' \<mapsto> row\<lparr>oa_ID := hashKey tok'\<rparr>)\<rparr>"
        by blast
      with ok(1) mints(1) show ?thesis by (auto simp: map_le_def dom_def)
    next
      case False
      from ok(3) [OF False] obtain m where "view s' = (view s)\<lparr>cv_access := m\<rparr>" "cv_access (view s) \<subseteq>\<^sub>m m" by blast
      with ok(1) mints(1) show ?thesis by simp
    qed
  qed (use assms(1) in simp)
  then show "inv s'" and "r = Inl e \<Longrightarrow> view s' = view s"
    and "r = Inr (tok, ps) \<Longrightarrow>
      view s' = (view s)\<lparr>cv_opaque := cv_opaque (view s'), cv_access := cv_access (view s')\<rparr>
      \<and> cv_access (view s) \<subseteq>\<^sub>m cv_access (view s') \<and> cv_opaque (view s) \<subseteq>\<^sub>m cv_opaque (view s')
      \<and> (\<forall>k row. cv_opaque (view s') k = Some row \<longrightarrow> cv_opaque (view s) k \<noteq> Some row \<longrightarrow> k = hashKey tok)"
    by blast+
qed

lemma mintRefresh_access:
  assumes "inv s" and "mintRefreshAccessToken h deps env client x a b ad now s = (r, s')"
  shows "inv s'" and "access_only (view s) (view s')"
proof -
  note m = mintRefresh_view [OF assms]
  show "inv s'" by (rule m(1))
  show "access_only (view s) (view s')"
  proof (cases r)
    case (Inr tp)
    then obtain tok ps where "r = Inr (tok, ps)" by (cases tp) auto
    from m(3) [OF this] show ?thesis by (blast intro: access_only_tokens)
  qed (simp add: m(2))
qed

text \<open>The two ways a successor is saved have the same effect on the view.\<close>

lemma save_successor:
  assumes "inv s" and "rt_ParentID t = Some p"
  shows "fst (ro_Save (so_refresh h) (Some t) s) = fst (spec_refresh_save t (cv_refreshes (view s)))"
    and "view (snd (ro_Save (so_refresh h) (Some t) s)) =
      (view s)\<lparr>cv_refreshes := snd (spec_refresh_save t (cv_refreshes (view s)))\<rparr>"
    and "sealed \<noteq> [] \<Longrightarrow> fst (so_SaveRotationWithRetry h now (Some t) sealed s) = fst (spec_refresh_save t (cv_refreshes (view s)))"
    and "sealed \<noteq> [] \<Longrightarrow> view (snd (so_SaveRotationWithRetry h now (Some t) sealed s)) =
      (view s)\<lparr>cv_refreshes := snd (spec_refresh_save t (cv_refreshes (view s)))\<rparr>"
  using save [OF assms(1), of t] refresh_frame(1) [OF assms(1), of t] rotation [OF assms(1)] assms(2)
  by (simp_all add: rotation_ok_def)

lemma rotate_view:
  assumes "inv s" and "rotateRefreshToken h deps env client x b resp s = (r, s')"
  obtains (fails) e where "r = Inl e" and "inv s'" and "view s' = view s"
  | (ends) "r = Inr resp" and "s' = s" and "Deps_refreshIssuanceBlockedReason deps client \<noteq> []"
  | (rotates) tok t where "r = Inr (resp\<lparr>sr_RefreshToken := tok\<rparr>)" and "inv s'"
      and "Deps_refreshIssuanceBlockedReason deps client = []"
      and "issues_refresh deps env (rotation_input client x b) tok t"
      and "cv_refreshes (view s) (hashKey tok) = None" and "\<not> parent_revoked (cv_refreshes (view s)) t"
      and "view s' = (view s)\<lparr>cv_refreshes := (cv_refreshes (view s))(hashKey tok \<mapsto> t\<lparr>rt_ID := hashKey tok\<rparr>)\<rparr>"
proof (cases "Deps_refreshIssuanceBlockedReason deps client = []")
  case False
  with assms(2) show thesis by (intro ends) (auto simp: rotateRefreshToken_def)
next
  case open_: True
  show thesis
  proof (cases "td_RefreshTokens deps")
    case False
    with open_ assms show thesis by (intro fails [of "TokenRefresh (ErrRefreshMsg ''refresh: NewIssuer requires Store'')"])
      (auto simp: rotateRefreshToken_def NewIssuer_def)
  next
    case wired: True
    let ?ttl = "if pickRefreshTokenTTL deps (xd_BoundScope x) \<le> 0 then RefreshTokenTTLDefault
       else pickRefreshTokenTTL deps (xd_BoundScope x)"
    let ?iss = "\<lparr>is_store = so_refresh h, is_ttl = ?ttl\<rparr>"
    let ?prep = "Issuer_Prepare ?iss (me_issuerNow (re_mint env)) (me_refreshID (re_mint env)) None (rotation_input client x b)"
    have new: "NewIssuer (if td_RefreshTokens deps then Some (so_refresh h) else None) (pickRefreshTokenTTL deps (xd_BoundScope x)) = Inr ?iss"
      using wired by (simp add: NewIssuer_def)
    show thesis
    proof (cases ?prep)
      case (Inl e)
      with assms open_ new show thesis
        by (intro fails) (auto simp: rotateRefreshToken_def Issuer_Issue_def simp del: if_split split: option.splits)
    next
      case (Inr tt)
      then obtain tok t where prep: "?prep = Inr (tok, t)" by (cases tt) auto
      note t = Issuer_Prepare_Inr [OF prep]
      have parent: "rt_ParentID t = Some (xd_ConsumedID x)" using t(8) by (simp add: rotation_input_def)
      let ?M = "cv_refreshes (view s)"
      have ir: "issues_refresh deps env (rotation_input client x b) tok t"
        using t by (simp add: issues_refresh_def) (simp add: rotation_input_def)
      have step: thesis
        if "r = (if fst (spec_refresh_save t ?M) = None then Inr (resp\<lparr>sr_RefreshToken := tok\<rparr>) else Inl e)"
          "inv s'" "view s' = (view s)\<lparr>cv_refreshes := snd (spec_refresh_save t ?M)\<rparr>" for e
      proof (cases "fst (spec_refresh_save t ?M) = None")
        case True
        with that t(1) show thesis
          by (intro rotates [OF _ _ open_ ir]) (auto simp: spec_refresh_save_def Let_def split: if_splits)
      next
        case False
        with that show thesis by (intro fails [of e]) (auto simp: spec_refresh_save_def Let_def split: if_splits)
      qed
      show thesis
      proof (cases "td_RefreshRetryEncryptionKeys deps")
        case None
        let ?sv = "ro_Save (so_refresh h) (Some t) s"
        from assms(2) open_ new prep None have run: "s' = snd ?sv"
          "r = (case fst ?sv of None \<Rightarrow> Inr (resp\<lparr>sr_RefreshToken := tok\<rparr>)
                | Some e \<Rightarrow> Inl (TokenRefresh (ErrRefreshStore ''refresh: save'' e)))"
          by (auto simp: rotateRefreshToken_def Issuer_Issue_def simp del: if_split split: prod.splits option.splits)
        show thesis
          by (rule step [of "TokenRefresh (ErrRefreshStore ''refresh: save'' (the (fst ?sv)))"])
             (use save(3) [OF assms(1)] save_successor(1,2) [OF assms(1) parent] in \<open>auto simp: run split: option.split\<close>)
      next
        case (Some ring)
        show thesis
        proof (cases "rk_seal ring (xd_ConsumedID x) (resp\<lparr>sr_RefreshToken := tok\<rparr>)")
          case (Inl e)
          with assms open_ new prep Some show thesis
            by (intro fails [of e]) (auto simp: rotateRefreshToken_def sealRefreshRetryResponse_def Let_def simp del: if_split)
        next
          case (Inr sealed)
          let ?sv = "so_SaveRotationWithRetry h (re_rotationNow env) (Some t) (refreshRetryFormatV0 # sealed) s"
          from assms(2) open_ new prep Some Inr have run: "s' = snd ?sv"
            "r = (case fst ?sv of None \<Rightarrow> Inr (resp\<lparr>sr_RefreshToken := tok\<rparr>) | Some e \<Rightarrow> Inl (TokenStore e))"
            by (auto simp: rotateRefreshToken_def sealRefreshRetryResponse_def Let_def simp del: if_split
                split: prod.splits option.splits)
          show thesis
            by (rule step [of "TokenStore (the (fst ?sv))"])
               (use rotation(3) [OF assms(1)] save_successor(3,4) [OF assms(1) parent] in \<open>auto simp: run split: option.split\<close>)
        qed
      qed
    qed
  qed
qed

text \<open>A grace retry leaves the refresh tokens, the grants and the revocations alone.\<close>

lemma grace_view:
  assumes "inv s" and "serveGraceRetry h deps env client x b s = (res, s')"
  shows "inv s' \<and> access_only (view s) (view s')"
proof -
  have reissue: "inv s' \<and> access_only (view s) (view s')"
    if run: "reissueGraceAccessToken h deps env client x b resp s = (res, s')" for resp
  proof -
    obtain e1 s1 where r: "retirePriorOpaqueAccessTokens h deps (re_mint env) x s = (e1, s1)" by fastforce
    note ret = retire_view [OF assms(1) r]
    from refreshAuthContext_view [OF ret(2)] obtain a where a: "refreshAuthContext h deps x s1 = Inr a" by blast
    obtain m s2 where mint: "mintRefreshAccessToken h deps (re_mint env) client x a b (sr_AuthorizationDetails resp)
        (me_now (re_mint env)) s1 = (m, s2)" by fastforce
    from mintRefresh_access [OF ret(2) mint] access_only_opaque [OF ret(3)]
    have "inv s2 \<and> access_only (view s) (view s2)" by (auto intro: access_only_trans)
    moreover from run ret(1) r a mint have "s' = s \<or> s' = s2"
      by (auto simp: reissueGraceAccessToken_def refuse_view [OF assms(1)] split: sum.splits if_splits)
    ultimately show ?thesis using assms(1) by auto
  qed
  from assms(2) reissue assms(1) show ?thesis
    by (auto simp: serveGraceRetry_def split: sum.splits option.splits if_splits)
qed

text \<open>The issuance of a rotation: refused with the refresh tokens as they were, or the response with its successor.\<close>

lemma issue_view:
  assumes "inv s" and "\<not> xd_InGrace x" and "\<not> td_RefreshTokenRotationDisabled deps"
    and "issueRefreshResponse h deps env client x user b ad s = (res, s')"
  obtains (refuses) e where "res = (Refuse e, None)" and "inv s'" and "access_only (view s) (view s')"
  | (issues) x' a resp tok s2 where
      "res = (TokenResponse resp, Some ((refreshIssuedUnderGrant x)\<lparr>iu_AccessToken := tok, iu_RefreshToken := sr_RefreshToken resp\<rparr>))"
      and "sr_AccessToken resp = tok" and "sr_Scope resp = scope_Join (xd_Scope x)" and "inv s'"
      and "\<not> (td_GrantRevocations deps \<and> xd_GrantID x \<noteq> []
             \<and> spec_grv_IsIssuanceRevoked (xd_GrantID x) (xd_IssuedAt x) (cv_revocations (view s)))"
      and "withChainID (me_chainID (re_mint env)) x = Inr x'"
      and "access_only (view s) (view s2)"
      and "\<And>k row. cv_opaque (view s2) k = Some row \<Longrightarrow> rotation_retires deps x row \<Longrightarrow> oa_Revoked row \<or> k = hashKey tok"
      and "\<And>k row. cv_opaque (view s) k = Some row \<Longrightarrow> rotation_retires deps x row \<Longrightarrow>
             cv_opaque (view s2) k = Some (row\<lparr>oa_Revoked := True\<rparr>)"
      and "rotation_result deps env client (refreshExchangedForRotation x' a ad) b resp (view s2) (view s')"
proof -
  from refreshAuthContext_view [OF assms(1)] obtain a where a: "refreshAuthContext h deps x s = Inr a" by blast
  obtain e1 s1 where r: "retirePriorOpaqueAccessTokens h deps (re_mint env) x s = (e1, s1)" by fastforce
  note ret = retire_view [OF assms(1) r]
  note v1 = access_only_opaque [OF ret(3)]
  let ?closed = "td_GrantRevocations deps \<and> xd_GrantID x \<noteq> []
             \<and> spec_grv_IsIssuanceRevoked (xd_GrantID x) (xd_IssuedAt x) (cv_revocations (view s))"
  have ref: "refuseIssuanceUnderClosedGrant h deps (re_mint env) (refreshIssuedUnderGrant x) d s1 =
    (if ?closed then Some (OAuthError StatusBadRequest ''invalid_grant'' d) else None, s1)" for d
    using v1 by (simp add: refuse_view [OF ret(2)] access_only_def)
  note run = assms(4) [unfolded issueRefreshResponse_def refreshIssuanceChain_def rotateOrKeepRefreshToken_def]
  show thesis
  proof (cases "requireAuthTimeForIDToken client (xd_Scope x) (ax_AuthTime a) \<noteq> None \<or> ?closed")
    case True
    with run assms(2,3) a r ret(1) ref have "\<exists>e. res = (Refuse e, None)" "s' = s \<or> s' = s1"
      by (auto split: option.splits)
    with refuses v1 ret(2) assms(1) show thesis by auto
  next
    case pass: False
    show thesis
    proof (cases "withChainID (me_chainID (re_mint env)) x")
      case (Inl e)
      with run assms(2,3) a r ret(1) ref pass have "\<exists>e. res = (Refuse e, None)" "s' = s1" by auto
      with refuses v1 ret(2) show thesis by auto
    next
      case chain: (Inr x')
      obtain m s2 where mint: "mintRefreshAccessToken h deps (re_mint env) client x' a b ad (me_now (re_mint env)) s1 = (m, s2)"
        by fastforce
      note mv = mintRefresh_access [OF ret(2) mint]
      note v2 = access_only_trans [OF v1 mv(2)]
      show thesis
      proof (cases "\<exists>tok ps idt. m = Inr (tok, ps) \<and> refresh_id_token deps (re_mint env) client x' user a ps = Inr idt")
        case False
        with run assms(2,3) a r ret(1) ref pass chain mint have "\<exists>e. res = (Refuse e, None)" "s' = s2"
          by (auto split: sum.splits)
        with refuses v2 mv(1) show thesis by auto
      next
        case True
        then obtain tok ps idt where m: "m = Inr (tok, ps)" "refresh_id_token deps (re_mint env) client x' user a ps = Inr idt"
          by blast
        let ?x = "refreshExchangedForRotation x' a ad" and ?resp = "refreshed_response deps x' b ad tok idt"
        obtain rr s3 where rot: "rotateRefreshToken h deps env client ?x b ?resp s2 = (rr, s3)" by fastforce
        have fresh: "oa_Revoked row \<or> k = hashKey tok"
          if "cv_opaque (view s2) k = Some row" "rotation_retires deps x row" for k row
          using that mintRefresh_view(3) [OF ret(2) mint m(1)] ret(4) unfolding opaque_retired_def by blast
        have retired: "cv_opaque (view s2) k = Some (row\<lparr>oa_Revoked := True\<rparr>)"
          if "cv_opaque (view s) k = Some row" "rotation_retires deps x row" for k row
        proof -
          from opaque_retired_row [OF ret(4) that] have "cv_opaque (view s1) k = Some (row\<lparr>oa_Revoked := True\<rparr>)"
            by (simp add: rotation_retires_def)
          with mintRefresh_view(3) [OF ret(2) mint m(1)] show ?thesis by (metis map_le_def domI)
        qed
        have iu: "refreshIssuedUnderGrant x' = refreshIssuedUnderGrant x" "xd_Scope x' = xd_Scope x"
          using chain by (auto simp: withChainID_def refreshIssuedUnderGrant_def split: if_splits sum.splits)
        have out: "s' = s3" "res = (case rr of Inl _ \<Rightarrow> (Refuse ServerError, None) | Inr resp \<Rightarrow>
            (TokenResponse resp, Some ((refreshIssuedUnderGrant x)\<lparr>iu_AccessToken := tok, iu_RefreshToken := sr_RefreshToken resp\<rparr>)))"
          using run assms(2,3) a r ret(1) ref pass chain mint m rot iu by (auto split: sum.splits)
        from mv(1) rot show thesis
        proof (cases rule: rotate_view)
          case (fails e)
          with out v2 show thesis by (intro refuses) (auto simp: access_only_def)
        next
          case ends
          with out v2 pass chain fresh retired mv(1) show thesis
            by (intro issues [of ?resp tok x' s2 a])
               (auto simp: rotation_result_def refreshed_response_def iu)
        next
          case (rotates tok' t)
          have "rotation_result deps env client ?x b (?resp\<lparr>sr_RefreshToken := tok'\<rparr>) (view s2) (view s')"
            unfolding rotation_result_def out(1)
            by (intro disjI2 conjI exI [of _ t]) (use rotates in \<open>auto simp: refreshed_response_def\<close>)
          with out v2 pass chain fresh retired mv(1) rotates show thesis
            by (intro issues [of "?resp\<lparr>sr_RefreshToken := tok'\<rparr>" tok x' s2 a]) (auto simp: refreshed_response_def iu)
        qed
      qed
    qed
  qed
qed

end

end
