(* ===== verification/RefreshSound.thy ===== *)
theory RefreshSound
  imports RefreshFlow
begin

text \<open>
  What a client and the store may rely on after the refresh_token handler answered: the tokens it
  returns descend from the token that was presented, a server error leaves the store as it was, a replay
  kills the chain, and a subject that is gone takes the whole grant with it. The lemmas follow
  \<^verbatim>\<open>completeRefreshToken\<close> on the view of \<open>token_stores\<close>, once for the store and for a transaction of it.
\<close>


section \<open>A granted refresh on a view\<close>

text \<open>The row behind a presented token: live, of the client, with the requested scope inside its own, held by its key.\<close>

definition redeemable_by ::
  "tokenDeps \<Rightarrow> refresh_env \<Rightarrow> Client \<Rightarrow> refreshInputs \<Rightarrow> dpopOutcome \<Rightarrow> (string \<Rightarrow> mtls_err option) \<Rightarrow> RefreshToken \<Rightarrow> bool" where
  "redeemable_by deps env client inp out verifyBound r \<longleftrightarrow>
     \<not> isExpired (rt_ExpiresAt r) (re_consumeNow env) \<and> rt_ClientID r = cl_ID client
   \<and> (rt_ConsumedAt r \<noteq> None \<longrightarrow> \<not> rt_Revoked r)
   \<and> set (rin_RequestedScope inp) \<subseteq> set (rt_Scope r)
   \<and> (rt_DPoPJKT r \<noteq> [] \<longrightarrow> do_Presented out \<and> do_JKT out = rt_DPoPJKT r)
   \<and> (rt_MTLSCertThumbprint r \<noteq> [] \<longrightarrow> verifyBound (rt_MTLSCertThumbprint r) = None)"

text \<open>A successor: same client, subject, grant, bound scope, certificate and chain, alive, with the presented token as its parent.\<close>

definition succeeds_token :: "string \<Rightarrow> RefreshToken \<Rightarrow> RefreshToken \<Rightarrow> bool" where
  "succeeds_token tok r t \<longleftrightarrow>
     rt_ParentID t = Some tok \<and> rt_ClientID t = rt_ClientID r \<and> rt_Subject t = rt_Subject r \<and> rt_GrantID t = rt_GrantID r
   \<and> rt_Scope t = rt_Scope r \<and> rt_Origin t = rt_Origin r \<and> (rt_ChainID r \<noteq> [] \<longrightarrow> rt_ChainID t = rt_ChainID r)
   \<and> (rt_DPoPJKT r \<noteq> [] \<longrightarrow> rt_DPoPJKT t = rt_DPoPJKT r) \<and> rt_MTLSCertThumbprint t = rt_MTLSCertThumbprint r
   \<and> rt_ConsumedAt t = None \<and> \<not> rt_Revoked t"

text \<open>The refresh tokens after a rotation: the presented one is spent and its successor, if any, was not there before.\<close>

definition rotates_rows :: "time \<Rightarrow> string \<Rightarrow> string \<Rightarrow> RefreshToken \<Rightarrow> refresh_map \<Rightarrow> refresh_map \<Rightarrow> bool" where
  "rotates_rows now tok new r M M' \<longleftrightarrow>
     new = [] \<and> M' = M(hashKey tok \<mapsto> r\<lparr>rt_ConsumedAt := Some now\<rparr>)
   \<or> (\<exists>t. succeeds_token tok r t \<and> \<not> rt_Revoked r \<and> M (hashKey new) = None \<and> hashKey new \<noteq> hashKey tok
        \<and> M' = M(hashKey tok \<mapsto> r\<lparr>rt_ConsumedAt := Some now\<rparr>, hashKey new \<mapsto> t\<lparr>rt_ID := hashKey new\<rparr>))"

definition opaque_of_rotation :: "tokenDeps \<Rightarrow> RefreshToken \<Rightarrow> OpaqueAccessToken \<Rightarrow> bool" where
  "opaque_of_rotation deps r row \<longleftrightarrow>
     td_OpaqueAccessTokens deps \<and> rt_GrantID r \<noteq> [] \<and> \<not> rt_SubjectPublic r
   \<and> accessTokenFormat deps (rt_Resource r) = AccessTokenFormatOpaque
   \<and> oa_GrantID row = rt_GrantID r \<and> (rt_ChainID r = [] \<or> oa_ChainID row = rt_ChainID r)"

definition refresh_granted ::
  "tokenDeps \<Rightarrow> refresh_env \<Rightarrow> Client \<Rightarrow> refreshInputs \<Rightarrow> dpopOutcome \<Rightarrow> (string \<Rightarrow> mtls_err option) \<Rightarrow>
     successResponse \<Rightarrow> cluster_view \<Rightarrow> cluster_view \<Rightarrow> RefreshToken \<Rightarrow> bool" where
  "refresh_granted deps env client inp out verifyBound resp v v' r \<longleftrightarrow>
     cv_refreshes v (hashKey (rin_Token inp)) = Some r
   \<and> redeemable_by deps env client inp out verifyBound r
   \<and> cv_grants v' = cv_grants v \<and> cv_revocations v' = cv_revocations v
   \<and> sr_Scope resp = scope_Join (if rin_RequestedScope inp = [] then rt_Scope r else rin_RequestedScope inp)
   \<and> (rt_ConsumedAt r \<noteq> None \<longrightarrow> cv_refreshes v' = cv_refreshes v)
   \<and> (rt_ConsumedAt r = None \<longrightarrow>
        \<not> (td_GrantRevocations deps \<and> rt_GrantID r \<noteq> []
             \<and> spec_grv_IsIssuanceRevoked (rt_GrantID r) (rt_CreatedAt r) (cv_revocations v))
      \<and> rotates_rows (re_consumeNow env) (rin_Token inp) (sr_RefreshToken resp) r (cv_refreshes v) (cv_refreshes v')
      \<and> (\<forall>k row. cv_opaque v' k = Some row \<longrightarrow> opaque_of_rotation deps r row \<longrightarrow>
           oa_Revoked row \<or> k = hashKey (sr_AccessToken resp))
      \<and> (\<forall>k row. cv_opaque v k = Some row \<longrightarrow> opaque_of_rotation deps r row \<longrightarrow>
           cv_opaque v' k = Some (row\<lparr>oa_Revoked := True\<rparr>)))"

lemma gates_pass:
  assumes "exchanged_gates deps client out verifyBound x = None"
  shows "xd_DPoPJKT x \<noteq> [] \<Longrightarrow> do_Presented out \<and> do_JKT out = xd_DPoPJKT x"
    and "xd_MTLSCertThumbprint x \<noteq> [] \<Longrightarrow> verifyBound (xd_MTLSCertThumbprint x) = None"
  using assms
  by (auto simp: exchanged_gates_def enforceDPoPRefreshBinding_def requireMTLSMatch_def split: option.splits if_splits)

lemma rotation_retires_row:
  assumes "x = exchangedFrom (r\<lparr>rt_ConsumedAt := ca, rt_ID := tok\<rparr>) scope"
  shows "rotation_retires deps x row \<longleftrightarrow> opaque_of_rotation deps r row"
  by (auto simp: assms rotation_retires_def opaque_of_rotation_def exchangedFrom_def refreshMintPinnedJWT_def)

lemma issues_successor:
  assumes "issues_refresh deps env (rotation_input client (refreshExchangedForRotation x' a ad) b) new t"
    and "withChainID buf x = Inr x'" and "x = exchangedFrom (r\<lparr>rt_ConsumedAt := ca, rt_ID := tok\<rparr>) scope"
    and "rt_ClientID r = cl_ID client" and "tb_MTLSThumbprint b = rt_MTLSCertThumbprint r"
    and "rt_DPoPJKT r \<noteq> [] \<Longrightarrow> tb_DPoPJKT b = rt_DPoPJKT r"
  shows "succeeds_token tok r t"
proof -
  obtain ch where x': "x' = x\<lparr>xd_ChainID := ch\<rparr>" and ch: "rt_ChainID r \<noteq> [] \<Longrightarrow> ch = rt_ChainID r"
    using assms(2,3) by (cases "xd_ChainID x = []") (auto simp: withChainID_def exchangedFrom_def split: sum.splits)
  show ?thesis
    using assms(1,4-6) ch
    by (auto simp: succeeds_token_def issues_refresh_def rotation_input_def refreshExchangedForRotation_def x' assms(3) exchangedFrom_def)
qed

lemma grace_scope:
  assumes "serveGraceRetry h deps env client x b s = (res, s')" and "fst res = TokenResponse resp"
  shows "sr_Scope resp = scope_Join (xd_Scope x)"
proof -
  have "sr_Scope resp = sr_Scope saved" if "reissueGraceAccessToken h deps env client x b saved s = (res, s')" for saved
    using that assms(2)
    by (auto simp: reissueGraceAccessToken_def split: prod.splits option.splits sum.splits)
  with assms show ?thesis by (auto simp: serveGraceRetry_def split: sum.splits option.splits if_splits)
qed

context token_stores
begin

lemma exchange_inv:
  assumes "inv s" and "\<not> td_RefreshTokenRotationDisabled deps" and "rin_Token inp \<noteq> []"
    and "exchangeRefresh h deps env cid inp c s = (r, c', s')"
  shows "inv s'"
proof (cases "newRefreshExchanger h deps")
  case (Inl e)
  with assms show ?thesis by (simp add: exchangeRefresh_def)
next
  case (Inr e)
  let ?i = "\<lparr>xi_Token = rin_Token inp, xi_ClientID = cid, xi_RequestedScope = rin_RequestedScope inp\<rparr>"
  note ex = newRefreshExchanger_Inr [OF Inr]
  note con = consume(3) [OF assms(1), of "re_consumeNow env" "rin_Token inp"]
  have "s' = fst (snd (Exchanger_Exchange e (re_consumeNow env) (re_exchangeNow env) ?i (s, [])))"
    using assms(4) Inr by (auto simp: exchangeRefresh_def split: prod.splits sum.splits)
  also have "\<dots> = snd (ro_Consume (so_refresh h) (re_consumeNow env) (rin_Token inp) s)"
    using Exchange_rotating [OF ex(1) _ assms(1), of ?i "re_consumeNow env" "re_exchangeNow env" "[]"] ex(2,3) assms(2,3)
    by (auto simp: Exchanger_onReplayDetected_def Let_def split: option.splits sum.splits)
  finally show ?thesis using con by simp
qed

lemma issued_view:
  assumes "inv s" and "\<not> td_RefreshTokenRotationDisabled deps" and "rin_Token inp \<noteq> []"
    and "exchangeRefresh h deps env (cl_ID client) inp c s = (Inr x, c, s1)"
    and "exchanged_gates deps client out vb x = None"
    and "issueRefreshResponse h deps env client x user
           \<lparr>tb_DPoPJKT = do_JKT out, tb_MTLSThumbprint = xd_MTLSCertThumbprint x\<rparr> ad s1 = (res, s')"
  shows "inv s' \<and> (fst res = TokenResponse resp \<longrightarrow> (\<exists>r. refresh_granted deps env client inp out vb resp (view s) (view s') r))"
  using assms(1-4)
proof (cases rule: exchange_succeeds)
  case (1 r scope)
  let ?k = "hashKey (rin_Token inp)"
  have keys: "rt_DPoPJKT r \<noteq> [] \<Longrightarrow> do_Presented out \<and> do_JKT out = rt_DPoPJKT r"
    "rt_MTLSCertThumbprint r \<noteq> [] \<Longrightarrow> vb (rt_MTLSCertThumbprint r) = None"
    "xd_Scope x = scope" "xd_MTLSCertThumbprint x = rt_MTLSCertThumbprint r"
    using gates_pass [OF assms(5)] 1(9,10) by (cases "rt_ConsumedAt r"; auto simp: exchangedFrom_def)+
  have req: "set (rin_RequestedScope inp) \<subseteq> set (rt_Scope r)" using 1(7,8) by (cases "rin_RequestedScope inp = []") auto
  show ?thesis
  proof (cases "rt_ConsumedAt r")
    case (Some t)
    then have x: "x = (exchangedFrom (r\<lparr>rt_ID := rin_Token inp\<rparr>) scope)\<lparr>xd_InGrace := True\<rparr>" "view s1 = view s" "\<not> rt_Revoked r"
      using 1(10) by simp_all
    from assms(6) x(1) have serve: "serveGraceRetry h deps env client x
        \<lparr>tb_DPoPJKT = do_JKT out, tb_MTLSThumbprint = xd_MTLSCertThumbprint x\<rparr> s1 = (res, s')"
      by (simp add: issueRefreshResponse_def)
    from grace_view [OF 1(2) serve] grace_scope [OF serve] 1 x Some keys req show ?thesis
      by (auto simp: refresh_granted_def redeemable_by_def access_only_def)
  next
    case None
    then have x: "x = exchangedFrom (r\<lparr>rt_ConsumedAt := Some (re_consumeNow env), rt_ID := rin_Token inp\<rparr>) scope"
      and v1: "view s1 = (view s)\<lparr>cv_refreshes := (cv_refreshes (view s))(?k \<mapsto> r\<lparr>rt_ConsumedAt := Some (re_consumeNow env)\<rparr>)\<rparr>"
      using 1(9) by simp_all
    have "\<not> xd_InGrace x" by (simp add: x exchangedFrom_def)
    from 1(2) this assms(2,6) show ?thesis
    proof (cases rule: issue_view)
      case (refuses e)
      then show ?thesis by simp
    next
      case (issues x' a resp' tok s2)
      have retire: "\<forall>k row. cv_opaque (view s') k = Some row \<longrightarrow> opaque_of_rotation deps r row \<longrightarrow> oa_Revoked row \<or> k = hashKey tok"
      proof -
        have "cv_opaque (view s') = cv_opaque (view s2)" using issues(10) by (auto simp: rotation_result_def)
        with issues(8) rotation_retires_row [OF x] show ?thesis by simp
      qed
      have retired: "\<forall>k row. cv_opaque (view s) k = Some row \<longrightarrow> opaque_of_rotation deps r row \<longrightarrow>
          cv_opaque (view s') k = Some (row\<lparr>oa_Revoked := True\<rparr>)"
      proof -
        have "cv_opaque (view s') = cv_opaque (view s2)" "cv_opaque (view s1) = cv_opaque (view s)"
          using issues(10) v1 by (auto simp: rotation_result_def)
        with issues(9) rotation_retires_row [OF x] show ?thesis by simp
      qed
      have base: "cv_refreshes (view s2) = (cv_refreshes (view s))(?k \<mapsto> r\<lparr>rt_ConsumedAt := Some (re_consumeNow env)\<rparr>)"
        "cv_grants (view s') = cv_grants (view s)" "cv_revocations (view s') = cv_revocations (view s)"
        using issues(7,10) v1 by (auto simp: access_only_def rotation_result_def)
      have "rotates_rows (re_consumeNow env) (rin_Token inp) (sr_RefreshToken resp') r (cv_refreshes (view s)) (cv_refreshes (view s'))"
        using issues(10) unfolding rotation_result_def
      proof (elim disjE conjE exE)
        fix t
        assume t: "issues_refresh deps env (rotation_input client (refreshExchangedForRotation x' a ad)
             \<lparr>tb_DPoPJKT = do_JKT out, tb_MTLSThumbprint = xd_MTLSCertThumbprint x\<rparr>) (sr_RefreshToken resp') t"
          and fresh: "cv_refreshes (view s2) (hashKey (sr_RefreshToken resp')) = None"
          and alive: "\<not> parent_revoked (cv_refreshes (view s2)) t"
          and v': "view s' = (view s2)\<lparr>cv_refreshes := (cv_refreshes (view s2))(hashKey (sr_RefreshToken resp') \<mapsto>
             t\<lparr>rt_ID := hashKey (sr_RefreshToken resp')\<rparr>)\<rparr>"
        have succ: "succeeds_token (rin_Token inp) r t"
          by (rule issues_successor [OF t issues(6) x]) (use 1(6) keys in auto)
        then have "parent_key t = Some ?k" by (simp add: succeeds_token_def parent_key_def)
        with alive base(1) have "\<not> rt_Revoked r" by (auto simp: parent_revoked_def)
        with succ fresh v' base(1) show ?thesis by (auto simp: rotates_rows_def split: if_splits)
      qed (simp add: rotates_rows_def base(1))
      with issues 1 None keys req retire retired base show ?thesis
        by (auto simp: refresh_granted_def redeemable_by_def x exchangedFrom_def access_only_def v1)
    qed
  qed
qed

lemma complete_view:
  assumes "inv s" and "\<not> td_RefreshTokenRotationDisabled deps" and "rin_Token inp \<noteq> []"
    and "completeRefreshToken h deps env client inp out vb rq ad tr c s = (o', s')"
  shows "inv s'"
    and "fst (ro_result o') = TokenResponse resp \<Longrightarrow> \<exists>r. refresh_granted deps env client inp out vb resp (view s) (view s') r"
    and "fst (ro_result o') = TokenResponse resp \<Longrightarrow> ro_cascade o' = c"
proof -
  obtain r c1 s1 where ex: "exchangeRefresh h deps env (cl_ID client) inp c s = (r, c1, s1)"
    by (cases "exchangeRefresh h deps env (cl_ID client) inp c s") auto
  note inv1 = exchange_inv [OF assms(1-3) ex]
  have "inv s' \<and> (fst (ro_result o') = TokenResponse resp \<longrightarrow>
     ro_cascade o' = c \<and> (\<exists>r. refresh_granted deps env client inp out vb resp (view s) (view s') r))"
  proof (cases r)
    case (Inl e)
    with ex assms(4) inv1 show ?thesis by (auto simp: completeRefreshToken_def)
  next
    case (Inr x)
    then have c1: "c1 = c" using exchangeRefresh_cascade [OF ex] by auto
    let ?b = "\<lparr>tb_DPoPJKT = do_JKT out, tb_MTLSThumbprint = xd_MTLSCertThumbprint x\<rparr>"
    note unf = assms(4) [unfolded completeRefreshToken_def ex Inr c1, simplified]
    show ?thesis
    proof (cases "\<exists>user res. exchanged_gates deps client out vb x = None
        \<and> requireLiveRefreshSubject h deps (cl_ID client) x c s1 = (Inr user, c)
        \<and> issueRefreshResponse h deps env client x user ?b ad s1 = (res, s')
        \<and> o' = \<lparr>ro_rollback = False, ro_result = res, ro_cascade = c\<rparr>")
      case False
      with unf requireLive_cascade have "s' = s1 \<and> (\<exists>e. fst (ro_result o') = Refuse e)"
        by (fastforce split: option.splits sum.splits prod.splits if_splits)
      with inv1 show ?thesis by auto
    next
      case True
      then obtain user res where gates: "exchanged_gates deps client out vb x = None"
        and issue: "issueRefreshResponse h deps env client x user ?b ad s1 = (res, s')"
        and o': "o' = \<lparr>ro_rollback = False, ro_result = res, ro_cascade = c\<rparr>"
        by blast
      from issued_view [OF assms(1-3) ex [unfolded Inr c1] gates issue] o' show ?thesis by simp
    qed
  qed
  then show "inv s'"
    and "fst (ro_result o') = TokenResponse resp \<Longrightarrow> \<exists>r. refresh_granted deps env client inp out vb resp (view s) (view s') r"
    and "fst (ro_result o') = TokenResponse resp \<Longrightarrow> ro_cascade o' = c"
    by blast+
qed

end


section \<open>The transaction and the settle point\<close>

lemma refresh_granted_deps [simp]:
  "refresh_granted (deps\<lparr>td_Transactions := b\<rparr>) env client inp out vb resp v v' r =
   refresh_granted deps env client inp out vb resp v v' r"
  by (simp add: refresh_granted_def redeemable_by_def opaque_of_rotation_def accessTokenFormat_def)

lemma unlock_lock: "\<not> st_locked s \<Longrightarrow> s\<lparr>st_locked := True\<rparr>\<lparr>st_locked := False\<rparr> = s"
  by (cases s) simp

lemma confirm_status:
  assumes "substores_reachable s"
  shows "rotationOutcome_confirm direct_stores deps env (staged, None) s = (staged, s)"
    and "rotationOutcome_confirm direct_stores deps env res s = (TokenResponse resp, s') \<Longrightarrow>
      fst res = TokenResponse resp \<and> s' = s"
    and "response_status (fst (rotationOutcome_confirm direct_stores deps env res s)) \<ge> StatusInternalServerError \<Longrightarrow>
      response_status (fst res) \<ge> StatusInternalServerError"
  using direct_tokens.issuance [OF assms]
  by (auto simp: rotationOutcome_confirm_def refuseIssuanceUnderClosedGrant_def grantClosedToIssuance_def Let_def
      split: prod.splits option.splits if_splits)

text \<open>
  One attempt: the exchange and the issuance run on the transaction; a server error rolls them back and
  anything else is published at once, before the closure of the grant is asked about.
\<close>

lemma run_transaction:
  assumes "substores_reachable s" and "\<not> td_RefreshTokenRotationDisabled deps" and "rin_Token inp \<noteq> []"
    and "runRefreshTokenTransaction deps env client inp out vb rq ad c s = Some (staged, c', s')"
  obtains o' w where "\<not> st_locked s"
    and "completeRefreshToken tx_stores (deps\<lparr>td_Transactions := False\<rparr>) env client inp out vb rq ad True c
           (s\<lparr>st_locked := True\<rparr>, newTx) = (o', w)"
    and "c' = ro_cascade o'"
    and "ro_rollback o' \<or> response_status (fst (ro_result o')) \<ge> StatusInternalServerError \<Longrightarrow>
      staged = Inr (fst (ro_result o')) \<and> s' = s"
    and "\<not> ro_rollback o' \<Longrightarrow> response_status (fst (ro_result o')) < StatusInternalServerError \<Longrightarrow>
      \<exists>s1. direct_view s1 = tx_view w \<and> substores_reachable s1 \<and> \<not> st_locked s1
         \<and> staged = Inr (fst (rotationOutcome_confirm direct_stores deps env (ro_result o') s1))
         \<and> s' = snd (rotationOutcome_confirm direct_stores deps env (ro_result o') s1)"
proof -
  have free: "\<not> st_locked s"
    using assms(4) by (auto simp: runRefreshTokenTransaction_def Store_BeginTx_def Store_lockTxCluster_def)
  note tx = begin_tx [OF assms(1) free]
  let ?d = "deps\<lparr>td_Transactions := False\<rparr>" and ?s = "s\<lparr>st_locked := True\<rparr>"
  obtain o' s1 t where run: "completeRefreshToken tx_stores ?d env client inp out vb rq ad True c (?s, newTx) = (o', (s1, t))"
    by (metis prod.exhaust)
  have "tx_inv ?s (s1, t)"
    using tx_tokens.complete_view(1) [OF tx(2) _ _ run] assms(2,3) by simp
  then have inv: "tx_inv ?s (?s, t)" and s1: "s1 = ?s" by (auto simp: tx_inv_def)
  have is_open: "\<not> tx_closed t"
    using inv session_of_stagings(3) by (auto simp: tx_inv_def)
  have undone: "snd (tx_Rollback t ?s) = s"
    using is_open unlock_lock [OF free] by (simp add: tx_Rollback_def Store_unlockTxCluster_def)
  obtain e t' s2 where commit: "tx_Commit (re_commitCodesNow env) (re_commitRefreshNow env) t ?s = ((e, t'), s2)"
    by (metis prod.exhaust)
  note fin = commit_tx [OF inv commit]
  note unf = assms(4) [unfolded runRefreshTokenTransaction_def tx(1), simplified, unfolded run s1, simplified, unfolded commit fin(1)]
  show thesis
    by (rule that [OF free run])
       (use unf undone fin in \<open>auto split: if_splits prod.splits simp: s1\<close>)
qed

lemma grv_direct_issuance:
  "spec_grv_IsIssuanceRevoked g t (grv_of s) \<longleftrightarrow> fst (grantRevocationStore_IsIssuanceRevoked g t s)"
  by (simp add: grantRevocationStore_IsIssuanceRevoked_def spec_grv_IsIssuanceRevoked_def split: option.split)

lemma handle_transaction:
  assumes "substores_reachable s" and "\<not> td_RefreshTokenRotationDisabled deps" and "rin_Token inp \<noteq> []"
    and "handleRefreshTokenTransaction deps env env2 client inp out vb rq ad s = Some (res, s')"
  obtains c s1 where "runRefreshTokenTransaction deps env client inp out vb rq ad zero_replayCascade s = Some (Inr res, c, s1)"
    and "s' = replayCascade_run direct_stores deps env c s1"
proof -
  obtain staged c s1 where run: "runRefreshTokenTransaction deps env client inp out vb rq ad zero_replayCascade s = Some (staged, c, s1)"
    using assms(4) by (auto simp: handleRefreshTokenTransaction_def split: option.splits)
  have "\<exists>r. staged = Inr r"
    by (rule run_transaction [OF assms(1-3) run]) (metis linorder_not_less)
  with assms(4) run show thesis
    by (intro that) (auto simp: handleRefreshTokenTransaction_def Let_def)
qed

lemma unarmed_run [simp]: "replayCascade_run h deps env zero_replayCascade s = s"
  by (simp add: replayCascade_run_def)

text \<open>What the handler does once the request passed the preflight.\<close>

lemma handle_cases:
  assumes "handleRefreshToken deps env env2 auth tok scope vb details between s = Some (res, s')"
  obtains (early) e where "res = Refuse e" and "s' = s"
  | (tx) out client rq ad where "auth = Inr (out, client)" and "tok \<noteq> []" and "td_Transactions deps"
      and "\<not> td_RefreshTokenRotationDisabled deps"
      and "handleRefreshTokenTransaction deps env env2 client \<lparr>rin_Token = tok, rin_RequestedScope = scope_Parse scope\<rparr>
             out vb rq ad (between s) = Some (res, s')"
  | (direct) out client ad o' s1 where "auth = Inr (out, client)" and "tok \<noteq> []"
      and "td_Transactions deps \<Longrightarrow> td_RefreshTokenRotationDisabled deps"
      and "completeRefreshToken direct_stores deps env client \<lparr>rin_Token = tok, rin_RequestedScope = scope_Parse scope\<rparr>
             out vb [] ad False zero_replayCascade (between s) = (o', s1)"
      and "res = fst (rotationOutcome_confirm direct_stores deps env (ro_result o') s1)"
      and "s' = replayCascade_run direct_stores deps env (ro_cascade o')
             (snd (rotationOutcome_confirm direct_stores deps env (ro_result o') s1))"
proof (cases "\<exists>e. res = Refuse e \<and> s' = s")
  case True
  then show thesis using early by blast
next
  case False
  with assms obtain out client inp requested effective where
    "auth = Inr (out, client)" "parseRefreshRequest tok scope = Inr inp"
    "(if td_Transactions deps \<and> \<not> td_RefreshTokenRotationDisabled deps
      then handleRefreshTokenTransaction deps env env2 client inp out vb requested effective (between s)
      else (case completeRefreshToken direct_stores deps env client inp out vb [] effective False zero_replayCascade (between s) of
              (o', s) \<Rightarrow> (case rotationOutcome_confirm direct_stores deps env (ro_result o') s of
                 (staged, s) \<Rightarrow> Some (staged, replayCascade_run direct_stores deps env (ro_cascade o') s)))) = Some (res, s')"
    unfolding handleRefreshToken_def
    by (auto simp: Let_def simp del: if_split split: sum.splits prod.splits option.splits)
  then show thesis using tx direct
    by (auto simp: parseRefreshRequest_def split: if_splits prod.splits)
qed

lemma handle_granted:
  assumes "substores_reachable (between s)" and "\<not> td_RefreshTokenRotationDisabled deps"
    and "handleRefreshToken deps env env2 auth tok scope vb details between s = Some (TokenResponse resp, s')"
  obtains out client r where "auth = Inr (out, client)"
    and "refresh_granted deps env client \<lparr>rin_Token = tok, rin_RequestedScope = scope_Parse scope\<rparr> out vb resp
           (direct_view (between s)) (direct_view s') r"
  using assms(3)
proof (cases rule: handle_cases)
  case (tx out client rq ad)
  let ?i = "\<lparr>rin_Token = tok, rin_RequestedScope = scope_Parse scope\<rparr>"
  have tok: "rin_Token ?i \<noteq> []" using tx(2) by simp
  from handle_transaction [OF assms(1,2) tok tx(5)] obtain c s1 where
    run: "runRefreshTokenTransaction deps env client ?i out vb rq ad zero_replayCascade (between s) = Some (Inr (TokenResponse resp), c, s1)"
    and s': "s' = replayCascade_run direct_stores deps env c s1" .
  show thesis
  proof (rule run_transaction [OF assms(1,2) tok run])
    fix o' w
    assume free: "\<not> st_locked (between s)"
      and complete: "completeRefreshToken tx_stores (deps\<lparr>td_Transactions := False\<rparr>) env client ?i out vb rq ad True zero_replayCascade
           ((between s)\<lparr>st_locked := True\<rparr>, newTx) = (o', w)"
      and c: "c = ro_cascade o'"
      and rolled: "ro_rollback o' \<or> response_status (fst (ro_result o')) \<ge> StatusInternalServerError \<Longrightarrow>
        Inr (TokenResponse resp) = Inr (fst (ro_result o')) \<and> s1 = between s"
      and committed: "\<not> ro_rollback o' \<Longrightarrow> response_status (fst (ro_result o')) < StatusInternalServerError \<Longrightarrow>
        \<exists>s2. direct_view s2 = tx_view w \<and> substores_reachable s2 \<and> \<not> st_locked s2
           \<and> Inr (TokenResponse resp) = Inr (fst (rotationOutcome_confirm direct_stores deps env (ro_result o') s2))
           \<and> s1 = snd (rotationOutcome_confirm direct_stores deps env (ro_result o') s2)"
    note begun = begin_tx [OF assms(1) free]
    note view = tx_tokens.complete_view [OF begun(2) _ tok complete, simplified, OF assms(2)]
    have refuses: "\<not> ro_rollback o' \<or> (\<exists>e. fst (ro_result o') = Refuse e)"
      using complete by (auto simp: completeRefreshToken_def split: sum.splits option.splits prod.splits)
    have "\<not> (ro_rollback o' \<or> response_status (fst (ro_result o')) \<ge> StatusInternalServerError)"
    proof
      assume back_out: "ro_rollback o' \<or> response_status (fst (ro_result o')) \<ge> StatusInternalServerError"
      with rolled have "fst (ro_result o') = TokenResponse resp" by auto
      with refuses back_out show False by auto
    qed
    then have "\<not> ro_rollback o'" "response_status (fst (ro_result o')) < StatusInternalServerError"
      by (simp_all add: linorder_not_less [symmetric])
    from committed [OF this] obtain s2 where s2: "direct_view s2 = tx_view w" "substores_reachable s2"
      "rotationOutcome_confirm direct_stores deps env (ro_result o') s2 = (TokenResponse resp, s1)"
      by (metis prod.collapse sum.inject(2))
    note conf = confirm_status(2) [OF s2(2,3)]
    from view(2,3) conf s2(1) s' c begun(3) have "\<exists>r. refresh_granted deps env client ?i out vb resp (direct_view (between s)) (direct_view s') r"
      by auto
    with that tx(1) show thesis by blast
  qed
next
  case (direct out client ad o' s1)
  let ?i = "\<lparr>rin_Token = tok, rin_RequestedScope = scope_Parse scope\<rparr>"
  note view = direct_tokens.complete_view [OF assms(1,2) _ direct(4), simplified, OF direct(2)]
  have "rotationOutcome_confirm direct_stores deps env (ro_result o') s1 =
     (TokenResponse resp, snd (rotationOutcome_confirm direct_stores deps env (ro_result o') s1))"
    using direct(5) by (simp add: prod_eq_iff)
  note conf = confirm_status(2) [OF view(1) this]
  from view(2,3) conf direct(6) have "\<exists>r. refresh_granted deps env client ?i out vb resp (direct_view (between s)) (direct_view s') r"
    by auto
  with that direct(1) show thesis by blast
qed simp


section \<open>The handler\<close>


text \<open>
  C4. After a rotation the chain has one usable opaque access token: every opaque token of the grant that
  belongs to the chain of the presented refresh token (to the grant, for a chain without an identifier)
  is revoked in its place, and one that is not revoked is the one just returned.
\<close>

theorem refresh_retires_prior_access:
  assumes "substores_reachable (between s)" and "\<not> td_RefreshTokenRotationDisabled deps"
    and "handleRefreshToken deps env env2 auth tok scope vb details between s = Some (TokenResponse resp, s')"
    and "tokens_of (st_refreshes (between s)) (hashKey tok) = Some r" and "rt_ConsumedAt r = None"
  shows "(\<forall>k row. fmlookup (oas_m (st_opaqueAccessTokens (between s))) k = Some row \<longrightarrow> opaque_of_rotation deps r row \<longrightarrow>
       fmlookup (oas_m (st_opaqueAccessTokens s')) k = Some (row\<lparr>oa_Revoked := True\<rparr>))
    \<and> (\<forall>k row. fmlookup (oas_m (st_opaqueAccessTokens s')) k = Some row \<longrightarrow> opaque_of_rotation deps r row \<longrightarrow>
       oa_Revoked row \<or> k = hashKey (sr_AccessToken resp))"
  by (rule handle_granted [OF assms(1-3)]) (use assms(4,5) in \<open>auto simp: refresh_granted_def\<close>)

text \<open>
  C2. A server error of the transactional handler leaves nothing behind: when the answer has a status of
  500 or more, the store is exactly as the handler found it, so the presented token is still unspent and
  the client can retry with it.
\<close>

theorem refresh_server_error_keeps_store:
  assumes "substores_reachable (between s)" and "td_Transactions deps" and "\<not> td_RefreshTokenRotationDisabled deps"
    and "handleRefreshToken deps env env2 auth tok scope vb details between s = Some (res, s')"
    and "response_status res \<ge> 500"
  shows "s' = s \<or> s' = between s"
  using assms(4)
proof (cases rule: handle_cases)
  case (tx out client rq ad)
  let ?i = "\<lparr>rin_Token = tok, rin_RequestedScope = scope_Parse scope\<rparr>"
  have tok: "rin_Token ?i \<noteq> []" using tx(2) by simp
  from handle_transaction [OF assms(1,3) tok tx(5)] obtain c s1 where
    run: "runRefreshTokenTransaction deps env client ?i out vb rq ad zero_replayCascade (between s) = Some (Inr res, c, s1)"
    and s': "s' = replayCascade_run direct_stores deps env c s1" .
  show ?thesis
  proof (rule run_transaction [OF assms(1,3) tok run])
    fix o' w
    assume complete: "completeRefreshToken tx_stores (deps\<lparr>td_Transactions := False\<rparr>) env client ?i out vb rq ad True zero_replayCascade
           ((between s)\<lparr>st_locked := True\<rparr>, newTx) = (o', w)"
      and c: "c = ro_cascade o'"
      and rolled: "ro_rollback o' \<or> response_status (fst (ro_result o')) \<ge> StatusInternalServerError \<Longrightarrow>
        Inr res = Inr (fst (ro_result o')) \<and> s1 = between s"
      and committed: "\<not> ro_rollback o' \<Longrightarrow> response_status (fst (ro_result o')) < StatusInternalServerError \<Longrightarrow>
        \<exists>s2. direct_view s2 = tx_view w \<and> substores_reachable s2 \<and> \<not> st_locked s2
           \<and> Inr res = Inr (fst (rotationOutcome_confirm direct_stores deps env (ro_result o') s2))
           \<and> s1 = snd (rotationOutcome_confirm direct_stores deps env (ro_result o') s2)"
    have "ro_rollback o' \<or> response_status (fst (ro_result o')) \<ge> StatusInternalServerError"
      using committed confirm_status(3) assms(5) by (metis linorder_not_less sum.inject(2))
    from rolled [OF this] assms(5) complete_cascade [OF complete] c s' show ?thesis by auto
  qed
qed (use assms(2,3) in simp_all)

end
