(* ===== verification/RefreshCascade.thy ===== *)
theory RefreshCascade
  imports RefreshSound
begin

text \<open>
  The settle point of the refresh handler: what a replayed refresh token and a subject that is gone
  cost the chain and the grant. The exchange inside the transaction only arms the cascade; it runs on
  the store itself once the transaction was committed or rolled back.
\<close>


section \<open>A replay\<close>

definition grace_open :: "tokenDeps \<Rightarrow> time \<Rightarrow> RefreshToken \<Rightarrow> bool" where
  "grace_open deps now r \<longleftrightarrow>
     (let ttl = (if td_RefreshTokenGraceTTL deps = 0 then GraceTTLDefault else td_RefreshTokenGraceTTL deps)
      in 0 < ttl \<and> rt_ConsumedAt r \<noteq> None \<and> \<not> rt_Revoked r
       \<and> 0 \<le> time_sub now (the (rt_ConsumedAt r)) \<and> time_sub now (the (rt_ConsumedAt r)) \<le> ttl)"

lemma grace_open_window:
  assumes "newRefreshExchanger h deps = Inr e"
  shows "Exchanger_withinGraceWindow e now r \<longleftrightarrow> grace_open deps now r"
  using assms
  by (auto simp: newRefreshExchanger_def NewExchanger_def Exchanger_withinGraceWindow_def grace_open_def GraceTTLDefault_def
      second_def Let_def split: if_splits)

lemma grace_open_deps [simp]: "grace_open (deps\<lparr>td_Transactions := b\<rparr>) now r = grace_open deps now r"
  by (simp add: grace_open_def Let_def)

context token_stores
begin

lemmas walk_view = FindRoot_view

lemma replay_arms:
  assumes "inv s" and "\<not> td_RefreshTokenRotationDisabled deps" and "td_RefreshTokens deps" and "rin_Token inp \<noteq> []"
    and "cv_refreshes (view s) (hashKey (rin_Token inp)) = Some r" and "rt_ConsumedAt r \<noteq> None"
    and "\<not> isExpired (rt_ExpiresAt r) (re_consumeNow env)" and "\<not> grace_open deps (re_exchangeNow env) r"
  shows "\<exists>s'. completeRefreshToken h deps env client inp out vb rq ad tr c s =
      (\<lparr>ro_rollback = False, ro_result = (Refuse (writeRefreshExchangeError ErrTokenReplayed), None),
        ro_cascade = replayCascade_arm (rin_Token inp) c\<rparr>, s') \<and> view s' = view s"
proof -
  let ?i = "\<lparr>xi_Token = rin_Token inp, xi_ClientID = cl_ID client, xi_RequestedScope = rin_RequestedScope inp\<rparr>"
  obtain e where e: "newRefreshExchanger h deps = Inr e"
    using assms(3) by (simp add: newRefreshExchanger_def NewExchanger_def)
  note ex = newRefreshExchanger_Inr [OF e]
  let ?s = "snd (ro_Consume (so_refresh h) (re_consumeNow env) (rin_Token inp) s)"
  have "\<not> Exchanger_withinGraceWindow e (re_exchangeNow env) r"
    using assms(8) grace_open_window [OF e] by simp
  then have "\<exists>log. Exchanger_Exchange e (re_consumeNow env) (re_exchangeNow env) ?i (s, []) = (Inl ErrTokenReplayed, ?s, log)"
    using Exchange_rotating [OF ex(1) _ assms(1), of ?i "re_consumeNow env" "re_exchangeNow env" "[]"] ex(2,3) assms(2,4-7)
    by (simp add: Exchanger_onReplayDetected_def Let_def)
  then have "exchangeRefresh h deps env (cl_ID client) inp c s =
      (Inl (writeRefreshExchangeError ErrTokenReplayed), replayCascade_arm (rin_Token inp) c, ?s)"
    by (auto simp: exchangeRefresh_def e)
  moreover have "view ?s = view s"
    using refresh_frame(2) [OF assms(1)] consume(2) [OF assms(1)] assms(5-7) by (simp add: spec_refresh_consume_def)
  ultimately show ?thesis by (simp add: completeRefreshToken_def)
qed

end

text \<open>The transaction of a replay publishes nothing and hands the cascade over.\<close>

lemma replay_transaction:
  assumes "substores_reachable s" and "\<not> st_locked s" and "\<not> td_RefreshTokenRotationDisabled deps" and "td_RefreshTokens deps"
    and "rin_Token inp \<noteq> []" and "tokens_of (st_refreshes s) (hashKey (rin_Token inp)) = Some r" and "rt_ConsumedAt r \<noteq> None"
    and "\<not> isExpired (rt_ExpiresAt r) (re_consumeNow env)" and "\<not> grace_open deps (re_exchangeNow env) r"
  obtains s1 where "direct_view s1 = direct_view s" and "substores_reachable s1"
    and "handleRefreshTokenTransaction deps env env2 client inp out vb rq ad s =
      Some (Refuse (OAuthError StatusBadRequest ''invalid_grant'' ''refresh token rejected''),
            replayCascade_run direct_stores deps env (replayCascade_arm (rin_Token inp) zero_replayCascade) s1)"
proof -
  note begun = begin_tx [OF assms(1,2)]
  let ?d = "deps\<lparr>td_Transactions := False\<rparr>" and ?s = "s\<lparr>st_locked := True\<rparr>"
  have open_: "\<not> grace_open ?d (re_exchangeNow env) r" using assms(9) by simp
  obtain w where run: "completeRefreshToken tx_stores ?d env client inp out vb rq ad True zero_replayCascade (?s, newTx) =
      (\<lparr>ro_rollback = False, ro_result = (Refuse (writeRefreshExchangeError ErrTokenReplayed), None),
        ro_cascade = replayCascade_arm (rin_Token inp) zero_replayCascade\<rparr>, w)" and view: "tx_view w = direct_view s"
    using tx_tokens.replay_arms [OF begun(2), of ?d inp r env client out vb rq ad True zero_replayCascade] assms(3-8) open_ begun(3)
    by auto
  obtain s0 t where w: "w = (s0, t)" by (cases w)
  have inv: "tx_inv ?s (?s, t)" "s0 = ?s"
    using tx_tokens.complete_view(1) [OF begun(2) _ assms(5) run [unfolded w]] assms(3) by (auto simp: tx_inv_def)
  obtain e t' s1 where commit: "tx_Commit (re_commitCodesNow env) (re_commitRefreshNow env) t ?s = ((e, t'), s1)"
    by (metis prod.exhaust)
  note fin = commit_tx [OF inv(1) commit]
  show thesis
  proof (rule that [OF _ fin(3)])
    show "direct_view s1 = direct_view s" using fin(2) view w inv(2) by simp
    show "handleRefreshTokenTransaction deps env env2 client inp out vb rq ad s =
      Some (Refuse (OAuthError StatusBadRequest ''invalid_grant'' ''refresh token rejected''),
            replayCascade_run direct_stores deps env (replayCascade_arm (rin_Token inp) zero_replayCascade) s1)"
      using commit fin(1) confirm_status(1) [OF fin(3)]
      by (simp add: handleRefreshTokenTransaction_def runRefreshTokenTransaction_def begun(1) run w inv(2)
          writeRefreshExchangeError_def Let_def)
  qed
qed

text \<open>The cascade itself: the chain through its retirement, then the access tokens of the grant or of the chain.\<close>

lemma replay_cascade:
  assumes "substores_reachable s" and "td_RefreshTokens deps" and "td_OpaqueAccessTokens deps" and "tok \<noteq> []"
    and "tokens_of (st_refreshes s) (hashKey tok) = Some r" and "\<not> isExpired (rt_ExpiresAt r) (re_retireNow env)"
  defines "g \<equiv> if JoinsForeignGrant r then [] else rt_GrantID r"
  defines "s' \<equiv> replayCascade_run direct_stores deps env (replayCascade_arm tok zero_replayCascade) s"
  shows "st_refreshes s' = st_refreshes (snd (Retire (so_refresh direct_stores) (re_retireNow env) tok g s))"
    and "rt_GrantID r \<noteq> [] \<Longrightarrow> fmlookup (oas_m (st_opaqueAccessTokens s')) k = Some row \<Longrightarrow> oa_GrantID row = rt_GrantID r \<Longrightarrow>
      (JoinsForeignGrant r \<Longrightarrow> rt_ChainID r \<noteq> [] \<and> oa_ChainID row = rt_ChainID r) \<Longrightarrow> oa_Revoked row"
proof -
  let ?ops = "so_refresh direct_stores" and ?now = "re_retireNow env"
  obtain e where e: "newRefreshExchanger direct_stores deps = Inr e"
    using assms(2) by (simp add: newRefreshExchanger_def NewExchanger_def)
  have find: "ro_Find ?ops ?now tok s = (Some (r\<lparr>rt_ID := tok\<rparr>), None)"
    using direct_tokens.find [OF assms(1)] assms(5,6) by (simp add: spec_refresh_find_def)
  let ?s1 = "snd (Retire ?ops ?now tok g s)"
  note inv1 = direct_tokens.Retire_inv [OF assms(1), of ?now tok g]
  let ?r = "grantTeardown deps (re_cascade env) teardownReasonRefreshReplay"
  let ?sc = "if JoinsForeignGrant r then OpaqueAccessTokensOfChain (rt_GrantID r) (rt_ChainID r)
    else CompromisedGrantAccessTokens (rt_GrantID r)"
  have run: "s' = (if JoinsForeignGrant r \<and> rt_ChainID r = [] then ?s1
     else snd (Revoker_Run direct_stores ?r (me_storeNow (re_cascade env)) ?sc ?s1))"
  proof -
    obtain q s1 where ret: "Retire ?ops ?now tok g s = (q, s1)" by fastforce
    have joins: "JoinsForeignGrant (r\<lparr>rt_ID := tok\<rparr>) = JoinsForeignGrant r" by (simp add: JoinsForeignGrant_def)
    have "RetireRecord ?ops ?now tok (r\<lparr>rt_ID := tok\<rparr>) s = (q, s1)"
      using ret by (simp add: RetireRecord_def joins g_def split: if_splits)
    then show ?thesis
      using assms(4) newRefreshExchanger_Inr(1) [OF e]
      by (simp add: s'_def replayCascade_run_def replayCascade_arm_def zero_replayCascade_def replayCascade_armed_def e
          Exchanger_RevokeReplayedChain_def Exchanger_revokeChainBestEffort_def find ret joins)
  qed
  have rv: "rv_OpaqueAccessTokens ?r" using assms(3) by (simp add: grantTeardown_def NewRevoker_def)
  have chain_run: "snd (Revoker_Run direct_stores ?r (me_storeNow (re_cascade env)) (OpaqueAccessTokensOfChain (rt_GrantID r) (rt_ChainID r)) ?s1) =
     (if rt_GrantID r = [] then ?s1 else if rt_ChainID r = [] then snd (so_opaqueRevokeByGrant direct_stores (rt_GrantID r) ?s1)
      else snd (so_opaqueRevokeByChain direct_stores (rt_GrantID r) (rt_ChainID r) ?s1))"
    using rv by (simp add: Revoker_Run_def Revoker_runChain_def OpaqueAccessTokensOfChain_def zero_Scope_def only_err_def split: prod.split)
  show "st_refreshes s' = st_refreshes ?s1"
  proof (cases "JoinsForeignGrant r")
    case True
    with run chain_run show ?thesis by (simp add: direct_stores_def)
  next
    case False
    with run show ?thesis
      by (cases "rt_GrantID r = []", simp add: Revoker_Run_def Revoker_runGrant_def) (simp add: Revoker_Run_def runGrant_closed)
  qed
  assume g: "rt_GrantID r \<noteq> []" and row: "fmlookup (oas_m (st_opaqueAccessTokens s')) k = Some row" "oa_GrantID row = rt_GrantID r"
    and joined: "JoinsForeignGrant r \<Longrightarrow> rt_ChainID r \<noteq> [] \<and> oa_ChainID row = rt_ChainID r"
  show "oa_Revoked row"
  proof (cases "JoinsForeignGrant r")
    case True
    with run chain_run g joined have "s' = snd (so_opaqueRevokeByChain direct_stores (rt_GrantID r) (rt_ChainID r) ?s1)" by simp
    with direct_tokens.opaque_chain(3) [OF inv1, of "rt_GrantID r" "rt_ChainID r"] row g joined [OF True] show ?thesis
      by (simp add: opaque_retired_def)
  next
    case False
    with run g rv have "st_opaqueAccessTokens s' = snd (opaqueAccessTokenStore_RevokeByGrant (rt_GrantID r) (st_opaqueAccessTokens ?s1))"
      by (simp add: Revoker_Run_def runGrant_closed)
    with opaque_grant_revoked [OF substores_inv(3) [OF inv1] g] row show ?thesis by simp
  qed
qed

text \<open>
  C3. A replayed refresh token costs its holder the chain: when the row of the presented token is spent and
  outside its grace window, the transactional handler answers invalid_grant, and afterwards every token
  below the presented one is revoked (when the root of the chain resolves, or for the tokens of the
  chain's own grant), together with the opaque access tokens of the grant, or of the chain alone where
  the chain was issued under a grant of someone else.
\<close>

theorem refresh_replay_cascade:
  assumes "substores_reachable s" and "\<not> st_locked s" and "\<not> td_RefreshTokenRotationDisabled deps"
    and "td_RefreshTokens deps" and "td_OpaqueAccessTokens deps" and "rin_Token inp \<noteq> []"
    and "tokens_of (st_refreshes s) (hashKey (rin_Token inp)) = Some r" and "rt_ConsumedAt r \<noteq> None"
    and "\<not> isExpired (rt_ExpiresAt r) (re_consumeNow env)" and "\<not> isExpired (rt_ExpiresAt r) (re_retireNow env)"
    and "\<not> grace_open deps (re_exchangeNow env) r"
  shows "\<exists>s'. handleRefreshTokenTransaction deps env env2 client inp out vb rq ad s =
        Some (Refuse (OAuthError StatusBadRequest ''invalid_grant'' ''refresh token rejected''), s')
    \<and> (\<forall>k t. descends (tokens_of (st_refreshes s)) (hashKey (rin_Token inp)) k \<longrightarrow> tokens_of (st_refreshes s) k = Some t \<longrightarrow>
         fst (snd (FindRoot (Some (so_refresh direct_stores)) (re_retireNow env) (rin_Token inp) chainWalkLimit s))
         \<or> (rt_GrantID r \<noteq> [] \<and> \<not> JoinsForeignGrant r \<and> rt_GrantID t = rt_GrantID r) \<longrightarrow>
         tokens_of (st_refreshes s') k = Some (markRevoked (re_retireNow env) t))
    \<and> (\<forall>k row. rt_GrantID r \<noteq> [] \<longrightarrow> fmlookup (oas_m (st_opaqueAccessTokens s')) k = Some row \<longrightarrow> oa_GrantID row = rt_GrantID r \<longrightarrow>
         (JoinsForeignGrant r \<longrightarrow> rt_ChainID r \<noteq> [] \<and> oa_ChainID row = rt_ChainID r) \<longrightarrow> oa_Revoked row)"
proof (rule replay_transaction [OF assms(1-4,6-9,11), of env2 client out vb rq ad])
  let ?tok = "rin_Token inp" and ?now = "re_retireNow env" and ?ops = "so_refresh direct_stores"
  fix s1
  assume view: "direct_view s1 = direct_view s" and inv1: "substores_reachable s1"
    and run: "handleRefreshTokenTransaction deps env env2 client inp out vb rq ad s =
      Some (Refuse (OAuthError StatusBadRequest ''invalid_grant'' ''refresh token rejected''),
            replayCascade_run direct_stores deps env (replayCascade_arm ?tok zero_replayCascade) s1)"
  let ?s' = "replayCascade_run direct_stores deps env (replayCascade_arm ?tok zero_replayCascade) s1"
  let ?g = "if JoinsForeignGrant r then [] else rt_GrantID r"
  have rows: "tokens_of (st_refreshes s1) = tokens_of (st_refreshes s)"
    using view direct_view_sel(1) by metis
  note cascade = replay_cascade [OF inv1 assms(4,5,6) _ assms(10), unfolded rows, OF assms(7)]
  obtain root ok err where walk: "FindRoot (Some ?ops) ?now ?tok chainWalkLimit s1 = (root, ok, err)"
    by (metis prod.exhaust)
  have walk0: "FindRoot (Some ?ops) ?now ?tok chainWalkLimit s = (root, ok, err)"
    using direct_tokens.walk_view [OF inv1 assms(1)] rows walk by simp
  have retire: "Retirement_Retired (fst (Retire ?ops ?now ?tok ?g s1))"
    "Retirement_FellBackToGrant (fst (Retire ?ops ?now ?tok ?g s1)) \<Longrightarrow> rt_GrantID t = ?g"
    if "ok \<or> (rt_GrantID r \<noteq> [] \<and> \<not> JoinsForeignGrant r \<and> rt_GrantID t = rt_GrantID r)" for t
    using that direct_tokens.Retire_chain_rung(1) [OF inv1, of ?now ?tok] direct_tokens.Retire_grant_rung(1) [OF inv1, of ?now ?tok] walk
    by (cases ok; auto simp: Retirement_Retired_def Retirement_FellBackToGrant_def zero_Retirement_def)+
  have "tokens_of (st_refreshes ?s') k = Some (markRevoked ?now t)"
    if "descends (tokens_of (st_refreshes s)) (hashKey ?tok) k" "tokens_of (st_refreshes s) k = Some t"
      "ok \<or> (rt_GrantID r \<noteq> [] \<and> \<not> JoinsForeignGrant r \<and> rt_GrantID t = rt_GrantID r)" for k t
    using direct_tokens.Retire_retires [OF inv1 retire(1) [OF that(3)], of k t] that(1,2) rows retire(2) [OF that(3)]
    unfolding cascade(1) by simp
  with run cascade(2) walk0 show ?thesis by auto
qed



section \<open>A subject that is gone\<close>

text \<open>The refusals of the handler after the exchange do not say what the one for a missing subject says.\<close>

definition subject_gone :: wire_error where
  "subject_gone = OAuthError StatusBadRequest ''invalid_grant'' ''grant subject no longer exists''"

lemma other_refusals:
  "writeRefreshExchangeError e \<noteq> subject_gone" "ServerError \<noteq> subject_gone" "writeMTLSError m \<noteq> subject_gone"
  "revalidateRefreshAuthorizationDetails h deps x rq ad s \<noteq> Some subject_gone"
  "exchanged_gates deps client out vb x \<noteq> Some subject_gone"
proof -
  show mtls: "writeMTLSError m \<noteq> subject_gone" for m
    by (cases m) (simp_all add: writeMTLSError_def subject_gone_def ServerError_def)
  show "writeRefreshExchangeError e \<noteq> subject_gone" "ServerError \<noteq> subject_gone"
    by (simp_all add: writeRefreshExchangeError_def subject_gone_def ServerError_def)
  show "revalidateRefreshAuthorizationDetails h deps x rq ad s \<noteq> Some subject_gone"
    by (auto simp: revalidateRefreshAuthorizationDetails_def reduceAuthorizationDetails_def subject_gone_def ServerError_def
        split: sum.splits if_splits)
  have "requireMTLSMatch deps vb b \<noteq> Some subject_gone" for b
    using mtls by (auto simp: requireMTLSMatch_def subject_gone_def)
  moreover have "checkTokenScopeAllowlist sc cid g \<noteq> Some subject_gone" "requireRegisteredScopes client g \<noteq> Some subject_gone"
    "enforceStrictOfflineAccess deps g o' \<noteq> Some subject_gone" "enforceDPoPRefreshBinding deps out j \<noteq> Some subject_gone"
    "enforceSenderConstraint deps b \<noteq> Some subject_gone" for sc cid g o' j b
    by (simp_all add: checkTokenScopeAllowlist_def requireRegisteredScopes_def enforceStrictOfflineAccess_def
        enforceDPoPRefreshBinding_def enforceSenderConstraint_def subject_gone_def)
  ultimately show "exchanged_gates deps client out vb x \<noteq> Some subject_gone"
    by (auto simp: exchanged_gates_def split: option.splits)
qed

lemma issue_not_gone:
  assumes "issueRefreshResponse h deps env client x user b ad s = (res, s')"
  shows "fst res \<noteq> Refuse subject_gone"
proof -
  have closed: "refuseIssuanceUnderClosedGrant h deps e iu ''refresh token rejected'' s1 = (Some err, s2) \<Longrightarrow> err \<noteq> subject_gone"
    for e iu s1 err s2
    by (auto simp: refuseIssuanceUnderClosedGrant_def subject_gone_def ServerError_def Let_def split: if_splits prod.splits)
  have retire: "retirePriorOpaqueAccessTokens h deps e x s1 = (Some err, s2) \<Longrightarrow> err \<noteq> subject_gone" for e s1 err s2
    by (auto simp: retirePriorOpaqueAccessTokens_def subject_gone_def ServerError_def split: if_splits prod.splits)
  have "fst res' \<noteq> Refuse subject_gone" if "reissueGraceAccessToken h deps env client x b resp s1 = (res', s2)" for resp s1 res' s2
    using that closed retire
    by (auto simp: reissueGraceAccessToken_def ServerError_def subject_gone_def split: prod.splits option.splits sum.splits)
  then have "fst res' \<noteq> Refuse subject_gone" if "serveGraceRetry h deps env client x b s1 = (res', s2)" for s1 res' s2
    using that
    by (auto simp: serveGraceRetry_def ServerError_def subject_gone_def split: prod.splits option.splits sum.splits if_splits)
  with assms closed retire show ?thesis
    by (auto simp: issueRefreshResponse_def ServerError_def subject_gone_def split: prod.splits option.splits sum.splits if_splits)
qed

definition gone_cascade :: "Client \<Rightarrow> RefreshToken \<Rightarrow> string \<Rightarrow> replayCascade" where
  "gone_cascade client r subject =
     replayCascade_armDeprovisioned
       \<lparr>dr_ClientID = cl_ID client, dr_Subject = subject, dr_GrantType = grantTypeRefreshToken, dr_GrantID = rt_GrantID r\<rparr>
       zero_replayCascade"

lemma requireLive_gone:
  assumes "requireLiveRefreshSubject h deps cid x c s = (Inl subject_gone, c')"
  obtains subject where "snd (lookupLiveSubject deps subject) = SubjectDeprovisioned"
    and "grantIsOwnConsent (xd_Origin x) \<Longrightarrow> subject = xd_Subject x"
    and "c' = replayCascade_armDeprovisioned
      \<lparr>dr_ClientID = cid, dr_Subject = subject, dr_GrantType = grantTypeRefreshToken, dr_GrantID = xd_GrantID x\<rparr> c"
proof -
  have err: "writeSubjectLookupError l = subject_gone \<longleftrightarrow> l = SubjectDeprovisioned" for l
    by (simp add: writeSubjectLookupError_def subject_gone_def ServerError_def)
  have "\<exists>subject. snd (lookupLiveSubject deps subject) = SubjectDeprovisioned
      \<and> (grantIsOwnConsent (xd_Origin x) \<longrightarrow> subject = xd_Subject x)
      \<and> c' = replayCascade_armDeprovisioned
        \<lparr>dr_ClientID = cid, dr_Subject = subject, dr_GrantType = grantTypeRefreshToken, dr_GrantID = xd_GrantID x\<rparr> c"
    using assms other_refusals(2)
    by (auto simp: requireLiveRefreshSubject_def err split: sum.splits option.splits if_splits prod.splits subject_lookup.splits)
       (metis snd_conv)+
  then show thesis using that by blast
qed

context token_stores
begin

lemma complete_gone:
  assumes "inv s" and "\<not> td_RefreshTokenRotationDisabled deps" and "rin_Token inp \<noteq> []"
    and "completeRefreshToken h deps env client inp out vb rq ad tr zero_replayCascade s = (o', s')"
    and "fst (ro_result o') = Refuse subject_gone"
  obtains r subject where "cv_refreshes (view s) (hashKey (rin_Token inp)) = Some r"
    and "snd (lookupLiveSubject deps subject) = SubjectDeprovisioned" and "grantIsOwnConsent (rt_Origin r) \<Longrightarrow> subject = rt_Subject r"
    and "o' = \<lparr>ro_rollback = False, ro_result = (Refuse subject_gone, None), ro_cascade = gone_cascade client r subject\<rparr>"
proof -
  let ?c = zero_replayCascade
  obtain res c1 s1 where ex: "exchangeRefresh h deps env (cl_ID client) inp ?c s = (res, c1, s1)" by (metis prod.exhaust)
  have "\<exists>x. res = Inr x"
  proof (cases res)
    case (Inl e)
    then have "e \<noteq> subject_gone"
      using ex other_refusals(1,2) by (auto simp: exchangeRefresh_def split: sum.splits prod.splits)
    with Inl ex assms(4,5) show ?thesis by (auto simp: completeRefreshToken_def)
  qed simp
  then obtain x where x: "res = Inr x" by blast
  then have c1: "c1 = ?c" using exchangeRefresh_cascade [OF ex] by auto
  have "\<exists>c'. requireLiveRefreshSubject h deps (cl_ID client) x ?c s1 = (Inl subject_gone, c')
      \<and> o' = \<lparr>ro_rollback = False, ro_result = (Refuse subject_gone, None), ro_cascade = c'\<rparr>"
    using assms(4,5) other_refusals(4,5) issue_not_gone unfolding completeRefreshToken_def ex x c1
    by (auto split: sum.splits prod.splits option.splits if_splits; fastforce)
  then obtain c' where live: "requireLiveRefreshSubject h deps (cl_ID client) x ?c s1 = (Inl subject_gone, c')"
    and o': "o' = \<lparr>ro_rollback = False, ro_result = (Refuse subject_gone, None), ro_cascade = c'\<rparr>" by blast
  from assms(1-3) ex [unfolded x c1] show thesis
  proof (cases rule: exchange_succeeds)
    case (1 r scope)
    have "xd_Origin x = rt_Origin r" "xd_Subject x = rt_Subject r" "xd_GrantID x = rt_GrantID r"
      using 1(9,10) by (cases "rt_ConsumedAt r"; simp add: exchangedFrom_def)+
    with 1(4) live o' show thesis
      by (auto intro: that elim!: requireLive_gone simp: gone_cascade_def)
  qed
qed

end

lemma confirm_gone:
  assumes "substores_reachable s" and "fst (rotationOutcome_confirm direct_stores deps env res s) = Refuse subject_gone"
  shows "fst res = Refuse subject_gone"
  using assms(2)
  by (auto simp: rotationOutcome_confirm_def refuseIssuanceUnderClosedGrant_def subject_gone_def ServerError_def Let_def
      split: prod.splits option.splits if_splits)

lemma gone_cascade_kills:
  assumes "substores_reachable s" and "td_RefreshTokens deps" and "td_OpaqueAccessTokens deps" and "td_GrantRevocations deps"
    and "0 < me_teardownNow (re_cascade env)" and "subject \<noteq> []" and "rt_GrantID r \<noteq> []"
  shows "grant_dead (rt_GrantID r) (me_teardownNow (re_cascade env))
    (replayCascade_run direct_stores deps env (gone_cascade client r subject) s)"
  using whole_grant_dead [OF assms(1,7,2-5), of teardownReasonSubjectDeprovisioned "me_storeNow (re_cascade env)"] assms(6,7)
  by (simp add: gone_cascade_def replayCascade_run_def replayCascade_armDeprovisioned_def zero_replayCascade_def
      replayCascade_armed_def retireDeprovisionedGrant_def)


end
