(* ===== verification/RefreshWitness.thy ===== *)
theory RefreshWitness
  imports RefreshCascade Digest_Vectors
begin

text \<open>
  A refresh request that can be followed by hand: the rotated chain of the refresh-token examples with an
  opaque access token of its grant, a registered client, and an endpoint that issues opaque tokens. The
  request is run through the contract of the substores, so the same lemma serves the store and a
  transaction of it, and the theorems about the handler are applied to it.
\<close>


section \<open>The exchange and the rotation succeed\<close>

context token_stores
begin

lemma exchange_live:
  assumes "inv s" and "\<not> td_RefreshTokenRotationDisabled deps" and "td_RefreshTokens deps" and "rin_Token inp \<noteq> []"
    and "cv_refreshes (view s) (hashKey (rin_Token inp)) = Some r" and "rt_ConsumedAt r = None"
    and "\<not> isExpired (rt_ExpiresAt r) (re_consumeNow env)"
    and "check_bindings (re_exchangeNow env) r
           \<lparr>xi_Token = rin_Token inp, xi_ClientID = cid, xi_RequestedScope = rin_RequestedScope inp\<rparr> = Inr scope"
  obtains s' where "exchangeRefresh h deps env cid inp c s =
      (Inr (exchangedFrom (r\<lparr>rt_ConsumedAt := Some (re_consumeNow env), rt_ID := rin_Token inp\<rparr>) scope), c, s')"
    and "inv s'" and "view s' = (view s)\<lparr>cv_refreshes := (cv_refreshes (view s))(hashKey (rin_Token inp) \<mapsto>
      r\<lparr>rt_ConsumedAt := Some (re_consumeNow env)\<rparr>)\<rparr>"
proof -
  let ?i = "\<lparr>xi_Token = rin_Token inp, xi_ClientID = cid, xi_RequestedScope = rin_RequestedScope inp\<rparr>"
  obtain e where e: "newRefreshExchanger h deps = Inr e"
    using assms(3) by (simp add: newRefreshExchanger_def NewExchanger_def)
  note ex = newRefreshExchanger_Inr [OF e]
  let ?s = "snd (ro_Consume (so_refresh h) (re_consumeNow env) (rin_Token inp) s)"
  have "Exchanger_Exchange e (re_consumeNow env) (re_exchangeNow env) ?i (s, []) =
      (Inr (exchangedFrom (r\<lparr>rt_ConsumedAt := Some (re_consumeNow env), rt_ID := rin_Token inp\<rparr>) scope), ?s, [])"
    using Exchange_rotating [OF ex(1) _ assms(1), of ?i "re_consumeNow env" "re_exchangeNow env" "[]"] ex(2,3) assms(2,4-8)
    by simp
  then have "exchangeRefresh h deps env cid inp c s =
      (Inr (exchangedFrom (r\<lparr>rt_ConsumedAt := Some (re_consumeNow env), rt_ID := rin_Token inp\<rparr>) scope), c, ?s)"
    by (simp add: exchangeRefresh_def e)
  moreover have "view ?s = (view s)\<lparr>cv_refreshes := (cv_refreshes (view s))(hashKey (rin_Token inp) \<mapsto>
      r\<lparr>rt_ConsumedAt := Some (re_consumeNow env)\<rparr>)\<rparr>"
    using refresh_frame(2) [OF assms(1)] consume(2) [OF assms(1)] assms(5-7) by (simp add: spec_refresh_consume_def)
  ultimately show thesis using that consume(3) [OF assms(1)] by blast
qed

lemma rotate_live:
  assumes "inv s" and "Deps_refreshIssuanceBlockedReason deps client = []" and "td_RefreshTokens deps"
    and "td_RefreshRetryEncryptionKeys deps = None" and "me_refreshID (re_mint env) = Some bs" and "bs \<noteq> []"
    and "validateIssue (rotation_input client x b) = None" and "xd_ChainID x \<noteq> []"
    and "cv_refreshes (view s) (hashKey (base64_RawURL bs)) = None"
    and "\<And>r. cv_refreshes (view s) (hashKey (xd_ConsumedID x)) = Some r \<Longrightarrow> \<not> rt_Revoked r"
  obtains s' where "rotateRefreshToken h deps env client x b resp s = (Inr (resp\<lparr>sr_RefreshToken := base64_RawURL bs\<rparr>), s')"
proof -
  let ?iss = "\<lparr>is_store = so_refresh h, is_ttl = (if pickRefreshTokenTTL deps (xd_BoundScope x) \<le> 0 then RefreshTokenTTLDefault
       else pickRefreshTokenTTL deps (xd_BoundScope x))\<rparr>"
  let ?prep = "Issuer_Prepare ?iss (me_issuerNow (re_mint env)) (me_refreshID (re_mint env)) None (rotation_input client x b)"
  have new: "NewIssuer (if td_RefreshTokens deps then Some (so_refresh h) else None) (pickRefreshTokenTTL deps (xd_BoundScope x)) = Inr ?iss"
    using assms(3) by (simp add: NewIssuer_def)
  obtain t where prep: "?prep = Inr (base64_RawURL bs, t)"
    using assms(5,7,8) by (simp add: Issuer_Prepare_def refresh_newID_def RandomBase64URL_def) (simp add: rotation_input_def)
  note t = Issuer_Prepare_Inr [OF prep]
  have parent: "rt_ParentID t = Some (xd_ConsumedID x)" using t(8) by (simp add: rotation_input_def)
  have "fst (spec_refresh_save t (cv_refreshes (view s))) = None"
    using assms(9,10) t(1) parent by (auto simp: spec_refresh_save_def parent_revoked_def parent_key_def Let_def)
  then obtain s' where "ro_Save (so_refresh h) (Some t) s = (None, s')"
    using save_successor(1) [OF assms(1) parent] by (metis prod.collapse)
  with assms(2,4) new prep show thesis
    by (intro that [of s']) (simp add: rotateRefreshToken_def Issuer_Issue_def)
qed

end


section \<open>The request\<close>

definition sample_app :: Client where
  "sample_app = \<lparr>cl_ID = ''client'', cl_GrantTypes = [grantTypeRefreshToken], cl_Scopes = [''openid'', ''offline_access''],
     cl_PublicClient = False, cl_TokenEndpointAuthMethod = ''private_key_jwt'', cl_RequireAuthTime = False\<rparr>"

text \<open>The endpoint, with a user store whose answer for any subject is \<open>user\<close>.\<close>

definition sample_endpoint :: "bool \<Rightarrow> User option \<times> store_err option \<Rightarrow> tokenDeps" where
  "sample_endpoint transactional user =
     (sample_tokens AccessTokenFormatOpaque (Inr ''id''))
       \<lparr>td_Transactions := transactional, td_Grants := False, td_UserStore := Some (\<lambda>_. user), td_RefreshTokenGraceTTL := - 1\<rparr>"

definition sample_bytes :: "byte list" where
  "sample_bytes = [116, 24, 223, 180, 151, 153, 224, 37, 79, 250, 96, 125, 216, 173, 187, 186, 22, 212, 37, 77,
     105, 214, 191, 240, 91, 88, 5, 88, 83, 132, 141, 121]"

lemma sample_bytes_encoded: "base64_RawURL sample_bytes = sample_child_id"
  unfolding sample_bytes_def Digest_Vectors.sample_verifier_def by code_simp

definition sample_times :: refresh_env where
  "sample_times =
     \<lparr>re_findNow = 30, re_preflightNow = 30, re_consumeNow = 40, re_exchangeNow = 40, re_loadNow = 40, re_rotationNow = 40,
      re_mint = sample_env\<lparr>me_accessID := Some sample_bytes, me_refreshID := Some sample_bytes\<rparr>,
      re_commitCodesNow = 50, re_commitRefreshNow = 50, re_confirm = sample_env, re_retireNow = 60, re_cascade = sample_env\<rparr>"

lemma sample_times_sel [simp]:
  "re_findNow sample_times = 30" "re_preflightNow sample_times = 30" "re_consumeNow sample_times = 40"
  "re_exchangeNow sample_times = 40" "re_retireNow sample_times = 60"
  "me_refreshID (re_mint sample_times) = Some sample_bytes" "me_accessID (re_mint sample_times) = Some sample_bytes"
  "me_chainID (re_mint sample_times) = Some [2]" "me_teardownNow (re_cascade sample_times) = 15000000000"
  by (simp_all add: sample_times_def sample_env_def second_def)

lemma sample_endpoint_sel [simp]:
  "\<not> td_RefreshTokenRotationDisabled (sample_endpoint tx user)" "td_RefreshTokens (sample_endpoint tx user)"
  "td_OpaqueAccessTokens (sample_endpoint tx user)" "td_GrantRevocations (sample_endpoint tx user)"
  "td_Transactions (sample_endpoint tx user) = tx" "\<not> td_Grants (sample_endpoint tx user)"
  "td_RefreshRetryEncryptionKeys (sample_endpoint tx user) = None" "td_Scopes (sample_endpoint tx user) = None"
  "\<not> td_StrictOfflineAccess (sample_endpoint tx user)" "\<not> td_RequireSenderConstrainedTokens (sample_endpoint tx user)"
  "td_RefreshTokenGraceTTL (sample_endpoint tx user) = - 1" "td_UserStore (sample_endpoint tx user) = Some (\<lambda>_. user)"
  "accessTokenFormat (sample_endpoint tx user) r = AccessTokenFormatOpaque"
  "(sample_endpoint tx user)\<lparr>td_Transactions := b\<rparr> = sample_endpoint b user"
  by (simp_all add: sample_endpoint_def sample_tokens_def accessTokenFormat_def)

abbreviation no_proof :: dpopOutcome where
  "no_proof \<equiv> \<lparr>do_JKT = [], do_JTI = [], do_Presented = False\<rparr>"

abbreviation sample_token_request :: refreshInputs where
  "sample_token_request \<equiv> \<lparr>rin_Token = ''abc'', rin_RequestedScope = []\<rparr>"

abbreviation sample_live_row :: RefreshToken where
  "sample_live_row \<equiv> sample_refresh (hashKey ''abc'') None"

abbreviation sample_exchanged :: Exchanged where
  "sample_exchanged \<equiv> exchangedFrom ((sample_refresh ''abc'' None)\<lparr>rt_ConsumedAt := Some 40\<rparr>) [''openid'', ''offline_access'']"

lemma sample_gates: "exchanged_gates (sample_endpoint tx user) sample_app no_proof vb sample_exchanged = None"
  by (simp add: exchanged_gates_def checkTokenScopeAllowlist_def Registry_AllowsAll_def requireRegisteredScopes_def
      enforceStrictOfflineAccess_def enforceDPoPRefreshBinding_def requireMTLSMatch_def enforceSenderConstraint_def
      exchangedFrom_def sample_refresh_def sample_app_def Subset_def slices_Contains_def Registry_Allows_def)

lemma sample_revalidated:
  "revalidateRefreshAuthorizationDetails h (sample_endpoint tx user) sample_exchanged rq ad s = None"
  by (simp add: revalidateRefreshAuthorizationDetails_def)

lemma sample_subject:
  "requireLiveRefreshSubject h (sample_endpoint tx user) cid sample_exchanged c s =
     (case lookupLiveSubject (sample_endpoint tx user) ''alice'' of
        (u, SubjectLive) \<Rightarrow> (Inr u, c)
      | (u, err) \<Rightarrow> (Inl (writeSubjectLookupError err),
          if err = SubjectDeprovisioned
          then replayCascade_armDeprovisioned
            \<lparr>dr_ClientID = cid, dr_Subject = ''alice'', dr_GrantType = grantTypeRefreshToken, dr_GrantID = ''g1''\<rparr> c
          else c))"
  by (simp add: requireLiveRefreshSubject_def grantIsOwnConsent_def exchangedFrom_def sample_refresh_def
      RefreshOriginAuthCode_def RefreshOriginCustomGrant_def split: prod.split subject_lookup.split)

context token_stores
begin

lemma sample_exchange_live:
  assumes "inv s" and "cv_refreshes (view s) (hashKey ''abc'') = Some sample_live_row"
  obtains s' where "exchangeRefresh h (sample_endpoint tx user) sample_times (cl_ID sample_app) sample_token_request c s =
      (Inr sample_exchanged, c, s')"
    and "inv s'" and "view s' = (view s)\<lparr>cv_refreshes := (cv_refreshes (view s))(hashKey ''abc'' \<mapsto>
      sample_live_row\<lparr>rt_ConsumedAt := Some 40\<rparr>)\<rparr>"
proof -
  have bind: "check_bindings (re_exchangeNow sample_times) sample_live_row
       \<lparr>xi_Token = rin_Token sample_token_request, xi_ClientID = cl_ID sample_app, xi_RequestedScope = rin_RequestedScope sample_token_request\<rparr> =
     Inr [''openid'', ''offline_access'']"
    by (simp add: check_bindings_Inr sample_app_def) (simp add: sample_refresh_def)
  have "sample_live_row\<lparr>rt_ConsumedAt := Some 40, rt_ID := ''abc''\<rparr> = (sample_refresh ''abc'' None)\<lparr>rt_ConsumedAt := Some 40\<rparr>"
    by (simp add: sample_refresh_def)
  with exchange_live [OF assms(1) _ _ _ _ _ _ bind, of "sample_endpoint tx user" c] assms(2) that show thesis
    by (auto simp: isExpired_def IsExpiredStrict_def)
qed

lemma sample_refused:
  assumes "inv s" and "cv_refreshes (view s) (hashKey ''abc'') = Some sample_live_row"
    and "lookupLiveSubject (sample_endpoint tx user) ''alice'' = (u, err)" and "err \<noteq> SubjectLive"
  shows "\<exists>s'. completeRefreshToken h (sample_endpoint tx user) sample_times sample_app sample_token_request no_proof vb rq ad tr zero_replayCascade s =
    (\<lparr>ro_rollback = False, ro_result = (Refuse (writeSubjectLookupError err), None),
      ro_cascade = snd (requireLiveRefreshSubject h (sample_endpoint tx user) ''client'' sample_exchanged zero_replayCascade s)\<rparr>, s')"
proof (rule sample_exchange_live [OF assms(1,2), of tx user zero_replayCascade])
  fix s1
  assume "exchangeRefresh h (sample_endpoint tx user) sample_times (cl_ID sample_app) sample_token_request zero_replayCascade s =
      (Inr sample_exchanged, zero_replayCascade, s1)"
  moreover have "cl_ID sample_app = ''client''" by (simp add: sample_app_def)
  ultimately show ?thesis
    using assms(3,4)
    by (auto simp: completeRefreshToken_def sample_gates sample_revalidated sample_subject split: subject_lookup.split)
qed

lemma sample_mint:
  assumes "inv s" and "cv_opaque (view s) (hashKey sample_child_id) = None"
    and "x = sample_exchanged\<lparr>xd_ChainID := ch\<rparr>"
  obtains s' where "mintRefreshAccessToken h (sample_endpoint tx user) (re_mint sample_times) sample_app x a b ad now s =
    (Inr (sample_child_id, ''alice''), s')"
proof -
  have x: "xd_Subject x = ''alice''" "\<not> xd_SubjectPublic x" "xd_GrantID x \<noteq> []" "\<not> refreshMintPinnedJWT x"
    by (simp_all add: assms(3) exchangedFrom_def sample_refresh_def refreshMintPinnedJWT_def)
  have pub: "projectPublicSubject (sample_endpoint tx user) ''alice'' sample_app = Inr ''alice''"
    by (simp add: projectPublicSubject_def sample_endpoint_def sample_tokens_def)
  have "sample_child_id \<noteq> []" by (simp add: Digest_Vectors.sample_verifier_def)
  then have save: "fst (so_opaqueSave h (Some row) s) = None" if "oa_ID row = sample_child_id" for row
    using opaque_save(1) [OF assms(1)] assms(2) that by simp
  have "\<exists>s'. mintRefreshAccessToken h (sample_endpoint tx user) (re_mint sample_times) sample_app x a b ad now s =
    (Inr (sample_child_id, ''alice''), s')"
    using x pub save
    by (simp add: mintRefreshAccessToken_def mintAccessToken_def mintOpaqueAccessToken_def MintOpaqueAccessToken_def
        random_id_def RandomBase64URL_def sample_bytes_encoded Let_def case_prod_beta)
  then show thesis using that by blast
qed

lemma sample_id_token:
  assumes "ax_Claims a = None"
  shows "\<exists>idt. refresh_id_token (sample_endpoint tx user) (re_mint sample_times) sample_app (sample_exchanged\<lparr>xd_ChainID := ch\<rparr>) u a ''alice'' = Inr idt"
proof -
  have extra: "Deps_idTokenExtra (sample_endpoint tx user) u sc None = []" for sc
    by (cases u) (simp_all add: Deps_idTokenExtra_def idTokenExtraClaims_def idTokenClaimScopes_def sample_endpoint_def sample_tokens_def)
  have "SignIDToken (td_SigningKey (sample_endpoint tx user)) c \<noteq> Inl e" if "it_Subject c \<noteq> []" "it_Extra c = []" for c e
    using that by (simp add: SignIDToken_def validateNoStandardCollisions_def sample_endpoint_def sample_tokens_def)
  moreover have "maybeEncryptIDToken (sample_endpoint tx user) client jws = Inr ''id''" for client jws
    by (simp add: maybeEncryptIDToken_def sample_endpoint_def sample_tokens_def)
  ultimately show ?thesis
    using assms extra
    by (simp add: refresh_id_token_def maybeMintRefreshIDToken_def Deps_idTokenClaims_def split: sum.split)
qed

lemma sample_granted:
  assumes "inv s" and "cv_refreshes (view s) (hashKey ''abc'') = Some sample_live_row"
    and "cv_refreshes (view s) (hashKey sample_child_id) = None" and "cv_opaque (view s) (hashKey sample_child_id) = None"
    and "\<not> spec_grv_IsIssuanceRevoked ''g1'' 10 (cv_revocations (view s))"
  obtains resp iu s' where "completeRefreshToken h (sample_endpoint tx (Some u, None)) sample_times sample_app sample_token_request
      no_proof vb rq ad tr zero_replayCascade s =
    (\<lparr>ro_rollback = False, ro_result = (TokenResponse resp, iu), ro_cascade = zero_replayCascade\<rparr>, s')"
proof -
  let ?d = "sample_endpoint tx (Some u, None)" and ?e = "re_mint sample_times" and ?x = sample_exchanged
  let ?b = "\<lparr>tb_DPoPJKT = do_JKT no_proof, tb_MTLSThumbprint = xd_MTLSCertThumbprint ?x\<rparr>"
  obtain s1 where ex: "exchangeRefresh h ?d sample_times (cl_ID sample_app) sample_token_request zero_replayCascade s =
      (Inr ?x, zero_replayCascade, s1)" and inv1: "inv s1"
    and v1: "view s1 = (view s)\<lparr>cv_refreshes := (cv_refreshes (view s))(hashKey ''abc'' \<mapsto> sample_live_row\<lparr>rt_ConsumedAt := Some 40\<rparr>)\<rparr>"
    by (rule sample_exchange_live [OF assms(1,2)])
  from refreshAuthContext_view [OF inv1] obtain a where a: "refreshAuthContext h ?d ?x s1 = Inr a" by blast
  obtain e2 s2 where r: "retirePriorOpaqueAccessTokens h ?d ?e ?x s1 = (e2, s2)" by fastforce
  note ret = retire_view [OF inv1 r]
  have ref: "refuseIssuanceUnderClosedGrant h ?d ?e (refreshIssuedUnderGrant ?x) d s2 = (None, s2)" for d
    using access_only_opaque [OF ret(3)] assms(5) v1
    by (simp add: refuse_view [OF ret(2)] access_only_def) (simp add: exchangedFrom_def sample_refresh_def)
  let ?y = "?x\<lparr>xd_ChainID := base64_RawURL [2]\<rparr>"
  have chain: "withChainID (me_chainID ?e) ?x = Inr ?y"
    by (simp add: withChainID_def NewChainID_def RandomBase64URL_def) (simp add: exchangedFrom_def sample_refresh_def)
  have "cv_opaque (view s2) (hashKey sample_child_id) = None"
    using ret(4) assms(4) v1 by (simp add: opaque_retired_def)
  from sample_mint [OF ret(2) this, of ?y] obtain s3 where
    mint: "mintRefreshAccessToken h ?d ?e sample_app ?y a ?b ad (me_now ?e) s2 = (Inr (sample_child_id, ''alice''), s3)"
    by blast
  note mv = mintRefresh_access [OF ret(2) mint]
  have "ax_Claims a = None"
    using a by (auto simp: refreshAuthContext_def chainGrant_def FindGrant_def authContextOf_def ResolveAuthorization_def
        DecodeClaimsFromGrant_def exchangedFrom_def sample_refresh_def split: if_splits)
  from sample_id_token [OF this] obtain idt where idt: "refresh_id_token ?d ?e sample_app ?y (Some u) a ''alice'' = Inr idt" by blast
  let ?resp = "refreshed_response ?d ?y ?b ad sample_child_id idt"
  have rows: "cv_refreshes (view s3) = (cv_refreshes (view s))(hashKey ''abc'' \<mapsto> sample_live_row\<lparr>rt_ConsumedAt := Some 40\<rparr>)"
    using mv(2) access_only_opaque [OF ret(3)] v1 by (simp add: access_only_def)
  have "\<exists>s4. rotateRefreshToken h ?d sample_times sample_app (refreshExchangedForRotation ?y a ad) ?b ?resp s3 =
    (Inr (?resp\<lparr>sr_RefreshToken := base64_RawURL sample_bytes\<rparr>), s4)"
  proof (rule rotate_live [OF mv(1), of ?d sample_app sample_times sample_bytes "refreshExchangedForRotation ?y a ad" ?b ?resp])
    show "Deps_refreshIssuanceBlockedReason ?d sample_app = []"
      by (simp add: Deps_refreshIssuanceBlockedReason_def Deps_grantEnabled_def clientRegisteredForRefresh_def sample_app_def
          sample_endpoint_def sample_tokens_def)
    show "validateIssue (rotation_input sample_app (refreshExchangedForRotation ?y a ad) ?b) = None"
      by (simp add: validateIssue_def rotation_input_def refreshExchangedForRotation_def exchangedFrom_def sample_refresh_def sample_app_def)
    show "cv_refreshes (view s3) (hashKey (base64_RawURL sample_bytes)) = None"
      using assms(3) by (simp add: sample_bytes_encoded rows)
    show "\<not> rt_Revoked row" if "cv_refreshes (view s3) (hashKey (xd_ConsumedID (refreshExchangedForRotation ?y a ad))) = Some row" for row
      using that by (auto simp: rows refreshExchangedForRotation_def exchangedFrom_def)
  qed (auto simp: sample_bytes_def refreshExchangedForRotation_def base64_nonempty)
  then obtain s4 where rot: "rotateRefreshToken h ?d sample_times sample_app (refreshExchangedForRotation ?y a ad) ?b ?resp s3 =
    (Inr (?resp\<lparr>sr_RefreshToken := base64_RawURL sample_bytes\<rparr>), s4)" by blast
  have "\<not> xd_InGrace ?x" "requireAuthTimeForIDToken sample_app (xd_Scope ?x) (ax_AuthTime a) = None"
    by (simp_all add: exchangedFrom_def requireAuthTimeForIDToken_def sample_app_def)
  then have "\<exists>resp iu. issueRefreshResponse h ?d sample_times sample_app ?x (Some u) ?b ad s1 = ((TokenResponse resp, iu), s4)"
    using a r ret(1) ref chain mint idt rot
    by (simp add: issueRefreshResponse_def refreshIssuanceChain_def rotateOrKeepRefreshToken_def)
  then show thesis
    using that ex
    by (auto simp: completeRefreshToken_def sample_gates sample_revalidated sample_subject lookupLiveSubject_def)
qed

end

text \<open>A request the user store cannot vouch for, through the transaction.\<close>

lemma sample_transaction:
  assumes "substores_reachable s" and "\<not> st_locked s" and "tokens_of (st_refreshes s) (hashKey ''abc'') = Some sample_live_row"
    and "lookupLiveSubject (sample_endpoint False user) ''alice'' = (u, err)" and "err \<noteq> SubjectLive"
  shows "\<exists>s'. handleRefreshTokenTransaction (sample_endpoint True user) sample_times env2 sample_app sample_token_request no_proof vb rq ad s =
    Some (Refuse (writeSubjectLookupError err), s')"
proof -
  note begun = begin_tx [OF assms(1,2)]
  let ?s = "s\<lparr>st_locked := True\<rparr>" and ?c = "snd (requireLiveRefreshSubject tx_stores (sample_endpoint False user) ''client''
    sample_exchanged zero_replayCascade (s\<lparr>st_locked := True\<rparr>, newTx))"
  obtain s0 t where run: "completeRefreshToken tx_stores (sample_endpoint False user) sample_times sample_app sample_token_request no_proof
      vb rq ad True zero_replayCascade (?s, newTx) =
    (\<lparr>ro_rollback = False, ro_result = (Refuse (writeSubjectLookupError err), None), ro_cascade = ?c\<rparr>, (s0, t))"
    using tx_tokens.sample_refused [OF begun(2) _ assms(4,5), of vb rq ad True] begun(3) assms(3) by auto
  have inv: "tx_inv ?s (?s, t)" "s0 = ?s"
    using tx_tokens.complete_view(1) [OF begun(2) _ _ run] by (auto simp: tx_inv_def)
  obtain e t' s1 where commit: "tx_Commit (re_commitCodesNow sample_times) (re_commitRefreshNow sample_times) t ?s = ((e, t'), s1)"
    by (metis prod.exhaust)
  note fin = commit_tx [OF inv(1) commit]
  show ?thesis
    using commit fin(1) confirm_status(1) [OF fin(3)]
    by (auto simp: handleRefreshTokenTransaction_def runRefreshTokenTransaction_def begun(1) run inv(2) Let_def)
qed


section \<open>The store\<close>

definition sample_refresh_store :: inmem_Store where
  "sample_refresh_store =
     direct_exec (DRefresh (RSave (Some (sample_refresh ''abc'' None))))
       (direct_exec (DOpaque (OSave (Some (sample_opaque\<lparr>oa_ID := ''abc''\<rparr>)))) Store_New)"

lemma Store_New_reachable: "substores_reachable Store_New"
  using cluster_reachable_inv [of "(Store_New, None)"] by (simp add: cluster_reachable_def cluster_inv_def)

lemma sample_store_reachable: "substores_reachable sample_refresh_store"
  unfolding sample_refresh_store_def by (intro direct_reachable Store_New_reachable)

lemma fmempty_lookup_fun: "fmlookup fmempty = (\<lambda>_. None)"
  by (simp add: fun_eq_iff)

lemma sample_store_rows:
  "tokens_of (st_refreshes sample_refresh_store) = [hashKey ''abc'' \<mapsto> sample_live_row]"
  "fmlookup (oas_m (st_opaqueAccessTokens sample_refresh_store)) = [hashKey ''abc'' \<mapsto> sample_opaque\<lparr>oa_ID := hashKey ''abc''\<rparr>]"
  "grv_of (st_grantRevocations sample_refresh_store) = grv_of newGrantRevocationStore"
  "\<not> st_locked sample_refresh_store"
proof -
  show "tokens_of (st_refreshes sample_refresh_store) = [hashKey ''abc'' \<mapsto> sample_live_row]"
    using refreshStore_Save_spec(2) [of "sample_refresh ''abc'' None" newRefreshStore]
    by (simp add: sample_refresh_store_def Store_New_def spec_refresh_save_def parent_revoked_def parent_key_def newRefreshStore_def
        sample_rename Let_def fmempty_lookup_fun)
  show "fmlookup (oas_m (st_opaqueAccessTokens sample_refresh_store)) = [hashKey ''abc'' \<mapsto> sample_opaque\<lparr>oa_ID := hashKey ''abc''\<rparr>]"
    by (simp add: sample_refresh_store_def Store_New_def opaqueAccessTokenStore_Save_def newOpaqueAccessTokenStore_def Let_def fun_eq_iff)
qed (simp_all add: sample_refresh_store_def Store_New_def)

text \<open>The preflight lets the request through.\<close>

lemma sample_preflight:
  "preflightRefreshBeforeConsume direct_stores (sample_endpoint tx user) 30 30 sample_app sample_token_request no_proof vb
     sample_refresh_store = Inr (Some (sample_refresh ''abc'' None))"
  "preflightRefreshAuthorizationDetails direct_stores (sample_endpoint tx user) (Some (sample_refresh ''abc'' None)) [] s = Inr []"
proof -
  have find: "ro_Find (so_refresh direct_stores) 30 ''abc'' sample_refresh_store = (Some (sample_refresh ''abc'' None), None)"
    using direct_tokens.find [OF sample_store_reachable, of 30 "''abc''"]
    by (simp add: sample_store_rows spec_refresh_find_def isExpired_def IsExpiredStrict_def sample_rename)
  show "preflightRefreshBeforeConsume direct_stores (sample_endpoint tx user) 30 30 sample_app sample_token_request no_proof vb
     sample_refresh_store = Inr (Some (sample_refresh ''abc'' None))"
    by (simp add: preflightRefreshBeforeConsume_def find Let_def preflight_gates_def preflightRefreshScope_def
        checkTokenScopeAllowlist_def Registry_AllowsAll_def Registry_Allows_def requireRegisteredScopes_def enforceStrictOfflineAccess_def
        preflightRefreshSenderConstraint_def enforceDPoPRefreshBinding_def requireMTLSMatch_def enforceSenderConstraint_def
        Subset_def slices_Contains_def sample_app_def) (simp add: sample_refresh_def)
  show "preflightRefreshAuthorizationDetails direct_stores (sample_endpoint tx user) (Some (sample_refresh ''abc'' None)) [] s = Inr []"
    by (simp add: preflightRefreshAuthorizationDetails_def chainGrant_def FindGrant_def reduceAuthorizationDetails_def
        chainAuthorizationDetails_def ResolveAuthorization_def) (simp add: sample_refresh_def)
qed

abbreviation sample_handle :: "bool \<Rightarrow> User option \<times> store_err option \<Rightarrow> (successResponse response \<times> inmem_Store) option" where
  "sample_handle transactional user \<equiv>
     handleRefreshToken (sample_endpoint transactional user) sample_times sample_times (Inr (no_proof, sample_app)) ''abc'' []
       (\<lambda>_. None) (Inr []) id sample_refresh_store"

lemma sample_handle_direct:
  obtains resp s' where "sample_handle False (Some sample_user, None) = Some (TokenResponse resp, s')"
proof -
  let ?d = "sample_endpoint False (Some sample_user, None)"
  obtain resp iu s1 where run: "completeRefreshToken direct_stores ?d sample_times sample_app sample_token_request no_proof (\<lambda>_. None)
      [] [] False zero_replayCascade sample_refresh_store =
    (\<lparr>ro_rollback = False, ro_result = (TokenResponse resp, iu), ro_cascade = zero_replayCascade\<rparr>, s1)"
    by (rule direct_tokens.sample_granted [OF sample_store_reachable])
       (simp_all add: sample_store_rows spec_grv_IsIssuanceRevoked_def newGrantRevocationStore_def)
  obtain r where "refresh_granted ?d sample_times sample_app sample_token_request no_proof (\<lambda>_. None) resp
      (direct_view sample_refresh_store) (direct_view s1) r" and inv1: "substores_reachable s1"
    using direct_tokens.complete_view [OF sample_store_reachable _ _ run] by auto
  then have "grv_of (st_grantRevocations s1) = grv_of newGrantRevocationStore"
    by (simp add: refresh_granted_def sample_store_rows)
  then have "so_IsIssuanceRevoked direct_stores g t s1 = (False, None)" for g t
    using direct_tokens.issuance [OF inv1] by (simp add: spec_grv_IsIssuanceRevoked_def newGrantRevocationStore_def)
  then have "rotationOutcome_confirm direct_stores ?d sample_times (TokenResponse resp, iu) s1 = (TokenResponse resp, s1)"
    by (simp add: rotationOutcome_confirm_def refuseIssuanceUnderClosedGrant_def grantClosedToIssuance_def split: option.split)
  with run show thesis
    by (intro that [of resp s1])
       (simp add: handleRefreshToken_def parseRefreshRequest_def scope_Parse_def checkTokenScopeAllowlist_def Registry_AllowsAll_def
          sample_preflight Let_def)
qed


theorem refresh_retires_prior_access_witness:
  "\<exists>resp s'. sample_handle False (Some sample_user, None) = Some (TokenResponse resp, s')
     \<and> fmlookup (oas_m (st_opaqueAccessTokens s')) (hashKey ''abc'') = Some (sample_opaque\<lparr>oa_ID := hashKey ''abc'', oa_Revoked := True\<rparr>)"
proof (rule sample_handle_direct)
  fix resp s'
  assume run: "sample_handle False (Some sample_user, None) = Some (TokenResponse resp, s')"
  have "opaque_of_rotation (sample_endpoint False (Some sample_user, None)) sample_live_row (sample_opaque\<lparr>oa_ID := hashKey ''abc''\<rparr>)"
    by (simp add: opaque_of_rotation_def sample_opaque_def) (simp add: sample_refresh_def)
  with refresh_retires_prior_access [OF _ _ run, of sample_live_row] sample_store_reachable run show ?thesis
    by (auto simp: sample_store_rows)
qed

theorem refresh_server_error_keeps_store_witness:
  "sample_handle True (None, Some (ErrOther ''down'')) = Some (Refuse ServerError, sample_refresh_store)"
proof -
  have look: "lookupLiveSubject (sample_endpoint False (None, Some (ErrOther ''down''))) ''alice'' = (None, SubjectFault)"
    by (simp add: lookupLiveSubject_def)
  from sample_transaction [OF sample_store_reachable _ _ look, of sample_times "\<lambda>_. None" "[]" "[]"] obtain s' where
    "sample_handle True (None, Some (ErrOther ''down'')) = Some (Refuse ServerError, s')"
    by (auto simp: sample_store_rows writeSubjectLookupError_def handleRefreshToken_def parseRefreshRequest_def scope_Parse_def
        checkTokenScopeAllowlist_def Registry_AllowsAll_def sample_preflight Let_def)
  with refresh_server_error_keeps_store [OF _ _ _ this] sample_store_reachable show ?thesis
    by (auto simp: ServerError_def)
qed


definition sample_spent_store :: inmem_Store where
  "sample_spent_store = direct_exec (DRefresh (RConsume 20 ''abc'')) sample_refresh_store"

lemma sample_spent_row:
  "tokens_of (st_refreshes sample_spent_store) = [hashKey ''abc'' \<mapsto> sample_live_row\<lparr>rt_ConsumedAt := Some 20\<rparr>]"
  "substores_reachable sample_spent_store" "\<not> st_locked sample_spent_store"
proof -
  show "substores_reachable sample_spent_store"
    unfolding sample_spent_store_def by (rule direct_reachable [OF sample_store_reachable])
  show "tokens_of (st_refreshes sample_spent_store) = [hashKey ''abc'' \<mapsto> sample_live_row\<lparr>rt_ConsumedAt := Some 20\<rparr>]"
    using refreshStore_Consume_spec(2) [OF substores_inv(1) [OF sample_store_reachable], of 20 "''abc''"]
    by (simp add: sample_spent_store_def sample_store_rows spec_refresh_consume_def isExpired_def IsExpiredStrict_def)
  show "\<not> st_locked sample_spent_store" by (simp add: sample_spent_store_def sample_store_rows)
qed

theorem refresh_replay_cascade_witness:
  "\<exists>s'. handleRefreshTokenTransaction (sample_endpoint True (None, None)) sample_times sample_times sample_app sample_token_request
      no_proof (\<lambda>_. None) [] [] sample_spent_store =
      Some (Refuse (OAuthError 400 ''invalid_grant'' ''refresh token rejected''), s')
    \<and> tokens_of (st_refreshes s') (hashKey ''abc'') = Some (sample_live_row\<lparr>rt_ConsumedAt := Some 20, rt_Revoked := True\<rparr>)"
proof -
  let ?r = "sample_live_row\<lparr>rt_ConsumedAt := Some 20\<rparr>" and ?d = "sample_endpoint True (None, None)"
  have r: "tokens_of (st_refreshes sample_spent_store) (hashKey (rin_Token sample_token_request)) = Some ?r" "rt_ConsumedAt ?r \<noteq> None"
    "\<not> isExpired (rt_ExpiresAt ?r) (re_consumeNow sample_times)" "\<not> isExpired (rt_ExpiresAt ?r) (re_retireNow sample_times)"
    "\<not> grace_open ?d (re_exchangeNow sample_times) ?r"
    by (simp_all add: sample_spent_row isExpired_def IsExpiredStrict_def grace_open_def)
  have d: "\<not> td_RefreshTokenRotationDisabled ?d" "td_RefreshTokens ?d" "td_OpaqueAccessTokens ?d" "rin_Token sample_token_request \<noteq> []"
    by simp_all
  have own: "\<not> JoinsForeignGrant ?r" "rt_GrantID ?r = ''g1''"
    by (simp_all add: JoinsForeignGrant_def) (simp add: sample_refresh_def RefreshOriginAuthCode_def RefreshOriginCustomGrant_def)
  have "markRevoked 60 ?r = ?r\<lparr>rt_Revoked := True\<rparr>" by (simp add: markRevoked_consumed)
  with refresh_replay_cascade [OF sample_spent_row(2,3) d r, of sample_times sample_app no_proof "\<lambda>_. None" "[]" "[]"] own
  show ?thesis by (force simp: sample_spent_row descends_def)
qed

end
