(* ===== verification/AuthCodeWitness.thy ===== *)
theory AuthCodeWitness
  imports AuthCodeFlow RefreshWitness
begin

text \<open>
  A redemption that can be followed by hand: one authorization code on record, the confidential client it
  was issued to, and an endpoint that issues opaque access tokens. The theorems about the handler are
  applied to it.
\<close>

definition sample_redeem_store :: inmem_Store where
  "sample_redeem_store = direct_exec (DCodeSave 10 (Some sample_code)) Store_New"

definition sample_redeem_env :: code_env where
  "sample_redeem_env = \<lparr>ce_codesNow = 20, ce_exchangeNow = 20, ce_findNow = 20, ce_mint = sample_env\<rparr>"

lemma sample_redeem_env_sel [simp]:
  "ce_codesNow sample_redeem_env = 20" "ce_exchangeNow sample_redeem_env = 20" "ce_mint sample_redeem_env = sample_env"
  by (simp_all add: sample_redeem_env_def)

abbreviation sample_redeem_deps :: "token_err + string \<Rightarrow> tokenDeps" where
  "sample_redeem_deps idt \<equiv> sample_tokens AccessTokenFormatOpaque idt"

abbreviation sample_redeem ::
  "token_err + string \<Rightarrow> string \<Rightarrow> (inmem_Store \<Rightarrow> inmem_Store) \<Rightarrow> inmem_Store \<Rightarrow> successResponse response \<times> inmem_Store" where
  "sample_redeem idt uri \<equiv>
     handleAuthorizationCode (sample_redeem_deps idt) sample_redeem_env (Inr (no_proof, sample_app)) ''code-1'' uri [] (Inr []) (Inr [])"

abbreviation no_binding :: tokenBinding where
  "no_binding \<equiv> \<lparr>tb_DPoPJKT = [], tb_MTLSThumbprint = []\<rparr>"

lemma sample_redeem_reachable: "substores_reachable sample_redeem_store"
  unfolding sample_redeem_store_def by (intro direct_reachable Store_New_reachable)

lemma sample_redeem_row:
  "codes_of (st_authCodes sample_redeem_store) (hashKey ''code-1'') = Some (sample_code\<lparr>ac_ID := hashKey ''code-1''\<rparr>)"
  by (simp add: sample_redeem_store_def Store_New_def sample_code_save)

lemma sample_redeem_prefix:
  "uri \<noteq> [] \<Longrightarrow> handler_prefix (sample_redeem_deps idt) (Inr (no_proof, sample_app)) ''code-1'' uri (Inr []) (Inr []) sample_app no_binding []"
  by (simp add: handler_prefix_def bindRequest_def enforceSenderConstraint_def sample_tokens_def)

lemma sample_redeem_presented:
  "code_presented (sample_redeem_deps idt) sample_app no_binding uri [] (sample_code\<lparr>ac_ID := i, ac_ConsumedAt := c\<rparr>) \<longleftrightarrow> uri = ''https://rp/cb''"
  "code_presented (sample_redeem_deps idt) sample_app no_binding uri [] (sample_code\<lparr>ac_ID := i\<rparr>) \<longleftrightarrow> uri = ''https://rp/cb''"
  by (auto simp: code_presented_def sample_code_def sample_app_def sample_tokens_def Registry_AllowsAll_def Subset_def
      slices_Contains_def IsPublicClient_def Registry_Allows_def)

lemma sample_redeem_details: "admitAuthorizationDetails deps x [] s = None"
  by (simp add: admitAuthorizationDetails_def)

lemma sample_redeem_flags [simp]:
  "td_Codes (sample_redeem_deps idt)" "td_RefreshTokens (sample_redeem_deps idt)" "td_OpaqueAccessTokens (sample_redeem_deps idt)"
  "td_GrantRevocations (sample_redeem_deps idt)" "0 < me_teardownNow sample_env" "me_refreshID sample_env \<noteq> Some []"
  by (simp_all add: sample_tokens_def sample_env_def second_def)

lemma sample_redeem_live [simp]: "lookupLiveSubject (sample_redeem_deps idt) u = (None, SubjectLive)"
  by (simp add: lookupLiveSubject_def sample_tokens_def)

text \<open>The redemption reaches the issuance, on the store with the code consumed.\<close>

lemma sample_redeem_eq:
  "sample_redeem idt ''https://rp/cb'' race sample_redeem_store =
     issueAuthCodeResponse (sample_redeem_deps idt) sample_env sample_app ''code-1''
       (project (sample_code\<lparr>ac_ConsumedAt := Some 20\<rparr>)) None no_binding [] race
       (consumed_code sample_redeem_env ''code-1'' sample_redeem_store)"
proof -
  let ?inp = "code_input (sample_redeem_deps idt) sample_app no_binding [] ''code-1'' ''https://rp/cb'' [] sample_redeem_store"
  let ?r = "sample_code\<lparr>ac_ID := hashKey ''code-1''\<rparr>"
  have admit: "admit ?r ?inp = None" by (simp add: admit_code_input sample_redeem_presented sample_redeem_details)
  have r: "\<not> isExpired (ac_ExpiresAt ?r) 20" "ac_ConsumedAt ?r = None" "\<not> ac_ExpiresAt ?r < 20"
    "project (?r\<lparr>ac_ConsumedAt := Some 20\<rparr>) = project (sample_code\<lparr>ac_ConsumedAt := Some 20\<rparr>)"
    by (simp_all add: sample_code_def isExpired_def IsExpiredStrict_def project_def)
  have ex: "code_Exchanger_Exchange cluster_codes 20 20 ?inp sample_redeem_store =
      (Inr (project (sample_code\<lparr>ac_ConsumedAt := Some 20\<rparr>)), consumed_code sample_redeem_env ''code-1'' sample_redeem_store)"
    using exchange_row [OF sample_redeem_reachable _ refl, of "''code-1''" sample_redeem_env 20 "sample_redeem_deps idt" sample_app no_binding "[]"
        "''https://rp/cb''" "[]"] admit r by (simp add: sample_redeem_row)
  show ?thesis by (simp add: handle_eq [OF sample_redeem_prefix] ex)
qed

abbreviation sample_spent_code :: inmem_Store where
  "sample_spent_code \<equiv> consumed_code sample_redeem_env ''code-1'' sample_redeem_store"

lemma sample_redeem_parts [simp]:
  "st_opaqueAccessTokens sample_redeem_store = newOpaqueAccessTokenStore" "st_refreshes sample_redeem_store = newRefreshStore"
  "st_grants sample_redeem_store = newGrantStore" "st_grantRevocations sample_redeem_store = newGrantRevocationStore"
  by (simp_all add: sample_redeem_store_def Store_New_def)

abbreviation sample_redeemed :: code_Exchanged where
  "sample_redeemed \<equiv> project (sample_code\<lparr>ac_ConsumedAt := Some 20\<rparr>)"

lemma sample_redeem_context:
  "\<exists>ctx. codeAuthContext (sample_redeem_deps idt) sample_redeemed sample_spent_code = Inr ctx \<and> ax_Claims ctx = None"
  by (simp add: codeAuthContext_def FindGrant_def grantStore_Find_def newGrantStore_def ResolveAuthorization_def authContextOf_def
      DecodeClaimsFromGrant_def) (simp add: sample_code_def)

lemma sample_redeem_mint:
  "\<exists>s1. code_mint (sample_redeem_deps idt) sample_env sample_app sample_redeemed no_binding ad ctx ps ch sample_spent_code =
     (Inr (base64_RawURL [3]), s1)"
  by (simp add: mint_cases mintOpaqueAccessToken_def MintOpaqueAccessToken_def RandomBase64URL_def accessTokenFormat_def sample_tokens_def
      sample_env_def opaqueAccessTokenStore_Save_def newOpaqueAccessTokenStore_def base64_nonempty Let_def)

lemma sample_redeem_id_token:
  assumes "ax_Claims ctx = None"
  shows "code_id_token (sample_redeem_deps idt) sample_env sample_app ''code-1'' sample_redeemed None ctx ''alice'' acc = idt"
proof -
  let ?d = "sample_redeem_deps idt"
  have hash: "HashForAlg t (sk_Alg (td_SigningKey ?d)) \<noteq> Inl e" for t e
    by (simp add: HashForAlg_def suffix_def sample_tokens_def)
  have sign: "SignIDToken (td_SigningKey ?d) c \<noteq> Inl e" if "it_Subject c \<noteq> []" "it_Extra c = []" for c e
    using that by (simp add: SignIDToken_def validateNoStandardCollisions_def sample_tokens_def)
  have mint: "mintAuthCodeIDToken ?d inp \<noteq> Inl e" if "mi_Subject inp \<noteq> []" "mi_Extra inp = []" for inp e
    using that hash sign by (auto simp: mintAuthCodeIDToken_def Deps_idTokenClaims_def split: sum.split)
  have extra: "Deps_idTokenExtra ?d None sc None = []" for sc by (simp add: Deps_idTokenExtra_def idTokenExtraClaims_def)
  have enc: "maybeEncryptIDToken ?d c jws = idt" for c jws by (simp add: maybeEncryptIDToken_def sample_tokens_def)
  have openid: "ContainsOpenID (cx_Scope sample_redeemed)" by (simp add: sample_code_def ScopeOpenID_def)
  show ?thesis using mint openid by (auto simp: code_id_token_def assms extra enc split: sum.split)
qed

lemma sample_redeem_refresh:
  assumes "st_refreshes s1 = newRefreshStore" and "ch \<noteq> []"
  shows "\<exists>refr s2. code_issuance (sample_redeem_deps idt) sample_env sample_app sample_redeemed no_binding ad ctx ch s1 = (Inr refr, s2)"
proof -
  have "fst (refreshStore_Save (Some t) newRefreshStore) = None" if "rt_ParentID t = None" for t
    using that by (simp add: refreshStore_Save_def refreshStore_assertParentAliveLocked_def newRefreshStore_def Let_def)
  moreover have "refreshDropReason (sample_redeem_deps idt) (code_refresh_issuance (sample_redeem_deps idt) sample_app sample_redeemed no_binding ch ctx ad) = []"
    by (simp add: refreshDropReason_def Deps_refreshIssuanceBlockedReason_def Deps_grantEnabled_def clientRegisteredForRefresh_def
        code_refresh_issuance_def builtinRefreshIssuance_def clientPermitsRefresh_def sample_app_def sample_tokens_def sample_code_def
        ScopeOpenID_def)
  ultimately show ?thesis using assms
    by (simp add: issueRefreshToken_def NewIssuer_def Issuer_Issue_def Issuer_Prepare_def validateIssue_def refresh_newID_def
        RandomBase64URL_def sample_env_def sample_app_def sample_code_def)
qed

text \<open>What the issuance answers is what the encryption of the id_token answers.\<close>

lemma sample_redeem_outcome:
  "case idt of
     Inl _ \<Rightarrow> \<exists>s'. sample_redeem idt ''https://rp/cb'' (\<lambda>s. s) sample_redeem_store = (Refuse ServerError, s')
   | Inr _ \<Rightarrow> \<exists>resp s'. sample_redeem idt ''https://rp/cb'' (\<lambda>s. s) sample_redeem_store = (TokenResponse resp, s')"
proof -
  let ?d = "sample_redeem_deps idt"
  obtain ctx where ctx: "codeAuthContext ?d sample_redeemed sample_spent_code = Inr ctx" "ax_Claims ctx = None"
    using sample_redeem_context by blast
  have pre: "requireAuthTimeForIDToken sample_app sc at = None" "reduceAuthorizationDetails [] ad = Inr ad"
    "projectPublicSubject ?d (cx_Subject sample_redeemed) sample_app = Inr ''alice''" "NewChainID (me_chainID sample_env) = Inr (base64_RawURL [2])" for sc at ad
    by (simp_all add: requireAuthTimeForIDToken_def sample_app_def reduceAuthorizationDetails_def projectPublicSubject_def sample_tokens_def
        sample_code_def NewChainID_def RandomBase64URL_def sample_env_def)
  let ?ad = "ax_AuthorizationDetails ctx" and ?ch = "base64_RawURL [2]"
  obtain s1 where mint: "code_mint ?d sample_env sample_app sample_redeemed no_binding ?ad ctx ''alice'' ?ch sample_spent_code =
      (Inr (base64_RawURL [3]), s1)"
    using sample_redeem_mint by blast
  note frame = mint_frame [OF mint]
  obtain refr s2 where refresh: "code_issuance ?d sample_env sample_app sample_redeemed no_binding ?ad ctx ?ch s1 = (Inr refr, s2)"
    using sample_redeem_refresh [OF _ base64_nonempty, of s1 "[2]" idt ctx ?ad] frame(1) by auto
  have "st_grantRevocations s2 = newGrantRevocationStore" using issueRefreshToken_frame(3) [OF refresh] frame(4) by simp
  then have open_: "refuseIssuanceUnderClosedGrant direct_stores ?d sample_env iu d s2 = (None, s2)" for iu d
    by (simp add: refuseIssuanceUnderClosedGrant_def grantClosedToIssuance_def grantRevocationStore_IsIssuanceRevoked_def newGrantRevocationStore_def)
  show ?thesis
    unfolding sample_redeem_eq issueAuthCodeResponse_def
    using ctx(1) pre mint refresh open_ sample_redeem_id_token [OF ctx(2)] by (auto split: sum.split)
qed


theorem authcode_refusal_no_credential_witness:
  "\<exists>s'. sample_redeem (Inl (TokenMsg ''jwe'')) ''https://rp/cb'' (\<lambda>s. s) sample_redeem_store = (Refuse ServerError, s')
     \<and> no_new_credential sample_redeem_store s'"
proof -
  obtain s' where run: "sample_redeem (Inl (TokenMsg ''jwe'')) ''https://rp/cb'' (\<lambda>s. s) sample_redeem_store = (Refuse ServerError, s')"
    using sample_redeem_outcome [of "Inl (TokenMsg ''jwe'')"] by auto
  with authcode_refusal_no_credential [OF sample_redeem_reachable _ run] show ?thesis by simp
qed

theorem authcode_mismatch_keeps_store_witness:
  "\<exists>e. sample_redeem (Inr ''id'') ''https://evil/cb'' (\<lambda>s. s) sample_redeem_store = (Refuse e, sample_redeem_store)"
  by (rule authcode_mismatch_keeps_store [OF sample_redeem_reachable sample_redeem_prefix sample_redeem_row])
     (simp_all add: sample_redeem_presented, simp add: sample_code_def isExpired_def IsExpiredStrict_def)

lemma sample_spent_code_row:
  "codes_of (st_authCodes sample_spent_code) (hashKey ''code-1'') = Some (sample_code\<lparr>ac_ID := hashKey ''code-1'', ac_ConsumedAt := Some 20\<rparr>)"
  by (simp add: consumed_code_exec sample_redeem_store_def Store_New_def sample_code_save(1) sample_code_consume)

theorem authcode_replay_teardown_witness:
  "\<exists>s'. sample_redeem (Inr ''id'') ''https://rp/cb'' (\<lambda>s. s) sample_spent_code =
      (Refuse (OAuthError 400 ''invalid_grant'' ''authorization code rejected''), s') \<and> grant_dead ''g1'' (15 * second) s'"
proof -
  let ?r = "sample_code\<lparr>ac_ID := hashKey ''code-1'', ac_ConsumedAt := Some 20\<rparr>"
  have r: "ac_ConsumedAt ?r \<noteq> None" "\<not> isExpired (ac_ExpiresAt ?r) (ce_codesNow sample_redeem_env)" "ac_GrantID ?r \<noteq> []"
    by (simp_all add: sample_code_def isExpired_def IsExpiredStrict_def)
  have g: "ac_GrantID ?r = ''g1''" "me_teardownNow sample_env = 15 * second" by (simp_all add: sample_code_def sample_env_def)
  from authcode_replay_teardown [where deps = "sample_redeem_deps (Inr ''id'')" and uri = "''https://rp/cb''" and ver = "[]" and race = "\<lambda>s. s",
      OF consumed_code_reachable [OF sample_redeem_reachable] _ sample_redeem_prefix sample_spent_code_row r _ sample_redeem_details] g
  show ?thesis by (simp add: sample_redeem_presented second_def)
qed

theorem authcode_replay_race_witness:
  "\<exists>e. fst (sample_redeem (Inr ''id'') ''https://rp/cb''
     (\<lambda>s1. snd (sample_redeem (Inr ''id'') ''https://rp/cb'' (\<lambda>s. s) s1)) sample_redeem_store) = Refuse e"
  by (rule authcode_replay_race [OF sample_redeem_reachable _ sample_redeem_prefix sample_redeem_row _ _ _ sample_redeem_details])
     (simp_all add: sample_redeem_presented, simp_all add: sample_code_def sample_env_def isExpired_def IsExpiredStrict_def second_def)

end
