(* ===== verification/Spec2Isabelle.thy ===== *)
theory Spec2Isabelle
  imports AuthCodeWitness
begin

text \<open>
  A verification library for the OpenID provider \<^verbatim>\<open>go-oidc-provider\<close>. Paths below are relative to \<^verbatim>\<open>src/\<close>, and
  \<^verbatim>\<open>inmem\<close> is \<^verbatim>\<open>op/storeadapter/inmem\<close>.

  \<^bold>\<open>The program.\<close> The provider answers OAuth 2.0 and OpenID Connect requests. Its authority rests on
  records: authorization codes, refresh tokens in rotation chains, access tokens, grants, revocations, pushed
  requests, device codes and CIBA requests. \<^verbatim>\<open>op/store\<close> defines the records and the interfaces of their
  substores. \<^verbatim>\<open>inmem\<close> implements the interfaces; seven of the substores form a cluster on which a transaction
  spans all of them. \<^verbatim>\<open>internal/grants\<close> exchanges a code, a refresh token or a polled record for an
  authorization, over these interfaces only. \<^verbatim>\<open>internal/revocation\<close> retires chains and whole grants.
  \<^verbatim>\<open>internal/tokens\<close> and \<^verbatim>\<open>internal/userclaims\<close> decide what a token says. \<^verbatim>\<open>internal/tokenendpoint\<close> puts all of
  it together: a handler per grant type gates the request, runs the exchange, mints and persists the credentials,
  and takes them back when a later step fails or when the grant was closed meanwhile.

  \<^bold>\<open>Conventions.\<close> A Go struct is a record, an enumeration a datatype, a map with string keys a finite map, a
  string the list of its bytes, an instant the integer count of nanoseconds since the zero instant. Durations, strike
  counters and hash words keep their width. A method takes the state and returns its result and the new state; an
  error is a value of \<^verbatim>\<open>store_err\<close> or of the error type of the component. A loop is structural recursion, a
  fold, or a recursion with a proof of termination. Where Go ranges over a map and the order can show, the order is an
  argument. Every call on a store reads a clock of its own: nothing assumes that two calls see the same instant.
  Definitions carry the Go names; a method has the type of its receiver as a prefix. Definitions that only name a
  string, a number or an empty value of the source (error descriptions, TTLs, constructors of empty stores)
  stand under their Go names too.

  \<^bold>\<open>Shared vocabulary.\<close>
  \<^item> Prelude: types, operations on Go maps, collections of rewrite rules, lemmas on finite maps, options, lists.
  \<^item> Digest, Digest512, Digest_Vectors: \<^verbatim>\<open>op/storeadapter/patterns/secret_digest.go\<close> with SHA-256,
    SHA-384, SHA-512 and base64url computed, and known-answer vectors. No theorem assumes that the digest is
    injective unless it says so.
  \<^item> Store_Common: errors of \<^verbatim>\<open>op/store/errors.go\<close>, expiry, batches, sweeping and counters of
    \<^verbatim>\<open>op/storeadapter/patterns\<close> and \<^verbatim>\<open>inmem\<close>. The locale \<^verbatim>\<open>simulation\<close> turns a
    one-call refinement into one for sessions; \<^verbatim>\<open>one_time_store\<close> is the contract of a store whose records
    are spent once.
  \<^item> Indexes: the secondary indexes and the breadth-first walk along a rotation chain, which ends because a round
    takes a key off the queue and adds only keys of the indexes that were not seen before.

  \<^bold>\<open>The substores.\<close> For each one of the cluster: an abstract map, the refinement of it by the direct and the staged
  operations, and a lemma that the commit publishes what the transaction showed. Where a staged operation departs from
  the direct one, the departure is a lemma on a concrete run (\<^verbatim>\<open>access_tx_revokes_other_grant\<close>,
  \<^verbatim>\<open>access_stale_index_revokes_other_grant\<close>, \<^verbatim>\<open>grant_tx_second_delete\<close>,
  \<^verbatim>\<open>par_tx_push_shadowed\<close>).
  \<^item> AuthCodeStore: \<^verbatim>\<open>inmem/authcodestore.go\<close> and its part of \<^verbatim>\<open>inmem/tx.go\<close>. A consumed code is refused
    ever after.
  \<^item> RefreshStore, RefreshTx: \<^verbatim>\<open>inmem/refreshstore.go\<close> and the refresh part of \<^verbatim>\<open>inmem/tx.go\<close>. The three
    indexes are exact in every reachable state, \<^verbatim>\<open>RevokeChain\<close> revokes exactly the descendants, a token is spent
    once, and a revoked chain stays dead whatever direct and transactional steps follow.
  \<^item> TokenRows, AccessTokens, OpaqueTokens: \<^verbatim>\<open>inmem/token_rows.go\<close>, \<^verbatim>\<open>tx_aux.go\<close>,
    \<^verbatim>\<open>access_tokens.go\<close>, \<^verbatim>\<open>opaque_access_tokens.go\<close>. The locale \<^verbatim>\<open>token_rows\<close>
    is interpreted for both registries; the indexed registry answers as the plain map.
  \<^item> GrantRevocation: \<^verbatim>\<open>inmem/grant_revocation.go\<close>. The answers of the verifier are a function of the history of
    revocations.
  \<^item> GrantStore: \<^verbatim>\<open>inmem/grantstore.go\<close> with keyset pages. A page is exact for every map order. A caller
    that follows the cursor sees every client once; its fuel is a number of pages, and more pages than there are
    clients left are enough.
  \<^item> ParStore: \<^verbatim>\<open>inmem/parstore.go\<close>.
  \<^item> TxCluster: \<^verbatim>\<open>BeginTx\<close>, \<^verbatim>\<open>Commit\<close>, \<^verbatim>\<open>Rollback\<close> and the lock of the cluster, with the
    executions of interleaved direct calls and transactions; every invariant of a substore holds in all of them.
  \<^item> StoreHandles: the substores as an endpoint sees them, directly or inside a transaction. The locale
    \<^verbatim>\<open>token_stores\<close> states what a call does to an abstract view; it is interpreted for both.
  \<^item> PollInterval, PolledStore, DeviceCodes, CibaRequests: \<^verbatim>\<open>internal/pollinterval\<close>,
    \<^verbatim>\<open>inmem/devicecodes.go\<close>, \<^verbatim>\<open>inmem/cibarequests.go\<close>. A record moves along the documented
    transitions only (locales \<^verbatim>\<open>polled_store\<close>, \<^verbatim>\<open>redeemable\<close>).

  \<^bold>\<open>Grants and retirement.\<close>
  \<^item> ChainRetire: \<^verbatim>\<open>internal/revocation/chain_root.go\<close>, \<^verbatim>\<open>chain_retire.go\<close>. The walk to the root is bounded by
    \<^verbatim>\<open>chainWalkLimit\<close>, 1024 hops, as in the code, and returns the root of every shorter live chain; a
    longer chain falls back to the grant, and the lemmas say so. The locale \<^verbatim>\<open>refresh_backend\<close> is
    interpreted on the store and on a transaction.
  \<^item> RefreshGrant: \<^verbatim>\<open>internal/grants/refresh/refresh.go\<close>: issue, rotate with the grace window, replay defence.
  \<^item> Pkce, AuthCodeGrant: \<^verbatim>\<open>internal/pkce/pkce.go\<close>, \<^verbatim>\<open>internal/grants/authcode/authcode.go\<close>, over the locale
    \<^verbatim>\<open>code_backend\<close>.
  \<^item> Teardown: \<^verbatim>\<open>internal/revocation/teardown.go\<close>, \<^verbatim>\<open>jwt.go\<close>: what each scope of a
    teardown retires, under every strategy for JWT access tokens, and what it leaves alone.
  \<^item> PollGrant: \<^verbatim>\<open>internal/grants/pollgrant\<close>, \<^verbatim>\<open>devicecode\<close>, \<^verbatim>\<open>ciba\<close>, the scope registry
    and the two polling handlers of the endpoint: soundness, progress, single redemption, lock-out.

  \<^bold>\<open>Tokens.\<close>
  \<^item> ClaimsRequest: \<^verbatim>\<open>internal/authorize/claims_request.go\<close>, \<^verbatim>\<open>claims_grant.go\<close>,
    \<^verbatim>\<open>internal/userclaims\<close>, \<^verbatim>\<open>internal/tokens/authorization.go\<close>: round trip of a stored claims request,
    and a recorded authorization that is never widened.
  \<^item> TokenClaims: \<^verbatim>\<open>internal/tokens/tokens.go\<close> and the claim projection of the endpoint: the type of every
    standard claim, reserved names, released user claims, hash claims.
  \<^item> TokenMint, Issuance: minting, persisting and taking back credentials (\<^verbatim>\<open>grant.go\<close>,
    \<^verbatim>\<open>refreshissue.go\<close>, \<^verbatim>\<open>prepared_credentials.go\<close>, \<^verbatim>\<open>grant_closure.go\<close>,
    \<^verbatim>\<open>pollgrant.go\<close> of \<^verbatim>\<open>internal/tokenendpoint\<close>), and the polling handlers run on them.

  \<^bold>\<open>The handlers of the token endpoint.\<close>
  \<^item> RefreshPreflight, RefreshHandler: the refresh_token handler, whole, from the parsed request to the settle point, on
    the store or in a transaction it commits, rolls back or repeats after a conflict.
  \<^item> RefreshFlow, RefreshSound, RefreshCascade: the request followed through \<^verbatim>\<open>token_stores\<close>. What is
    granted descends from the presented token, a server error keeps the store, a rotation retires the earlier access
    tokens, a replay costs the chain and a subject that is gone the grant.
  \<^item> AuthCodeHandler, AuthCodeFlow: the authorization_code handler, whole, on the store. The credentials are those of
    the code; a refusal leaves nothing usable; a replay costs the grant, also while the first redemption is issuing.
  \<^item> RefreshWitness, AuthCodeWitness: concrete requests through these handlers.

  \<^bold>\<open>What the model takes as given.\<close> The outcome of client authentication, of the DPoP proof and of the certificate
  check, the signer of a key and the encryption for a client, the sealing of a retry response, the user store, the
  validation of authorization_details and the random identifiers are arguments of the definitions. So are the steps
  of other requests where an interleaving matters: the argument \<^verbatim>\<open>race\<close> of the authorization_code handler
  may be any function on the store, and the theorems say which ones they speak about. Audit records, metrics and logs
  have no effect on the stores and are left out, except for the events the refresh exchanger returns. The context
  argument of Go is not modelled.

  \<^bold>\<open>Not modelled.\<close>
  \<^item> The authorization, device-authorization and CIBA endpoints, introspection, revocation, userinfo, registration,
    discovery, grant management and logout: HTTP handlers over the same stores. Of them the claims parameter as a grant stores it is
    modelled.
  \<^item> The client_credentials grant, which canonicalises resource indicators by \<^verbatim>\<open>net/url\<close>; custom grants and
    token exchange, whose handlers the embedder supplies; the JWT-bearer grant, which verifies assertions signed by
    external issuers.
  \<^item> The remaining in-memory substores (clients, users, sessions, interactions, consumed JTIs, registration tokens,
    factors, event streams), which take no part in the transactions and exchanges above.
  \<^item> Authentication factors, JWS, JWE, JAR, JARM, key sets, client assertions, DPoP and mTLS verification: cryptography
    of external packages.
  \<^item> The SQL, DynamoDB, Redis and composite adapters, whose behaviour is that of a database outside the repository.
  \<^item> Network support, shared signals, observability, configuration, commands, examples and tools.
\<close>

end
